(* ===== verification/Prelude.thy ===== *)
theory Prelude
  imports Main
begin

text \<open>
  The vocabulary every component shares: JavaScript strings and numbers as the
  source uses them, results that carry an exception, and the generic list lemmas.

  A JavaScript string is a \<open>string\<close>: one \<open>char\<close> per UTF-16 code unit, for the code
  units up to 255 (Latin-1). String methods take the receiver first, as in
  \<open>s.startsWith(p)\<close>. A number that the source may turn into NaN is a \<open>jsnum\<close>;
  the ones used here are integral (milliseconds, seconds, ports).
\<close>

named_theorems js_string "rewrite rules of the string methods"
named_theorems http_simps "rewrite rules of responses and headers"

section \<open>Exceptions and numbers\<close>

type_synonym exn = string
type_synonym 'a outcome = "exn + 'a"

datatype jsnum = NaN | Num int

text \<open>A comparison with NaN is false, and arithmetic keeps it.\<close>

fun js_lt :: "jsnum \<Rightarrow> jsnum \<Rightarrow> bool" where
  "js_lt (Num a) (Num b) = (a < b)"
| "js_lt _ _ = False"

fun js_add :: "jsnum \<Rightarrow> jsnum \<Rightarrow> jsnum" where
  "js_add (Num a) (Num b) = Num (a + b)"
| "js_add _ _ = NaN"

fun js_mult :: "jsnum \<Rightarrow> jsnum \<Rightarrow> jsnum" where
  "js_mult (Num a) (Num b) = Num (a * b)"
| "js_mult _ _ = NaN"

text \<open>\<open>Math.floor(a / b)\<close> for a positive literal \<open>b\<close>.\<close>

fun js_floor_div :: "jsnum \<Rightarrow> int \<Rightarrow> jsnum" where
  "js_floor_div (Num a) b = Num (a div b)"
| "js_floor_div NaN b = NaN"

text \<open>\<open>Math.round(a / b)\<close> for a positive even literal \<open>b\<close>: halves round up.\<close>

definition round_div :: "int \<Rightarrow> int \<Rightarrow> int" where
  "round_div a b = (2 * a + b) div (2 * b)"

lemma round_div_lower: "0 < b \<Longrightarrow> k * b \<le> a \<Longrightarrow> k \<le> round_div a b"
proof -
  assume b: "0 < b" and k: "k * b \<le> a"
  have "k * (2 * b) \<le> 2 * a + b" using b k by (simp add: algebra_simps)
  then have "k * (2 * b) div (2 * b) \<le> (2 * a + b) div (2 * b)"
    using b by (intro zdiv_mono1) auto
  then show ?thesis using b by (simp add: round_div_def)
qed

lemma round_div_upper: "0 < b \<Longrightarrow> 2 * a < (2 * k - 1) * b \<Longrightarrow> round_div a b < k"
proof -
  assume b: "0 < b" and k: "2 * a < (2 * k - 1) * b"
  have k': "2 * a + b < k * (2 * b)" using k by (simp add: algebra_simps)
  have "\<not> k \<le> (2 * a + b) div (2 * b)"
  proof
    assume "k \<le> (2 * a + b) div (2 * b)"
    then have "k * (2 * b) \<le> (2 * a + b) div (2 * b) * (2 * b)"
      using b by (intro mult_right_mono) auto
    also have "\<dots> \<le> 2 * a + b" by (metis b div_mult_mod_eq le_add_same_cancel1 pos_mod_sign zero_less_mult_iff zero_less_numeral)
    finally show False using k' by simp
  qed
  then show ?thesis by (simp add: round_div_def)
qed

lemma round_div_mono: "0 < b \<Longrightarrow> a \<le> a' \<Longrightarrow> round_div a b \<le> round_div a' b"
  unfolding round_div_def by (intro zdiv_mono1) auto

text \<open>Decimal digits, as \<open>String(n)\<close> and template literals print an integer.\<close>

definition digit_char :: "nat \<Rightarrow> char" where
  "digit_char d = char_of (48 + d)"

fun show_nat :: "nat \<Rightarrow> string" where
  "show_nat n = (if n < 10 then [digit_char n] else show_nat (n div 10) @ [digit_char (n mod 10)])"

declare show_nat.simps [simp del]

definition show_int :: "int \<Rightarrow> string" where
  "show_int i = (if i < 0 then CHR ''-'' # show_nat (nat (- i)) else show_nat (nat i))"

fun show_num :: "jsnum \<Rightarrow> string" where
  "show_num NaN = ''NaN''"
| "show_num (Num i) = show_int i"

section \<open>String methods\<close>

fun starts_with :: "string \<Rightarrow> string \<Rightarrow> bool" where
  "starts_with s [] = True"
| "starts_with [] (p # ps) = False"
| "starts_with (c # s) (p # ps) = (c = p \<and> starts_with s ps)"

lemma starts_with_iff: "starts_with s p \<longleftrightarrow> (\<exists>r. s = p @ r)"
  by (induction s p rule: starts_with.induct) auto

lemma starts_with_append [simp, js_string]: "starts_with (p @ r) p"
  by (simp add: starts_with_iff)

lemma starts_with_appendI: "starts_with s p \<Longrightarrow> starts_with (s @ r) p"
  by (auto simp: starts_with_iff)

lemma starts_with_take: "starts_with s p \<longleftrightarrow> take (length p) s = p"
  by (auto simp: starts_with_iff) (metis append_take_drop_id)

text \<open>Whitespace, as \<open>trim\<close> and \<open>\s\<close> see it, among the first 256 code units.\<close>

definition js_space :: "char \<Rightarrow> bool" where
  "js_space c \<longleftrightarrow> (let n = of_char c :: nat in (9 \<le> n \<and> n \<le> 13) \<or> n = 32 \<or> n = 160)"

definition trim_start :: "string \<Rightarrow> string" where
  "trim_start = dropWhile js_space"

definition trim :: "string \<Rightarrow> string" where
  "trim s = rev (trim_start (rev (trim_start s)))"

lemma dropWhile_none: "\<forall>c \<in> set s. \<not> P c \<Longrightarrow> dropWhile P s = s"
  by (cases s) auto

lemma trim_id [js_string]: "\<forall>c \<in> set s. \<not> js_space c \<Longrightarrow> trim s = s"
  by (simp add: trim_def trim_start_def dropWhile_none)

lemma trim_start_space [js_string]: "js_space c \<Longrightarrow> trim (c # s) = trim s"
  by (simp add: trim_def trim_start_def)

lemma dropWhile_idem': "dropWhile P (dropWhile P s) = dropWhile P s"
  by (induction s) auto

lemma hd_not_space_rev_trim:
  assumes "s = [] \<or> \<not> P (hd s)"
  shows "dropWhile P (rev (dropWhile P (rev s))) = rev (dropWhile P (rev s))"
proof (cases s)
  case (Cons c r)
  with assms have "dropWhile P (rev r @ [c]) = dropWhile P (rev r) @ [c]"
    by (intro dropWhile_append3) simp
  with Cons assms show ?thesis by simp
qed simp

lemma trim_trim [simp, js_string]: "trim (trim s) = trim s"
proof -
  let ?t = "trim_start s"
  have "?t = [] \<or> \<not> js_space (hd ?t)"
    unfolding trim_start_def by (metis hd_dropWhile dropWhile_eq_Nil_conv)
  then have "dropWhile js_space (rev (dropWhile js_space (rev ?t))) = rev (dropWhile js_space (rev ?t))"
    by (rule hd_not_space_rev_trim)
  then show ?thesis by (simp add: trim_def trim_start_def dropWhile_idem')
qed

text \<open>\<open>s.split(c)\<close> for a one-character separator: never the empty list.\<close>

fun split_on :: "char \<Rightarrow> string \<Rightarrow> string list" where
  "split_on c [] = [[]]"
| "split_on c (x # xs) =
     (if x = c then [] # split_on c xs
      else (case split_on c xs of [] \<Rightarrow> [[x]] | w # ws \<Rightarrow> (x # w) # ws))"

lemma split_on_nonempty [simp]: "split_on c s \<noteq> []"
  by (induction s) (auto split: list.splits)

lemma split_on_none [js_string]: "c \<notin> set s \<Longrightarrow> split_on c s = [s]"
  by (induction s) auto

lemma split_on_append [js_string]:
  "c \<notin> set a \<Longrightarrow> split_on c (a @ c # b) = a # split_on c b"
  by (induction a) auto

lemma split_on_no_sep: "w \<in> set (split_on c s) \<Longrightarrow> c \<notin> set w"
  by (induction s arbitrary: w) (auto split: list.splits if_splits)

lemma split_on_subset: "w \<in> set (split_on c s) \<Longrightarrow> set w \<subseteq> set s"
proof (induction s arbitrary: w)
  case (Cons x xs)
  show ?case
  proof (cases "x = c")
    case True
    then show ?thesis using Cons by auto
  next
    case False
    obtain v ws where v: "split_on c xs = v # ws" by (cases "split_on c xs") auto
    then show ?thesis using Cons False by fastforce
  qed
qed simp

text \<open>\<open>xs.join(sep)\<close>.\<close>

fun join_with :: "string \<Rightarrow> string list \<Rightarrow> string" where
  "join_with sep [] = []"
| "join_with sep [x] = x"
| "join_with sep (x # y # ys) = x @ sep @ join_with sep (y # ys)"

text \<open>\<open>s.replace(/\/+$/, "")\<close>, as the configuration strips trailing slashes.\<close>

definition strip_slashes :: "string \<Rightarrow> string" where
  "strip_slashes s = rev (dropWhile (\<lambda>c. c = CHR ''/'') (rev s))"

text \<open>A string value is truthy when it is not empty; \<open>a || b\<close> on strings.\<close>

abbreviation truthy :: "string \<Rightarrow> bool" where
  "truthy s \<equiv> s \<noteq> []"

definition js_or :: "string \<Rightarrow> string \<Rightarrow> string" where
  "js_or a b = (if truthy a then a else b)"

text \<open>\<open>a ?? b\<close>: the first value unless it is null or undefined.\<close>

definition coalesce :: "'a option \<Rightarrow> 'a \<Rightarrow> 'a" where
  "coalesce a b = (case a of None \<Rightarrow> b | Some x \<Rightarrow> x)"

lemma coalesce_simps [simp]: "coalesce None b = b" "coalesce (Some x) b = x"
  by (simp_all add: coalesce_def)

fun or_else :: "'a option \<Rightarrow> 'a option \<Rightarrow> 'a option" where
  "or_else None b = b"
| "or_else (Some a) b = Some a"

text \<open>\<open>s.includes(sub)\<close> and ASCII/Latin-1 \<open>toLowerCase\<close>.\<close>

fun js_includes :: "string \<Rightarrow> string \<Rightarrow> bool" where
  "js_includes [] p = (p = [])"
| "js_includes (c # s) p = (starts_with (c # s) p \<or> js_includes s p)"

lemma js_includes_iff: "js_includes s p \<longleftrightarrow> (\<exists>a b. s = a @ p @ b)"
proof (induction s)
  case Nil
  then show ?case by auto
next
  case (Cons c s)
  have "(\<exists>a b. c # s = a @ p @ b) \<longleftrightarrow> (\<exists>b. c # s = p @ b) \<or> (\<exists>a b. s = a @ p @ b)"
    by (metis append_Cons append_Nil list.inject neq_Nil_conv)
  then show ?case using Cons by (simp add: starts_with_iff)
qed

definition lower_char :: "char \<Rightarrow> char" where
  "lower_char c = (let n = of_char c :: nat in
     if (65 \<le> n \<and> n \<le> 90) \<or> (192 \<le> n \<and> n \<le> 222 \<and> n \<noteq> 215) then char_of (n + 32) else c)"

definition to_lower :: "string \<Rightarrow> string" where
  "to_lower = map lower_char"

section \<open>Lists and maps\<close>

lemma find_Some_set: "List.find P xs = Some x \<Longrightarrow> x \<in> set xs \<and> P x"
  by (induction xs) (auto split: if_splits)

lemma find_None_set: "List.find P xs = None \<longleftrightarrow> (\<forall>x \<in> set xs. \<not> P x)"
  by (induction xs) auto

text \<open>A lookup in an association list, as the code reads query and header fields.\<close>

fun lookup :: "('k \<times> 'v) list \<Rightarrow> 'k \<Rightarrow> 'v option" where
  "lookup [] k = None"
| "lookup ((k', v) # r) k = (if k' = k then Some v else lookup r k)"

lemma lookup_map_of: "lookup xs = map_of xs"
  by (rule ext, rename_tac k, induct_tac xs) auto

text \<open>An object spread \<open>{...a, ...b}\<close>: the second object's keys win.\<close>

definition spread :: "('k \<times> 'v) list \<Rightarrow> ('k \<times> 'v) list \<Rightarrow> ('k \<times> 'v) list" where
  "spread a b = filter (\<lambda>(k, v). lookup b k = None) a @ b"

lemma lookup_append: "lookup (a @ b) k = (case lookup a k of None \<Rightarrow> lookup b k | Some v \<Rightarrow> Some v)"
  by (induction a) auto

lemma lookup_filter_keys:
  "lookup (filter (\<lambda>(k, v). P k) a) k = (if P k then lookup a k else None)"
  by (induction a) auto

lemma lookup_spread [http_simps]:
  "lookup (spread a b) k = (case lookup b k of None \<Rightarrow> lookup a k | Some v \<Rightarrow> Some v)"
  using lookup_filter_keys [of "\<lambda>k. lookup b k = None" a k]
  by (simp add: spread_def lookup_append split: option.splits)

end
