(* ===== verification/JsRegex.thy ===== *)
theory JsRegex
  imports Prelude
begin

text \<open>
  The fragment of JavaScript regular expressions the source uses: a sequence of
  literals, character classes with a repetition count, and alternatives between
  literals. \<open>re_rests\<close> lists the remainders of the input after each way to match, in
  the order a backtracking engine tries them (greedy repetitions try the longest
  first), so its head is the match that \<open>exec\<close> and \<open>match\<close> return. \<open>re_test\<close> is
  \<open>/^...$/.test(s)\<close> and \<open>re_find\<close> is \<open>s.match(/.../)?.[0]\<close>.
\<close>

datatype atom =
    Lit string
  | Rep "char \<Rightarrow> bool" nat "nat option"
  | Alts "string list"

type_synonym regex = "atom list"

text \<open>A greedy repetition of a class, between \<open>lo\<close> and \<open>hi\<close> characters.\<close>

fun run_length :: "(char \<Rightarrow> bool) \<Rightarrow> nat option \<Rightarrow> string \<Rightarrow> nat" where
  "run_length P hi [] = 0"
| "run_length P hi (c # s) =
     (if hi = Some 0 \<or> \<not> P c then 0 else Suc (run_length P (map_option (\<lambda>n. n - 1) hi) s))"

definition rep_rests :: "(char \<Rightarrow> bool) \<Rightarrow> nat \<Rightarrow> nat option \<Rightarrow> string \<Rightarrow> string list" where
  "rep_rests P lo hi s = map (\<lambda>n. drop n s) (rev [lo..<Suc (run_length P hi s)])"

fun atom_rests :: "atom \<Rightarrow> string \<Rightarrow> string list" where
  "atom_rests (Lit p) s = (if starts_with s p then [drop (length p) s] else [])"
| "atom_rests (Rep P lo hi) s = rep_rests P lo hi s"
| "atom_rests (Alts ps) s =
     List.concat (map (\<lambda>p. if starts_with s p then [drop (length p) s] else []) ps)"

fun re_rests :: "regex \<Rightarrow> string \<Rightarrow> string list" where
  "re_rests [] s = [s]"
| "re_rests (a # r) s = List.concat (map (re_rests r) (atom_rests a s))"

definition re_test :: "regex \<Rightarrow> string \<Rightarrow> bool" where
  "re_test r s = ([] \<in> set (re_rests r s))"

fun re_find :: "regex \<Rightarrow> string \<Rightarrow> string option" where
  "re_find r s =
     (case re_rests r s of
        t # _ \<Rightarrow> Some (take (length s - length t) s)
      | [] \<Rightarrow> (case s of [] \<Rightarrow> None | _ # s' \<Rightarrow> re_find r s'))"

declare re_find.simps [simp del]

section \<open>What a match is\<close>

lemma run_length_le: "run_length P hi s \<le> length s"
  by (induction P hi s rule: run_length.induct) auto

lemma run_length_hi: "run_length P (Some n) s \<le> n"
proof (induction s arbitrary: n)
  case (Cons c s)
  show ?case using Cons [of "n - 1"] by (cases n) auto
qed simp

lemma run_length_all: "c \<in> set (take (run_length P hi s) s) \<Longrightarrow> P c"
  by (induction P hi s rule: run_length.induct) (auto split: if_splits)

lemma run_length_ge:
  "n \<le> length s \<Longrightarrow> \<forall>c \<in> set (take n s). P c \<Longrightarrow> (case hi of None \<Rightarrow> True | Some h \<Rightarrow> n \<le> h)
   \<Longrightarrow> n \<le> run_length P hi s"
proof (induction s arbitrary: n hi)
  case (Cons c s)
  show ?case
  proof (cases n)
    case (Suc m)
    have "m \<le> run_length P (map_option (\<lambda>n. n - 1) hi) s"
      using Cons.prems Suc by (intro Cons.IH) (auto split: option.splits)
    then show ?thesis using Cons.prems Suc by (auto split: option.splits)
  qed simp
qed simp

definition rep_ok :: "(char \<Rightarrow> bool) \<Rightarrow> nat \<Rightarrow> nat option \<Rightarrow> string \<Rightarrow> bool" where
  "rep_ok P lo hi w \<longleftrightarrow>
     lo \<le> length w \<and> (case hi of None \<Rightarrow> True | Some h \<Rightarrow> length w \<le> h) \<and> (\<forall>c \<in> set w. P c)"

lemma rep_rests_iff: "t \<in> set (rep_rests P lo hi s) \<longleftrightarrow> (\<exists>w. s = w @ t \<and> rep_ok P lo hi w)"
proof
  assume "t \<in> set (rep_rests P lo hi s)"
  then obtain n where n: "t = drop n s" "lo \<le> n" "n \<le> run_length P hi s"
    by (auto simp: rep_rests_def)
  have "\<forall>c \<in> set (take n s). P c"
    using n(3) run_length_all [of _ P hi s] by (meson set_take_subset_set_take subsetD)
  moreover have "case hi of None \<Rightarrow> True | Some h \<Rightarrow> n \<le> h"
    using n(3) run_length_hi [of P _ s] by (auto split: option.splits intro: order_trans)
  moreover have "n \<le> length s" using n(3) run_length_le le_trans by blast
  ultimately have "s = take n s @ t \<and> rep_ok P lo hi (take n s)"
    using n by (auto simp: rep_ok_def min_def split: option.splits)
  then show "\<exists>w. s = w @ t \<and> rep_ok P lo hi w" by blast
next
  assume "\<exists>w. s = w @ t \<and> rep_ok P lo hi w"
  then obtain w where w: "s = w @ t" "rep_ok P lo hi w" by blast
  then have "length w \<le> run_length P hi s"
    by (intro run_length_ge) (auto simp: rep_ok_def split: option.splits)
  with w show "t \<in> set (rep_rests P lo hi s)"
    unfolding rep_rests_def set_map set_rev
    by (intro image_eqI [of _ _ "length w"]) (auto simp: rep_ok_def)
qed

fun atom_ok :: "atom \<Rightarrow> string \<Rightarrow> bool" where
  "atom_ok (Lit p) w = (w = p)"
| "atom_ok (Rep P lo hi) w = rep_ok P lo hi w"
| "atom_ok (Alts ps) w = (w \<in> set ps)"

lemma atom_rests_iff: "t \<in> set (atom_rests a s) \<longleftrightarrow> (\<exists>w. s = w @ t \<and> atom_ok a w)"
proof (cases a)
  case (Rep P lo hi)
  then show ?thesis by (simp add: rep_rests_iff)
next
  case (Lit p)
  then show ?thesis by (auto simp: starts_with_iff)
next
  case (Alts ps)
  have "t \<in> set (atom_rests (Alts ps) s) \<longleftrightarrow> (\<exists>p \<in> set ps. starts_with s p \<and> t = drop (length p) s)"
    by auto
  also have "\<dots> \<longleftrightarrow> (\<exists>p \<in> set ps. s = p @ t)" by (auto simp: starts_with_iff)
  finally show ?thesis using Alts by auto
qed

text \<open>The words a sequence of atoms matches, as a concatenation.\<close>

fun re_ok :: "regex \<Rightarrow> string \<Rightarrow> bool" where
  "re_ok [] w = (w = [])"
| "re_ok (a # r) w = (\<exists>u v. w = u @ v \<and> atom_ok a u \<and> re_ok r v)"

lemma re_rests_iff: "t \<in> set (re_rests r s) \<longleftrightarrow> (\<exists>w. s = w @ t \<and> re_ok r w)"
proof (induction r arbitrary: s)
  case (Cons a r)
  have "t \<in> set (re_rests (a # r) s) \<longleftrightarrow> (\<exists>m \<in> set (atom_rests a s). t \<in> set (re_rests r m))"
    by auto
  also have "\<dots> \<longleftrightarrow> (\<exists>u m. s = u @ m \<and> atom_ok a u \<and> (\<exists>v. m = v @ t \<and> re_ok r v))"
    unfolding Bex_def atom_rests_iff Cons.IH by blast
  also have "\<dots> \<longleftrightarrow> (\<exists>u v. s = u @ v @ t \<and> atom_ok a u \<and> re_ok r v)" by blast
  also have "\<dots> \<longleftrightarrow> (\<exists>w. s = w @ t \<and> re_ok (a # r) w)" by (simp, metis append.assoc)
  finally show ?case .
qed auto

lemma re_test_iff: "re_test r s \<longleftrightarrow> re_ok r s"
  by (auto simp: re_test_def re_rests_iff)

text \<open>What \<open>match\<close> returns is a substring the expression accepts.\<close>

lemma re_find_sound: "re_find r s = Some w \<Longrightarrow> (\<exists>a b. s = a @ w @ b) \<and> re_ok r w"
proof (induction r s rule: re_find.induct)
  case (1 r s)
  show ?case
  proof (cases "re_rests r s")
    case (Cons t ts)
    then obtain v where "s = v @ t" "re_ok r v" using re_rests_iff [of t r s] by auto
    moreover have "w = take (length s - length t) s"
      using "1.prems" Cons by (simp add: re_find.simps [of r s])
    ultimately show ?thesis by (metis append_Nil append_eq_conv_conj length_append add_diff_cancel_right')
  next
    case Nil
    then obtain c s' where s: "s = c # s'" "re_find r s' = Some w"
      using "1.prems" by (auto simp: re_find.simps [of r s] split: list.splits)
    then show ?thesis using "1.IH" [OF Nil s(1)] by (metis append_Cons)
  qed
qed

lemma re_find_complete: "re_ok r w \<Longrightarrow> re_find r (a @ w @ b) \<noteq> None"
proof (induction a)
  case Nil
  then have "b \<in> set (re_rests r (w @ b))" by (auto simp: re_rests_iff)
  then show ?case by (auto simp: re_find.simps [of r "w @ b"] split: list.splits)
next
  case (Cons c a)
  then have "re_find r (a @ w @ b) \<noteq> None" by blast
  then show ?case by (simp add: re_find.simps [of r "c # a @ w @ b"] split: list.splits)
qed

lemma re_find_none_iff: "re_find r s = None \<longleftrightarrow> (\<forall>a w b. s = a @ w @ b \<longrightarrow> \<not> re_ok r w)"
  using re_find_complete re_find_sound by (metis not_None_eq)

text \<open>The leftmost match: no earlier start matches, then the first way at this start.\<close>

lemma re_find_skip:
  "\<forall>i < length a. re_rests r (drop i a @ s) = [] \<Longrightarrow> re_find r (a @ s) = re_find r s"
proof (induction a)
  case (Cons c a)
  have "re_rests r ((c # a) @ s) = []" using Cons.prems by (metis drop0 length_greater_0_conv list.discI)
  moreover have "\<forall>i < length a. re_rests r (drop i a @ s) = []"
    using Cons.prems by (metis Suc_mono drop_Suc_Cons length_Cons)
  ultimately show ?case using Cons.IH by (simp add: re_find.simps [of r "c # a @ s"])
qed simp

lemma run_length_max:
  "\<forall>c \<in> set w. P c \<Longrightarrow> t = [] \<or> \<not> P (hd t) \<Longrightarrow> run_length P None (w @ t) = length w"
proof (induction w)
  case Nil
  then show ?case by (cases t) auto
qed simp

lemma rep_rests_hd:
  "lo \<le> length w \<Longrightarrow> \<forall>c \<in> set w. P c \<Longrightarrow> t = [] \<or> \<not> P (hd t) \<Longrightarrow>
   \<exists>ts. rep_rests P lo None (w @ t) = t # ts"
  by (simp add: rep_rests_def run_length_max)

section \<open>Character classes\<close>

definition is_digit :: "char \<Rightarrow> bool" where
  "is_digit c \<longleftrightarrow> (let n = of_char c :: nat in 48 \<le> n \<and> n \<le> 57)"

definition is_letter :: "char \<Rightarrow> bool" where
  "is_letter c \<longleftrightarrow> (let n = of_char c :: nat in (65 \<le> n \<and> n \<le> 90) \<or> (97 \<le> n \<and> n \<le> 122))"

text \<open>\<open>\w\<close>, \<open>[0-9a-f]\<close> with the \<open>i\<close> flag, and \<open>[0-9a-fA-F-]\<close>.\<close>

definition is_word :: "char \<Rightarrow> bool" where
  "is_word c \<longleftrightarrow> is_digit c \<or> is_letter c \<or> c = CHR ''_''"

definition is_hex :: "char \<Rightarrow> bool" where
  "is_hex c \<longleftrightarrow> (let n = of_char c :: nat in
     (48 \<le> n \<and> n \<le> 57) \<or> (65 \<le> n \<and> n \<le> 70) \<or> (97 \<le> n \<and> n \<le> 102))"

definition is_hex_dash :: "char \<Rightarrow> bool" where
  "is_hex_dash c \<longleftrightarrow> is_hex c \<or> c = CHR ''-''"

lemma is_hex_word: "is_hex c \<Longrightarrow> is_word c"
  by (auto simp: is_hex_def is_word_def is_digit_def is_letter_def Let_def)

lemma word_not_space: "is_word c \<Longrightarrow> \<not> js_space c"
  by (auto simp: is_word_def is_digit_def is_letter_def js_space_def Let_def)

lemmas class_defs = is_digit_def is_letter_def is_word_def is_hex_def is_hex_dash_def Let_def

end
