(* ===== verification/JsUri.thy ===== *)
theory JsUri
  imports JsRegex
begin

text \<open>
  Percent encodings. \<open>encodeURIComponent\<close> writes the UTF-8 bytes of a string, the
  unreserved ones as they are; Go's \<open>url.QueryUnescape\<close> (which the control plane uses
  on the user-name header) and \<open>decodeURIComponent\<close> read them back; the
  \<open>application/x-www-form-urlencoded\<close> serializer is the one of \<open>URLSearchParams\<close>.
  The locale \<open>codec\<close> is the contract between an encoder and the decoder on the other
  side of the wire; it is interpreted for each pair.
\<close>

section \<open>UTF-8 of code units below 256\<close>

definition utf8_char :: "char \<Rightarrow> string" where
  "utf8_char c = (let n = of_char c :: nat in
     if n < 128 then [c] else [char_of (192 + n div 64), char_of (128 + n mod 64)])"

definition utf8 :: "string \<Rightarrow> string" where
  "utf8 s = List.concat (map utf8_char s)"

lemma utf8_ascii: "\<forall>c \<in> set s. of_char c < (128::nat) \<Longrightarrow> utf8 s = s"
  by (induction s) (auto simp: utf8_def utf8_char_def)

section \<open>Percent escapes of bytes\<close>

definition hex_digit :: "nat \<Rightarrow> char" where
  "hex_digit d = char_of (if d < 10 then 48 + d else 55 + d)"

definition hex_value :: "char \<Rightarrow> nat option" where
  "hex_value c = (let n = of_char c :: nat in
     if 48 \<le> n \<and> n \<le> 57 then Some (n - 48)
     else if 65 \<le> n \<and> n \<le> 70 then Some (n - 55)
     else if 97 \<le> n \<and> n \<le> 102 then Some (n - 87)
     else None)"

definition escape_byte :: "char \<Rightarrow> string" where
  "escape_byte b = (let n = of_char b :: nat in [CHR ''%'', hex_digit (n div 16), hex_digit (n mod 16)])"

lemma of_char_less: "of_char (c :: char) < (256 :: nat)"
  by simp

lemma hex_value_digit [simp]: "d < 16 \<Longrightarrow> hex_value (hex_digit d) = Some d"
  by (auto simp: hex_value_def hex_digit_def Let_def)

text \<open>A decoder: \<open>plain\<close> says which bytes stand for themselves and as what.\<close>

fun unescape :: "(char \<Rightarrow> char option) \<Rightarrow> string \<Rightarrow> string option" where
  "unescape plain [] = Some []"
| "unescape plain (c # s) =
     (if c = CHR ''%'' then
        (case s of
           h # l # r \<Rightarrow>
             (case (hex_value h, hex_value l, unescape plain r) of
                (Some a, Some b, Some t) \<Rightarrow> Some (char_of (16 * a + b) # t)
              | _ \<Rightarrow> None)
         | _ \<Rightarrow> None)
      else (case (plain c, unescape plain s) of (Some d, Some t) \<Rightarrow> Some (d # t) | _ \<Rightarrow> None))"

lemma unescape_escape_byte:
  "unescape plain (escape_byte b @ r) = map_option ((#) b) (unescape plain r)"
proof -
  define n where "n = (of_char b :: nat)"
  have "n < 256" by (simp add: n_def)
  then have n: "n div 16 < 16" "n mod 16 < 16" by auto
  then have "unescape plain (escape_byte b @ r) =
      map_option ((#) (char_of (16 * (n div 16) + n mod 16))) (unescape plain r)"
    by (simp add: escape_byte_def Let_def flip: n_def split: option.splits)
  then show ?thesis by (simp add: n_def)
qed

text \<open>An encoder writes each byte as \<open>keep b\<close> or as an escape.\<close>

definition escape_bytes :: "(char \<Rightarrow> char option) \<Rightarrow> string \<Rightarrow> string" where
  "escape_bytes keep s =
     List.concat (map (\<lambda>b. case keep b of Some c \<Rightarrow> [c] | None \<Rightarrow> escape_byte b) s)"

lemma escape_bytes_append [simp]: "escape_bytes keep (a @ b) = escape_bytes keep a @ escape_bytes keep b"
  by (simp add: escape_bytes_def)

lemma escape_bytes_Nil [simp]: "escape_bytes keep [] = []"
  by (simp add: escape_bytes_def)

lemma unescape_escape:
  assumes "\<And>b c. keep b = Some c \<Longrightarrow> c \<noteq> CHR ''%'' \<and> plain c = Some b"
  shows "unescape plain (escape_bytes keep s) = Some s"
proof (induction s)
  case (Cons b s)
  have *: "escape_bytes keep (b # s) =
      (case keep b of Some c \<Rightarrow> [c] | None \<Rightarrow> escape_byte b) @ escape_bytes keep s"
    by (simp add: escape_bytes_def)
  show ?case
  proof (cases "keep b")
    case None
    then show ?thesis using Cons * by (simp add: unescape_escape_byte)
  next
    case (Some c)
    then show ?thesis using Cons * assms [OF Some] by simp
  qed
qed simp

section \<open>The encoders and decoders\<close>

text \<open>\<open>encodeURIComponent\<close> keeps letters, digits and these marks.\<close>

definition uri_unreserved :: "char \<Rightarrow> bool" where
  "uri_unreserved c \<longleftrightarrow> is_digit c \<or> is_letter c \<or> c \<in> set ''-_.!~*''  \<or> c = CHR 0x27 \<or> c \<in> set ''()''"

definition encode_uri_component :: "string \<Rightarrow> string" where
  "encode_uri_component s = escape_bytes (\<lambda>c. if uri_unreserved c then Some c else None) (utf8 s)"

text \<open>Go's \<open>url.QueryUnescape\<close> turns \<open>+\<close> into a space; it yields bytes.\<close>

definition query_unescape :: "string \<Rightarrow> string option" where
  "query_unescape = unescape (\<lambda>c. Some (if c = CHR ''+'' then CHR '' '' else c))"

text \<open>
  \<open>decodeURIComponent\<close>, up to the UTF-8 bytes of its result; \<open>None\<close> is the URIError of
  a malformed escape. (It also refuses bytes that are not UTF-8, which is left out.)
\<close>

definition decode_uri_component :: "string \<Rightarrow> string option" where
  "decode_uri_component = unescape Some"

text \<open>The \<open>URLSearchParams\<close> serializer: a space becomes \<open>+\<close>.\<close>

definition form_keep :: "char \<Rightarrow> char option" where
  "form_keep c = (if c = CHR '' '' then Some (CHR ''+'')
     else if is_digit c \<or> is_letter c \<or> c \<in> set ''*-._'' then Some c else None)"

definition form_encode :: "string \<Rightarrow> string" where
  "form_encode s = escape_bytes form_keep (utf8 s)"

definition url_search_params :: "(string \<times> string) list \<Rightarrow> string" where
  "url_search_params ps = join_with ''&'' (map (\<lambda>(k, v). form_encode k @ ''='' @ form_encode v) ps)"

section \<open>The contract of a codec\<close>

locale codec =
  fixes enc :: "string \<Rightarrow> string" and dec :: "string \<Rightarrow> string option" and carried :: "string \<Rightarrow> string"
  assumes dec_enc: "dec (enc s) = Some (carried s)"
begin

lemma enc_determines: "enc s = enc t \<Longrightarrow> carried s = carried t"
  using dec_enc by (metis option.inject)

lemma enc_inj: "inj carried \<Longrightarrow> inj enc"
  using enc_determines by (metis injD injI)

lemma enc_never_refused: "dec (enc s) \<noteq> None"
  by (simp add: dec_enc)

end

lemma uri_unreserved_plain:
  "uri_unreserved c \<Longrightarrow> c \<noteq> CHR ''%'' \<and> c \<noteq> CHR ''+''"
  by (auto simp: uri_unreserved_def class_defs)

interpretation uri_go: codec encode_uri_component query_unescape utf8
  by unfold_locales
    (auto simp: encode_uri_component_def query_unescape_def dest: uri_unreserved_plain
      intro!: unescape_escape split: if_splits)

interpretation uri_js: codec encode_uri_component decode_uri_component utf8
  by unfold_locales
    (auto simp: encode_uri_component_def decode_uri_component_def dest: uri_unreserved_plain
      intro!: unescape_escape split: if_splits)

interpretation form_go: codec form_encode query_unescape utf8
  by unfold_locales
    (auto simp: form_encode_def query_unescape_def form_keep_def class_defs
      intro!: unescape_escape split: if_splits)

section \<open>What the encodings emit\<close>

lemma escape_bytes_chars:
  "c \<in> set (escape_bytes keep s) \<Longrightarrow> (\<exists>b. keep b = Some c) \<or> c = CHR ''%'' \<or> is_hex c"
proof -
  assume "c \<in> set (escape_bytes keep s)"
  then obtain b where b: "c \<in> set (case keep b of Some c \<Rightarrow> [c] | None \<Rightarrow> escape_byte b)"
    by (auto simp: escape_bytes_def)
  have "is_hex (hex_digit d)" if "d < 16" for d
    using that by (auto simp: is_hex_def hex_digit_def Let_def)
  then have "c \<in> set (escape_byte b) \<Longrightarrow> c = CHR ''%'' \<or> is_hex c"
    by (auto simp: escape_byte_def Let_def less_mult_imp_div_less)
  with b show ?thesis by (auto split: option.splits)
qed

definition uri_char :: "char \<Rightarrow> bool" where
  "uri_char c \<longleftrightarrow> uri_unreserved c \<or> c = CHR ''%''"

lemma encode_uri_component_chars: "c \<in> set (encode_uri_component s) \<Longrightarrow> uri_char c"
  unfolding encode_uri_component_def
  by (drule escape_bytes_chars)
    (auto simp: uri_char_def uri_unreserved_def class_defs split: if_splits)

lemma escape_bytes_id: "\<forall>c \<in> set s. keep c = Some c \<Longrightarrow> escape_bytes keep s = s"
  by (induction s) (auto simp: escape_bytes_def)

text \<open>A component of unreserved characters is not changed.\<close>

lemma encode_uri_component_id:
  assumes "\<forall>c \<in> set s. uri_unreserved c"
  shows "encode_uri_component s = s"
proof -
  have "\<forall>c \<in> set s. of_char c < (128::nat)"
    using assms by (auto simp: uri_unreserved_def class_defs)
  then show ?thesis
    using assms by (simp add: encode_uri_component_def utf8_ascii escape_bytes_id)
qed

end
