(* ===== verification/Http.thy ===== *)
theory Http
  imports JsUri
begin

text \<open>
  Requests and responses of the web server, and \<open>src/web/src/backend/http.mjs\<close>:
  \<open>send\<close>, \<open>sendJSON\<close>, \<open>redirect\<close> and the bounded \<open>readBody\<close>. A header is a name with
  its values (several for an array such as the two \<open>Set-Cookie\<close> of a login). As in
  Node, \<open>writeHead\<close> throws on a header value that holds a control character other
  than tab, before anything is sent. JSON bodies are kept as values: \<open>JSON.stringify\<close>
  and \<open>JSON.parse\<close> are the standard library's.
\<close>

datatype json =
    JNull
  | JBool bool
  | JNum int
  | JStr string
  | JArr "json list"
  | JObj "(string \<times> json) list"

datatype payload = NoBody | Raw string | Json json

type_synonym header = "string \<times> string list"

record response =
  status :: nat
  headers :: "header list"
  body :: payload

record request =
  req_method :: "string option"
  pathname :: string
  query :: "(string \<times> string) list"
  cookie_header :: "string option"
  origin_header :: "string option"
  chunks :: "string list"

text \<open>\<open>req.method ?? "GET"\<close>, which every module computes.\<close>

definition method_of :: "request \<Rightarrow> string" where
  "method_of r = coalesce (req_method r) ''GET''"

section \<open>Node's writeHead\<close>

definition header_char_ok :: "char \<Rightarrow> bool" where
  "header_char_ok c \<longleftrightarrow> (let n = of_char c :: nat in n = 9 \<or> (32 \<le> n \<and> n \<noteq> 127))"

definition header_ok :: "header \<Rightarrow> bool" where
  "header_ok h \<longleftrightarrow> list_all (list_all header_char_ok) (snd h)"

definition write_head :: "nat \<Rightarrow> header list \<Rightarrow> payload \<Rightarrow> response outcome" where
  "write_head st hs b =
     (if list_all header_ok hs then Inr \<lparr>status = st, headers = hs, body = b\<rparr>
      else Inl ''ERR_INVALID_CHAR'')"

section \<open>http.mjs\<close>

definition security_headers :: "header list" where
  "security_headers =
    [(''Content-Security-Policy'',
      [''default-src 'self'; style-src 'self' 'unsafe-inline'; img-src 'self' data:; frame-ancestors 'none'' @ [CHR 0x27]]),
     (''X-Content-Type-Options'', [''nosniff'']),
     (''Referrer-Policy'', [''no-referrer''])]"

definition send :: "nat \<Rightarrow> payload \<Rightarrow> header list \<Rightarrow> response outcome" where
  "send st b hs = write_head st (spread security_headers hs) b"

definition send_json :: "nat \<Rightarrow> json \<Rightarrow> response outcome" where
  "send_json st j = send st (Json j) [(''Content-Type'', [''application/json''])]"

definition redirect :: "nat \<Rightarrow> string \<Rightarrow> response outcome" where
  "redirect st location = write_head st [(''Location'', [location])] NoBody"

definition error_json :: "string \<Rightarrow> json" where
  "error_json msg = JObj [(''error'', JStr msg)]"

definition max_body_bytes :: nat where
  "max_body_bytes = 64 * 2 ^ 10"

fun read_loop :: "string list \<Rightarrow> nat \<Rightarrow> string list \<Rightarrow> string outcome" where
  "read_loop acc sz [] = Inr (List.concat acc)"
| "read_loop acc sz (chunk # rest) =
     (let sz' = sz + length chunk in
      if sz' > max_body_bytes then Inl ''request body too large''
      else read_loop (acc @ [chunk]) sz' rest)"

definition read_body :: "request \<Rightarrow> string outcome" where
  "read_body r = read_loop [] 0 (chunks r)"

section \<open>What they answer\<close>

lemma write_head_Inr [http_simps]:
  "write_head st hs b = Inr r \<longleftrightarrow>
     list_all header_ok hs \<and> r = \<lparr>status = st, headers = hs, body = b\<rparr>"
  by (auto simp: write_head_def)

lemma security_headers_ok: "list_all header_ok security_headers"
  by (simp add: security_headers_def header_ok_def header_char_ok_def Let_def)

lemma list_all_spread: "list_all P a \<Longrightarrow> list_all P b \<Longrightarrow> list_all P (spread a b)"
  by (auto simp: spread_def list_all_iff)

lemma send_fixed_headers:
  "list_all header_ok hs \<Longrightarrow>
   send st b hs = Inr \<lparr>status = st, headers = spread security_headers hs, body = b\<rparr>"
  by (simp add: send_def write_head_def list_all_spread security_headers_ok)

lemma send_json_Inr [http_simps]:
  "send_json st j =
   Inr \<lparr>status = st,
        headers = spread security_headers [(''Content-Type'', [''application/json''])], body = Json j\<rparr>"
  by (simp add: send_json_def send_fixed_headers header_ok_def header_char_ok_def Let_def)

definition header_values :: "response \<Rightarrow> string \<Rightarrow> string list" where
  "header_values r name = coalesce (lookup (headers r) name) []"

definition location_of :: "response outcome \<Rightarrow> string option" where
  "location_of r = (case r of Inl e \<Rightarrow> None
     | Inr resp \<Rightarrow> (case header_values resp ''Location'' of [l] \<Rightarrow> Some l | _ \<Rightarrow> None))"

lemma location_redirect [http_simps]:
  "location_of (redirect st l) = (if list_all header_char_ok l then Some l else None)"
  by (simp add: redirect_def write_head_def header_ok_def location_of_def header_values_def)

lemma read_loop_eq:
  "sz = length (List.concat acc) \<Longrightarrow> sz \<le> max_body_bytes \<Longrightarrow>
   read_loop acc sz cs =
     (if length (List.concat (acc @ cs)) \<le> max_body_bytes
      then Inr (List.concat (acc @ cs)) else Inl ''request body too large'')"
proof (induction acc sz cs rule: read_loop.induct)
  case (2 acc sz chunk rest)
  show ?case
  proof (cases "sz + length chunk > max_body_bytes")
    case True
    then show ?thesis using "2.prems" by simp
  next
    case False
    then show ?thesis using "2.prems" "2.IH" [OF refl] by (simp add: add.assoc)
  qed
qed simp

lemma read_body_eq:
  "read_body r =
     (if length (List.concat (chunks r)) \<le> 65536 then Inr (List.concat (chunks r))
      else Inl ''request body too large'')"
  using read_loop_eq [of 0 "[]" "chunks r"]
  by (simp add: read_body_def max_body_bytes_def)

text \<open>
  \<open>readBody\<close> does not depend on how the body is cut into chunks: it returns
  exactly the concatenated body when that is at most 64 KiB and refuses it otherwise,
  so a forwarded body never exceeds the bound and is never truncated.
\<close>
theorem read_body_bounded:
  "read_body r =
     (if length (List.concat (chunks r)) \<le> 65536 then Inr (List.concat (chunks r))
      else Inl ''request body too large'')
   \<and> (\<forall>r'. List.concat (chunks r') = List.concat (chunks r) \<longrightarrow> read_body r' = read_body r)"
  by (simp add: read_body_eq)

theorem read_body_bounded_witness:
  "read_body \<lparr>req_method = None, pathname = ''/'', query = [], cookie_header = None, origin_header = None,
      chunks = [''ab'', '''', ''c'']\<rparr> = Inr ''abc''"
  using read_body_bounded [of "\<lparr>req_method = None, pathname = ''/'', query = [], cookie_header = None,
      origin_header = None, chunks = [''ab'', '''', ''c'']\<rparr>"] by simp

end
