(* ===== verification/Cookies.thy ===== *)
theory Cookies
  imports Http
begin

text \<open>
  \<open>readCookie\<close> and \<open>cookie\<close> of \<open>src/web/src/backend/oidc.mjs\<close>, with the browser between
  them: it keeps the name and value of a \<open>Set-Cookie\<close> and sends its cookies back as
  \<open>name=value\<close> joined by \<open>; \<close>. The locale \<open>cookie_jar\<close> is what the session code relies
  on: a cookie it set is the one it reads back.
\<close>

section \<open>The source's functions\<close>

text \<open>The loop over \<open>header.split(";")\<close>; \<open>part.indexOf("=")\<close> is the length of \<open>key\<close>.\<close>

fun read_parts :: "string \<Rightarrow> string list \<Rightarrow> string option" where
  "read_parts name [] = None"
| "read_parts name (part # parts) =
     (let key = takeWhile (\<lambda>c. c \<noteq> CHR ''='') part;
          i = (if CHR ''='' \<in> set part then int (length key) else -1)
      in if 0 < i \<and> trim (take (nat i) part) = name then Some (trim (drop (nat i + 1) part))
         else read_parts name parts)"

definition read_cookie :: "request \<Rightarrow> string \<Rightarrow> string option" where
  "read_cookie req name = read_parts name (split_on CHR '';'' (coalesce (cookie_header req) ''''))"

definition cookie :: "string \<Rightarrow> string \<Rightarrow> string \<Rightarrow> jsnum \<Rightarrow> bool \<Rightarrow> string" where
  "cookie name val path max_age_ms secure =
     name @ ''='' @ val @ ''; Path='' @ path
     @ ''; Max-Age='' @ show_num (js_floor_div max_age_ms 1000)
     @ ''; HttpOnly; SameSite=Lax'' @ (if secure then ''; Secure'' else '''')"

section \<open>The browser's side\<close>

text \<open>The pair at the head of a \<open>Set-Cookie\<close>, and the header a jar of cookies gives.\<close>

definition set_cookie_pair :: "string \<Rightarrow> string \<times> string" where
  "set_cookie_pair sc =
     (let pair = takeWhile (\<lambda>c. c \<noteq> CHR '';'') sc;
          name = takeWhile (\<lambda>c. c \<noteq> CHR ''='') pair
      in (name, drop (length name + 1) pair))"

definition jar_header :: "(string \<times> string) list \<Rightarrow> string" where
  "jar_header jar = join_with ''; '' (map (\<lambda>(n, v). n @ ''='' @ v) jar)"

text \<open>Names and values with no separator and no blank, as tokens have.\<close>

definition cookie_char :: "char \<Rightarrow> bool" where
  "cookie_char c \<longleftrightarrow> is_word c \<or> c = CHR ''-''"

definition cookie_name :: "string \<Rightarrow> bool" where
  "cookie_name s \<longleftrightarrow> s \<noteq> [] \<and> list_all cookie_char s"

definition cookie_value :: "string \<Rightarrow> bool" where
  "cookie_value v \<longleftrightarrow> list_all (\<lambda>c. c \<noteq> CHR '';'' \<and> \<not> js_space c) v"

definition jar_ok :: "(string \<times> string) list \<Rightarrow> bool" where
  "jar_ok jar \<longleftrightarrow> list_all (\<lambda>(n, v). cookie_name n \<and> cookie_value v) jar"

lemma cookie_char_facts:
  assumes "cookie_char c"
  shows "c \<noteq> CHR ''=''" "c \<noteq> CHR '';''" "\<not> js_space c" "header_char_ok c"
  using assms
  by (auto simp: cookie_char_def class_defs js_space_def header_char_ok_def)

lemma cookie_name_value: "list_all cookie_char v \<Longrightarrow> cookie_value v"
  by (auto simp: cookie_value_def list_all_iff dest: cookie_char_facts)

lemma cookie_name_chars:
  assumes "cookie_name n" "c \<in> set n"
  shows "c \<noteq> CHR '';''" "c \<noteq> CHR ''=''"
  using assms unfolding cookie_name_def list_all_iff by (blast dest: cookie_char_facts)+

lemma cookie_value_chars: "cookie_value v \<Longrightarrow> c \<in> set v \<Longrightarrow> c \<noteq> CHR '';''"
  unfolding cookie_value_def list_all_iff by blast

section \<open>Reading back what was set\<close>

lemma takeWhile_stop: "\<forall>c \<in> set a. P c \<Longrightarrow> \<not> P x \<Longrightarrow> takeWhile P (a @ x # b) = a"
  by (simp add: takeWhile_append2)

lemma read_parts_pair:
  assumes n: "cookie_name n" and v: "cookie_value v" and pad: "list_all js_space pad"
  shows "read_parts name ((pad @ n @ ''='' @ v) # parts) =
           (if n = name then Some v else read_parts name parts)"
proof -
  have nc: "\<forall>c \<in> set n. c \<noteq> CHR ''='' \<and> \<not> js_space c"
    using n by (auto simp: cookie_name_def list_all_iff dest: cookie_char_facts)
  have pc: "\<forall>c \<in> set pad. c \<noteq> CHR ''=''"
    using pad by (auto simp: list_all_iff js_space_def Let_def)
  have key: "takeWhile (\<lambda>c. c \<noteq> CHR ''='') (pad @ n @ ''='' @ v) = pad @ n"
    using nc pc takeWhile_stop [of "pad @ n" "\<lambda>c. c \<noteq> CHR ''=''" "CHR ''=''" v] by auto
  have strip: "trim (p @ n) = n" if "list_all js_space p" for p
    using that nc by (induction p) (simp_all add: trim_start_space trim_id)
  have "trim v = v" using v by (intro trim_id) (auto simp: cookie_value_def list_all_iff)
  moreover have "n \<noteq> []" using n by (simp add: cookie_name_def)
  ultimately show ?thesis using key strip [OF pad] by (simp add: Let_def nat_add_distrib)
qed

lemma split_jar:
  assumes "jar_ok jar" "jar \<noteq> []"
  shows "split_on CHR '';'' (jar_header jar) =
    (case jar of (n, v) # r \<Rightarrow> (n @ ''='' @ v) # map (\<lambda>(n, v). '' '' @ n @ ''='' @ v) r)"
  using assms
proof (induction jar rule: induct_list012)
  case (2 x)
  obtain n v where x: "x = (n, v)" by (cases x)
  then have "CHR '';'' \<notin> set (n @ ''='' @ v)" using "2.prems"
    by (auto simp: jar_ok_def dest: cookie_name_chars cookie_value_chars)
  then show ?case using x by (simp add: jar_header_def split_on_none del: set_append)
next
  case (3 x y zs)
  obtain n v where x: "x = (n, v)" by (cases x)
  then have sep: "CHR '';'' \<notin> set (n @ ''='' @ v)" using "3.prems"
    by (auto simp: jar_ok_def dest: cookie_name_chars cookie_value_chars)
  have hdr: "jar_header (x # y # zs) = (n @ ''='' @ v) @ CHR '';'' # '' '' @ jar_header (y # zs)"
    using x by (simp add: jar_header_def)
  have tail: "split_on CHR '';'' (jar_header (y # zs)) =
      (case y # zs of (n, v) # r \<Rightarrow> (n @ ''='' @ v) # map (\<lambda>(n, v). '' '' @ n @ ''='' @ v) r)"
    using "3.IH"(2) "3.prems" by (simp add: jar_ok_def)
  have "split_on CHR '';'' (jar_header (x # y # zs)) =
      (n @ ''='' @ v) # split_on CHR '';'' ('' '' @ jar_header (y # zs))"
    unfolding hdr by (rule split_on_append [OF sep])
  also have "\<dots> = (n @ ''='' @ v) # map (\<lambda>(n, v). '' '' @ n @ ''='' @ v) (y # zs)"
    using tail by (auto split: prod.splits)
  finally show ?case using x by simp
qed simp

lemma read_parts_padded:
  "jar_ok jar \<Longrightarrow> read_parts name (map (\<lambda>(n, v). '' '' @ n @ ''='' @ v) jar) = lookup jar name"
proof (induction jar)
  case (Cons x jar)
  obtain n v where x: "x = (n, v)" by (cases x)
  have "list_all js_space '' ''" by (simp add: js_space_def)
  then have "read_parts name (('' '' @ n @ ''='' @ v) # map (\<lambda>(n, v). '' '' @ n @ ''='' @ v) jar) =
      (if n = name then Some v else read_parts name (map (\<lambda>(n, v). '' '' @ n @ ''='' @ v) jar))"
    using Cons.prems x by (intro read_parts_pair) (auto simp: jar_ok_def)
  then show ?case using Cons x by (simp add: jar_ok_def)
qed simp

lemma read_parts_jar:
  assumes "jar_ok jar"
  shows "read_parts name (split_on CHR '';'' (jar_header jar)) = lookup jar name"
proof (cases jar)
  case Nil
  then show ?thesis by (simp add: jar_header_def)
next
  case (Cons x r)
  obtain n v where x: "x = (n, v)" by (cases x)
  have "read_parts name (split_on CHR '';'' (jar_header jar)) =
      read_parts name (([] @ n @ ''='' @ v) # map (\<lambda>(n, v). '' '' @ n @ ''='' @ v) r)"
    using split_jar [OF assms] Cons x by simp
  also have "\<dots> = (if n = name then Some v else read_parts name (map (\<lambda>(n, v). '' '' @ n @ ''='' @ v) r))"
    using assms Cons x by (intro read_parts_pair) (auto simp: jar_ok_def)
  finally show ?thesis using assms Cons x read_parts_padded [of r name] by (simp add: jar_ok_def)
qed

lemma set_cookie_pair_cookie:
  assumes "cookie_name n" "cookie_value v"
  shows "set_cookie_pair (cookie n v path age secure) = (n, v)"
proof -
  have nv: "\<forall>c \<in> set (n @ ''='' @ v). c \<noteq> CHR '';''"
    using cookie_name_chars [OF assms(1)] cookie_value_chars [OF assms(2)] by auto
  have "cookie n v path age secure = (n @ ''='' @ v) @ CHR '';'' #
      ('' Path='' @ path @ ''; Max-Age='' @ show_num (js_floor_div age 1000)
       @ ''; HttpOnly; SameSite=Lax'' @ (if secure then ''; Secure'' else ''''))"
    by (simp add: cookie_def)
  then have "takeWhile (\<lambda>c. c \<noteq> CHR '';'') (cookie n v path age secure) = n @ ''='' @ v"
    using takeWhile_stop [OF nv] by metis
  moreover have "takeWhile (\<lambda>c. c \<noteq> CHR ''='') (n @ CHR ''='' # v) = n"
    using cookie_name_chars(2) [OF assms(1)] by (intro takeWhile_stop) auto
  ultimately show ?thesis by (simp add: set_cookie_pair_def)
qed

section \<open>The contract the session code relies on\<close>

locale cookie_jar =
  fixes reader :: "string \<Rightarrow> string \<Rightarrow> string option"
    and header :: "(string \<times> string) list \<Rightarrow> string"
    and good :: "(string \<times> string) list \<Rightarrow> bool"
  assumes reads_jar: "good jar \<Longrightarrow> reader (header jar) name = lookup jar name"
begin

lemma reads_first: "good ((n, v) # jar) \<Longrightarrow> reader (header ((n, v) # jar)) n = Some v"
  by (simp add: reads_jar)

lemma absent_unread: "good jar \<Longrightarrow> \<forall>(n, v) \<in> set jar. n \<noteq> name \<Longrightarrow> reader (header jar) name = None"
  by (induction jar) (auto simp: reads_jar lookup_map_of map_of_eq_None_iff)

lemma forged_needs_jar: "good jar \<Longrightarrow> reader (header jar) name = Some v \<Longrightarrow> (name, v) \<in> set jar"
  by (simp add: reads_jar lookup_map_of map_of_SomeD)

end

interpretation jar: cookie_jar
  "\<lambda>h name. read_cookie \<lparr>req_method = m, pathname = p, query = q, cookie_header = Some h,
      origin_header = og, chunks = cs\<rparr> name" jar_header jar_ok for m p q og cs
  by unfold_locales (simp add: read_cookie_def read_parts_jar)

text \<open>
  A cookie survives the browser: a cookie set with \<open>cookie\<close> (a token name, a value
  without separators or blanks) and sent back in the \<open>Cookie\<close> header among any others is
  read by \<open>readCookie\<close> with exactly its value; a name the browser does not hold reads as
  null, and where two cookies share a name the first one sent is read.
\<close>
theorem cookie_round_trip:
  assumes "cookie_header req = Some (jar_header (before @ set_cookie_pair (cookie n v path age secure) # after))"
    and "cookie_name n" "cookie_value v" "jar_ok before" "jar_ok after"
  shows "read_cookie req name = lookup (before @ (n, v) # after) name"
  using assms read_parts_jar [of "before @ (n, v) # after" name]
  by (simp add: read_cookie_def set_cookie_pair_cookie jar_ok_def)

definition example_request :: request where
  "example_request =
    \<lparr>req_method = None, pathname = ''/'', query = [],
     cookie_header = Some ''theme=dark; m2m_session=abc-1_2; x=9'', origin_header = None, chunks = []\<rparr>"

lemma cookie_round_trip_demo: "read_cookie example_request ''m2m_session'' = Some ''abc-1_2''"
  by (simp add: read_cookie_def example_request_def js_space_def trim_def trim_start_def)

theorem cookie_round_trip_witness: "read_cookie example_request ''m2m_session'' = Some ''abc-1_2''"
proof -
  have 1: "cookie_header example_request = Some (jar_header ([(''theme'', ''dark'')] @
      set_cookie_pair (cookie ''m2m_session'' ''abc-1_2'' ''/'' (Num 5000) True) # [(''x'', ''9'')]))"
    by (simp add: example_request_def jar_header_def set_cookie_pair_def cookie_def)
  have 2: "cookie_name ''m2m_session''" "cookie_value ''abc-1_2''" "jar_ok [(''theme'', ''dark'')]" "jar_ok [(''x'', ''9'')]"
    by (simp_all add: cookie_name_def cookie_value_def jar_ok_def cookie_char_def class_defs js_space_def)
  show ?thesis using cookie_round_trip [OF 1 2, of "''m2m_session''"] by simp
qed

end
