(* ===== verification/Redirects.thy ===== *)
theory Redirects
  imports Http
begin

text \<open>
  Where a login sends the browser: \<open>safeReturnTo\<close> of \<open>src/web/src/backend/oidc.mjs\<close>
  and the way a browser resolves the \<open>Location\<close> it gets (the WHATWG URL parser on a
  reference relative to an http or https page): tabs and newlines are dropped wherever
  they are, a backslash counts as a slash, and two leading slashes name another host.
\<close>

definition safe_return_to :: "string option \<Rightarrow> string" where
  "safe_return_to raw =
     (case raw of None \<Rightarrow> ''/admin''
      | Some r \<Rightarrow>
          if \<not> truthy r \<or> \<not> starts_with r ''/'' \<or> starts_with r ''//'' \<or> starts_with r [CHR ''/'', CHR 0x5C]
          then ''/admin'' else r)"

section \<open>The browser\<close>

definition url_blank :: "char \<Rightarrow> bool" where
  "url_blank c \<longleftrightarrow> c = CHR 0x09 \<or> c = CHR 0x0A \<or> c = CHR 0x0D"

definition url_slash :: "char \<Rightarrow> bool" where
  "url_slash c \<longleftrightarrow> c = CHR ''/'' \<or> c = CHR 0x5C"

definition c0_or_space :: "char \<Rightarrow> bool" where
  "c0_or_space c \<longleftrightarrow> (of_char c :: nat) \<le> 32"

definition url_input :: "string \<Rightarrow> string" where
  "url_input l = filter (\<lambda>c. \<not> url_blank c) (dropWhile c0_or_space l)"

definition scheme_char :: "char \<Rightarrow> bool" where
  "scheme_char c \<longleftrightarrow> is_letter c \<or> is_digit c \<or> c \<in> set ''+-.''"

text \<open>The reference names its own host: by two slashes, or by a scheme.\<close>

definition picks_host :: "string \<Rightarrow> bool" where
  "picks_host l =
     (case url_input l of
        a # b # r \<Rightarrow> (url_slash a \<and> url_slash b) \<or>
          (is_letter a \<and> (case dropWhile scheme_char (b # r) of c # _ \<Rightarrow> c = CHR '':'' | [] \<Rightarrow> False))
      | _ \<Rightarrow> False)"

section \<open>What safeReturnTo lets through\<close>

lemma safe_return_to_slash: "\<exists>r. safe_return_to raw = CHR ''/'' # r"
  by (cases raw) (auto simp: safe_return_to_def starts_with_iff)

lemma safe_return_to_shape:
  "safe_return_to raw = CHR ''/'' # c # r \<Longrightarrow> \<not> url_slash c"
  by (cases raw) (auto simp: safe_return_to_def url_slash_def split: if_splits)

lemma url_input_slash:
  "url_input (CHR ''/'' # r) = CHR ''/'' # filter (\<lambda>c. \<not> url_blank c) r"
  by (simp add: url_input_def c0_or_space_def url_blank_def)

lemma picks_host_slash:
  "picks_host (CHR ''/'' # r) \<longleftrightarrow>
     (case filter (\<lambda>c. \<not> url_blank c) r of [] \<Rightarrow> False | b # _ \<Rightarrow> url_slash b)"
  by (simp add: picks_host_def url_input_slash url_slash_def is_letter_def Let_def split: list.splits)

lemma filter_eq_dropWhile_hd:
  "filter (\<lambda>c. \<not> P c) r = b # t \<Longrightarrow> \<exists>t'. dropWhile P r = b # t'"
  by (induction r) (auto split: if_splits)

lemma dropWhile_hd_filter:
  "dropWhile P r = b # t' \<Longrightarrow> \<exists>t. filter (\<lambda>c. \<not> P c) r = b # t"
  by (induction r) (auto split: if_splits)

lemma header_char_no_newline: "header_char_ok c \<Longrightarrow> url_blank c \<Longrightarrow> c = CHR 0x09"
  by (auto simp: header_char_ok_def url_blank_def Let_def)

text \<open>
  C25. Exactly which return addresses leave the site. Among the values \<open>safeReturnTo\<close>
  returns that Node will send as a \<open>Location\<close>, a browser resolves one to a host of the
  caller's choice precisely when it is a slash, then one or more tabs, then a slash or a
  backslash: every other return address stays on the UI's own origin.
\<close>
theorem safe_return_to_leaves_site_iff:
  assumes "list_all header_char_ok (safe_return_to raw)"
  shows "picks_host (safe_return_to raw) \<longleftrightarrow>
    (\<exists>tabs c rest. safe_return_to raw = CHR ''/'' # tabs @ c # rest \<and>
       tabs \<noteq> [] \<and> set tabs = {CHR 0x09} \<and> url_slash c)"
proof -
  obtain r where r: "safe_return_to raw = CHR ''/'' # r" using safe_return_to_slash by blast
  have ok: "\<forall>c \<in> set r. header_char_ok c" using assms r by (simp add: list_all_iff)
  have first: "\<not> url_slash c" if "r = c # r'" for c r'
    using safe_return_to_shape r that by blast
  show ?thesis
  proof
    assume "picks_host (safe_return_to raw)"
    then obtain b t where "filter (\<lambda>c. \<not> url_blank c) r = b # t" "url_slash b"
      by (auto simp: r picks_host_slash split: list.splits)
    then obtain t' where d: "dropWhile url_blank r = b # t'"
      using filter_eq_dropWhile_hd [of url_blank] by blast
    define tabs where "tabs = takeWhile url_blank r"
    have split: "r = tabs @ b # t'" using d tabs_def by (metis takeWhile_dropWhile_id)
    have "tabs \<noteq> []" using first split \<open>url_slash b\<close> by fastforce
    moreover have "\<forall>c \<in> set tabs. c = CHR 0x09"
      using ok split header_char_no_newline unfolding tabs_def
      by (metis UnCI set_append set_takeWhileD)
    ultimately have "set tabs = {CHR 0x09}" by (cases tabs) (simp, fastforce)
    moreover have "safe_return_to raw = CHR ''/'' # tabs @ b # t'" unfolding r split ..
    ultimately show "\<exists>tabs c rest. safe_return_to raw = CHR ''/'' # tabs @ c # rest \<and>
       tabs \<noteq> [] \<and> set tabs = {CHR 0x09} \<and> url_slash c"
      using \<open>tabs \<noteq> []\<close> \<open>url_slash b\<close> by blast
  next
    assume "\<exists>tabs c rest. safe_return_to raw = CHR ''/'' # tabs @ c # rest \<and>
       tabs \<noteq> [] \<and> set tabs = {CHR 0x09} \<and> url_slash c"
    then obtain tabs c rest where s: "r = tabs @ c # rest" "set tabs = {CHR 0x09}" "url_slash c"
      using r by auto
    have "filter (\<lambda>c. \<not> url_blank c) tabs = []" using s(2) by (simp add: url_blank_def)
    moreover have "\<not> url_blank c" using s(3) by (auto simp: url_blank_def url_slash_def)
    ultimately show "picks_host (safe_return_to raw)"
      using s(1,3) by (simp add: r picks_host_slash)
  qed
qed

definition tab_escape :: string where
  "tab_escape = CHR ''/'' # CHR 0x09 # ''/evil.example/''"

theorem safe_return_to_leaves_site_iff_witness:
  "list_all header_char_ok (safe_return_to (Some tab_escape)) \<and> picks_host (safe_return_to (Some tab_escape))"
proof -
  have s: "safe_return_to (Some tab_escape) = CHR ''/'' # CHR 0x09 # ''/evil.example/''"
    by (simp add: safe_return_to_def tab_escape_def)
  have ok: "list_all header_char_ok (safe_return_to (Some tab_escape))"
    by (simp add: s header_char_ok_def)
  have "safe_return_to (Some tab_escape) = CHR ''/'' # [CHR 0x09] @ CHR ''/'' # ''evil.example/'' \<and>
      [CHR 0x09] \<noteq> [] \<and> set [CHR 0x09] = {CHR 0x09} \<and> url_slash CHR ''/''"
    by (simp add: s url_slash_def)
  then show ?thesis using ok safe_return_to_leaves_site_iff [OF ok] by blast
qed

lemma safe_return_to_no_tab:
  assumes "CHR 0x09 \<notin> set (coalesce raw [])" "list_all header_char_ok (safe_return_to raw)"
  shows "\<not> picks_host (safe_return_to raw)"
proof -
  obtain r where r: "safe_return_to raw = CHR ''/'' # r" using safe_return_to_slash by blast
  have "\<forall>c \<in> set r. \<not> url_blank c"
  proof
    fix c assume c: "c \<in> set r"
    have "c \<noteq> CHR 0x09"
      using assms(1) r c by (cases raw) (auto simp: safe_return_to_def split: if_splits)
    then show "\<not> url_blank c"
      using assms(2) r c header_char_no_newline by (auto simp: list_all_iff)
  qed
  then have "filter (\<lambda>c. \<not> url_blank c) r = r" by (simp add: filter_id_conv)
  then show ?thesis using r safe_return_to_shape by (auto simp: picks_host_slash split: list.splits)
qed

end
