(* ===== verification/Oidc.thy ===== *)
theory Oidc
  imports Cookies Redirects
begin

text \<open>
  \<open>createAuth\<close> of \<open>src/web/src/backend/oidc.mjs\<close>: the server-side OIDC code flow with
  PKCE. The closure's \<open>sessions\<close>, \<open>logins\<close> and \<open>metadata\<close> are the record \<open>auth\<close>; each
  inner function is a definition that takes it and returns it updated. What comes from
  outside is an argument: the clock, the random tokens (\<open>token()\<close>), the answers of the
  identity provider (\<open>disc\<close>, \<open>tokres\<close>), SHA-256 in base64url (\<open>s256\<close>) and jose's
  \<open>jwtVerify\<close> (\<open>verify\<close>, which is given the token, the key set's address, the issuer
  and the audience). A callback awaits the provider in the middle, so it is two
  definitions: \<open>callback_begin\<close> up to the first await, \<open>callback_finish\<close> after it.
\<close>

section \<open>Data\<close>

record user =
  sub :: string
  user_name :: string
  email :: "string option"
  username :: "string option"

record login_entry =
  nonce :: string
  verifier :: string
  return_to :: string
  login_expires :: jsnum

record session =
  session_user :: user
  id_token :: string
  session_expires :: jsnum

record provider =
  doc_issuer :: string
  authorization_endpoint :: string
  token_endpoint :: string
  end_session_endpoint :: "string option"
  jwks_uri :: string

record claims =
  claim_sub :: string
  claim_name :: "string option"
  claim_preferred_username :: "string option"
  claim_email :: "string option"
  claim_nonce :: "string option"

record oidc_config =
  issuer :: string
  internal_issuer :: "string option"
  client_id :: string
  client_secret :: string
  public_url :: string
  session_ttl_ms :: jsnum

record auth =
  sessions :: "string \<rightharpoonup> session"
  logins :: "string \<rightharpoonup> login_entry"
  metadata :: "provider option"

definition no_auth :: auth where
  "no_auth = \<lparr>sessions = Map.empty, logins = Map.empty, metadata = None\<rparr>"

text \<open>The provider's answers: a fetch that throws, or a status with a JSON body.\<close>

type_synonym discovery = "(nat \<times> provider outcome) outcome"
type_synonym token_response = "(nat \<times> string option) outcome"

definition http_ok :: "nat \<Rightarrow> bool" where
  "http_ok st \<longleftrightarrow> 200 \<le> st \<and> st \<le> 299"

section \<open>The closure's constants\<close>

definition session_cookie :: string where "session_cookie = ''m2m_session''"
definition login_cookie :: string where "login_cookie = ''m2m_login''"

definition login_timeout_ms :: jsnum where
  "login_timeout_ms = Num (10 * 60000)"

definition issuer_url :: "oidc_config \<Rightarrow> string" where
  "issuer_url cfg = strip_slashes (issuer cfg)"

definition discovery_base :: "oidc_config \<Rightarrow> string" where
  "discovery_base cfg = strip_slashes (coalesce (internal_issuer cfg) (issuer_url cfg))"

definition public_base :: "oidc_config \<Rightarrow> string" where
  "public_base cfg = strip_slashes (public_url cfg)"

definition redirect_uri :: "oidc_config \<Rightarrow> string" where
  "redirect_uri cfg = public_base cfg @ ''/auth/callback''"

definition secure_cookies :: "oidc_config \<Rightarrow> bool" where
  "secure_cookies cfg = starts_with (public_base cfg) ''https://''"

text \<open>\<open>new URL(publicUrl).origin\<close>: scheme and host in lower case, no default port.\<close>

definition drop_suffix :: "string \<Rightarrow> string \<Rightarrow> string" where
  "drop_suffix suf s =
     (if starts_with (rev s) (rev suf) then take (length s - length suf) s else s)"

definition url_origin :: "string \<Rightarrow> string" where
  "url_origin u =
     (let scheme = to_lower (takeWhile (\<lambda>c. c \<noteq> CHR '':'') u);
          rest = drop (length scheme + 3) u;
          authority = takeWhile (\<lambda>c. c \<notin> set ''/?#'') rest;
          host = to_lower (rev (takeWhile (\<lambda>c. c \<noteq> CHR ''@'') (rev authority)));
          default = (if scheme = ''https'' then '':443'' else '':80'')
      in scheme @ ''://'' @ drop_suffix default host)"

definition public_origin :: "oidc_config \<Rightarrow> string" where
  "public_origin cfg = url_origin (public_base cfg)"

text \<open>\<open>url.search = q; url.toString()\<close>: the query is replaced, the fragment stays.\<close>

definition with_search :: "string \<Rightarrow> string \<Rightarrow> string" where
  "with_search u q =
     takeWhile (\<lambda>c. c \<notin> set ''?#'') u @ (if q = [] then [] else ''?'' @ q) @ dropWhile (\<lambda>c. c \<noteq> CHR ''#'') u"

text \<open>\<open>Buffer.from(s).toString("base64")\<close>.\<close>

definition base64_digit :: "nat \<Rightarrow> char" where
  "base64_digit d = char_of (if d < 26 then 65 + d else if d < 52 then 71 + d
     else if d < 62 then d - 4 else if d = 62 then 43 else 47)"

fun base64 :: "string \<Rightarrow> string" where
  "base64 [] = []"
| "base64 [a] = (let x = of_char a :: nat in
     [base64_digit (x div 4), base64_digit (16 * (x mod 4)), CHR ''='', CHR ''=''])"
| "base64 [a, b] = (let x = of_char a :: nat; y = of_char b in
     [base64_digit (x div 4), base64_digit (16 * (x mod 4) + y div 16), base64_digit (4 * (y mod 16)), CHR ''=''])"
| "base64 (a # b # c # r) = (let x = of_char a :: nat; y = of_char b; z = of_char c in
     [base64_digit (x div 4), base64_digit (16 * (x mod 4) + y div 16),
      base64_digit (4 * (y mod 16) + z div 64), base64_digit (z mod 64)] @ base64 r)"

section \<open>The sweep and the provider's metadata\<close>

definition sweep_map :: "('v \<Rightarrow> jsnum) \<Rightarrow> jsnum \<Rightarrow> (string \<rightharpoonup> 'v) \<Rightarrow> (string \<rightharpoonup> 'v)" where
  "sweep_map expiry now m =
     (\<lambda>k. case m k of None \<Rightarrow> None | Some v \<Rightarrow> if js_lt (expiry v) now then None else Some v)"

definition sweep :: "int \<Rightarrow> auth \<Rightarrow> auth" where
  "sweep now a =
     a\<lparr>sessions := sweep_map session_expires (Num now) (sessions a),
       logins := sweep_map login_expires (Num now) (logins a)\<rparr>"

definition get_provider :: "oidc_config \<Rightarrow> discovery \<Rightarrow> auth \<Rightarrow> auth \<times> provider outcome" where
  "get_provider cfg disc a =
     (case metadata a of
        Some p \<Rightarrow> (a, Inr p)
      | None \<Rightarrow>
          (case disc of
             Inl e \<Rightarrow> (a, Inl e)
           | Inr (st, doc) \<Rightarrow>
               if \<not> http_ok st then (a, Inl (''OIDC discovery: HTTP '' @ show_nat st))
               else (case doc of
                   Inl e \<Rightarrow> (a, Inl e)
                 | Inr p \<Rightarrow>
                     if doc_issuer p \<noteq> issuer_url cfg
                     then (a, Inl (''OIDC discovery: issuer is '' @ doc_issuer p @ '', expected ''
                             @ issuer_url cfg @ '' (check KC_HOSTNAME / OIDC_ISSUER)''))
                     else (a\<lparr>metadata := Some p\<rparr>, Inr p))))"

section \<open>Sessions\<close>

definition session_of :: "int \<Rightarrow> request \<Rightarrow> auth \<Rightarrow> auth \<times> session option" where
  "session_of now req a =
     (case read_cookie req session_cookie of
        None \<Rightarrow> (a, None)
      | Some i \<Rightarrow>
          if \<not> truthy i then (a, None)
          else (case sessions a i of
              None \<Rightarrow> (a, None)
            | Some s \<Rightarrow>
                if js_lt (session_expires s) (Num now)
                then (a\<lparr>sessions := (sessions a)(i := None)\<rparr>, None)
                else (a, Some s)))"

section \<open>Login\<close>

definition authorize_params ::
  "oidc_config \<Rightarrow> (string \<Rightarrow> string) \<Rightarrow> string \<Rightarrow> login_entry \<Rightarrow> bool \<Rightarrow> (string \<times> string) list" where
  "authorize_params cfg s256 st e signup =
     [(''response_type'', ''code''),
      (''client_id'', client_id cfg),
      (''redirect_uri'', redirect_uri cfg),
      (''scope'', ''openid profile email''),
      (''state'', st),
      (''nonce'', nonce e),
      (''code_challenge'', s256 (verifier e)),
      (''code_challenge_method'', ''S256'')]
     @ (if signup then [(''prompt'', ''create'')] else [])"

definition login_entry_of :: "int \<Rightarrow> request \<Rightarrow> string \<Rightarrow> string \<Rightarrow> login_entry" where
  "login_entry_of now req ver non =
     \<lparr>nonce = non, verifier = ver,
      return_to = safe_return_to (lookup (query req) ''returnTo''),
      login_expires = js_add (Num now) login_timeout_ms\<rparr>"

definition login ::
  "oidc_config \<Rightarrow> (string \<Rightarrow> string) \<Rightarrow> discovery \<Rightarrow> int \<Rightarrow> string \<Rightarrow> string \<Rightarrow> string
   \<Rightarrow> request \<Rightarrow> auth \<Rightarrow> auth \<times> response outcome" where
  "login cfg s256 disc now st ver non req a =
     (case get_provider cfg disc a of
        (a, Inl e) \<Rightarrow> (a, Inl e)
      | (a, Inr p) \<Rightarrow>
          (let e = login_entry_of now req ver non;
               params = authorize_params cfg s256 st e (lookup (query req) ''signup'' = Some ''1'')
           in (a\<lparr>logins := (logins a)(st \<mapsto> e)\<rparr>,
               write_head 302
                 [(''Location'', [with_search (authorization_endpoint p) (url_search_params params)]),
                  (''Set-Cookie'', [cookie login_cookie st ''/auth'' login_timeout_ms (secure_cookies cfg)]),
                  (''Cache-Control'', [''no-store''])] NoBody)))"

section \<open>Callback\<close>

definition clear_login_cookie :: "oidc_config \<Rightarrow> string" where
  "clear_login_cookie cfg = cookie login_cookie '''' ''/auth'' (Num 0) (secure_cookies cfg)"

definition login_failed :: "oidc_config \<Rightarrow> string \<Rightarrow> response outcome" where
  "login_failed cfg reason =
     write_head 302
       [(''Location'', [''/login?error='' @ encode_uri_component reason]),
        (''Set-Cookie'', [clear_login_cookie cfg])] NoBody"

definition callback_begin ::
  "oidc_config \<Rightarrow> int \<Rightarrow> request \<Rightarrow> auth \<Rightarrow> auth \<times> (response outcome + login_entry)" where
  "callback_begin cfg now req a =
     (let st = coalesce (lookup (query req) ''state'') '''';
          pending = logins a st;
          a = a\<lparr>logins := (logins a)(st := None)\<rparr>
      in (a,
          case lookup (query req) ''error'' of
            Some err \<Rightarrow> Inl (login_failed cfg (coalesce (lookup (query req) ''error_description'') err))
          | None \<Rightarrow>
              (case pending of
                 None \<Rightarrow> Inl (login_failed cfg
                   ''The login expired or was started in another browser. Please try again.'')
               | Some e \<Rightarrow>
                   if js_lt (login_expires e) (Num now) \<or> read_cookie req login_cookie \<noteq> Some st
                   then Inl (login_failed cfg
                     ''The login expired or was started in another browser. Please try again.'')
                   else Inr e)))"

text \<open>The POST to the token endpoint: its address, credentials and form.\<close>

record token_request =
  token_url :: string
  basic_auth :: string
  form :: "(string \<times> string) list"

definition token_request_of :: "oidc_config \<Rightarrow> provider \<Rightarrow> request \<Rightarrow> login_entry \<Rightarrow> token_request" where
  "token_request_of cfg p req e =
     \<lparr>token_url = token_endpoint p,
      basic_auth = ''Basic '' @ base64 (encode_uri_component (client_id cfg) @ '':'' @ encode_uri_component (client_secret cfg)),
      form =
        [(''grant_type'', ''authorization_code''),
         (''code'', coalesce (lookup (query req) ''code'') ''''),
         (''redirect_uri'', redirect_uri cfg),
         (''code_verifier'', verifier e)]\<rparr>"

definition user_of_claims :: "claims \<Rightarrow> user" where
  "user_of_claims c =
     \<lparr>sub = claim_sub c,
      user_name = coalesce (claim_name c) (coalesce (claim_preferred_username c) (coalesce (claim_email c) (claim_sub c))),
      email = claim_email c,
      username = claim_preferred_username c\<rparr>"

definition new_session :: "oidc_config \<Rightarrow> int \<Rightarrow> string \<Rightarrow> claims \<Rightarrow> session" where
  "new_session cfg now tok c =
     \<lparr>session_user = user_of_claims c, id_token = tok,
      session_expires = js_add (Num now) (session_ttl_ms cfg)\<rparr>"

type_synonym jwt_verifier = "string \<Rightarrow> string \<Rightarrow> string \<Rightarrow> string \<Rightarrow> claims outcome"

definition callback_finish ::
  "oidc_config \<Rightarrow> jwt_verifier \<Rightarrow> discovery \<Rightarrow> (token_request \<Rightarrow> token_response) \<Rightarrow> int \<Rightarrow> string
   \<Rightarrow> request \<Rightarrow> login_entry \<Rightarrow> auth \<Rightarrow> auth \<times> response outcome" where
  "callback_finish cfg verify disc tokres now sid req e a =
     (case get_provider cfg disc a of
        (a, Inl err) \<Rightarrow> (a, Inl err)
      | (a, Inr p) \<Rightarrow>
          (case tokres (token_request_of cfg p req e) of
             Inl err \<Rightarrow> (a, Inl err)
           | Inr (st, tok) \<Rightarrow>
               if \<not> http_ok st \<or> \<not> truthy (coalesce tok '''')
               then (a, login_failed cfg ''The identity provider refused the login.'')
               else
                 (case verify (coalesce tok '''') (jwks_uri p) (issuer_url cfg) (client_id cfg) of
                    Inl err \<Rightarrow> (a, login_failed cfg ''The identity provider sent an invalid token.'')
                  | Inr c \<Rightarrow>
                      if claim_nonce c \<noteq> Some (nonce e)
                      then (a, login_failed cfg ''The login response did not match this login.'')
                      else
                        (a\<lparr>sessions := (sessions a)(sid \<mapsto> new_session cfg now (coalesce tok '''') c)\<rparr>,
                         write_head 302
                           [(''Location'', [return_to e]),
                            (''Set-Cookie'',
                              [clear_login_cookie cfg,
                               cookie session_cookie sid ''/'' (session_ttl_ms cfg) (secure_cookies cfg)]),
                            (''Cache-Control'', [''no-store''])] NoBody))))"

section \<open>Logout\<close>

definition end_session_url :: "oidc_config \<Rightarrow> string \<Rightarrow> session \<Rightarrow> string" where
  "end_session_url cfg endpoint s =
     with_search endpoint (url_search_params
       [(''id_token_hint'', id_token s),
        (''post_logout_redirect_uri'', public_base cfg @ ''/''),
        (''client_id'', client_id cfg)])"

definition logout :: "oidc_config \<Rightarrow> discovery \<Rightarrow> request \<Rightarrow> auth \<Rightarrow> auth \<times> response outcome" where
  "logout cfg disc req a =
     (let sid = coalesce (read_cookie req session_cookie) '''';
          s = (if truthy sid then sessions a sid else None);
          a = (if truthy sid then a\<lparr>sessions := (sessions a)(sid := None)\<rparr> else a);
          (a, location) =
            (case s of
               None \<Rightarrow> (a, ''/'')
             | Some s \<Rightarrow>
                 (case get_provider cfg disc a of
                    (a, Inl e) \<Rightarrow> (a, ''/'')
                  | (a, Inr p) \<Rightarrow>
                      (a, case end_session_endpoint p of
                         None \<Rightarrow> ''/'' | Some u \<Rightarrow> if truthy u then end_session_url cfg u s else ''/'')))
      in (a, write_head 303
            [(''Location'', [location]),
             (''Set-Cookie'', [cookie session_cookie '''' ''/'' (Num 0) (secure_cookies cfg)])] NoBody))"

end
