(* ===== verification/OidcFacts.thy ===== *)
theory OidcFacts
  imports Oidc
begin

text \<open>
  The functional behaviour of the login code, branch by branch. \<open>sessions\<close> and \<open>logins\<close>
  are two uses of one interface, a map whose entries expire: the locale
  \<open>expiring_store\<close> states its laws and proves what follows from them once, and is
  interpreted on both fields of \<open>auth\<close>.
\<close>

section \<open>Maps with expiring entries\<close>

locale expiring_store =
  fixes get :: "'s \<Rightarrow> string \<Rightarrow> 'v option"
    and put :: "string \<Rightarrow> 'v \<Rightarrow> 's \<Rightarrow> 's"
    and del :: "string \<Rightarrow> 's \<Rightarrow> 's"
    and clean :: "int \<Rightarrow> 's \<Rightarrow> 's"
    and expiry :: "'v \<Rightarrow> jsnum"
  assumes get_put: "get (put k v s) k' = (if k' = k then Some v else get s k')"
    and get_del: "get (del k s) k' = (if k' = k then None else get s k')"
    and get_clean: "get (clean now s) k =
      (case get s k of None \<Rightarrow> None | Some v \<Rightarrow> if js_lt (expiry v) (Num now) then None else Some v)"
begin

lemma gone_after_del: "get (del k s) k = None"
  by (simp add: get_del)

lemma clean_keeps_live:
  "get s k = Some v \<Longrightarrow> \<not> js_lt (expiry v) (Num now) \<Longrightarrow> get (clean now s) k = Some v"
  by (simp add: get_clean)

lemma clean_removes_expired:
  "get s k = Some v \<Longrightarrow> js_lt (expiry v) (Num now) \<Longrightarrow> get (clean now s) k = None"
  by (simp add: get_clean)

lemma clean_adds_nothing: "get (clean now s) k = Some v \<Longrightarrow> get s k = Some v"
  by (simp add: get_clean split: option.splits if_splits)

lemma clean_absorbs:
  assumes "now \<le> later"
  shows "get (clean later (clean now s)) k = get (clean later s) k"
proof (cases "get s k")
  case (Some v)
  then show ?thesis using assms by (cases "expiry v") (auto simp: get_clean)
qed (simp add: get_clean)

text \<open>An entry whose expiry is NaN is never cleaned.\<close>

lemma clean_never_nan:
  "get s k = Some v \<Longrightarrow> expiry v = NaN \<Longrightarrow> get (foldr clean nows s) k = Some v"
proof (induction nows)
  case (Cons now nows)
  then show ?case by (simp add: get_clean)
qed simp

end

interpretation session_store: expiring_store
  sessions
  "\<lambda>k v a. a\<lparr>sessions := (sessions a)(k \<mapsto> v)\<rparr>"
  "\<lambda>k a. a\<lparr>sessions := (sessions a)(k := None)\<rparr>"
  sweep session_expires
  by unfold_locales (simp_all add: sweep_def sweep_map_def)

interpretation login_store: expiring_store
  logins
  "\<lambda>k v a. a\<lparr>logins := (logins a)(k \<mapsto> v)\<rparr>"
  "\<lambda>k a. a\<lparr>logins := (logins a)(k := None)\<rparr>"
  sweep login_expires
  by unfold_locales (simp_all add: sweep_def sweep_map_def)

section \<open>The provider's metadata\<close>

lemma get_provider_frame:
  "get_provider cfg disc a = (a', r) \<Longrightarrow> sessions a' = sessions a \<and> logins a' = logins a"
  by (auto simp: get_provider_def split: option.splits sum.splits prod.splits if_splits)

lemma get_provider_trusted:
  "get_provider cfg disc a = (a', Inr p) \<Longrightarrow> metadata a' = Some p \<and>
     (metadata a = Some p \<or> doc_issuer p = issuer_url cfg)"
  by (auto simp: get_provider_def split: option.splits sum.splits prod.splits if_splits)

section \<open>Sessions\<close>

lemma session_of_Some:
  "snd (session_of now req a) = Some s \<longleftrightarrow>
     (\<exists>i. read_cookie req session_cookie = Some i \<and> truthy i \<and> sessions a i = Some s \<and>
        \<not> js_lt (session_expires s) (Num now))"
  by (auto simp: session_of_def split: option.splits if_splits)

lemma session_of_frame:
  "logins (fst (session_of now req a)) = logins a \<and> metadata (fst (session_of now req a)) = metadata a"
  by (auto simp: session_of_def split: option.splits)

lemma session_of_sessions:
  "sessions (fst (session_of now req a)) k = Some s \<Longrightarrow> sessions a k = Some s"
  by (auto simp: session_of_def split: option.splits if_splits)

lemma session_of_logged_in: "snd (session_of now req a) = Some s \<Longrightarrow> fst (session_of now req a) = a"
  by (auto simp: session_of_def split: option.splits if_splits)

section \<open>Login\<close>

lemma login_cases:
  obtains
    (failed) e a' where "login cfg s256 disc now st ver non req a = (a', Inl e)"
      "sessions a' = sessions a" "logins a' = logins a"
  | (started) a' p where "get_provider cfg disc a = (a', Inr p)"
      "fst (login cfg s256 disc now st ver non req a) =
         a'\<lparr>logins := (logins a)(st \<mapsto> login_entry_of now req ver non)\<rparr>"
      "sessions a' = sessions a" "logins a' = logins a"
proof (cases "get_provider cfg disc a")
  case (Pair a' r)
  note f = get_provider_frame [OF this]
  show ?thesis
  proof (cases r)
    case (Inl e)
    then show ?thesis using Pair f by (intro failed [of a' e]) (simp_all add: login_def)
  next
    case (Inr p)
    then show ?thesis using Pair f by (intro started [of a' p]) (simp_all add: login_def Let_def)
  qed
qed

section \<open>Logout\<close>

lemma logout_frame:
  "sessions (fst (logout cfg disc req a)) =
     (case read_cookie req session_cookie of
        Some i \<Rightarrow> if truthy i then (sessions a)(i := None) else sessions a
      | None \<Rightarrow> sessions a)"
  "logins (fst (logout cfg disc req a)) = logins a"
  by (auto simp: logout_def Let_def dest: get_provider_frame split: option.splits prod.splits sum.splits)

section \<open>Callback\<close>

lemma callback_begin_accepts_iff:
  "snd (callback_begin cfg now req a) = Inr e \<longleftrightarrow>
     lookup (query req) ''error'' = None \<and>
     logins a (coalesce (lookup (query req) ''state'') '''') = Some e \<and>
     \<not> js_lt (login_expires e) (Num now) \<and>
     read_cookie req login_cookie = Some (coalesce (lookup (query req) ''state'') '''')"
  by (auto simp: callback_begin_def Let_def split: option.splits)

lemma callback_begin_state:
  "fst (callback_begin cfg now req a) =
     a\<lparr>logins := (logins a)(coalesce (lookup (query req) ''state'') '''' := None)\<rparr>"
  by (simp add: callback_begin_def Let_def)

text \<open>Why a callback ended as it did.\<close>

definition session_granted ::
  "oidc_config \<Rightarrow> jwt_verifier \<Rightarrow> discovery \<Rightarrow> (token_request \<Rightarrow> token_response) \<Rightarrow> request
   \<Rightarrow> login_entry \<Rightarrow> auth \<Rightarrow> string \<Rightarrow> claims \<Rightarrow> bool" where
  "session_granted cfg verify disc tokres req e a tok c \<longleftrightarrow>
     (\<exists>p st. snd (get_provider cfg disc a) = Inr p \<and>
        tokres (token_request_of cfg p req e) = Inr (st, Some tok) \<and> http_ok st \<and> truthy tok \<and>
        verify tok (jwks_uri p) (issuer_url cfg) (client_id cfg) = Inr c \<and>
        claim_nonce c = Some (nonce e))"

lemma callback_finish_granted:
  assumes "session_granted cfg verify disc tokres req e a tok c"
  shows "sessions (fst (callback_finish cfg verify disc tokres now sid req e a)) =
     (sessions a)(sid \<mapsto> new_session cfg now tok c)"
proof -
  obtain a' p where p: "get_provider cfg disc a = (a', Inr p)"
    using assms by (cases "get_provider cfg disc a") (auto simp: session_granted_def)
  then have "sessions a' = sessions a" using get_provider_frame by blast
  then show ?thesis using assms p by (auto simp: session_granted_def callback_finish_def)
qed

lemma callback_finish_refused:
  assumes "\<forall>tok c. \<not> session_granted cfg verify disc tokres req e a tok c"
  shows "sessions (fst (callback_finish cfg verify disc tokres now sid req e a)) = sessions a"
proof (cases "get_provider cfg disc a")
  case (Pair a' r)
  then have f: "sessions a' = sessions a" using get_provider_frame by blast
  show ?thesis
  proof (cases r)
    case (Inr p)
    show ?thesis using assms Pair Inr f
      by (auto simp: session_granted_def callback_finish_def coalesce_def split: sum.split option.split)
  qed (use Pair f in \<open>simp add: callback_finish_def\<close>)
qed

lemma callback_finish_logins:
  "logins (fst (callback_finish cfg verify disc tokres now sid req e a)) = logins a"
proof (cases "get_provider cfg disc a")
  case (Pair a' r)
  then have f: "logins a' = logins a" using get_provider_frame by blast
  show ?thesis
  proof (cases r)
    case (Inr p)
    then show ?thesis using Pair f by (auto simp: callback_finish_def split: sum.split)
  qed (use Pair f in \<open>simp add: callback_finish_def\<close>)
qed

section \<open>A deployment to instantiate the properties on\<close>

definition demo_cfg :: oidc_config where
  "demo_cfg =
     \<lparr>issuer = ''https://id.example/realms/m2m/'', internal_issuer = None, client_id = ''mesh2mesh-web'',
      client_secret = ''s3cret'', public_url = ''https://mesh.example'', session_ttl_ms = Num 28800000\<rparr>"

definition demo_provider :: provider where
  "demo_provider =
     \<lparr>doc_issuer = ''https://id.example/realms/m2m'', authorization_endpoint = ''https://id.example/auth'',
      token_endpoint = ''https://id.example/token'', end_session_endpoint = None, jwks_uri = ''https://id.example/certs''\<rparr>"

definition demo_disc :: discovery where
  "demo_disc = Inr (200, Inr demo_provider)"

definition demo_claims :: claims where
  "demo_claims =
     \<lparr>claim_sub = ''u-1'', claim_name = Some ''Ada'', claim_preferred_username = None, claim_email = None,
      claim_nonce = Some ''non-1''\<rparr>"

definition demo_verify :: jwt_verifier where
  "demo_verify tok keys iss aud = (if tok = ''jwt'' then Inr demo_claims else Inl ''bad signature'')"

definition demo_tokres :: "token_request \<Rightarrow> token_response" where
  "demo_tokres r = Inr (200, Some ''jwt'')"

definition demo_start :: request where
  "demo_start =
     \<lparr>req_method = Some ''GET'', pathname = ''/auth/login'', query = [(''returnTo'', ''/admin/members'')],
      cookie_header = None, origin_header = None, chunks = []\<rparr>"

definition demo_return :: request where
  "demo_return =
     \<lparr>req_method = Some ''GET'', pathname = ''/auth/callback'', query = [(''state'', ''st-1''), (''code'', ''c0de'')],
      cookie_header = Some ''m2m_login=st-1; theme=dark'', origin_header = None, chunks = []\<rparr>"

definition demo_entry :: login_entry where
  "demo_entry = login_entry_of 1000 demo_start ''ver-1'' ''non-1''"

lemma demo_provider_found: "get_provider demo_cfg demo_disc a = (a', r) \<Longrightarrow> metadata a \<in> {None, Some demo_provider} \<Longrightarrow>
    r = Inr demo_provider \<and> metadata a' = Some demo_provider"
  by (auto simp: get_provider_def demo_disc_def demo_cfg_def demo_provider_def http_ok_def issuer_url_def
      strip_slashes_def)

lemma demo_granted:
  assumes "metadata a \<in> {None, Some demo_provider}"
  shows "session_granted demo_cfg demo_verify demo_disc demo_tokres req demo_entry a ''jwt'' demo_claims"
proof -
  obtain a' r where r: "get_provider demo_cfg demo_disc a = (a', r)" by (cases "get_provider demo_cfg demo_disc a")
  then have "snd (get_provider demo_cfg demo_disc a) = Inr demo_provider" using demo_provider_found assms by simp
  then show ?thesis
    by (simp add: session_granted_def demo_tokres_def demo_verify_def demo_claims_def demo_entry_def
        login_entry_of_def http_ok_def)
qed

definition demo_s256 :: "string \<Rightarrow> string" where
  "demo_s256 v = v @ ''-hash''"

text \<open>
  C26. A callback changes the sessions only where the provider's answers warrant it. When
  the second half of \<open>callback\<close> leaves any session entry different, the token endpoint
  answered with an id_token, jose verified it against the provider's keys, this issuer and
  this client, its nonce is the one of the login it answers, and the only change is one
  entry under the new random id for the user of the token's claims; an exception, a
  refusal, a bad token or a wrong nonce leaves every session as it was.
\<close>
theorem callback_session_only_if_granted:
  assumes "sessions (fst (callback_finish cfg verify disc tokres now sid req e a)) k \<noteq> sessions a k"
  shows "k = sid \<and> (\<exists>tok c. session_granted cfg verify disc tokres req e a tok c \<and>
    sessions (fst (callback_finish cfg verify disc tokres now sid req e a)) =
      (sessions a)(sid \<mapsto> new_session cfg now tok c))"
proof -
  obtain tok c where g: "session_granted cfg verify disc tokres req e a tok c"
    using assms callback_finish_refused by metis
  have "k = sid" using assms callback_finish_granted [OF g, of now sid] by (metis fun_upd_other)
  then show ?thesis using g callback_finish_granted [OF g] by blast
qed

theorem callback_session_only_if_granted_witness:
  "\<exists>tok c. session_granted demo_cfg demo_verify demo_disc demo_tokres demo_return demo_entry no_auth tok c"
proof -
  have "sessions (fst (callback_finish demo_cfg demo_verify demo_disc demo_tokres 2000 ''sid-1'' demo_return
      demo_entry no_auth)) ''sid-1'' \<noteq> sessions no_auth ''sid-1''"
    using callback_finish_granted [OF demo_granted [of no_auth demo_return]] by (simp add: no_auth_def)
  from callback_session_only_if_granted [OF this] show ?thesis by blast
qed

end
