(* ===== verification/OidcRuns.thy ===== *)
theory OidcRuns
  imports OidcFacts
begin

text \<open>
  The login code as a state machine. Requests interleave: a callback is one step up to
  its first await and another after the provider has answered, with any number of other
  steps in between, and several may be in flight at once. \<open>oidc_run\<close> is the set of
  reachable states, each with the history of what happened (most recent first). Random
  tokens are drawn fresh, which is what 256 random bits promise.
\<close>

definition state_param :: "request \<Rightarrow> string" where
  "state_param req = coalesce (lookup (query req) ''state'') ''''"

record sys =
  store :: auth
  flights :: "(request \<times> login_entry) list"
  drawn :: "string set"

datatype event =
    LoginStarted string login_entry
  | CallbackAccepted string request login_entry
  | SessionGranted string string claims request login_entry

definition initial :: sys where
  "initial = \<lparr>store = no_auth, flights = [], drawn = {}\<rparr>"

inductive oidc_run :: "oidc_config \<Rightarrow> (string \<Rightarrow> string) \<Rightarrow> jwt_verifier \<Rightarrow> sys \<Rightarrow> event list \<Rightarrow> bool"
  for cfg s256 verify where
  start: "oidc_run cfg s256 verify initial []"
| login_started:
    "oidc_run cfg s256 verify s h \<Longrightarrow>
     get_provider cfg disc (store s) = (a, Inr p) \<Longrightarrow>
     distinct [st, ver, non] \<Longrightarrow> {st, ver, non} \<inter> drawn s = {} \<Longrightarrow>
     oidc_run cfg s256 verify
       (s\<lparr>store := fst (login cfg s256 disc now st ver non req (store s)),
          drawn := {st, ver, non} \<union> drawn s\<rparr>)
       (LoginStarted st (login_entry_of now req ver non) # h)"
| login_unavailable:
    "oidc_run cfg s256 verify s h \<Longrightarrow>
     get_provider cfg disc (store s) = (a, Inl err) \<Longrightarrow>
     oidc_run cfg s256 verify
       (s\<lparr>store := fst (login cfg s256 disc now st ver non req (store s))\<rparr>) h"
| callback_turned_away:
    "oidc_run cfg s256 verify s h \<Longrightarrow>
     callback_begin cfg now req (store s) = (a, Inl r) \<Longrightarrow>
     oidc_run cfg s256 verify (s\<lparr>store := a\<rparr>) h"
| callback_accepted:
    "oidc_run cfg s256 verify s h \<Longrightarrow>
     callback_begin cfg now req (store s) = (a, Inr e) \<Longrightarrow>
     oidc_run cfg s256 verify (s\<lparr>store := a, flights := (req, e) # flights s\<rparr>)
       (CallbackAccepted (state_param req) req e # h)"
| callback_granted:
    "oidc_run cfg s256 verify s h \<Longrightarrow>
     flights s = before @ (req, e) # after \<Longrightarrow> sid \<notin> drawn s \<Longrightarrow>
     session_granted cfg verify disc tokres req e (store s) tok c \<Longrightarrow>
     oidc_run cfg s256 verify
       (s\<lparr>store := fst (callback_finish cfg verify disc tokres now sid req e (store s)),
          flights := before @ after, drawn := insert sid (drawn s)\<rparr>)
       (SessionGranted sid tok c req e # h)"
| callback_refused:
    "oidc_run cfg s256 verify s h \<Longrightarrow>
     flights s = before @ (req, e) # after \<Longrightarrow>
     \<forall>tok c. \<not> session_granted cfg verify disc tokres req e (store s) tok c \<Longrightarrow>
     oidc_run cfg s256 verify
       (s\<lparr>store := fst (callback_finish cfg verify disc tokres now sid req e (store s)),
          flights := before @ after\<rparr>) h"
| session_check:
    "oidc_run cfg s256 verify s h \<Longrightarrow>
     oidc_run cfg s256 verify (s\<lparr>store := fst (session_of now req (store s))\<rparr>) h"
| logged_out:
    "oidc_run cfg s256 verify s h \<Longrightarrow>
     oidc_run cfg s256 verify (s\<lparr>store := fst (logout cfg disc req (store s))\<rparr>) h"
| swept:
    "oidc_run cfg s256 verify s h \<Longrightarrow>
     oidc_run cfg s256 verify (s\<lparr>store := sweep now (store s)\<rparr>) h"

inductive_cases oidc_run_start: "oidc_run cfg s256 verify s []"

section \<open>What the history says\<close>

fun accepted :: "event list \<Rightarrow> string list" where
  "accepted [] = []"
| "accepted (CallbackAccepted st _ _ # h) = st # accepted h"
| "accepted (LoginStarted _ _ # h) = accepted h"
| "accepted (SessionGranted _ _ _ _ _ # h) = accepted h"

fun granted :: "event list \<Rightarrow> string list" where
  "granted [] = []"
| "granted (SessionGranted _ _ _ req _ # h) = state_param req # granted h"
| "granted (LoginStarted _ _ # h) = granted h"
| "granted (CallbackAccepted _ _ _ # h) = granted h"

lemma accepted_iff: "st \<in> set (accepted h) \<longleftrightarrow> (\<exists>req e. CallbackAccepted st req e \<in> set h)"
  by (induction h rule: accepted.induct) auto

text \<open>A history entry is sound if what it reports was warranted by earlier entries.\<close>

definition event_sound :: "oidc_config \<Rightarrow> jwt_verifier \<Rightarrow> event list \<Rightarrow> event \<Rightarrow> bool" where
  "event_sound cfg verify h ev =
     (case ev of
        LoginStarted st e \<Rightarrow> (\<exists>raw. return_to e = safe_return_to raw)
      | CallbackAccepted st req e \<Rightarrow>
          LoginStarted st e \<in> set h \<and> st = state_param req \<and> read_cookie req login_cookie = Some st
      | SessionGranted sid tok c req e \<Rightarrow>
          CallbackAccepted (state_param req) req e \<in> set h \<and>
          (\<exists>keys. verify tok keys (issuer_url cfg) (client_id cfg) = Inr c) \<and>
          claim_nonce c = Some (nonce e))"

fun history_sound :: "oidc_config \<Rightarrow> jwt_verifier \<Rightarrow> event list \<Rightarrow> bool" where
  "history_sound cfg verify [] = True"
| "history_sound cfg verify (ev # h) = (event_sound cfg verify h ev \<and> history_sound cfg verify h)"

lemma event_sound_mono: "event_sound cfg verify h ev \<Longrightarrow> set h \<subseteq> set h' \<Longrightarrow> event_sound cfg verify h' ev"
  by (cases ev) (auto simp: event_sound_def)

lemma history_sound_member: "history_sound cfg verify h \<Longrightarrow> ev \<in> set h \<Longrightarrow> event_sound cfg verify h ev"
proof (induction h)
  case (Cons x h)
  then have "event_sound cfg verify h ev" by auto
  then show ?case by (rule event_sound_mono) auto
qed simp

section \<open>The invariant\<close>

definition logins_traced :: "sys \<Rightarrow> event list \<Rightarrow> bool" where
  "logins_traced s h \<longleftrightarrow> (\<forall>st e. logins (store s) st = Some e \<longrightarrow>
     LoginStarted st e \<in> set h \<and> st \<notin> set (accepted h))"

definition flights_traced :: "sys \<Rightarrow> event list \<Rightarrow> bool" where
  "flights_traced s h \<longleftrightarrow> (\<forall>(req, e) \<in> set (flights s). CallbackAccepted (state_param req) req e \<in> set h)"

definition sessions_traced :: "oidc_config \<Rightarrow> sys \<Rightarrow> event list \<Rightarrow> bool" where
  "sessions_traced cfg s h \<longleftrightarrow> (\<forall>sid ses. sessions (store s) sid = Some ses \<longrightarrow>
     (\<exists>tok c req e now. SessionGranted sid tok c req e \<in> set h \<and> ses = new_session cfg now tok c))"

definition states_used_once :: "sys \<Rightarrow> event list \<Rightarrow> bool" where
  "states_used_once s h \<longleftrightarrow>
     distinct (accepted h) \<and>
     distinct (map (\<lambda>(req, e). state_param req) (flights s) @ granted h) \<and>
     set (granted h) \<subseteq> set (accepted h) \<and>
     (\<forall>st e. LoginStarted st e \<in> set h \<longrightarrow> st \<in> drawn s) \<and>
     set (accepted h) \<subseteq> drawn s"

definition oidc_inv :: "oidc_config \<Rightarrow> jwt_verifier \<Rightarrow> sys \<Rightarrow> event list \<Rightarrow> bool" where
  "oidc_inv cfg verify s h \<longleftrightarrow>
     history_sound cfg verify h \<and> logins_traced s h \<and> flights_traced s h \<and>
     sessions_traced cfg s h \<and> states_used_once s h"

lemmas traced_defs = logins_traced_def flights_traced_def sessions_traced_def

text \<open>A step that only forgets entries keeps the invariant.\<close>

lemma oidc_inv_forget:
  assumes "oidc_inv cfg verify s h"
    and "\<And>k v. logins a k = Some v \<Longrightarrow> logins (store s) k = Some v"
    and "\<And>k v. sessions a k = Some v \<Longrightarrow> sessions (store s) k = Some v"
  shows "oidc_inv cfg verify (s\<lparr>store := a\<rparr>) h"
  using assms(1) unfolding oidc_inv_def traced_defs states_used_once_def
  by (auto dest!: assms(2,3))

lemma oidc_inv_initial: "oidc_inv cfg verify initial []"
  by (simp add: oidc_inv_def traced_defs states_used_once_def initial_def no_auth_def)

lemma login_effect:
  assumes "get_provider cfg disc a = (a', Inr p)"
  shows "sessions (fst (login cfg s256 disc now st ver non req a)) = sessions a"
    and "logins (fst (login cfg s256 disc now st ver non req a)) =
      (logins a)(st \<mapsto> login_entry_of now req ver non)"
  using assms get_provider_frame [OF assms] by (simp_all add: login_def Let_def)

lemma oidc_inv_login:
  assumes inv: "oidc_inv cfg verify s h"
    and p: "get_provider cfg disc (store s) = (a, Inr p)"
    and fresh: "{st, ver, non} \<inter> drawn s = {}"
  shows "oidc_inv cfg verify
    (s\<lparr>store := fst (login cfg s256 disc now st ver non req (store s)), drawn := {st, ver, non} \<union> drawn s\<rparr>)
    (LoginStarted st (login_entry_of now req ver non) # h)"
proof -
  have "event_sound cfg verify h (LoginStarted st (login_entry_of now req ver non))"
    by (auto simp: event_sound_def login_entry_of_def)
  moreover have "st \<notin> set (accepted h)"
    using inv fresh by (auto simp: oidc_inv_def states_used_once_def)
  ultimately show ?thesis
    using inv unfolding oidc_inv_def traced_defs states_used_once_def
    by (simp add: login_effect [OF p]) blast
qed

lemma oidc_inv_accept:
  assumes inv: "oidc_inv cfg verify s h"
    and b: "callback_begin cfg now req (store s) = (a, Inr e)"
  shows "oidc_inv cfg verify (s\<lparr>store := a, flights := (req, e) # flights s\<rparr>)
    (CallbackAccepted (state_param req) req e # h)"
proof -
  let ?st = "state_param req"
  have acc: "logins (store s) ?st = Some e" "read_cookie req login_cookie = Some ?st"
    using callback_begin_accepts_iff [of cfg now req "store s" e] b by (auto simp: state_param_def)
  have a: "a = (store s)\<lparr>logins := (logins (store s))(?st := None)\<rparr>"
    using callback_begin_state [of cfg now req "store s"] b by (simp add: state_param_def)
  have started: "LoginStarted ?st e \<in> set h" and unused: "?st \<notin> set (accepted h)"
    using inv acc by (auto simp: oidc_inv_def logins_traced_def)
  have "?st \<in> drawn s" using inv started unfolding oidc_inv_def states_used_once_def by blast
  moreover have "?st \<notin> (\<lambda>(req, e). state_param req) ` set (flights s)"
    using inv unused by (auto simp: oidc_inv_def flights_traced_def accepted_iff)
  moreover have "?st \<notin> set (granted h)"
    using inv unused by (auto simp: oidc_inv_def states_used_once_def)
  moreover have "event_sound cfg verify h (CallbackAccepted ?st req e)"
    using started acc by (simp add: event_sound_def)
  ultimately show ?thesis
    using inv unused unfolding a oidc_inv_def traced_defs states_used_once_def
    by (auto simp: image_iff)
qed

lemma oidc_inv_grant:
  assumes inv: "oidc_inv cfg verify s h"
    and f: "flights s = before @ (req, e) # after"
    and g: "session_granted cfg verify disc tokres req e (store s) tok c"
  shows "oidc_inv cfg verify
    (s\<lparr>store := fst (callback_finish cfg verify disc tokres now sid req e (store s)),
       flights := before @ after, drawn := insert sid (drawn s)\<rparr>)
    (SessionGranted sid tok c req e # h)"
proof -
  have acc: "CallbackAccepted (state_param req) req e \<in> set h"
    using inv f by (auto simp: oidc_inv_def flights_traced_def)
  then have "event_sound cfg verify h (SessionGranted sid tok c req e)"
    using g by (auto simp: event_sound_def session_granted_def)
  moreover have "state_param req \<in> set (accepted h)" using acc by (auto simp: accepted_iff)
  ultimately show ?thesis
    using inv f unfolding oidc_inv_def traced_defs states_used_once_def
    by (auto simp: callback_finish_granted [OF g] callback_finish_logins)
qed

lemma oidc_inv_refuse:
  assumes inv: "oidc_inv cfg verify s h"
    and f: "flights s = before @ (req, e) # after"
    and g: "\<forall>tok c. \<not> session_granted cfg verify disc tokres req e (store s) tok c"
  shows "oidc_inv cfg verify
    (s\<lparr>store := fst (callback_finish cfg verify disc tokres now sid req e (store s)), flights := before @ after\<rparr>) h"
  using inv f unfolding oidc_inv_def traced_defs states_used_once_def
  by (auto simp: callback_finish_refused [OF g] callback_finish_logins)

lemma oidc_run_inv: "oidc_run cfg s256 verify s h \<Longrightarrow> oidc_inv cfg verify s h"
proof (induction rule: oidc_run.induct)
  case start
  show ?case by (rule oidc_inv_initial)
next
  case (login_started s h disc a p st ver non now req)
  then show ?case by (intro oidc_inv_login) auto
next
  case (login_unavailable s h disc a err now st ver non req)
  then show ?case
    using get_provider_frame [of cfg disc "store s" a] by (intro oidc_inv_forget) (auto simp: login_def)
next
  case (callback_turned_away s h now req a r)
  then show ?case
    using callback_begin_state [of cfg now req "store s"]
    by (intro oidc_inv_forget) (auto split: if_splits)
next
  case (callback_accepted s h now req a e)
  then show ?case by (intro oidc_inv_accept)
next
  case (callback_granted s h before req e after sid disc tokres tok c now)
  then show ?case by (intro oidc_inv_grant)
next
  case (callback_refused s h before req e after disc tokres now sid)
  then show ?case by (intro oidc_inv_refuse)
next
  case (session_check s h now req)
  then show ?case
    by (intro oidc_inv_forget) (auto simp: session_of_frame dest: session_of_sessions)
next
  case (logged_out s h disc req)
  then show ?case by (intro oidc_inv_forget) (auto simp: logout_frame split: option.splits if_splits)
next
  case (swept s h now)
  then show ?case
    by (intro oidc_inv_forget)
      (auto dest: session_store.clean_adds_nothing login_store.clean_adds_nothing)
qed

section \<open>A run to instantiate the properties on\<close>


definition demo_history :: "event list" where
  "demo_history =
     [SessionGranted ''sid-1'' ''jwt'' demo_claims demo_return demo_entry,
      CallbackAccepted ''st-1'' demo_return demo_entry,
      LoginStarted ''st-1'' demo_entry]"

lemma demo_state_param: "state_param demo_return = ''st-1''"
  by (simp add: state_param_def demo_return_def)

lemma demo_cookie: "read_cookie demo_return login_cookie = Some ''st-1''"
proof -
  have "cookie_header demo_return =
      Some (jar_header ([] @ set_cookie_pair (cookie login_cookie ''st-1'' ''/'' (Num 0) True) # [(''theme'', ''dark'')]))"
    by (simp add: demo_return_def jar_header_def set_cookie_pair_def cookie_def login_cookie_def)
  then show ?thesis
    using read_parts_jar [of "[(login_cookie, ''st-1''), (''theme'', ''dark'')]" login_cookie]
    by (simp add: read_cookie_def jar_header_def set_cookie_pair_def cookie_def login_cookie_def jar_ok_def
        cookie_name_def cookie_value_def cookie_char_def class_defs js_space_def)
qed

lemma demo_run:
  "\<exists>s. oidc_run demo_cfg demo_s256 demo_verify s demo_history \<and>
     sessions (store s) ''sid-1'' = Some (new_session demo_cfg 3000 ''jwt'' demo_claims)"
proof -
  obtain a p where p: "get_provider demo_cfg demo_disc (store initial) = (a, Inr p)" "metadata a = Some demo_provider"
    using demo_provider_found [of "store initial"]
    by (cases "get_provider demo_cfg demo_disc (store initial)") (auto simp: initial_def no_auth_def)
  define a1 where "a1 = fst (login demo_cfg demo_s256 demo_disc 1000 ''st-1'' ''ver-1'' ''non-1'' demo_start (store initial))"
  define s1 where "s1 = initial\<lparr>store := a1, drawn := {''st-1'', ''ver-1'', ''non-1''} \<union> drawn initial\<rparr>"
  have r1: "oidc_run demo_cfg demo_s256 demo_verify s1 [LoginStarted ''st-1'' demo_entry]"
    unfolding s1_def a1_def demo_entry_def
    by (rule oidc_run.login_started [OF oidc_run.start p(1)]) (simp_all add: initial_def)
  have a1: "logins a1 ''st-1'' = Some demo_entry" "metadata a1 = Some demo_provider"
    using login_effect [OF p(1)] p by (simp_all add: a1_def demo_entry_def login_def Let_def)
  have e2: "snd (callback_begin demo_cfg 2000 demo_return a1) = Inr demo_entry"
    using a1 demo_cookie
    by (simp add: callback_begin_accepts_iff) (simp add: demo_return_def demo_entry_def login_entry_of_def login_timeout_ms_def)
  obtain a2 where a2: "callback_begin demo_cfg 2000 demo_return (store s1) = (a2, Inr demo_entry)"
    using e2 by (cases "callback_begin demo_cfg 2000 demo_return a1") (simp add: s1_def)
  define s2 where "s2 = s1\<lparr>store := a2, flights := (demo_return, demo_entry) # flights s1\<rparr>"
  have r2: "oidc_run demo_cfg demo_s256 demo_verify s2
      [CallbackAccepted ''st-1'' demo_return demo_entry, LoginStarted ''st-1'' demo_entry]"
    using oidc_run.callback_accepted [OF r1 a2] by (simp add: s2_def demo_state_param)
  have "metadata a2 = Some demo_provider"
    using callback_begin_state [of demo_cfg 2000 demo_return "store s1"] a2 a1 by (simp add: s1_def)
  then have g: "session_granted demo_cfg demo_verify demo_disc demo_tokres demo_return demo_entry (store s2) ''jwt'' demo_claims"
    using demo_granted by (simp add: s2_def)
  have f: "flights s2 = [] @ (demo_return, demo_entry) # []" "''sid-1'' \<notin> drawn s2"
    by (simp_all add: s2_def s1_def initial_def)
  define s3 where "s3 = s2\<lparr>store := fst (callback_finish demo_cfg demo_verify demo_disc demo_tokres 3000 ''sid-1''
      demo_return demo_entry (store s2)), flights := [] @ [], drawn := insert ''sid-1'' (drawn s2)\<rparr>"
  have "oidc_run demo_cfg demo_s256 demo_verify s3 demo_history"
    unfolding s3_def demo_history_def by (rule oidc_run.callback_granted [OF r2 f g])
  moreover have "sessions (store s3) ''sid-1'' = Some (new_session demo_cfg 3000 ''jwt'' demo_claims)"
    using callback_finish_granted [OF g, of 3000 "''sid-1''"] by (simp add: s3_def)
  ultimately show ?thesis by blast
qed

section \<open>What every reachable state satisfies\<close>

text \<open>
  C18. Where sessions come from. In every reachable state, under any interleaving of
  requests, a stored session belongs to a login this server started: its state parameter
  came back on a callback that carried the login cookie of the same browser, the id_token
  verified for this issuer and client with the nonce of that very login, and the session's
  user is the one of its claims.
\<close>
theorem session_provenance:
  assumes run: "oidc_run cfg s256 verify s h" and stored: "sessions (store s) sid = Some ses"
  shows "\<exists>tok c req e.
    SessionGranted sid tok c req e \<in> set h \<and>
    CallbackAccepted (state_param req) req e \<in> set h \<and>
    LoginStarted (state_param req) e \<in> set h \<and>
    read_cookie req login_cookie = Some (state_param req) \<and>
    (\<exists>keys. verify tok keys (issuer_url cfg) (client_id cfg) = Inr c) \<and>
    claim_nonce c = Some (nonce e) \<and>
    session_user ses = user_of_claims c"
proof -
  have inv: "oidc_inv cfg verify s h" using run by (rule oidc_run_inv)
  then obtain tok c req e now where
    g: "SessionGranted sid tok c req e \<in> set h" "ses = new_session cfg now tok c"
    using stored unfolding oidc_inv_def sessions_traced_def by blast
  have sound: "history_sound cfg verify h" using inv by (simp add: oidc_inv_def)
  have s1: "event_sound cfg verify h (SessionGranted sid tok c req e)"
    using history_sound_member [OF sound g(1)] .
  then have acc: "CallbackAccepted (state_param req) req e \<in> set h" by (simp add: event_sound_def)
  have "event_sound cfg verify h (CallbackAccepted (state_param req) req e)"
    using history_sound_member [OF sound acc] .
  then show ?thesis
    using g s1 acc by (intro exI [of _ tok] exI [of _ c] exI [of _ req] exI [of _ e])
      (simp add: event_sound_def new_session_def)
qed

theorem session_provenance_witness:
  "\<exists>tok c req e. SessionGranted ''sid-1'' tok c req e \<in> set demo_history \<and> claim_nonce c = Some (nonce e)"
proof -
  obtain s where s: "oidc_run demo_cfg demo_s256 demo_verify s demo_history"
      "sessions (store s) ''sid-1'' = Some (new_session demo_cfg 3000 ''jwt'' demo_claims)"
    using demo_run by blast
  show ?thesis using session_provenance [OF s] by blast
qed

text \<open>
  C21. A login is used at most once. In every reachable state no state parameter has been
  accepted by two callbacks and no accepted callback has led to two sessions, even when
  callbacks overlap: a replayed callback is turned away whether the first one is still
  waiting for the provider or has finished.
\<close>
theorem login_used_once:
  assumes "oidc_run cfg s256 verify s h"
  shows "distinct (accepted h) \<and> distinct (granted h) \<and> set (granted h) \<subseteq> set (accepted h) \<and>
    (\<forall>now req. state_param req \<in> set (accepted h) \<longrightarrow> \<not> (\<exists>e. snd (callback_begin cfg now req (store s)) = Inr e))"
proof -
  have inv: "oidc_inv cfg verify s h" using assms by (rule oidc_run_inv)
  have "\<not> (\<exists>e. snd (callback_begin cfg now req (store s)) = Inr e)"
    if "state_param req \<in> set (accepted h)" for now req
    using inv that
    by (auto simp: callback_begin_accepts_iff oidc_inv_def logins_traced_def state_param_def)
  then show ?thesis using inv by (auto simp: oidc_inv_def states_used_once_def)
qed

theorem login_used_once_witness:
  "\<exists>s. oidc_run demo_cfg demo_s256 demo_verify s demo_history \<and>
     \<not> (\<exists>e. snd (callback_begin demo_cfg 2500 demo_return (store s)) = Inr e)"
proof -
  obtain s where s: "oidc_run demo_cfg demo_s256 demo_verify s demo_history" using demo_run by blast
  have "state_param demo_return \<in> set (accepted demo_history)"
    by (simp add: demo_state_param demo_history_def)
  then show ?thesis using s login_used_once [OF s] by blast
qed

end
