(* ===== verification/LoginFlow.thy ===== *)
theory LoginFlow
  imports OidcFacts
begin

text \<open>
  Whole runs of the login code: a login started, finished in the same browser and used,
  and a logout. The requests in between carry the cookies the responses set, through the
  browser of \<open>Cookies\<close>.
\<close>

section \<open>Cookies in responses\<close>

lemma digit_char_ok: "d < 10 \<Longrightarrow> header_char_ok (digit_char d)"
  by (auto simp: digit_char_def header_char_ok_def Let_def)

lemma show_nat_ok: "list_all header_char_ok (show_nat n)"
proof (induction n rule: show_nat.induct)
  case (1 n)
  then show ?case by (subst show_nat.simps) (auto simp: digit_char_ok)
qed

lemma show_num_ok: "list_all header_char_ok (show_num x)"
  by (cases x) (auto simp: show_int_def show_nat_ok header_char_ok_def)

lemma cookie_ok:
  assumes "list_all header_char_ok n" "list_all header_char_ok v" "list_all header_char_ok path"
  shows "list_all header_char_ok (cookie n v path age secure)"
  using assms by (simp add: cookie_def show_num_ok) (simp add: header_char_ok_def)

lemma cookie_name_ok: "cookie_name n \<Longrightarrow> list_all header_char_ok n"
  by (auto simp: cookie_name_def list_all_iff dest: cookie_char_facts)

lemma own_cookie_names [simp]: "cookie_name session_cookie" "cookie_name login_cookie" "login_cookie \<noteq> session_cookie"
  by (simp_all add: cookie_name_def session_cookie_def login_cookie_def cookie_char_def class_defs)


lemma clear_login_cookie_ok: "list_all header_char_ok (clear_login_cookie cfg)"
  unfolding clear_login_cookie_def by (intro cookie_ok) (simp_all add: cookie_name_ok header_char_ok_def)

lemma set_pair_login: "cookie_value v \<Longrightarrow> set_cookie_pair (cookie login_cookie v path age secure) = (login_cookie, v)"
  by (simp add: set_cookie_pair_cookie)

lemma set_pair_session: "cookie_value v \<Longrightarrow> set_cookie_pair (cookie session_cookie v path age secure) = (session_cookie, v)"
  by (simp add: set_cookie_pair_cookie)

lemma cookie_value_name: "cookie_name v \<Longrightarrow> cookie_value v"
  by (simp add: cookie_name_def cookie_name_value)

text \<open>The cookies a response sets, ahead of the others the browser holds.\<close>

definition browser_cookies :: "response \<Rightarrow> (string \<times> string) list \<Rightarrow> string" where
  "browser_cookies resp others =
     jar_header (map set_cookie_pair (header_values resp ''Set-Cookie'') @ others)"

lemma read_browser_cookies:
  assumes "cookie_header req = Some (browser_cookies resp others)"
    and "jar_ok (map set_cookie_pair (header_values resp ''Set-Cookie'') @ others)"
  shows "read_cookie req name = lookup (map set_cookie_pair (header_values resp ''Set-Cookie'') @ others) name"
  using assms by (simp add: read_cookie_def browser_cookies_def read_parts_jar)

section \<open>A login that is followed through\<close>

lemma login_sets_cookie:
  assumes "login cfg s256 disc t0 st ver non req a = (a1, Inr resp)" "cookie_name st"
  shows "map set_cookie_pair (header_values resp ''Set-Cookie'') = [(login_cookie, st)]"
    and "logins a1 st = Some (login_entry_of t0 req ver non)"
  using assms
  by (auto simp: login_def write_head_Inr header_values_def Let_def set_pair_login cookie_value_name
      split: prod.splits sum.splits)

lemma finish_response:
  assumes g: "session_granted cfg verify disc tokres req e a tok c"
    and ok: "cookie_name sid" "list_all header_char_ok (return_to e)"
  shows "\<exists>resp. snd (callback_finish cfg verify disc tokres now sid req e a) = Inr resp \<and>
    header_values resp ''Location'' = [return_to e] \<and>
    map set_cookie_pair (header_values resp ''Set-Cookie'') = [(login_cookie, ''''), (session_cookie, sid)]"
proof -
  have sc: "list_all header_char_ok (cookie session_cookie sid ''/'' (session_ttl_ms cfg) (secure_cookies cfg))"
    using ok by (intro cookie_ok) (simp_all add: cookie_name_ok header_char_ok_def)
  have "cookie_value ''''" by (simp add: cookie_value_def)
  then have pairs: "map set_cookie_pair [clear_login_cookie cfg,
       cookie session_cookie sid ''/'' (session_ttl_ms cfg) (secure_cookies cfg)]
     = [(login_cookie, ''''), (session_cookie, sid)]"
    using ok by (simp add: clear_login_cookie_def set_pair_login set_pair_session cookie_value_name)
  have "list_all header_char_ok ''no-store''" by (simp add: header_char_ok_def)
  then have w: "write_head 302
      [(''Location'', [return_to e]),
       (''Set-Cookie'', [clear_login_cookie cfg, cookie session_cookie sid ''/'' (session_ttl_ms cfg) (secure_cookies cfg)]),
       (''Cache-Control'', [''no-store''])] NoBody = Inr r \<Longrightarrow>
      header_values r ''Location'' = [return_to e] \<and>
      map set_cookie_pair (header_values r ''Set-Cookie'') = [(login_cookie, ''''), (session_cookie, sid)]" for r
    using pairs by (auto simp: write_head_Inr header_values_def)
  have "\<exists>r. write_head 302
      [(''Location'', [return_to e]),
       (''Set-Cookie'', [clear_login_cookie cfg, cookie session_cookie sid ''/'' (session_ttl_ms cfg) (secure_cookies cfg)]),
       (''Cache-Control'', [''no-store''])] NoBody = Inr r"
    using sc ok clear_login_cookie_ok \<open>list_all header_char_ok ''no-store''\<close>
    by (simp add: write_head_def header_ok_def)
  then show ?thesis using g w
    by (auto simp: session_granted_def callback_finish_def split: prod.splits)
qed

text \<open>
  C19. An honest login succeeds, end to end. A login is started; the browser comes back to
  the callback within ten minutes with the state it was given, carrying the cookies that
  response set among any others, while the login is still pending; the provider answers
  with a verified token for that nonce. Then the callback is accepted, it redirects to the
  checked return address, and for the session's lifetime every request that carries the
  cookies set by that answer is served as the user of the token's claims.
\<close>
theorem honest_login_succeeds:
  assumes started: "login cfg s256 disc t0 st ver non req0 a0 = (a1, Inr resp)"
    and tokens: "cookie_name st" "cookie_name sid"
    and pending: "logins a2 st = logins a1 st"
    and returned: "lookup (query req1) ''state'' = Some st" "lookup (query req1) ''error'' = None"
    and carried: "cookie_header req1 = Some (browser_cookies resp others)" "jar_ok others"
    and in_time: "t1 \<le> t0 + 600000"
    and granted: "session_granted cfg verify disc' tokres req1 (login_entry_of t0 req0 ver non) a3 tok c"
    and sendable: "list_all header_char_ok (safe_return_to (lookup (query req0) ''returnTo''))"
    and ttl: "session_ttl_ms cfg = Num ttl"
  shows "snd (callback_begin cfg t1 req1 a2) = Inr (login_entry_of t0 req0 ver non) \<and>
    (\<exists>resp'. snd (callback_finish cfg verify disc' tokres t2 sid req1 (login_entry_of t0 req0 ver non) a3) = Inr resp' \<and>
       header_values resp' ''Location'' = [safe_return_to (lookup (query req0) ''returnTo'')] \<and>
       (\<forall>req2 others' t3. cookie_header req2 = Some (browser_cookies resp' others') \<longrightarrow> jar_ok others' \<longrightarrow>
          t3 \<le> t2 + ttl \<longrightarrow>
          map_option session_user (snd (session_of t3 req2
            (fst (callback_finish cfg verify disc' tokres t2 sid req1 (login_entry_of t0 req0 ver non) a3))))
            = Some (user_of_claims c)))"
proof -
  let ?e = "login_entry_of t0 req0 ver non"
  note sets = login_sets_cookie [OF started tokens(1)]
  have "jar_ok (map set_cookie_pair (header_values resp ''Set-Cookie'') @ others)"
    using sets tokens carried(2) by (simp add: jar_ok_def cookie_value_name)
  then have "read_cookie req1 login_cookie = Some st"
    using read_browser_cookies [OF carried(1), of login_cookie] sets by simp
  moreover have "\<not> js_lt (login_expires ?e) (Num t1)"
    using in_time by (simp add: login_entry_of_def login_timeout_ms_def)
  ultimately have begun: "snd (callback_begin cfg t1 req1 a2) = Inr ?e"
    using returned pending sets by (simp add: callback_begin_accepts_iff)
  have rt: "return_to ?e = safe_return_to (lookup (query req0) ''returnTo'')"
    by (simp add: login_entry_of_def)
  obtain resp' where r: "snd (callback_finish cfg verify disc' tokres t2 sid req1 ?e a3) = Inr resp'"
      "header_values resp' ''Location'' = [return_to ?e]"
      "map set_cookie_pair (header_values resp' ''Set-Cookie'') = [(login_cookie, ''''), (session_cookie, sid)]"
    using finish_response [OF granted tokens(2)] sendable rt by fastforce
  have "map_option session_user (snd (session_of t3 req2
        (fst (callback_finish cfg verify disc' tokres t2 sid req1 ?e a3)))) = Some (user_of_claims c)"
    if j: "cookie_header req2 = Some (browser_cookies resp' others')" "jar_ok others'" "t3 \<le> t2 + ttl"
    for req2 others' t3
  proof -
    have "jar_ok (map set_cookie_pair (header_values resp' ''Set-Cookie'') @ others')"
      using r(3) tokens j(2) by (simp add: jar_ok_def cookie_value_name) (simp add: cookie_value_def)
    then have "read_cookie req2 session_cookie = Some sid"
      using read_browser_cookies [OF j(1), of session_cookie] r(3) by simp
    moreover have "truthy sid" using tokens by (simp add: cookie_name_def)
    ultimately have "snd (session_of t3 req2 (fst (callback_finish cfg verify disc' tokres t2 sid req1 ?e a3))) =
        Some (new_session cfg t2 tok c)"
      using callback_finish_granted [OF granted, of t2 sid] ttl j(3)
      by (simp add: session_of_Some new_session_def)
    then show ?thesis by (simp add: new_session_def)
  qed
  then show ?thesis using begun r rt by auto
qed

lemma demo_login_response:
  "\<exists>a1 resp. login demo_cfg demo_s256 demo_disc 1000 ''st-1'' ''ver-1'' ''non-1'' demo_start no_auth = (a1, Inr resp) \<and>
     metadata a1 = Some demo_provider"
proof -
  obtain a' r where p: "get_provider demo_cfg demo_disc no_auth = (a', r)"
    by (cases "get_provider demo_cfg demo_disc no_auth")
  then have r: "r = Inr demo_provider" "metadata a' = Some demo_provider"
    using demo_provider_found by (simp_all add: no_auth_def)
  have ok: "list_all header_char_ok (with_search (authorization_endpoint demo_provider)
      (url_search_params (authorize_params demo_cfg demo_s256 ''st-1'' demo_entry False)))"
    by code_simp
  have ok2: "list_all header_char_ok (cookie login_cookie ''st-1'' ''/auth'' login_timeout_ms (secure_cookies demo_cfg))"
    by code_simp
  have no_signup: "lookup (query demo_start) ''signup'' = None" by (simp add: demo_start_def)
  show ?thesis
    using p r ok ok2
    by (simp add: login_def Let_def write_head_def header_ok_def no_signup flip: demo_entry_def)
       (simp add: header_char_ok_def)
qed

theorem honest_login_succeeds_witness:
  "\<exists>a1 resp. login demo_cfg demo_s256 demo_disc 1000 ''st-1'' ''ver-1'' ''non-1'' demo_start no_auth = (a1, Inr resp) \<and>
     snd (callback_begin demo_cfg 2000 (demo_return\<lparr>cookie_header := Some (browser_cookies resp [])\<rparr>) a1) = Inr demo_entry"
proof -
  obtain a1 resp where l:
    "login demo_cfg demo_s256 demo_disc 1000 ''st-1'' ''ver-1'' ''non-1'' demo_start no_auth = (a1, Inr resp)"
    "metadata a1 = Some demo_provider"
    using demo_login_response by blast
  let ?req = "demo_return\<lparr>cookie_header := Some (browser_cookies resp [])\<rparr>"
  have g: "session_granted demo_cfg demo_verify demo_disc demo_tokres ?req
      (login_entry_of 1000 demo_start ''ver-1'' ''non-1'') a1 ''jwt'' demo_claims"
    using demo_granted [of a1 ?req] l(2) by (simp add: demo_entry_def)
  have n: "cookie_name ''st-1''" "cookie_name ''sid-1''"
    by (simp_all add: cookie_name_def cookie_char_def class_defs)
  have rt: "list_all header_char_ok (safe_return_to (lookup (query demo_start) ''returnTo''))"
    by (simp add: demo_start_def safe_return_to_def header_char_ok_def)
  have q: "lookup (query ?req) ''state'' = Some ''st-1''" "lookup (query ?req) ''error'' = None"
    "cookie_header ?req = Some (browser_cookies resp [])" "jar_ok []" "(2000::int) \<le> 1000 + 600000"
    by (simp_all add: demo_return_def jar_ok_def)
  have "session_ttl_ms demo_cfg = Num 28800000" by (simp add: demo_cfg_def)
  from honest_login_succeeds [OF l(1) n refl q g rt this] l(1) show ?thesis
    unfolding demo_entry_def by blast
qed

section \<open>Logout\<close>


text \<open>
  A logout ends that session and no other: afterwards a request with the same session
  cookie is not logged in, at any time and whatever the provider answered, and a request
  with any other session cookie is served exactly as before.
\<close>
theorem logout_ends_session:
  "snd (session_of now req' (fst (logout cfg disc req a))) =
     (if read_cookie req' session_cookie = read_cookie req session_cookie then None
      else snd (session_of now req' a))"
  by (auto simp: session_of_def logout_frame split: option.splits)

end
