(* ===== verification/Config.thy ===== *)
theory Config
  imports OidcFacts
begin

text \<open>
  \<open>src/web/src/backend/config.mjs\<close>: the environment read once at start-up. \<open>fail\<close> ends
  the process, so \<open>load_config\<close> is a message or the exported values. JavaScript's
  \<open>Number\<close> of a string is the argument \<open>number\<close>; it yields NaN on what is not a number.
\<close>

type_synonym environment = "string \<Rightarrow> string option"

record config =
  listen_port :: jsnum
  control_plane :: string
  public_api_url :: string
  control_plane_token :: string
  oidc :: "oidc_config option"

definition oidc_of_env :: "(string \<Rightarrow> jsnum) \<Rightarrow> environment \<Rightarrow> jsnum \<Rightarrow> oidc_config" where
  "oidc_of_env number env port =
     \<lparr>issuer = coalesce (env ''OIDC_ISSUER'') '''',
      internal_issuer = (case env ''OIDC_INTERNAL_ISSUER'' of Some v \<Rightarrow> if truthy v then Some v else None | None \<Rightarrow> None),
      client_id = coalesce (env ''OIDC_CLIENT_ID'') ''mesh2mesh-web'',
      client_secret = coalesce (env ''OIDC_CLIENT_SECRET'') '''',
      public_url = coalesce (env ''PUBLIC_URL'') (''http://localhost:'' @ show_num port),
      session_ttl_ms = js_mult (coalesce (map_option number (env ''SESSION_TTL_HOURS'')) (Num 8)) (Num 3600000)\<rparr>"

definition load_config :: "(string \<Rightarrow> jsnum) \<Rightarrow> environment \<Rightarrow> config outcome" where
  "load_config number env =
     (let port = coalesce (map_option number (env ''PORT'')) (Num 8080);
          cp = strip_slashes (coalesce (env ''CONTROLPLANE_URL'') ''http://localhost:8090'');
          token = coalesce (env ''CONTROLPLANE_TOKEN'') '''';
          auth_disabled = (env ''AUTH_DISABLED'' = Some ''true'')
      in if \<not> truthy token
         then Inl ''CONTROLPLANE_TOKEN is not set: it must match the control plane's WEB_API_TOKEN''
         else if \<not> auth_disabled \<and> \<not> truthy (coalesce (env ''OIDC_ISSUER'') '''')
         then Inl ''OIDC_ISSUER is not set: set OIDC_ISSUER, OIDC_CLIENT_ID, OIDC_CLIENT_SECRET and PUBLIC_URL, or AUTH_DISABLED=true''
         else Inr
           \<lparr>listen_port = port, control_plane = cp,
            public_api_url = coalesce (env ''PUBLIC_API_URL'') cp,
            control_plane_token = token,
            oidc = (if auth_disabled then None else Some (oidc_of_env number env port))\<rparr>)"

text \<open>
  The server fails closed. It starts only with a non-empty control-plane token, and
  it runs without login only when AUTH_DISABLED is exactly \<open>true\<close>: any other value, or
  none, gives an OIDC configuration with a non-empty issuer, and a missing one stops it.
\<close>
theorem config_fails_closed:
  "(case load_config number env of
      Inl msg \<Rightarrow> \<not> truthy (coalesce (env ''CONTROLPLANE_TOKEN'') '''') \<or>
        env ''AUTH_DISABLED'' \<noteq> Some ''true'' \<and> \<not> truthy (coalesce (env ''OIDC_ISSUER'') '''')
    | Inr cfg \<Rightarrow> truthy (control_plane_token cfg) \<and>
        (if env ''AUTH_DISABLED'' = Some ''true'' then oidc cfg = None
         else \<exists>o'. oidc cfg = Some o' \<and> truthy (issuer o')))"
  by (simp add: load_config_def Let_def oidc_of_env_def)

lemma js_mult_NaN [simp]: "js_mult NaN b = NaN"
  by (cases b) simp_all

lemma js_add_NaN [simp]: "js_add a NaN = NaN"
  by (cases a) simp_all

text \<open>
  A session lifetime that is not a number disables expiry. With SESSION_TTL_HOURS
  set to text that \<open>Number\<close> maps to NaN (such as \<open>8h\<close>), a session the callback stores is
  still served at every later time, however far, and survives every run of the sweep.
\<close>
theorem nan_ttl_never_expires:
  assumes "load_config number env = Inr cfg" "oidc cfg = Some o'"
    and "env ''SESSION_TTL_HOURS'' = Some v" "number v = NaN"
    and "sessions a i = Some (new_session o' now tok c)"
    and "read_cookie req session_cookie = Some i" "truthy i"
  shows "snd (session_of later req (foldr sweep nows a)) = Some (new_session o' now tok c)"
proof -
  have "session_ttl_ms o' = NaN"
    using assms(1-4) by (auto simp: load_config_def oidc_of_env_def Let_def split: if_splits)
  then have nan: "session_expires (new_session o' now tok c) = NaN" by (simp add: new_session_def)
  then have "sessions (foldr sweep nows a) i = Some (new_session o' now tok c)"
    using session_store.clean_never_nan assms(5) by blast
  then show ?thesis using assms(6,7) nan by (simp add: session_of_Some)
qed

definition demo_env :: environment where
  "demo_env = (\<lambda>_. None)(''CONTROLPLANE_TOKEN'' \<mapsto> ''web-token'', ''OIDC_ISSUER'' \<mapsto> ''https://id.example'',
     ''SESSION_TTL_HOURS'' \<mapsto> ''8h'')"

theorem nan_ttl_never_expires_witness:
  "\<exists>cfg o'. load_config (\<lambda>_. NaN) demo_env = Inr cfg \<and> oidc cfg = Some o' \<and>
     snd (session_of 99999999999 example_request
       (foldr sweep [88888888888] (no_auth\<lparr>sessions := [''abc-1_2'' \<mapsto> new_session o' 0 ''jwt'' demo_claims]\<rparr>)))
     = Some (new_session o' 0 ''jwt'' demo_claims)"
proof -
  obtain cfg where cfg: "load_config (\<lambda>_. NaN) demo_env = Inr cfg"
    by (cases "load_config (\<lambda>_. NaN) demo_env") (auto simp: load_config_def demo_env_def Let_def split: if_splits)
  then obtain o' where o': "oidc cfg = Some o'"
    by (auto simp: load_config_def demo_env_def Let_def)
  have e: "demo_env ''SESSION_TTL_HOURS'' = Some ''8h''" by (simp add: demo_env_def)
  have c: "read_cookie example_request session_cookie = Some ''abc-1_2''"
    using cookie_round_trip_demo by (simp add: session_cookie_def)
  show ?thesis
    using cfg o' nan_ttl_never_expires [OF cfg o' e, of "no_auth\<lparr>sessions := [''abc-1_2'' \<mapsto> new_session o' 0 ''jwt'' demo_claims]\<rparr>"
        "''abc-1_2''" 0 "''jwt''" demo_claims example_request 99999999999 "[88888888888]"] c by auto
qed

theorem config_fails_closed_witness:
  "\<exists>cfg o'. load_config (\<lambda>_. NaN) (demo_env(''AUTH_DISABLED'' \<mapsto> ''1'')) = Inr cfg \<and>
     oidc cfg = Some o' \<and> truthy (issuer o') \<and> truthy (control_plane_token cfg)"
proof -
  let ?env = "demo_env(''AUTH_DISABLED'' \<mapsto> ''1'')"
  obtain cfg where cfg: "load_config (\<lambda>_. NaN) ?env = Inr cfg"
    by (cases "load_config (\<lambda>_. NaN) ?env") (auto simp: load_config_def demo_env_def Let_def split: if_splits)
  have "?env ''AUTH_DISABLED'' \<noteq> Some ''true''" by simp
  then have "truthy (control_plane_token cfg) \<and> (\<exists>o'. oidc cfg = Some o' \<and> truthy (issuer o'))"
    using config_fails_closed [where number = "\<lambda>_. NaN" and env = ?env] unfolding cfg sum.case by (simp only: if_False simp_thms)
  then show ?thesis using cfg by blast
qed

end
