(* ===== verification/Session.thy ===== *)
theory Session
  imports Config
begin

text \<open>
  \<open>src/web/src/backend/session.mjs\<close> and \<open>auth-routes.mjs\<close>: who is calling, the
  cross-origin check, and the dispatch of the \<open>/auth/\<close> routes. The environment of a
  request (clock, random tokens, answers of the provider and of the control plane, the
  built files) is the record \<open>world\<close>.
\<close>

record upstream_request =
  up_url :: string
  up_method :: string
  up_body :: "string option"
  up_headers :: "(string \<times> string) list"

record upstream_response =
  up_status :: nat
  up_content_type :: "string option"
  up_payload :: "string outcome"

record world =
  clock :: int
  fresh_state :: string
  fresh_verifier :: string
  fresh_nonce :: string
  fresh_session :: string
  s256 :: "string \<Rightarrow> string"
  verify :: jwt_verifier
  disc :: discovery
  tokres :: "token_request \<Rightarrow> token_response"
  upstream :: "upstream_request \<Rightarrow> upstream_response outcome"
  files :: "string \<Rightarrow> string option"

section \<open>session.mjs\<close>

definition dev_user :: user where
  "dev_user = \<lparr>sub = ''dev'', user_name = ''Local developer'', email = None, username = Some ''dev''\<rparr>"

definition current_user :: "config \<Rightarrow> world \<Rightarrow> request \<Rightarrow> auth \<Rightarrow> auth \<times> user option" where
  "current_user cfg w req a =
     (case oidc cfg of
        None \<Rightarrow> (a, Some dev_user)
      | Some o' \<Rightarrow> (case session_of (clock w) req a of (a, s) \<Rightarrow> (a, map_option session_user s)))"

definition cross_origin :: "config \<Rightarrow> request \<Rightarrow> bool" where
  "cross_origin cfg req =
     (case oidc cfg of None \<Rightarrow> False | Some o' \<Rightarrow> origin_header req \<noteq> Some (public_origin o'))"

section \<open>auth-routes.mjs\<close>

definition json_option :: "string option \<Rightarrow> json" where
  "json_option v = (case v of None \<Rightarrow> JNull | Some s \<Rightarrow> JStr s)"

definition user_json :: "user option \<Rightarrow> json" where
  "user_json u =
     (case u of
        None \<Rightarrow> JNull
      | Some u \<Rightarrow> JObj [(''sub'', JStr (sub u)), (''name'', JStr (user_name u)),
          (''email'', json_option (email u)), (''username'', json_option (username u))])"

definition callback :: "oidc_config \<Rightarrow> world \<Rightarrow> request \<Rightarrow> auth \<Rightarrow> auth \<times> response outcome" where
  "callback o' w req a =
     (case callback_begin o' (clock w) req a of
        (a, Inl r) \<Rightarrow> (a, r)
      | (a, Inr e) \<Rightarrow>
          callback_finish o' (verify w) (disc w) (tokres w) (clock w) (fresh_session w) req e a)"

definition auth_route :: "config \<Rightarrow> world \<Rightarrow> request \<Rightarrow> auth \<Rightarrow> auth \<times> response outcome" where
  "auth_route cfg w req a =
     (let route = method_of req @ '' '' @ pathname req in
      if route = ''GET /auth/me'' then
        (case current_user cfg w req a of (a, u) \<Rightarrow> (a, send_json 200 (user_json u)))
      else
        (case oidc cfg of
           None \<Rightarrow> (a, redirect 303 (if route = ''GET /auth/login'' then ''/admin'' else ''/''))
         | Some o' \<Rightarrow>
             if route = ''GET /auth/login'' then
               (case login o' (s256 w) (disc w) (clock w) (fresh_state w) (fresh_verifier w) (fresh_nonce w) req a of
                  (a, Inr r) \<Rightarrow> (a, Inr r)
                | (a, Inl err) \<Rightarrow>
                    (a, redirect 302 (''/login?error='' @ encode_uri_component ''The identity provider is unreachable.'')))
             else if route = ''GET /auth/callback'' then callback o' w req a
             else if route = ''POST /auth/logout'' then
               (if cross_origin cfg req then (a, send_json 403 (error_json ''cross-origin request refused''))
                else logout o' (disc w) req a)
             else (a, send_json 404 (error_json ''no such auth route''))))"

section \<open>Their effect on the stored sessions\<close>

lemma current_user_sessions:
  "sessions (fst (current_user cfg w req a)) k = Some s \<Longrightarrow> sessions a k = Some s"
  by (auto simp: current_user_def split: option.splits prod.splits) (metis fst_conv session_of_sessions)

lemma current_user_Some_frame: "snd (current_user cfg w req a) = Some u \<Longrightarrow> fst (current_user cfg w req a) = a"
  by (auto simp: current_user_def split: option.splits prod.splits)
    (metis fst_conv snd_conv session_of_logged_in)

lemma login_sessions: "sessions (fst (login o' h d now st ver non req a)) = sessions a"
  by (rule login_cases [of o' h d now st ver non req a]) auto

text \<open>Two states hold the same sessions but for some that have expired.\<close>

definition expiry_only :: "int \<Rightarrow> auth \<Rightarrow> auth \<Rightarrow> bool" where
  "expiry_only now a a' \<longleftrightarrow>
     (\<forall>k. sessions a' k = sessions a k \<or>
        (\<exists>s. sessions a k = Some s \<and> js_lt (session_expires s) (Num now) \<and> sessions a' k = None))"

lemma expiry_only_same: "sessions a' = sessions a \<Longrightarrow> expiry_only now a a'"
  by (simp add: expiry_only_def)

lemma current_user_expiry_only: "expiry_only (clock w) a (fst (current_user cfg w req a))"
  by (auto simp: expiry_only_def current_user_def session_of_def split: option.splits prod.splits)

text \<open>
  A forged logout does nothing. A logout request whose Origin is not the UI's own is
  answered 403 and leaves the sessions and pending logins exactly as they were, and no
  other /auth route than the callback and the logout can add a session or remove one that
  has not expired.
\<close>
theorem auth_route_session_changes:
  assumes "oidc cfg = Some o'"
  shows "(method_of req @ '' '' @ pathname req = ''POST /auth/logout'' \<and> cross_origin cfg req \<longrightarrow>
      auth_route cfg w req a = (a, send_json 403 (error_json ''cross-origin request refused'')))
    \<and> (method_of req @ '' '' @ pathname req \<notin> {''GET /auth/callback'', ''POST /auth/logout''} \<longrightarrow>
      expiry_only (clock w) a (fst (auth_route cfg w req a)))"
proof -
  let ?l = "login o' (s256 w) (disc w) (clock w) (fresh_state w) (fresh_verifier w) (fresh_nonce w) req a"
  have "expiry_only (clock w) a (fst ?l)" by (rule expiry_only_same) (rule login_sessions)
  moreover have "expiry_only (clock w) a a" by (rule expiry_only_same) simp
  ultimately show ?thesis
    using assms current_user_expiry_only [of w a cfg req]
    by (cases "current_user cfg w req a"; cases ?l) (simp add: auth_route_def Let_def split: sum.split)
qed

definition demo_config :: config where
  "demo_config =
     \<lparr>listen_port = Num 8080, control_plane = ''http://controlplane:8090'',
      public_api_url = ''https://api.mesh.example'', control_plane_token = ''web-token'', oidc = Some demo_cfg\<rparr>"

definition demo_world :: world where
  "demo_world =
     \<lparr>clock = 2000, fresh_state = ''st-1'', fresh_verifier = ''ver-1'', fresh_nonce = ''non-1'', fresh_session = ''sid-1'',
      s256 = demo_s256, verify = demo_verify, disc = demo_disc, tokres = demo_tokres,
      upstream = (\<lambda>_. Inr \<lparr>up_status = 200, up_content_type = Some ''application/json'', up_payload = Inr ''{}''\<rparr>),
      files = (\<lambda>_. None)\<rparr>"

definition forged_logout :: request where
  "forged_logout =
     \<lparr>req_method = Some ''POST'', pathname = ''/auth/logout'', query = [],
      cookie_header = Some ''m2m_session=sid-1'', origin_header = Some ''https://evil.example'', chunks = []\<rparr>"

theorem auth_route_session_changes_witness:
  "auth_route demo_config demo_world forged_logout no_auth =
     (no_auth, send_json 403 (error_json ''cross-origin request refused''))"
proof -
  have 1: "oidc demo_config = Some demo_cfg" by (simp add: demo_config_def)
  have 2: "public_origin demo_cfg = ''https://mesh.example''" by code_simp
  have "method_of forged_logout @ '' '' @ pathname forged_logout = ''POST /auth/logout'' \<and>
      cross_origin demo_config forged_logout"
    using 2 by (simp add: method_of_def forged_logout_def cross_origin_def demo_config_def)
  then show ?thesis using auth_route_session_changes [OF 1] by blast
qed

end
