(* ===== verification/StaticFiles.thy ===== *)
theory StaticFiles
  imports Session
begin

text \<open>
  \<open>src/web/src/backend/static.mjs\<close>: the files of the built UI. \<open>normalize\<close>, \<open>join\<close> and
  \<open>extname\<close> are those of Node's POSIX \<open>path\<close> module; a file name is the UTF-8 bytes that
  reach the file system, which is the argument \<open>fs\<close> (\<open>None\<close> is any failed read).
  \<open>distDir\<close> is the argument \<open>dist\<close>: an absolute path that ends with a slash, as
  \<open>fileURLToPath\<close> gives for a directory URL.
\<close>

section \<open>Node's path module\<close>

fun norm_segs :: "bool \<Rightarrow> string list \<Rightarrow> string list \<Rightarrow> string list" where
  "norm_segs climb stack [] = rev stack"
| "norm_segs climb stack (seg # segs) =
     (if seg = '''' \<or> seg = ''.'' then norm_segs climb stack segs
      else if seg = ''..'' then
        (case stack of
           seg0 # rest \<Rightarrow>
             if seg0 \<noteq> ''..'' then norm_segs climb rest segs
             else if climb then norm_segs climb (''..'' # stack) segs
             else norm_segs climb stack segs
         | [] \<Rightarrow> if climb then norm_segs climb [''..''] segs else norm_segs climb [] segs)
      else norm_segs climb (seg # stack) segs)"

definition normalize :: "string \<Rightarrow> string" where
  "normalize path =
     (if path = [] then ''.''
      else
        (let absolute = starts_with path ''/'';
             trailing = (last path = CHR ''/'');
             p = join_with ''/'' (norm_segs (\<not> absolute) [] (split_on CHR ''/'' path))
         in if p = [] then (if absolute then ''/'' else if trailing then ''./'' else ''.'')
            else (if absolute then ''/'' else '''') @ p @ (if trailing then ''/'' else '''')))"

definition join_path :: "string \<Rightarrow> string \<Rightarrow> string" where
  "join_path a b =
     (let parts = filter truthy [a, b]
      in if parts = [] then ''.'' else normalize (join_with ''/'' parts))"

text \<open>\<open>extname\<close>: from the last dot of the last segment, unless that dot starts it.\<close>

definition base_name :: "string \<Rightarrow> string" where
  "base_name path = rev (takeWhile (\<lambda>c. c \<noteq> CHR ''/'') (dropWhile (\<lambda>c. c = CHR ''/'') (rev path)))"

definition ext_name :: "string \<Rightarrow> string" where
  "ext_name path =
     (let base = base_name path; ext = rev (takeWhile (\<lambda>c. c \<noteq> CHR ''.'') (rev base))
      in if CHR ''.'' \<notin> set base \<or> base = ''..'' \<or> length ext + 1 = length base then '''' else CHR ''.'' # ext)"

section \<open>serveStatic\<close>

definition content_types :: "(string \<times> string) list" where
  "content_types =
    [(''.html'', ''text/html; charset=utf-8''),
     (''.js'', ''text/javascript; charset=utf-8''),
     (''.css'', ''text/css; charset=utf-8''),
     (''.svg'', ''image/svg+xml''),
     (''.png'', ''image/png''),
     (''.ico'', ''image/x-icon''),
     (''.json'', ''application/json''),
     (''.woff2'', ''font/woff2'')]"

definition not_found :: "response outcome" where
  "not_found = send 404 (Raw ''not found'') [(''Content-Type'', [''text/plain''])]"

definition serve_static :: "string \<Rightarrow> (string \<Rightarrow> string option) \<Rightarrow> string \<Rightarrow> response outcome" where
  "serve_static dist fs path =
     (case decode_uri_component path of
        None \<Rightarrow> Inl ''URI malformed''
      | Some decoded \<Rightarrow>
          (let file = join_path dist (normalize decoded) in
           if \<not> starts_with file dist then not_found
           else
             (let ext = ext_name file in
              case fs file of
                Some bytes \<Rightarrow>
                  send 200 (Raw bytes)
                    [(''Content-Type'', [coalesce (lookup content_types ext) ''application/octet-stream'']),
                     (''Cache-Control'',
                       [if starts_with path ''/assets/'' then ''public, max-age=31536000, immutable'' else ''no-cache''])]
              | None \<Rightarrow>
                  if ext \<noteq> '''' \<and> ext \<noteq> ''.html'' then not_found
                  else
                    (case fs (join_path dist ''index.html'') of
                       None \<Rightarrow> Inl ''ENOENT''
                     | Some bytes \<Rightarrow>
                         send 200 (Raw bytes)
                           [(''Content-Type'', [coalesce (lookup content_types ''.html'') '''']),
                            (''Cache-Control'', [''no-cache''])]))))"

section \<open>Normalized paths\<close>

definition plain_segs :: "string list \<Rightarrow> bool" where
  "plain_segs segs \<longleftrightarrow> (\<forall>s \<in> set segs. s \<noteq> '''' \<and> s \<noteq> ''.'' \<and> s \<noteq> ''..'' \<and> CHR ''/'' \<notin> set s)"

lemma norm_segs_plain:
  "plain_segs stack \<Longrightarrow> \<forall>s \<in> set segs. CHR ''/'' \<notin> set s \<Longrightarrow> plain_segs (norm_segs False stack segs)"
proof (induction segs arbitrary: stack)
  case (Cons seg segs)
  have segs: "\<forall>s \<in> set segs. CHR ''/'' \<notin> set s" using Cons.prems(2) by simp
  have "plain_segs (tl stack)" using Cons.prems(1) unfolding plain_segs_def by (cases stack) simp_all
  then have tl: "plain_segs (norm_segs False (tl stack) segs)" using Cons.IH segs by blast
  have same: "plain_segs (norm_segs False stack segs)" using Cons.IH Cons.prems(1) segs by blast
  show ?case
  proof (cases "seg = '''' \<or> seg = ''.'' \<or> seg = ''..''")
    case True
    then have "norm_segs False stack (seg # segs) \<in> {norm_segs False stack segs, norm_segs False (tl stack) segs}"
      by (cases stack) auto
    then show ?thesis using tl same by (metis insertE singletonD)
  next
    case False
    then have "plain_segs (seg # stack)" using Cons.prems by (simp add: plain_segs_def)
    then show ?thesis using False Cons by simp
  qed
qed (simp add: plain_segs_def)

lemma norm_segs_plain_step:
  "seg \<noteq> '''' \<Longrightarrow> seg \<noteq> ''.'' \<Longrightarrow> seg \<noteq> ''..'' \<Longrightarrow>
   norm_segs climb stack (seg # segs) = norm_segs climb (seg # stack) segs"
  by simp

lemma norm_segs_append: "plain_segs xs \<Longrightarrow> norm_segs climb stack (xs @ ys) = norm_segs climb (rev xs @ stack) ys"
proof (induction xs arbitrary: stack)
  case (Cons x xs)
  then have "x \<noteq> ''''" "x \<noteq> ''.''" "x \<noteq> ''..''" "plain_segs xs" by (auto simp: plain_segs_def)
  then show ?case using Cons.IH by (simp add: norm_segs_plain_step del: norm_segs.simps)
qed simp

lemma split_join:
  "segs \<noteq> [] \<Longrightarrow> \<forall>s \<in> set segs. CHR ''/'' \<notin> set s \<Longrightarrow> split_on CHR ''/'' (join_with ''/'' segs) = segs"
proof (induction segs rule: induct_list012)
  case (3 x y zs)
  then show ?case by (simp add: split_on_append)
qed (simp_all add: split_on_none)

text \<open>The directory of the built UI: \<open>/a/b/.../\<close> with ordinary segments.\<close>

definition dist_dir :: "string list \<Rightarrow> string" where
  "dist_dir segs = ''/'' @ join_with ''/'' segs @ ''/''"

definition segments :: "string \<Rightarrow> string list" where
  "segments f = split_on CHR ''/'' f"

text \<open>A file inside the directory: below it, and with no segment that climbs.\<close>

definition inside :: "string \<Rightarrow> string \<Rightarrow> bool" where
  "inside dist f \<longleftrightarrow> starts_with f dist \<and> ''..'' \<notin> set (segments f)"

lemma join_with_snoc_slash: "join_with ''/'' segs @ ''/'' = join_with ''/'' (segs @ ['''']) \<or> segs = []"
  by (induction segs rule: induct_list012) auto

lemma normalize_absolute_no_climb:
  "starts_with p ''/'' \<Longrightarrow> ''..'' \<notin> set (segments (normalize p))"
proof -
  assume abs: "starts_with p ''/''"
  define segs where "segs = norm_segs False [] (split_on CHR ''/'' p)"
  have plain: "plain_segs segs"
    unfolding segs_def by (rule norm_segs_plain) (auto simp: plain_segs_def dest: split_on_no_sep)
  have ne: "p \<noteq> []" using abs by auto
  have sl: "\<forall>s \<in> set segs. CHR ''/'' \<notin> set s" using plain by (simp add: plain_segs_def)
  show ?thesis
  proof (cases "join_with ''/'' segs = []")
    case True
    then have "normalize p = ''/''" using abs ne by (simp add: normalize_def Let_def segs_def)
    then show ?thesis by (simp add: segments_def)
  next
    case False
    then have "segs \<noteq> []" by auto
    have n: "normalize p = CHR ''/'' # join_with ''/'' segs @ (if last p = CHR ''/'' then ''/'' else '''')"
      using False abs ne by (simp add: normalize_def Let_def segs_def)
    have "split_on CHR ''/'' (join_with ''/'' segs @ ''/'') = segs @ ['''']"
      using join_with_snoc_slash [of segs] split_join [of "segs @ ['''']"] sl \<open>segs \<noteq> []\<close> by auto
    then have "set (segments (normalize p)) \<subseteq> insert '''' (set segs)"
      using n split_join [OF \<open>segs \<noteq> []\<close> sl] by (auto simp: segments_def)
    moreover have "''..'' \<notin> set segs" using plain by (auto simp: plain_segs_def)
    ultimately show ?thesis by auto
  qed
qed

lemma join_dist_absolute: "\<exists>p. join_path (dist_dir segs) x = normalize p \<and> starts_with p ''/''"
  by (auto simp: join_path_def dist_dir_def Let_def)

lemma join_index:
  assumes "plain_segs segs" "segs \<noteq> []"
  shows "join_path (dist_dir segs) ''index.html'' = dist_dir segs @ ''index.html''"
proof -
  have ix: "plain_segs [''index.html'']" by (simp add: plain_segs_def)
  have sl: "\<forall>s \<in> set segs. CHR ''/'' \<notin> set s" using assms by (simp add: plain_segs_def)
  let ?p = "dist_dir segs @ ''/index.html''"
  have "?p = ''/'' @ join_with ''/'' (segs @ ['''', ''index.html''])"
    using assms(2) by (induction segs rule: induct_list012) (auto simp: dist_dir_def)
  then have sp: "split_on CHR ''/'' ?p = '''' # segs @ ['''', ''index.html'']"
    using split_join [of "segs @ ['''', ''index.html'']"] sl by simp
  have "norm_segs False [] ('''' # segs @ ['''', ''index.html'']) = segs @ [''index.html'']"
    using assms(1) by (simp add: norm_segs_append)
  moreover have "join_with ''/'' (segs @ [''index.html'']) = join_with ''/'' segs @ ''/index.html''"
    using assms(2) by (induction segs rule: induct_list012) auto
  ultimately have "normalize ?p = dist_dir segs @ ''index.html''"
    using sp by (simp add: normalize_def Let_def dist_dir_def)
  then show ?thesis by (simp add: join_path_def Let_def dist_dir_def)
qed

lemma file_inside:
  "starts_with (join_path (dist_dir segs) x) (dist_dir segs) \<Longrightarrow> inside (dist_dir segs) (join_path (dist_dir segs) x)"
  using join_dist_absolute [of segs x] normalize_absolute_no_climb by (auto simp: inside_def)

lemma index_inside:
  "plain_segs segs \<Longrightarrow> segs \<noteq> [] \<Longrightarrow> inside (dist_dir segs) (join_path (dist_dir segs) ''index.html'')"
  using join_index [of segs] by (intro file_inside) simp

text \<open>
  C20. No path escapes the built UI. The answer of \<open>serveStatic\<close> to any request path,
  with any percent escapes, depends only on files that lie below the dist directory and
  whose path has no \<open>..\<close> segment: two file systems that agree there give the same answer.
\<close>
theorem static_confined:
  assumes "plain_segs segs" "segs \<noteq> []"
    and "\<forall>f. inside (dist_dir segs) f \<longrightarrow> fs f = fs' f"
  shows "serve_static (dist_dir segs) fs path = serve_static (dist_dir segs) fs' path"
proof (cases "decode_uri_component path")
  case (Some decoded)
  let ?file = "join_path (dist_dir segs) (normalize decoded)"
  have ix: "fs (join_path (dist_dir segs) ''index.html'') = fs' (join_path (dist_dir segs) ''index.html'')"
    using assms index_inside by blast
  have "starts_with ?file (dist_dir segs) \<Longrightarrow> fs ?file = fs' ?file"
    using assms(3) file_inside by blast
  with ix show ?thesis
    by (cases "starts_with ?file (dist_dir segs)") (simp_all only: serve_static_def Let_def Some option.case if_True if_False not_True_eq_False not_False_eq_True)
qed (simp add: serve_static_def)

theorem static_confined_witness:
  "serve_static ''/app/dist/'' (\<lambda>f. if f = ''/etc/passwd'' then Some ''secret'' else None) ''/..%2f..%2fetc/passwd'' =
   serve_static ''/app/dist/'' (\<lambda>f. None) ''/..%2f..%2fetc/passwd''"
proof -
  have d: "dist_dir [''app'', ''dist''] = ''/app/dist/''" by (simp add: dist_dir_def)
  have p: "plain_segs [''app'', ''dist'']" "[''app'', ''dist''] \<noteq> []" by (simp_all add: plain_segs_def)
  have "\<forall>f. inside (dist_dir [''app'', ''dist'']) f \<longrightarrow>
      (if f = ''/etc/passwd'' then Some ''secret'' else None) = (\<lambda>f. None) f"
    by (auto simp: inside_def d)
  from static_confined [OF p this] show ?thesis unfolding d .
qed

end
