(* ===== verification/Proxy.thy ===== *)
theory Proxy
  imports Session
begin

text \<open>
  \<open>src/web/src/backend/proxy.mjs\<close>: the allowlist of control-plane routes and the
  forwarding of one request. \<open>proxy\<close> returns the request it sent upstream, if any, and
  its answer; what \<open>fetch\<close> yields for a request is \<open>upstream\<close> of the world.
\<close>

definition member_char :: "char \<Rightarrow> bool" where
  "member_char c \<longleftrightarrow> is_word c \<or> c \<in> set ''.@-''"

definition tenant_re :: regex where
  "tenant_re = [Lit ''/v1/me/tenants/'', Rep is_hex_dash 36 (Some 36)]"

definition api_routes :: "(string \<times> regex) list" where
  "api_routes =
    [(''GET'', [Lit ''/healthz'']),
     (''GET'', [Lit ''/v1/me/tenants'']),
     (''POST'', [Lit ''/v1/me/tenants'']),
     (''GET'', tenant_re),
     (''GET'', tenant_re @ [Lit ''/'', Alts [''peers'', ''members'']]),
     (''DELETE'', tenant_re @ [Lit ''/members/'', Rep member_char 1 None]),
     (''POST'', tenant_re @ [Lit ''/'', Alts [''invites'', ''claim'']]),
     (''POST'', [Lit ''/v1/me/invites/accept''])]"

definition route_allowed :: "string \<Rightarrow> string \<Rightarrow> bool" where
  "route_allowed meth path = list_ex (\<lambda>(m, re). m = meth \<and> re_test re path) api_routes"

definition upstream_request_of ::
  "config \<Rightarrow> string \<Rightarrow> string \<Rightarrow> string option \<Rightarrow> user \<Rightarrow> upstream_request" where
  "upstream_request_of cfg meth path bdy u =
     \<lparr>up_url = control_plane cfg @ path,
      up_method = meth,
      up_body = bdy,
      up_headers =
        (if bdy \<noteq> None then [(''Content-Type'', ''application/json'')] else []) @
        [(''Authorization'', ''Bearer '' @ control_plane_token cfg),
         (''X-Mesh2Mesh-User'', sub u),
         (''X-Mesh2Mesh-User-Email'', coalesce (email u) ''''),
         (''X-Mesh2Mesh-User-Name'', encode_uri_component (user_name u))]\<rparr>"

definition relay_answer :: "upstream_response \<Rightarrow> response outcome" where
  "relay_answer r =
     (case up_payload r of
        Inl e \<Rightarrow> Inl e
      | Inr bytes \<Rightarrow>
          send (up_status r) (Raw bytes)
            [(''Content-Type'', [coalesce (up_content_type r) ''application/json'']),
             (''Cache-Control'', [''no-store''])])"

definition proxy ::
  "config \<Rightarrow> world \<Rightarrow> request \<Rightarrow> string \<Rightarrow> user \<Rightarrow> upstream_request option \<times> response outcome" where
  "proxy cfg w req path u =
     (let meth = method_of req in
      if \<not> route_allowed meth path
      then (None, send_json 404 (error_json ''not an API route the web UI forwards''))
      else
        (case (if meth = ''POST'' then map_sum id Some (read_body req) else Inr None) of
           Inl err \<Rightarrow> (None, send_json 413 (error_json err))
         | Inr bdy \<Rightarrow>
             (let up = upstream_request_of cfg meth path bdy u in
              (Some up,
               case upstream w up of
                 Inl err \<Rightarrow> send_json 502 (error_json (''control plane unreachable at '' @ control_plane cfg))
               | Inr r \<Rightarrow> relay_answer r))))"

section \<open>The routes, spelled out\<close>

definition tenant_id :: "string \<Rightarrow> bool" where
  "tenant_id t \<longleftrightarrow> length t = 36 \<and> list_all is_hex_dash t"

definition member_id :: "string \<Rightarrow> bool" where
  "member_id m \<longleftrightarrow> m \<noteq> [] \<and> list_all member_char m"

definition tenant_path :: "string \<Rightarrow> string" where
  "tenant_path t = ''/v1/me/tenants/'' @ t"

lemma re_ok_append: "re_ok (r @ r') w \<longleftrightarrow> (\<exists>u v. w = u @ v \<and> re_ok r u \<and> re_ok r' v)"
proof (induction r arbitrary: w)
  case (Cons a r)
  show ?case
  proof
    assume "re_ok ((a # r) @ r') w"
    then obtain u x v where "w = u @ x @ v" "atom_ok a u" "re_ok r x" "re_ok r' v"
      using Cons by auto
    then show "\<exists>u v. w = u @ v \<and> re_ok (a # r) u \<and> re_ok r' v"
      by (intro exI [of _ "u @ x"] exI [of _ v]) auto
  next
    assume "\<exists>u v. w = u @ v \<and> re_ok (a # r) u \<and> re_ok r' v"
    then obtain u x v where w: "w = (u @ x) @ v" "atom_ok a u" "re_ok r x" "re_ok r' v" by auto
    then have "re_ok (r @ r') (x @ v)" using Cons by blast
    then show "re_ok ((a # r) @ r') w" using w by auto
  qed
qed simp

lemma tenant_re_ok: "re_ok tenant_re w \<longleftrightarrow> (\<exists>t. tenant_id t \<and> w = tenant_path t)"
  by (auto simp: tenant_re_def tenant_path_def tenant_id_def rep_ok_def list_all_iff)

lemma member_rep: "rep_ok member_char (Suc 0) None m \<longleftrightarrow> member_id m"
  by (auto simp: rep_ok_def member_id_def list_all_iff Suc_le_eq)

lemma re_test_lit: "re_test [Lit s] p \<longleftrightarrow> p = s"
  by (simp add: re_test_iff)

lemma re_test_tenant: "re_test tenant_re p \<longleftrightarrow> (\<exists>t. tenant_id t \<and> p = tenant_path t)"
  by (simp add: re_test_iff tenant_re_ok)

lemma re_test_tenant_sub:
  "re_test (tenant_re @ [Lit s, Alts [a, b]]) p \<longleftrightarrow>
     (\<exists>t. tenant_id t \<and> p \<in> {tenant_path t @ s @ a, tenant_path t @ s @ b})"
  by (auto simp: re_test_iff re_ok_append tenant_re_ok)

lemma re_test_tenant_member:
  "re_test (tenant_re @ [Lit s, Rep member_char 1 None]) p \<longleftrightarrow>
     (\<exists>t m. tenant_id t \<and> member_id m \<and> p = tenant_path t @ s @ m)"
  by (simp add: re_test_iff re_ok_append tenant_re_ok member_rep) blast

lemma regroup:
  "(g = m \<and> A \<or> g = m \<and> B \<or> p = m \<and> B \<or> g = m \<and> (\<exists>t. T t \<and> x = P t) \<or>
    g = m \<and> (\<exists>t. T t \<and> x \<in> {Q t, R t}) \<or> d = m \<and> (\<exists>t k. T t \<and> K k \<and> x = M t k) \<or>
    p = m \<and> (\<exists>t. T t \<and> x \<in> {U t, V t}) \<or> p = m \<and> C \<or> False) \<longleftrightarrow>
   (m = g \<and> A) \<or> (m \<in> {g, p} \<and> B) \<or> (m = p \<and> C) \<or>
   (\<exists>t. T t \<and> ((m = g \<and> x \<in> {P t, Q t, R t}) \<or> (m = p \<and> x \<in> {U t, V t}) \<or>
      (m = d \<and> (\<exists>k. K k \<and> x = M t k))))"
  by auto

lemma route_allowed_iff:
  "route_allowed meth path \<longleftrightarrow>
     (meth = ''GET'' \<and> path = ''/healthz'') \<or>
     (meth \<in> {''GET'', ''POST''} \<and> path = ''/v1/me/tenants'') \<or>
     (meth = ''POST'' \<and> path = ''/v1/me/invites/accept'') \<or>
     (\<exists>t. tenant_id t \<and>
       ((meth = ''GET'' \<and> path \<in> {tenant_path t, tenant_path t @ ''/peers'', tenant_path t @ ''/members''}) \<or>
        (meth = ''POST'' \<and> path \<in> {tenant_path t @ ''/invites'', tenant_path t @ ''/claim''}) \<or>
        (meth = ''DELETE'' \<and> (\<exists>m. member_id m \<and> path = tenant_path t @ ''/members/'' @ m))))"
  unfolding route_allowed_def api_routes_def list_ex_Cons_iff list_ex_Nil_iff prod.case
    re_test_lit re_test_tenant re_test_tenant_sub re_test_tenant_member append.simps
  by (rule regroup)

text \<open>
  The allowlist is exactly the eight families of routes the UI needs: the health check,
  the user's tenants, one tenant with its peers and members, the removal of a member, the
  invites and the claim of a tenant, and the acceptance of an invite. Nothing else reaches
  the control plane: in particular every other path than the health check lies under
  /v1/me/, so none of the routes that nodes use (tokens, registration, endpoints).
\<close>
theorem allowlist_is_exact:
  "fst (proxy cfg w req path u) \<noteq> None \<longleftrightarrow>
     (method_of req = ''POST'' \<longrightarrow> length (List.concat (chunks req)) \<le> 65536) \<and>
     ((method_of req = ''GET'' \<and> path = ''/healthz'') \<or>
      (method_of req \<in> {''GET'', ''POST''} \<and> path = ''/v1/me/tenants'') \<or>
      (method_of req = ''POST'' \<and> path = ''/v1/me/invites/accept'') \<or>
      (\<exists>t. tenant_id t \<and>
        ((method_of req = ''GET'' \<and> path \<in> {tenant_path t, tenant_path t @ ''/peers'', tenant_path t @ ''/members''}) \<or>
         (method_of req = ''POST'' \<and> path \<in> {tenant_path t @ ''/invites'', tenant_path t @ ''/claim''}) \<or>
         (method_of req = ''DELETE'' \<and> (\<exists>m. member_id m \<and> path = tenant_path t @ ''/members/'' @ m)))))"
proof -
  have "fst (proxy cfg w req path u) \<noteq> None \<longleftrightarrow>
      route_allowed (method_of req) path \<and>
      (method_of req = ''POST'' \<longrightarrow> length (List.concat (chunks req)) \<le> 65536)"
    by (simp add: proxy_def Let_def read_body_eq)
  then show ?thesis unfolding route_allowed_iff by blast
qed

definition list_tenants_request :: request where
  "list_tenants_request =
     \<lparr>req_method = Some ''GET'', pathname = ''/api/v1/me/tenants'', query = [],
      cookie_header = None, origin_header = None, chunks = []\<rparr>"

theorem allowlist_is_exact_witness:
  "fst (proxy demo_config demo_world list_tenants_request ''/v1/me/tenants'' dev_user) \<noteq> None \<and>
   fst (proxy demo_config demo_world list_tenants_request ''/v1/tenants'' dev_user) = None"
proof -
  have g: "method_of list_tenants_request = ''GET''"
    by (simp add: method_of_def list_tenants_request_def)
  have "fst (proxy demo_config demo_world list_tenants_request ''/v1/me/tenants'' dev_user) \<noteq> None"
    unfolding allowlist_is_exact g by simp
  moreover have "\<not> fst (proxy demo_config demo_world list_tenants_request ''/v1/tenants'' dev_user) \<noteq> None"
    unfolding allowlist_is_exact g by (simp add: tenant_path_def)
  ultimately show ?thesis by simp
qed

end
