(* ===== verification/Server.thy ===== *)
theory Server
  imports Proxy StaticFiles LoginFlow
begin

text \<open>
  \<open>src/web/src/backend/index.mjs\<close>: \<open>handle\<close> sends a request to the login routes, to the
  control plane or to the built files, and \<open>serve\<close> is the server's callback, which turns
  an exception of \<open>handle\<close> into a 500. The request comes with its URL parsed: that the parsing
  itself may throw, outside the callback's try, is not part of \<open>serve\<close>. Both return the login state, the request sent to the control
  plane (if any) and the answer.
\<close>

definition web_config :: "config \<Rightarrow> json" where
  "web_config cfg =
     JObj [(''publicApiUrl'', JStr (public_api_url cfg)), (''authEnabled'', JBool (oidc cfg \<noteq> None))]"

definition handle ::
  "config \<Rightarrow> string \<Rightarrow> world \<Rightarrow> request \<Rightarrow> auth \<Rightarrow> auth \<times> upstream_request option \<times> response outcome" where
  "handle cfg dist w req a =
     (let meth = method_of req; path = pathname req in
      if starts_with path ''/auth/'' then
        (case auth_route cfg w req a of (a, r) \<Rightarrow> (a, None, r))
      else if starts_with path ''/api/'' then
        (case current_user cfg w req a of
           (a, None) \<Rightarrow> (a, None, send_json 401 (error_json ''not logged in''))
         | (a, Some u) \<Rightarrow>
             if meth \<noteq> ''GET'' \<and> cross_origin cfg req
             then (a, None, send_json 403 (error_json ''cross-origin request refused''))
             else (a, proxy cfg w req (drop (length ''/api'') path) u))
      else if path = ''/config.json'' then (a, None, send_json 200 (web_config cfg))
      else if path = ''/healthz'' then (a, None, send_json 200 (JObj [(''status'', JStr ''ok'')]))
      else if meth \<noteq> ''GET'' \<and> meth \<noteq> ''HEAD'' then
        (a, None, send 405 (Raw ''method not allowed'')
           [(''Content-Type'', [''text/plain'']), (''Allow'', [''GET, HEAD''])])
      else (a, None, serve_static dist (files w) path))"

definition serve ::
  "config \<Rightarrow> string \<Rightarrow> world \<Rightarrow> request \<Rightarrow> auth \<Rightarrow> auth \<times> upstream_request option \<times> response outcome" where
  "serve cfg dist w req a =
     (case handle cfg dist w req a of
        (a, up, Inr r) \<Rightarrow> (a, up, Inr r)
      | (a, up, Inl err) \<Rightarrow> (a, up, send_json 500 (error_json ''internal error'')))"

lemma serve_upstream: "fst (snd (serve cfg dist w req a)) = fst (snd (handle cfg dist w req a))"
  by (simp add: serve_def split: prod.splits sum.splits)

lemma serve_state: "fst (serve cfg dist w req a) = fst (handle cfg dist w req a)"
  by (simp add: serve_def split: prod.splits sum.splits)

lemma send_json_not_Inl: "send_json st j \<noteq> Inl e"
  by (simp add: send_json_Inr)

section \<open>What reaches the control plane\<close>

lemma proxy_forwards:
  "fst (proxy cfg w req path u) = Some up \<Longrightarrow>
     route_allowed (method_of req) path \<and>
     up = upstream_request_of cfg (method_of req) path
       (if method_of req = ''POST'' then Some (List.concat (chunks req)) else None) u \<and>
     (method_of req = ''POST'' \<longrightarrow> length (List.concat (chunks req)) \<le> 65536)"
  by (auto simp: proxy_def Let_def read_body_eq split: if_splits)

lemma handle_forwards:
  assumes "fst (snd (handle cfg dist w req a)) = Some up"
  obtains path u where
    "pathname req = ''/api'' @ path" "snd (current_user cfg w req a) = Some u"
    "method_of req = ''GET'' \<or> \<not> cross_origin cfg req"
    "fst (proxy cfg w req path u) = Some up"
proof -
  have api: "starts_with (pathname req) ''/api/''"
    using assms by (auto simp: handle_def Let_def split: if_splits prod.splits)
  have "\<not> starts_with (pathname req) ''/auth/''"
    using assms by (auto simp: handle_def Let_def split: if_splits prod.splits)
  with api assms obtain u where u: "snd (current_user cfg w req a) = Some u"
      "method_of req = ''GET'' \<or> \<not> cross_origin cfg req"
      "fst (proxy cfg w req (drop (length ''/api'') (pathname req)) u) = Some up"
    by (auto simp: handle_def Let_def split: if_splits prod.splits option.splits)
  moreover have "pathname req = ''/api'' @ drop (length ''/api'') (pathname req)"
    using api by (auto simp: starts_with_iff)
  ultimately show thesis using that by blast
qed

text \<open>
  C1. Only logged-in users' own requests reach the control plane. Whatever is sent
  upstream was sent for a path under /api that the allowlist admits, by a request with a
  live session (or with login disabled by configuration), from the UI's own origin unless
  it is a GET; it goes to the configured control plane with the shared token, names the
  session's user in X-Mesh2Mesh-User, keeps the method, and carries a body of at most 64
  KiB for a POST and none otherwise.
\<close>
theorem upstream_needs_session:
  assumes "fst (snd (serve cfg dist w req a)) = Some up"
  shows "\<exists>path u.
    pathname req = ''/api'' @ path \<and> route_allowed (method_of req) path \<and>
    up_url up = control_plane cfg @ path \<and> up_method up = method_of req \<and>
    lookup (up_headers up) ''Authorization'' = Some (''Bearer '' @ control_plane_token cfg) \<and>
    lookup (up_headers up) ''X-Mesh2Mesh-User'' = Some (sub u) \<and>
    (method_of req = ''GET'' \<or> \<not> cross_origin cfg req) \<and>
    (case up_body up of None \<Rightarrow> method_of req \<noteq> ''POST'' | Some b \<Rightarrow> method_of req = ''POST'' \<and> length b \<le> 65536) \<and>
    (case oidc cfg of
       None \<Rightarrow> u = dev_user
     | Some o' \<Rightarrow> \<exists>i s. read_cookie req session_cookie = Some i \<and> sessions a i = Some s \<and>
         \<not> js_lt (session_expires s) (Num (clock w)) \<and> u = session_user s)"
proof -
  obtain path u where h: "pathname req = ''/api'' @ path" "snd (current_user cfg w req a) = Some u"
    "method_of req = ''GET'' \<or> \<not> cross_origin cfg req" "fst (proxy cfg w req path u) = Some up"
    using handle_forwards assms unfolding serve_upstream by metis
  note p = proxy_forwards [OF h(4)]
  have who: "case oidc cfg of
       None \<Rightarrow> u = dev_user
     | Some o' \<Rightarrow> \<exists>i s. read_cookie req session_cookie = Some i \<and> sessions a i = Some s \<and>
         \<not> js_lt (session_expires s) (Num (clock w)) \<and> u = session_user s"
    using h(2) session_of_Some [of "clock w" req a]
    by (fastforce simp: current_user_def split: option.splits prod.splits)
  have "up_url up = control_plane cfg @ path \<and> up_method up = method_of req \<and>
      lookup (up_headers up) ''Authorization'' = Some (''Bearer '' @ control_plane_token cfg) \<and>
      lookup (up_headers up) ''X-Mesh2Mesh-User'' = Some (sub u) \<and>
      (case up_body up of None \<Rightarrow> method_of req \<noteq> ''POST'' | Some b \<Rightarrow> method_of req = ''POST'' \<and> length b \<le> 65536)"
    using p by (simp add: upstream_request_of_def)
  then show ?thesis using h(1,3) p who by blast
qed

definition demo_session_request :: request where
  "demo_session_request =
     \<lparr>req_method = Some ''GET'', pathname = ''/api/v1/me/tenants'', query = [],
      cookie_header = Some ''theme=dark; m2m_session=abc-1_2; x=9'', origin_header = None, chunks = []\<rparr>"

definition demo_state :: auth where
  "demo_state = no_auth\<lparr>sessions := [''abc-1_2'' \<mapsto> new_session demo_cfg 1000 ''jwt'' demo_claims]\<rparr>"

lemma demo_session_cookie: "read_cookie demo_session_request session_cookie = Some ''abc-1_2''"
  using cookie_round_trip_demo by (simp add: read_cookie_def demo_session_request_def example_request_def session_cookie_def)

lemma demo_sent:
  "fst (snd (serve demo_config ''/app/dist/'' demo_world demo_session_request demo_state)) =
    Some (upstream_request_of demo_config ''GET'' ''/v1/me/tenants'' None (user_of_claims demo_claims))"
proof -
  have "snd (session_of 2000 demo_session_request demo_state) = Some (new_session demo_cfg 1000 ''jwt'' demo_claims)"
    unfolding session_of_Some
    by (intro exI [of _ "''abc-1_2''"]) (simp add: demo_session_cookie demo_state_def new_session_def demo_cfg_def)
  then have u: "\<exists>a'. current_user demo_config demo_world demo_session_request demo_state = (a', Some (user_of_claims demo_claims))"
    by (cases "session_of 2000 demo_session_request demo_state")
      (simp add: current_user_def demo_config_def demo_world_def new_session_def)
  have m: "method_of demo_session_request = ''GET''" "pathname demo_session_request = ''/api/v1/me/tenants''"
    by (simp_all add: method_of_def demo_session_request_def)
  have "route_allowed ''GET'' ''/v1/me/tenants''" by (simp add: route_allowed_iff)
  with u m show ?thesis unfolding serve_upstream
    by (auto simp: handle_def Let_def proxy_def)
qed

lemma demo_forwarded: "\<exists>up. fst (snd (serve demo_config ''/app/dist/'' demo_world demo_session_request demo_state)) = Some up"
  using demo_sent by blast

theorem upstream_needs_session_witness:
  "\<exists>up path (u :: user). fst (snd (serve demo_config ''/app/dist/'' demo_world demo_session_request demo_state)) = Some up \<and>
     pathname demo_session_request = ''/api'' @ path \<and> lookup (up_headers up) ''X-Mesh2Mesh-User'' = Some (sub u)"
proof -
  obtain up where up: "fst (snd (serve demo_config ''/app/dist/'' demo_world demo_session_request demo_state)) = Some up"
    using demo_forwarded by blast
  obtain path and u :: user where "pathname demo_session_request = ''/api'' @ path"
      "lookup (up_headers up) ''X-Mesh2Mesh-User'' = Some (sub u)"
    using upstream_needs_session [OF up] by (elim exE conjE) (rule that)
  with up show ?thesis by (intro exI conjI)
qed

section \<open>The identity the control plane reads\<close>

text \<open>
  \<open>asUser\<close> of \<open>src/internal/api/members.go\<close> on the other side: it takes the user id from
  the header and unescapes the name with \<open>url.QueryUnescape\<close>.
\<close>

definition go_header_name :: "(string \<times> string) list \<Rightarrow> string option" where
  "go_header_name hs = query_unescape (coalesce (lookup hs ''X-Mesh2Mesh-User-Name'') '''')"

text \<open>
  A user's display name crosses the header intact. Whatever characters it holds, the
  name the proxy escapes into X-Mesh2Mesh-User-Name is unescaped by the control plane to
  its exact UTF-8 bytes, and the escaped header holds no character that could break the
  header line.
\<close>
theorem user_name_crosses_header:
  "go_header_name (up_headers (upstream_request_of cfg meth path bdy u)) = Some (utf8 (user_name u)) \<and>
   (\<forall>v. lookup (up_headers (upstream_request_of cfg meth path bdy u)) ''X-Mesh2Mesh-User-Name'' = Some v \<longrightarrow>
     (\<forall>c \<in> set v. header_char_ok c \<and> \<not> js_space c))"
proof -
  have safe: "header_char_ok c \<and> \<not> js_space c" if "c \<in> set (encode_uri_component n)" for c n
    using encode_uri_component_chars [OF that]
    by (auto simp: uri_char_def uri_unreserved_def class_defs header_char_ok_def js_space_def)
  have "lookup (up_headers (upstream_request_of cfg meth path bdy u)) ''X-Mesh2Mesh-User-Name'' =
      Some (encode_uri_component (user_name u))"
    by (simp add: upstream_request_of_def)
  then show ?thesis using safe by (auto simp: go_header_name_def uri_go.dec_enc)
qed

theorem user_name_crosses_header_witness:
  "go_header_name (up_headers (upstream_request_of demo_config ''GET'' ''/healthz'' None (dev_user\<lparr>user_name := ''R+D 100%''\<rparr>)))
     = Some ''R+D 100%''"
  using user_name_crosses_header [of demo_config "''GET''" "''/healthz''" None "dev_user\<lparr>user_name := ''R+D 100%''\<rparr>"]
  by (simp add: utf8_ascii)

section \<open>Every request is answered\<close>

text \<open>
  The server always answers. No exception escapes \<open>serve\<close>: every request, in every
  state and whatever the provider, the control plane and the disk do, gets a response, and
  where the handler threw it is the JSON 500, with the login state the handler left.
\<close>
theorem serve_total:
  "\<exists>r. snd (snd (serve cfg dist w req a)) = Inr r \<and>
     (\<forall>err. snd (snd (handle cfg dist w req a)) = Inl err \<longrightarrow>
        status r = 500 \<and> body r = Json (error_json ''internal error'')) \<and>
     fst (serve cfg dist w req a) = fst (handle cfg dist w req a)"
  by (auto simp: serve_def send_json_Inr split: prod.splits sum.splits)

definition escaped_request :: request where
  "escaped_request = demo_session_request\<lparr>pathname := ''/%zz''\<rparr>"

theorem serve_total_witness:
  "\<exists>r. snd (snd (serve demo_config ''/app/dist/'' demo_world escaped_request demo_state)) = Inr r \<and> status r = 500"
proof -
  have "snd (snd (handle demo_config ''/app/dist/'' demo_world escaped_request demo_state)) = Inl ''URI malformed''"
    by (simp add: handle_def escaped_request_def demo_session_request_def method_of_def serve_static_def
        decode_uri_component_def hex_value_def)
  then show ?thesis
    using serve_total [of demo_config "''/app/dist/''" demo_world escaped_request demo_state] by blast
qed

end
