(* ===== verification/ApiClient.thy ===== *)
theory ApiClient
  imports Proxy
begin

text \<open>
  \<open>src/web/src/frontend/api.ts\<close>: the types of the control plane's answers, the request
  helper with its \<open>ApiError\<close>, the queries the pages subscribe to and the calls they
  make. A call is what the helper hands to \<open>fetch\<close>; \<open>fetch\<close> itself is an argument.
  The source casts a body to the declared type without a check, so the records below
  are those declared types. The \<open>User\<close> type is the \<open>user\<close> record of the server.
\<close>

section \<open>The types\<close>

datatype role = Owner | Member

fun show_role :: "role \<Rightarrow> string" where
  "show_role Owner = ''owner''"
| "show_role Member = ''member''"

record tenant =
  t_id :: string
  t_name :: string
  t_cidr :: string
  t_created_at :: string
  t_role :: role

record member =
  m_user_id :: string
  m_email :: string
  m_name :: string
  m_role :: role
  m_created_at :: string

record invite =
  i_id :: string
  i_code :: string
  i_role :: role
  i_max_uses :: nat
  i_expires_at :: string

record peer =
  p_id :: string
  p_name :: string
  p_public_key :: string
  p_mesh_ip :: string
  p_created_at :: string
  p_direct_reachable :: bool
  p_endpoint :: "string option"
  p_endpoint_updated_at :: "string option"
  p_nat_endpoint :: "string option"

record runtime_config =
  rc_public_api_url :: string
  rc_auth_enabled :: bool

text \<open>Errors a page can get: the API's, or whatever \<open>fetch\<close> or the code threw.\<close>

datatype api_error = ApiError nat string | OtherError string

fun error_message :: "api_error \<Rightarrow> string" where
  "error_message (ApiError st msg) = msg"
| "error_message (OtherError msg) = msg"

section \<open>The request helper\<close>

record call =
  c_path :: string
  c_method :: string
  c_headers :: "(string \<times> string) list"
  c_body :: "json option"

record fetched =
  f_status :: nat
  f_status_text :: string
  f_json :: "json option"

type_synonym fetcher = "call \<Rightarrow> fetched outcome"

text \<open>
  The headers follow the body, as \<open>init?.body\<close> does: a JSON text is never the empty
  string. A call without a method is a GET.
\<close>

definition call_of :: "string \<Rightarrow> string option \<Rightarrow> json option \<Rightarrow> call" where
  "call_of path meth bdy =
     \<lparr>c_path = path, c_method = coalesce meth ''GET'',
      c_headers = (if bdy \<noteq> None then [(''Content-Type'', ''application/json'')] else []),
      c_body = bdy\<rparr>"

text \<open>\<open>body?.error\<close>: nothing has the property but an object.\<close>

fun error_field :: "json \<Rightarrow> json option" where
  "error_field (JObj fs) = (case lookup fs ''error'' of Some JNull \<Rightarrow> None | v \<Rightarrow> v)"
| "error_field _ = None"

text \<open>The \<open>Error\<close> constructor turns its message into a string.\<close>

fun json_text :: "json \<Rightarrow> string" where
  "json_text JNull = ''null''"
| "json_text (JBool b) = (if b then ''true'' else ''false'')"
| "json_text (JNum n) = show_int n"
| "json_text (JStr s) = s"
| "json_text (JArr vs) = join_with '','' (map (\<lambda>v. if v = JNull then [] else json_text v) vs)"
| "json_text (JObj fs) = ''[object Object]''"

definition response_ok :: "fetched \<Rightarrow> bool" where
  "response_ok r \<longleftrightarrow> 200 \<le> f_status r \<and> f_status r \<le> 299"

definition api_request :: "fetcher \<Rightarrow> call \<Rightarrow> api_error + json" where
  "api_request fetch c =
     (case fetch c of
        Inl e \<Rightarrow> Inl (OtherError e)
      | Inr res \<Rightarrow>
          (let bdy = coalesce (f_json res) JNull in
           if \<not> response_ok res
           then Inl (ApiError (f_status res)
                  (json_text (coalesce (error_field bdy)
                    (JStr (show_nat (f_status res) @ '' '' @ f_status_text res)))))
           else Inr bdy))"

section \<open>The queries\<close>

datatype stale_time = DefaultStale | StaleMs nat | StaleNever

record query_options =
  q_key :: "string list"
  q_call :: call
  q_field :: "string option"
  q_stale :: stale_time
  q_refetch :: "nat option"
  q_retry :: bool

definition peer_refresh_ms :: nat where
  "peer_refresh_ms = 15000"

definition query_get :: "string list \<Rightarrow> string \<Rightarrow> string option \<Rightarrow> query_options" where
  "query_get key path field =
     \<lparr>q_key = key, q_call = call_of path None None, q_field = field,
      q_stale = DefaultStale, q_refetch = None, q_retry = True\<rparr>"

definition me_query :: query_options where
  "me_query = (query_get [''me''] ''/auth/me'' None)\<lparr>q_stale := StaleMs 60000\<rparr>"

definition health_query :: query_options where
  "health_query =
     (query_get [''health''] ''/api/healthz'' None)\<lparr>q_refetch := Some peer_refresh_ms, q_retry := False\<rparr>"

definition config_query :: query_options where
  "config_query = (query_get [''config''] ''/config.json'' None)\<lparr>q_stale := StaleNever\<rparr>"

definition me_path :: string where
  "me_path = ''/api/v1/me''"

definition tenant_url :: "string \<Rightarrow> string" where
  "tenant_url t = me_path @ ''/tenants/'' @ encode_uri_component t"

definition tenants_query :: query_options where
  "tenants_query = query_get [''tenants''] (me_path @ ''/tenants'') (Some ''tenants'')"

definition peers_query :: "string \<Rightarrow> query_options" where
  "peers_query t =
     (query_get [''tenants'', t, ''peers''] (tenant_url t @ ''/peers'') (Some ''peers''))
       \<lparr>q_refetch := Some peer_refresh_ms\<rparr>"

definition members_query :: "string \<Rightarrow> query_options" where
  "members_query t = query_get [''tenants'', t, ''members''] (tenant_url t @ ''/members'') (Some ''members'')"

text \<open>The query function: the whole body, or one property of it (null has none).\<close>

definition run_query :: "fetcher \<Rightarrow> query_options \<Rightarrow> api_error + json option" where
  "run_query fetch q =
     (case api_request fetch (q_call q) of
        Inl e \<Rightarrow> Inl e
      | Inr bdy \<Rightarrow>
          (case q_field q of
             None \<Rightarrow> Inr (Some bdy)
           | Some f \<Rightarrow>
               (case bdy of
                  JNull \<Rightarrow> Inl (OtherError ''TypeError'')
                | JObj fs \<Rightarrow> Inr (lookup fs f)
                | _ \<Rightarrow> Inr None)))"

section \<open>The calls\<close>

definition post :: "string \<Rightarrow> json \<Rightarrow> call" where
  "post path bdy = call_of path (Some ''POST'') (Some bdy)"

text \<open>\<open>input.cidr ? input : { name }\<close>: an empty range is left out too.\<close>

definition create_tenant :: "string \<Rightarrow> string option \<Rightarrow> call" where
  "create_tenant name cidr =
     post (me_path @ ''/tenants'')
       (case cidr of
          Some c \<Rightarrow> if truthy c then JObj [(''name'', JStr name), (''cidr'', JStr c)] else JObj [(''name'', JStr name)]
        | None \<Rightarrow> JObj [(''name'', JStr name)])"

definition create_invite :: "string \<Rightarrow> role \<Rightarrow> nat \<Rightarrow> nat \<Rightarrow> call" where
  "create_invite t r ttl uses =
     post (tenant_url t @ ''/invites'')
       (JObj [(''role'', JStr (show_role r)), (''ttl_seconds'', JNum (int ttl)), (''max_uses'', JNum (int uses))])"

definition accept_invite :: "string \<Rightarrow> call" where
  "accept_invite code = post (me_path @ ''/invites/accept'') (JObj [(''code'', JStr code)])"

definition claim_tenant :: "string \<Rightarrow> call" where
  "claim_tenant t = post (tenant_url t @ ''/claim'') (JObj [])"

definition remove_member :: "string \<Rightarrow> string \<Rightarrow> call" where
  "remove_member t u = call_of (tenant_url t @ ''/members/'' @ encode_uri_component u) (Some ''DELETE'') None"

lemmas call_defs =
  create_tenant_def create_invite_def accept_invite_def claim_tenant_def remove_member_def
  peers_query_def members_query_def tenants_query_def health_query_def query_get_def post_def call_of_def

section \<open>What the proxy makes of them\<close>

lemma tenant_id_plain: "tenant_id t \<Longrightarrow> encode_uri_component t = t"
  by (rule encode_uri_component_id)
    (auto simp: tenant_id_def list_all_iff uri_unreserved_def class_defs)

lemma escaped_has_percent:
  "b \<in> set s \<Longrightarrow> keep b = None \<Longrightarrow> CHR ''%'' \<in> set (escape_bytes keep s)"
  by (force simp: escape_bytes_def escape_byte_def Let_def)

lemma utf8_high: "c \<in> set s \<Longrightarrow> \<exists>b \<in> set (utf8 s). if of_char c < (128::nat) then b = c else 128 \<le> (of_char b :: nat)"
proof (induction s)
  case (Cons d s)
  show ?case
  proof (cases "c = d")
    case True
    have "128 \<le> (of_char c :: nat) \<Longrightarrow> (of_char c :: nat) < 256" by simp
    then have "\<exists>b \<in> set (utf8_char c). if of_char c < (128::nat) then b = c else 128 \<le> (of_char b :: nat)"
      by (auto simp: utf8_char_def Let_def)
    then show ?thesis using True by (auto simp: utf8_def)
  next
    case False
    then show ?thesis using Cons by (fastforce simp: utf8_def)
  qed
qed simp

lemma not_unreserved_escaped:
  assumes "c \<in> set s" "\<not> uri_unreserved c"
  shows "CHR ''%'' \<in> set (encode_uri_component s)"
proof -
  obtain b where b: "b \<in> set (utf8 s)" "if of_char c < (128::nat) then b = c else 128 \<le> (of_char b :: nat)"
    using utf8_high [OF assms(1)] by blast
  have "\<not> uri_unreserved b"
    using b(2) assms(2) by (auto simp: uri_unreserved_def class_defs split: if_splits)
  then show ?thesis
    using escaped_has_percent [OF b(1)] by (simp add: encode_uri_component_def)
qed

definition plain_member_char :: "char \<Rightarrow> bool" where
  "plain_member_char c \<longleftrightarrow> is_word c \<or> c = CHR ''.'' \<or> c = CHR ''-''"

lemma member_id_encoded_iff:
  "member_id (encode_uri_component u) \<longleftrightarrow> u \<noteq> [] \<and> list_all plain_member_char u"
proof
  assume m: "member_id (encode_uri_component u)"
  have "u \<noteq> []" using m by (auto simp: member_id_def encode_uri_component_def utf8_def)
  moreover have plain: "uri_unreserved c" if "c \<in> set u" for c
  proof (rule ccontr)
    assume "\<not> uri_unreserved c"
    then have "CHR ''%'' \<in> set (encode_uri_component u)" using not_unreserved_escaped [OF that] by blast
    moreover have "\<not> member_char (CHR ''%'')" by code_simp
    ultimately show False using m by (auto simp: member_id_def list_all_iff)
  qed
  then have "encode_uri_component u = u" by (intro encode_uri_component_id) auto
  then have "list_all plain_member_char u"
    using m plain by (auto simp: member_id_def member_char_def list_all_iff plain_member_char_def uri_unreserved_def class_defs is_word_def)
  ultimately show "u \<noteq> [] \<and> list_all plain_member_char u" by simp
next
  assume u: "u \<noteq> [] \<and> list_all plain_member_char u"
  then have "encode_uri_component u = u"
    by (intro encode_uri_component_id) (auto simp: list_all_iff plain_member_char_def uri_unreserved_def is_word_def)
  with u show "member_id (encode_uri_component u)"
    by (auto simp: member_id_def member_char_def list_all_iff plain_member_char_def)
qed

text \<open>
  What \<open>fetch\<close> and \<open>new URL\<close> make of a path: segments of one or two dots, percent-encoded
  or not, are resolved. (A path of the client holds only the characters of an encoded URI.)
\<close>

definition single_dot :: "string \<Rightarrow> bool" where
  "single_dot s \<longleftrightarrow> to_lower s \<in> {''.'', ''%2e''}"

definition double_dot :: "string \<Rightarrow> bool" where
  "double_dot s \<longleftrightarrow> to_lower s \<in> {''..'', ''.%2e'', ''%2e.'', ''%2e%2e''}"

fun resolve_dots :: "string list \<Rightarrow> string list \<Rightarrow> string list" where
  "resolve_dots acc [] = acc"
| "resolve_dots acc (s # ss) =
     resolve_dots
       (if double_dot s then butlast acc @ (if ss = [] then [[]] else [])
        else if single_dot s then acc @ (if ss = [] then [[]] else [])
        else acc @ [s]) ss"

definition url_pathname :: "string \<Rightarrow> string" where
  "url_pathname p = ''/'' @ join_with ''/'' (resolve_dots [] (tl (split_on CHR ''/'' p)))"

text \<open>The proxy sees the pathname of a call without its /api prefix.\<close>

definition forwarded :: "call \<Rightarrow> bool" where
  "forwarded c \<longleftrightarrow>
     starts_with (url_pathname (c_path c)) ''/api/'' \<and> route_allowed (c_method c) (drop 4 (url_pathname (c_path c)))"

text \<open>A path without such segments stays as it is.\<close>

definition dotless :: "string \<Rightarrow> bool" where
  "dotless p \<longleftrightarrow> list_all (\<lambda>s. \<not> single_dot s \<and> \<not> double_dot s) (split_on CHR ''/'' p)"

lemma split_on_app: "split_on c (a @ c # b) = split_on c a @ split_on c b"
  by (induction a) (auto split: list.splits)

lemma join_split: "join_with [c] (split_on c s) = s"
proof (induction s)
  case (Cons x s)
  then show ?case by (cases "split_on c s"; cases "tl (split_on c s)") auto
qed simp

lemma dotless_app: "dotless (a @ CHR ''/'' # b) \<longleftrightarrow> dotless a \<and> dotless b"
  by (simp add: dotless_def split_on_app)

lemma resolve_dots_none:
  "list_all (\<lambda>s. \<not> single_dot s \<and> \<not> double_dot s) xs \<Longrightarrow> resolve_dots acc (xs @ ys) = resolve_dots (acc @ xs) ys"
  by (induction xs arbitrary: acc) auto

lemma url_pathname_dotless:
  assumes "dotless (CHR ''/'' # p)"
  shows "url_pathname (CHR ''/'' # p) = CHR ''/'' # p"
  using assms resolve_dots_none [of "split_on CHR ''/'' p" "[]" "[]"]
  by (simp add: url_pathname_def dotless_def join_split)

lemma dots_length: "single_dot s \<or> double_dot s \<Longrightarrow> length s \<le> 6"
proof -
  have "length s = length (to_lower s)" by (simp add: to_lower_def)
  then show "single_dot s \<or> double_dot s \<Longrightarrow> length s \<le> 6" by (auto simp: single_dot_def double_dot_def)
qed

lemma tenant_id_dotless:
  assumes "tenant_id t"
  shows "CHR ''/'' \<notin> set t" "\<not> single_dot t" "\<not> double_dot t" "dotless t"
proof -
  show c: "CHR ''/'' \<notin> set t" using assms by (auto simp: tenant_id_def list_all_iff class_defs)
  show "\<not> single_dot t" "\<not> double_dot t" using assms dots_length [of t] by (auto simp: tenant_id_def)
  then show "dotless t" using c by (simp add: dotless_def split_on_none)
qed

lemma tenants_dotless: "dotless ''/api/v1/me/tenants''"
  by code_simp

lemma tenant_url_path: "tenant_id t \<Longrightarrow> tenant_url t @ s = ''/api'' @ tenant_path t @ s"
  by (simp add: tenant_url_def me_path_def tenant_id_plain tenant_path_def)

lemma tenant_path_inj: "tenant_id t \<Longrightarrow> tenant_id t' \<Longrightarrow> tenant_path t @ r = tenant_path t' @ r' \<longleftrightarrow> t = t' \<and> r = r'"
  by (auto simp: tenant_path_def tenant_id_def)

lemma tenant_pathname:
  assumes "tenant_id t"
  shows "url_pathname (tenant_url t @ CHR ''/'' # s) =
    ''/'' @ join_with ''/'' (resolve_dots [''api'', ''v1'', ''me'', ''tenants'', t] (split_on CHR ''/'' s))"
proof -
  have "list_all (\<lambda>s. \<not> single_dot s \<and> \<not> double_dot s) [''api'', ''v1'', ''me'', ''tenants'', t]"
    using tenants_dotless tenant_id_dotless(2,3) [OF assms] by (simp add: dotless_def split_on_none)
  then have "resolve_dots [] ([''api'', ''v1'', ''me'', ''tenants'', t] @ split_on CHR ''/'' s) =
      resolve_dots [''api'', ''v1'', ''me'', ''tenants'', t] (split_on CHR ''/'' s)"
    by (simp only: resolve_dots_none append_Nil)
  moreover have "tl (split_on CHR ''/'' (tenant_url t @ CHR ''/'' # s)) =
      [''api'', ''v1'', ''me'', ''tenants'', t] @ split_on CHR ''/'' s"
    using tenant_id_dotless(1) [OF assms]
    by (simp add: tenant_url_path [OF assms] tenant_path_def split_on_append)
  ultimately show ?thesis by (simp add: url_pathname_def)
qed

lemma forwarded_iff:
  assumes "c_path c = ''/api'' @ CHR ''/'' # p" "dotless p"
  shows "forwarded c \<longleftrightarrow> route_allowed (c_method c) (CHR ''/'' # p)"
proof -
  have "dotless ''/api''" by code_simp
  then have "dotless (''/api'' @ CHR ''/'' # p)" using assms(2) unfolding dotless_app by simp
  then show ?thesis using url_pathname_dotless [of "''api/'' @ p"] assms(1) by (simp add: forwarded_def)
qed

lemma delete_allowed_iff:
  "tenant_id t \<Longrightarrow> route_allowed ''DELETE'' (tenant_path t @ ''/members/'' @ m) \<longleftrightarrow> member_id m"
  unfolding route_allowed_iff by (auto simp: tenant_path_inj)

lemma forwarded_tenant:
  assumes "tenant_id t" "c_path c = tenant_url t @ CHR ''/'' # s" "dotless s"
  shows "forwarded c \<longleftrightarrow> route_allowed (c_method c) (tenant_path t @ CHR ''/'' # s)"
proof -
  have "dotless (''v1/me/tenants/'' @ t @ CHR ''/'' # s)"
    using tenants_dotless tenant_id_dotless [OF assms(1)] assms(3)
    by (simp add: dotless_def split_on_append split_on_none)
  then show ?thesis
    using forwarded_iff [of c "''v1/me/tenants/'' @ t @ CHR ''/'' # s"] assms(2)
      tenant_url_path [OF assms(1), of "CHR ''/'' # s"]
    by (simp add: tenant_path_def)
qed

lemma plain_dotless: "dotless ''peers''" "dotless ''members''" "dotless ''invites''" "dotless ''claim''"
  "dotless ''healthz''" "dotless ''v1/me/tenants''" "dotless ''v1/me/invites/accept''"
  by code_simp+

lemma claim_forwarded: "tenant_id t \<Longrightarrow> forwarded (claim_tenant t)"
  by (subst forwarded_tenant [where s = "''claim''"]) (auto simp: call_defs route_allowed_iff plain_dotless)

lemma lower_low: "lower_char c = d \<Longrightarrow> of_char d < (97 :: nat) \<Longrightarrow> c = d"
  by (auto simp: lower_char_def Let_def split: if_splits)

lemma lower_symbol: "lower_char c = CHR ''.'' \<longleftrightarrow> c = CHR ''.''" "lower_char c = CHR ''%'' \<longleftrightarrow> c = CHR ''%''"
  using lower_low [of c "CHR ''.''"] lower_low [of c "CHR ''%''"] by (auto simp: lower_char_def)

lemma dots_lower: "to_lower u \<in> {''.'', ''..''} \<Longrightarrow> u \<in> {''.'', ''..''}"
  by (auto simp: to_lower_def map_eq_Cons_conv lower_symbol)

text \<open>The removal of a member whose id is dots names another path.\<close>

lemma removal_forwarded:
  assumes t: "tenant_id t"
  shows "forwarded (remove_member t u) \<longleftrightarrow> u \<noteq> [] \<and> list_all plain_member_char u \<and> u \<notin> {''.'', ''..''}"
proof -
  let ?e = "encode_uri_component u"
  have path: "c_path (remove_member t u) = tenant_url t @ CHR ''/'' # ''members/'' @ ?e"
    and meth: "c_method (remove_member t u) = ''DELETE''"
    by (simp_all add: remove_member_def call_of_def)
  have e: "CHR ''/'' \<notin> set ?e"
  proof
    assume "CHR ''/'' \<in> set ?e"
    from encode_uri_component_chars [OF this] show False
      by (auto simp: uri_char_def uri_unreserved_def class_defs)
  qed
  have same: "?e = u" if "list_all plain_member_char u"
    using that by (intro encode_uri_component_id) (auto simp: list_all_iff plain_member_char_def uri_unreserved_def is_word_def)
  have "\<not> single_dot ''members'' \<and> \<not> double_dot ''members''" by code_simp
  then have seg: "dotless (''members/'' @ ?e) \<longleftrightarrow> \<not> single_dot ?e \<and> \<not> double_dot ?e"
    using e by (simp add: dotless_def split_on_append split_on_none)
  show ?thesis
  proof (cases "single_dot ?e \<or> double_dot ?e")
    case False
    then have "forwarded (remove_member t u) \<longleftrightarrow> member_id ?e"
      using forwarded_tenant [OF t path] delete_allowed_iff [OF t, of ?e] seg meth by simp
    moreover have "u \<notin> {''.'', ''..''}" if "list_all plain_member_char u"
      using False same [OF that] by (auto simp: single_dot_def double_dot_def to_lower_def lower_char_def)
    ultimately show ?thesis by (auto simp: member_id_encoded_iff)
  next
    case True
    have "url_pathname (c_path (remove_member t u)) =
        ''/api'' @ tenant_path t @ (if double_dot ?e then ''/'' else ''/members/'')"
      using True \<open>\<not> single_dot ''members'' \<and> \<not> double_dot ''members''\<close> e
      unfolding path tenant_pathname [OF t]
      by (auto simp: split_on_append split_on_none tenant_path_def)
    then have "\<not> forwarded (remove_member t u)"
      using t by (auto simp: forwarded_def meth route_allowed_iff tenant_path_inj member_id_def split: if_splits)
    moreover have "u \<in> {''.'', ''..''}" if "list_all plain_member_char u"
    proof -
      have "CHR ''%'' \<notin> set u" using that by (auto simp: list_all_iff plain_member_char_def is_word_def class_defs)
      then have "CHR ''%'' \<notin> set (to_lower u)" using lower_symbol(2) by (force simp: to_lower_def)
      then have "to_lower u \<in> {''.'', ''..''}" using True same [OF that] by (auto simp: single_dot_def double_dot_def)
      then show ?thesis using dots_lower by auto
    qed
    ultimately show ?thesis by blast
  qed
qed

text \<open>
  C27. The client and the proxy agree on every call but one. For a tenant id of the API's
  shape, the health check and every query and call of the client is a route that the proxy
  forwards, whatever the names, codes and ranges the user types, once the URL parser has
  resolved its path. The removal of a member is
  forwarded exactly when the user id is made of word characters, dots and dashes and is not
  itself one or two dots: those the parser resolves to the list of members or to the tenant,
  which the proxy refuses to delete. The
  proxy's pattern also allows an at sign, but the client percent-encodes it, so the removal
  of a user whose id holds one is always refused.
\<close>
theorem ui_calls_forwarded:
  assumes t: "tenant_id t"
  shows "forwarded (q_call health_query) \<and> forwarded (q_call tenants_query) \<and>
    forwarded (q_call (peers_query t)) \<and> forwarded (q_call (members_query t)) \<and>
    forwarded (create_tenant name cidr) \<and> forwarded (create_invite t r ttl uses) \<and>
    forwarded (accept_invite code) \<and> forwarded (claim_tenant t) \<and>
    (forwarded (remove_member t u) \<longleftrightarrow>
      u \<noteq> [] \<and> list_all (\<lambda>c. is_word c \<or> c \<in> {CHR ''.'', CHR ''-''}) u \<and> u \<notin> {''.'', ''..''})"
proof -
  note p = forwarded_tenant [OF t]
  have f1: "forwarded (q_call health_query)"
    by (subst forwarded_iff [where p = "''healthz''"]) (simp_all add: call_defs route_allowed_iff plain_dotless)
  have f2: "forwarded (q_call tenants_query)"
    by (subst forwarded_iff [where p = "''v1/me/tenants''"]) (simp_all add: call_defs me_path_def route_allowed_iff plain_dotless)
  have f3: "forwarded (q_call (peers_query t))"
    using t by (subst p [where s = "''peers''"]) (auto simp: call_defs route_allowed_iff plain_dotless)
  have f4: "forwarded (q_call (members_query t))"
    using t by (subst p [where s = "''members''"]) (auto simp: call_defs route_allowed_iff plain_dotless)
  have f5: "forwarded (create_tenant name cidr)"
    by (subst forwarded_iff [where p = "''v1/me/tenants''"]) (simp_all add: call_defs me_path_def route_allowed_iff plain_dotless)
  have f6: "forwarded (create_invite t r ttl uses)"
    using t by (subst p [where s = "''invites''"]) (auto simp: call_defs route_allowed_iff plain_dotless)
  have f7: "forwarded (accept_invite code)"
    by (subst forwarded_iff [where p = "''v1/me/invites/accept''"]) (simp_all add: call_defs me_path_def route_allowed_iff plain_dotless)
  have f8: "forwarded (claim_tenant t)" by (rule claim_forwarded [OF t])
  have f9: "forwarded (remove_member t u) \<longleftrightarrow>
      u \<noteq> [] \<and> list_all (\<lambda>c. is_word c \<or> c \<in> {CHR ''.'', CHR ''-''}) u \<and> u \<notin> {''.'', ''..''}"
    unfolding removal_forwarded [OF t] by (simp add: plain_member_char_def [abs_def])
  show ?thesis by (intro conjI f1 f2 f3 f4 f5 f6 f7 f8 f9)
qed

definition demo_tenant_id :: string where
  "demo_tenant_id = ''0f8fad5b-d9cb-469f-a165-70867728950e''"

theorem ui_calls_forwarded_witness:
  "forwarded (q_call (peers_query demo_tenant_id)) \<and>
   \<not> forwarded (remove_member demo_tenant_id ''ada@example.org'')"
proof -
  have "tenant_id demo_tenant_id" by code_simp
  note f = ui_calls_forwarded [OF this]
  have "\<not> list_all (\<lambda>c. is_word c \<or> c \<in> {CHR ''.'', CHR ''-''}) ''ada@example.org''"
    by (simp add: is_word_def class_defs)
  then show ?thesis using f by blast
qed

end
