(* ===== verification/Membership.thy ===== *)
theory Membership
  imports ApiClient
begin

text \<open>
  The control plane's side of the member pages: the decisions of \<open>createInvite\<close> and
  \<open>removeMember\<close> in \<open>internal/api/members.go\<close>, taken once the caller is known to be a
  member of the tenant. Go's \<open>int\<close> and \<open>time.Duration\<close> are 64-bit and wrap around.
\<close>

definition wrap64 :: "int \<Rightarrow> int" where
  "wrap64 x = (x + 2 ^ 63) mod 2 ^ 64 - 2 ^ 63"

lemma wrap64_id: "- (2 ^ 63) \<le> x \<Longrightarrow> x < 2 ^ 63 \<Longrightarrow> wrap64 x = x"
  by (simp add: wrap64_def)

definition second_ns :: int where
  "second_ns = 1000000000"

definition default_invite_ttl :: int where
  "default_invite_ttl = 7 * 24 * 3600 * second_ns"

definition max_invite_ttl :: int where
  "max_invite_ttl = 30 * 24 * 3600 * second_ns"

definition max_invite_uses :: int where
  "max_invite_uses = 100"

text \<open>The answer of a refused request: its status and its message.\<close>

type_synonym refusal = "nat \<times> string"

text \<open>The caller must be an owner; absent fields are the empty string and zero.\<close>

definition invite_options :: "role \<Rightarrow> string \<Rightarrow> int \<Rightarrow> int \<Rightarrow> refusal + string \<times> int \<times> int" where
  "invite_options caller role_text ttl_seconds max_uses =
     (if caller \<noteq> Owner then Inl (403, ''only owners of this tenant can do that'')
      else
        (let r = (if role_text = [] then ''member'' else role_text) in
         if r \<noteq> ''member'' \<and> r \<noteq> ''owner'' then Inl (400, ''role must be member or owner'')
         else
           (let ttl = (if ttl_seconds \<noteq> 0 then wrap64 (ttl_seconds * second_ns) else default_invite_ttl) in
            if ttl \<le> 0 \<or> max_invite_ttl < ttl then Inl (400, ''ttl_seconds must be between 1 and 2592000'')
            else
              (let uses = (if max_uses \<noteq> 0 then max_uses else 1) in
               if uses < 1 \<or> max_invite_uses < uses then Inl (400, ''max_uses must be between 1 and 100'')
               else Inr (r, ttl, uses)))))"

definition remove_authorized :: "role \<Rightarrow> string \<Rightarrow> string \<Rightarrow> refusal option" where
  "remove_authorized caller_role caller target =
     (if target \<noteq> caller \<and> caller_role \<noteq> Owner
      then Some (403, ''only owners of this tenant can remove others'') else None)"

lemma invite_options_ok:
  assumes "0 < ttl" "ttl \<le> 2592000" "1 \<le> uses" "uses \<le> 100" "r \<in> {''member'', ''owner''}"
  shows "invite_options Owner r ttl uses = Inr (r, ttl * second_ns, uses)"
proof -
  have "wrap64 (ttl * second_ns) = ttl * second_ns"
    using assms(1,2) by (intro wrap64_id) (simp_all add: second_ns_def)
  moreover have "0 < ttl * second_ns" "ttl * second_ns \<le> max_invite_ttl"
    using assms(1,2) by (simp_all add: second_ns_def max_invite_ttl_def)
  moreover have "r \<noteq> []" "r = ''member'' \<or> r = ''owner''" using assms(5) by auto
  ultimately show ?thesis using assms(1,3,4)
    by (auto simp: invite_options_def Let_def max_invite_uses_def)
qed

end
