(* ===== verification/MeshdCli.thy ===== *)
theory MeshdCli
  imports Prelude
begin

text \<open>
  How meshd reads the commands that the console shows: \<open>enrollFlags.parse\<close> of
  \<open>cmd/meshd/commands.go\<close> over Go's \<open>flag\<close> package. A parsed flag set is the list of
  the values given, the last one first; \<open>known\<close> holds the names of its flags, all of
  string type, and the flags keep their defaults when not given.
\<close>

type_synonym flags = "(string \<times> string) list"

text \<open>\<open>strings.Index(s[1:], "=")\<close>: a flag with its value in one argument.\<close>

definition split_flag :: "string \<Rightarrow> string \<times> string option" where
  "split_flag s =
     (case dropWhile (\<lambda>c. c \<noteq> CHR ''='') s of
        [] \<Rightarrow> (s, None)
      | e # v \<Rightarrow> (takeWhile (\<lambda>c. c \<noteq> CHR ''='') s, Some v))"

text \<open>\<open>FlagSet.Parse\<close>: it stops at the first argument that is not a flag, or after --.\<close>

fun flag_parse :: "string list \<Rightarrow> flags \<Rightarrow> string list \<Rightarrow> (flags \<times> string list) outcome" where
  "flag_parse known fs [] = Inr (fs, [])"
| "flag_parse known fs (a # as) =
     (if length a < 2 \<or> hd a \<noteq> CHR ''-'' then Inr (fs, a # as)
      else if a = ''--'' then Inr (fs, as)
      else
        (let s = (if a ! 1 = CHR ''-'' then drop 2 a else drop 1 a) in
         if s = [] \<or> hd s = CHR ''-'' \<or> hd s = CHR ''='' then Inl (''bad flag syntax: '' @ a)
         else
           (case split_flag s of
              (name, value) \<Rightarrow>
                if name \<notin> set known then Inl (''flag provided but not defined: -'' @ name)
                else
                  (case value of
                     Some v \<Rightarrow> flag_parse known ((name, v) # fs) as
                   | None \<Rightarrow>
                       (case as of
                          [] \<Rightarrow> Inl (''flag needs an argument: -'' @ name)
                        | v # as' \<Rightarrow> flag_parse known ((name, v) # fs) as')))))"

text \<open>\<open>strings.TrimSpace\<close>, among the first 256 code points.\<close>

definition go_space :: "char \<Rightarrow> bool" where
  "go_space c \<longleftrightarrow> js_space c \<or> (of_char c :: nat) = 133"

definition go_trim :: "string \<Rightarrow> string" where
  "go_trim s = rev (dropWhile go_space (rev (dropWhile go_space s)))"

lemma go_trim_id: "\<forall>c \<in> set s. \<not> go_space c \<Longrightarrow> go_trim s = s"
  by (simp add: go_trim_def dropWhile_none)

text \<open>The flags and the single positional argument, before or after them.\<close>

definition enroll_parse :: "string \<Rightarrow> string list \<Rightarrow> string \<Rightarrow> string list \<Rightarrow> (flags \<times> string) outcome" where
  "enroll_parse cmd known arg_name args =
     (case flag_parse known [] args of
        Inl e \<Rightarrow> Inl e
      | Inr (fs, []) \<Rightarrow> Inl (cmd @ '': expected <'' @ arg_name @ ''>'')
      | Inr (fs, r # rest) \<Rightarrow>
          (let arg = go_trim r in
           (case flag_parse known fs rest of
              Inl e \<Rightarrow> Inl e
            | Inr (fs', a # _) \<Rightarrow> Inl (cmd @ '': unexpected argument '' @ a)
            | Inr (fs', []) \<Rightarrow>
                if arg = [] then Inl (cmd @ '': <'' @ arg_name @ ''> is empty'')
                else Inr (fs', arg))))"

definition join_flags :: "string list" where
  "join_flags = [''api'', ''state'', ''name'']"

definition setup_flags :: "string list" where
  "setup_flags = [''api'', ''state'', ''name'', ''cidr'']"

text \<open>
  \<open>strconv.ParseInt(s, 0, 64)\<close>, as an integer flag of Go reads a short string of decimal
  digits: a leading zero means octal.
\<close>

definition digit_value :: "char \<Rightarrow> nat" where
  "digit_value c = of_char c - 48"

definition digits_value :: "nat \<Rightarrow> string \<Rightarrow> nat" where
  "digits_value b s = foldl (\<lambda>n c. b * n + digit_value c) 0 s"

definition go_int :: "string \<Rightarrow> nat option" where
  "go_int s =
     (if s = [] then None
      else if hd s = CHR ''0'' \<and> 1 < length s
      then (if list_all (\<lambda>c. digit_value c < 8) (tl s) then Some (digits_value 8 (tl s)) else None)
      else Some (digits_value 10 s))"

section \<open>Digits in base eight and ten\<close>

lemma digits_value_snoc [simp]: "digits_value b (s @ [c]) = b * digits_value b s + digit_value c"
  by (simp add: digits_value_def)

lemma digits_value_Nil [simp]: "digits_value b [] = 0"
  by (simp add: digits_value_def)

lemma digits_value_zero: "digits_value b (CHR ''0'' # s) = digits_value b s"
  by (simp add: digits_value_def digit_value_def)

lemma octal_le: "digits_value 8 s \<le> digits_value 10 s"
  by (induction s rule: rev_induct) auto

lemma octal_eq_small: "list_all (\<lambda>c. digit_value c < 8) s \<Longrightarrow> digits_value 8 s = digits_value 10 s \<Longrightarrow> digits_value 10 s < 8"
proof (induction s rule: rev_induct)
  case (snoc c s)
  have "8 * digits_value 8 s = 10 * digits_value 10 s" using snoc.prems(2) by simp
  then have "digits_value 10 s = 0" using octal_le [of s] by arith
  then show ?case using snoc.prems(1) by simp
qed simp

lemma small_octal_eq: "digits_value 10 s < 8 \<Longrightarrow> list_all (\<lambda>c. digit_value c < 8) s \<and> digits_value 8 s = digits_value 10 s"
proof (induction s rule: rev_induct)
  case (snoc c s)
  then have "digits_value 10 s = 0" "digit_value c < 8" by simp_all
  then show ?case using snoc.IH by simp
qed simp

lemma go_int_decimal_iff:
  assumes "s \<noteq> []"
  shows "go_int s = Some (digits_value 10 s) \<longleftrightarrow> hd s \<noteq> CHR ''0'' \<or> digits_value 10 s < 8"
proof (cases "hd s = CHR ''0'' \<and> 1 < length s")
  case True
  then have s: "s = CHR ''0'' # tl s" by (cases s) auto
  then have "digits_value 10 s = digits_value 10 (tl s)" by (metis digits_value_zero)
  then show ?thesis
    using True assms octal_eq_small [of "tl s"] small_octal_eq [of "tl s"] by (auto simp: go_int_def)
next
  case False
  moreover have "digits_value 10 s < 8" if "hd s = CHR ''0''" "\<not> 1 < length s"
  proof -
    have "s = [CHR ''0'']" using that assms by (cases s) auto
    then show ?thesis by (simp add: digits_value_def digit_value_def)
  qed
  ultimately show ?thesis using assms by (auto simp: go_int_def)
qed

section \<open>Flags with their values\<close>

definition flag_word :: "string \<Rightarrow> bool" where
  "flag_word n \<longleftrightarrow> n \<noteq> [] \<and> hd n \<noteq> CHR ''-'' \<and> CHR ''='' \<notin> set n"

lemma split_flag_word: "flag_word n \<Longrightarrow> split_flag n = (n, None)"
proof -
  assume "flag_word n"
  then have "dropWhile (\<lambda>c. c \<noteq> CHR ''='') n = []"
    unfolding dropWhile_eq_Nil_conv flag_word_def by auto
  then show ?thesis by (simp only: split_flag_def list.case)
qed

text \<open>A value is taken as it is, even when it looks like a flag.\<close>

lemma flag_parse_option:
  assumes "flag_word n" "n \<in> set known"
  shows "flag_parse known fs ((''--'' @ n) # v # as) = flag_parse known ((n, v) # fs) as"
proof -
  have "n \<noteq> []" "hd n \<noteq> CHR ''-''" "hd n \<noteq> CHR ''=''"
    using assms(1) by (cases n; auto simp: flag_word_def)+
  then show ?thesis using assms by (simp add: split_flag_word)
qed

lemma flag_parse_positional: "a = [] \<or> hd a \<noteq> CHR ''-'' \<Longrightarrow> flag_parse known fs (a # as) = Inr (fs, a # as)"
  by (cases a) auto

lemma enroll_parse_ok:
  assumes "hd a \<noteq> CHR ''-''" "go_trim a = a" "a \<noteq> []" "flag_parse known [] rest = Inr (fs, [])"
  shows "enroll_parse cmd known arg_name (a # rest) = Inr (fs, a)"
  using assms by (simp add: enroll_parse_def flag_parse_positional Let_def)

text \<open>A positional argument that starts with a dash is read as a flag.\<close>

lemma enroll_parse_dash:
  assumes "a = CHR ''-'' # n" "n \<noteq> []" "hd n \<noteq> CHR ''-''" "fst (split_flag n) \<notin> set known"
  shows "\<exists>e. enroll_parse cmd known arg_name (a # rest) = Inl e"
  using assms by (cases n) (auto simp: enroll_parse_def Let_def split: prod.splits)

end
