(* ===== verification/NetAddr.thy ===== *)
theory NetAddr
  imports MeshdCli JsRegex "HOL-Library.Word"
begin

text \<open>
  Addresses and prefixes as the control plane uses them (Go's \<open>net/netip\<close>), the tenant range
  it accepts (\<open>parseCIDR\<close> of \<open>internal/api/http.go\<close>) and the address it gives to a new
  machine (\<open>internal/store/addr.go\<close>). An IPv4 address is a 32-bit word; reading and printing
  IPv6 addresses is left to the library, an argument.
\<close>

unbundle bit_operations_syntax

section \<open>Addresses\<close>

text \<open>The zero \<open>netip.Addr\<close> is no address.\<close>

datatype addr = NoAddr | V4 "32 word" | V6 "128 word"

fun addr_is4 :: "addr \<Rightarrow> bool" where
  "addr_is4 (V4 a) = True"
| "addr_is4 _ = False"

text \<open>\<open>Addr.Next\<close>: there is none after the last one of the family.\<close>

fun addr_next :: "addr \<Rightarrow> addr" where
  "addr_next NoAddr = NoAddr"
| "addr_next (V4 a) = (if a + 1 = 0 then NoAddr else V4 (a + 1))"
| "addr_next (V6 a) = (if a + 1 = 0 then NoAddr else V6 (a + 1))"

record prefix =
  pf_addr :: addr
  pf_bits :: nat

fun addr_masked :: "nat \<Rightarrow> addr \<Rightarrow> addr" where
  "addr_masked n NoAddr = NoAddr"
| "addr_masked n (V4 a) = V4 (a AND NOT (mask (32 - n)))"
| "addr_masked n (V6 a) = V6 (a AND NOT (mask (128 - n)))"

definition pf_masked :: "prefix \<Rightarrow> prefix" where
  "pf_masked p = p\<lparr>pf_addr := addr_masked (pf_bits p) (pf_addr p)\<rparr>"

fun addr_in :: "nat \<Rightarrow> addr \<Rightarrow> addr \<Rightarrow> bool" where
  "addr_in n (V4 p) (V4 a) = (drop_bit (32 - n) (p XOR a) = 0)"
| "addr_in n (V6 p) (V6 a) = (drop_bit (128 - n) (p XOR a) = 0)"
| "addr_in n _ _ = False"

definition pf_contains :: "prefix \<Rightarrow> addr \<Rightarrow> bool" where
  "pf_contains p a = addr_in (pf_bits p) (pf_addr p) a"

text \<open>\<open>Addr.IsPrivate\<close>: 10/8, 172.16/12, 192.168/16, and fc00::/7.\<close>

fun addr_private :: "addr \<Rightarrow> bool" where
  "addr_private NoAddr = False"
| "addr_private (V4 a) = (drop_bit 24 a = 10 \<or> drop_bit 20 a = 0xAC1 \<or> drop_bit 16 a = 0xC0A8)"
| "addr_private (V6 a) = (drop_bit 121 a = 0x7E)"

text \<open>\<open>Addr.Unmap\<close>: an IPv4 address mapped into IPv6 (::ffff:0:0/96) is that IPv4 address.\<close>

fun addr_unmap :: "addr \<Rightarrow> addr" where
  "addr_unmap (V6 a) = (if drop_bit 32 a = 0xFFFF then V4 (ucast a) else V6 a)"
| "addr_unmap a = a"

section \<open>Free addresses of a prefix\<close>

definition reserved_hosts :: nat where
  "reserved_hosts = 2"

text \<open>The loop over the bytes of the address sets every bit after the prefix, from the left.\<close>

fun last_addr_of :: "nat \<Rightarrow> addr \<Rightarrow> addr" where
  "last_addr_of n NoAddr = NoAddr"
| "last_addr_of n (V4 a) = V4 (fold (\<lambda>i w. w OR push_bit (31 - i) 1) [n..<32] a)"
| "last_addr_of n (V6 a) = V6 (fold (\<lambda>i w. w OR push_bit (127 - i) 1) [n..<128] a)"

definition last_addr :: "prefix \<Rightarrow> addr" where
  "last_addr p = last_addr_of (pf_bits p) (pf_addr (pf_masked p))"

text \<open>How many addresses are left from one on.\<close>

fun addr_room :: "addr \<Rightarrow> nat" where
  "addr_room NoAddr = 0"
| "addr_room (V4 a) = 2 ^ 32 - unat a"
| "addr_room (V6 a) = 2 ^ 128 - unat a"

lemma unat_succ: "(a :: 'a::len word) + 1 \<noteq> 0 \<Longrightarrow> unat (a + 1) = Suc (unat a)"
  by (metis add.commute unatSuc)

lemma unat_less_32: "unat (a :: 32 word) < 4294967296"
  using unsigned_less [of a] by simp

lemma unat_less_128: "unat (a :: 128 word) < 2 ^ 128"
  using unsigned_less [of a] by simp

lemma addr_room_next: "a \<noteq> NoAddr \<Longrightarrow> addr_room (addr_next a) < addr_room a"
proof (cases a)
  case (V4 x)
  then show ?thesis using unat_less_32 [of x] by (auto simp: unat_succ)
next
  case (V6 x)
  then show ?thesis using unat_less_128 [of x] by (auto simp: unat_succ)
qed simp

lemma pf_contains_addr: "pf_contains p a \<Longrightarrow> a \<noteq> NoAddr"
  by (auto simp: pf_contains_def)

text \<open>The loop of \<open>nextFreeAddr\<close> goes to the next address until one is free.\<close>

function pool_scan :: "prefix \<Rightarrow> addr \<Rightarrow> addr list \<Rightarrow> addr \<Rightarrow> addr option" where
  "pool_scan p lst used a =
     (if \<not> pf_contains p a then None
      else if addr_is4 a \<and> a = lst then None
      else if a \<notin> set used then Some a
      else if a = lst then None
      else pool_scan p lst used (addr_next a))"
  by pat_completeness auto

termination
  by (relation "measure (\<lambda>(p, lst, used, a). addr_room a)")
    (auto intro: addr_room_next dest: pf_contains_addr)

declare pool_scan.simps [simp del]

definition next_free_addr :: "prefix \<Rightarrow> addr list \<Rightarrow> addr option" where
  "next_free_addr p0 used =
     (let p = pf_masked p0 in
      pool_scan p (last_addr p) used ((addr_next ^^ reserved_hosts) (pf_addr p)))"

section \<open>What a prefix holds\<close>

text \<open>An IPv4 prefix, as the number of its first address and the number of its addresses.\<close>

definition net4_base :: "nat \<Rightarrow> 32 word \<Rightarrow> nat" where
  "net4_base n a = unat a div 2 ^ (32 - n) * 2 ^ (32 - n)"

definition net4_size :: "nat \<Rightarrow> nat" where
  "net4_size n = 2 ^ (32 - n)"

lemma unat_and_not_mask: "unat (a AND NOT (mask k) :: 32 word) = unat a div 2 ^ k * 2 ^ k"
proof -
  have "a AND NOT (mask k) = push_bit k (drop_bit k a)"
    by (rule bit_word_eqI) (auto simp: bit_simps)
  moreover have "unat (push_bit k (drop_bit k a)) = push_bit k (drop_bit k (unat a))"
  proof (rule bit_eqI)
    fix n
    show "bit (unat (push_bit k (drop_bit k a))) n = bit (push_bit k (drop_bit k (unat a))) n"
      using bit_imp_le_length [of a n] by (cases "k \<le> n") (auto simp: bit_simps)
  qed
  ultimately show ?thesis by (simp add: push_bit_eq_mult drop_bit_eq_div)
qed

lemma drop_bit_xor_0: "drop_bit k (p XOR a :: 32 word) = 0 \<longleftrightarrow> unat a div 2 ^ k = unat p div 2 ^ k"
proof -
  have "drop_bit k (p XOR a) = 0 \<longleftrightarrow> drop_bit k p = drop_bit k a"
    by (auto simp: bit_eq_iff bit_simps)
  also have "\<dots> \<longleftrightarrow> unat (drop_bit k p) = unat (drop_bit k a)" by (simp add: word_unat_eq_iff)
  also have "\<dots> \<longleftrightarrow> unat a div 2 ^ k = unat p div 2 ^ k" unfolding unat_drop_bit_eq by (auto simp: drop_bit_eq_div)
  finally show ?thesis .
qed

lemma div_block:
  assumes "0 < s"
  shows "(x :: nat) div s = q \<longleftrightarrow> q * s \<le> x \<and> x < q * s + s"
proof
  assume "x div s = q"
  then show "q * s \<le> x \<and> x < q * s + s"
    using assms dividend_less_div_times [of s x] by (auto simp: ac_simps)
next
  assume "q * s \<le> x \<and> x < q * s + s"
  then show "x div s = q" by (intro div_nat_eqI) (auto simp: ac_simps)
qed

lemma contains4_iff:
  "pf_contains (pf_masked \<lparr>pf_addr = V4 a, pf_bits = n\<rparr>) (V4 x) \<longleftrightarrow>
    net4_base n a \<le> unat x \<and> unat x < net4_base n a + net4_size n"
proof -
  have "pf_contains (pf_masked \<lparr>pf_addr = V4 a, pf_bits = n\<rparr>) (V4 x) \<longleftrightarrow> unat x div net4_size n = unat a div net4_size n"
    unfolding pf_contains_def pf_masked_def
    by (simp only: prefix.simps addr_masked.simps addr_in.simps drop_bit_xor_0 unat_and_not_mask net4_size_def) simp
  then show ?thesis using div_block [of "net4_size n"] by (simp add: net4_base_def net4_size_def)
qed

lemma set_bits_fold:
  "k \<le> 32 \<Longrightarrow> fold (\<lambda>i w. w OR push_bit (31 - i) (1 :: 32 word)) [32 - k..<32] w = w OR mask k"
proof (induction k arbitrary: w)
  case (Suc k)
  have "Suc (31 - k) = 32 - k" using Suc.prems by simp
  then have "[32 - Suc k..<32] = (31 - k) # [32 - k..<32]"
    using Suc.prems by (subst upt_conv_Cons) auto
  then show ?case
    using Suc by (simp add: mask_Suc_exp or.assoc push_bit_eq_mult)
qed simp

lemma last4:
  assumes "n \<le> 32"
  shows "last_addr \<lparr>pf_addr = V4 a, pf_bits = n\<rparr> = V4 (a OR mask (32 - n))"
proof -
  have "(a AND NOT (mask k)) OR mask k = a OR mask k" for k
    by (simp add: bit_eq_iff bit_simps) blast
  then show ?thesis
    using set_bits_fold [of "32 - n"] assms by (simp add: last_addr_def pf_masked_def)
qed

lemma unat_mask_32: "k \<le> 32 \<Longrightarrow> unat (mask k :: 32 word) = mask k"
  by (rule bit_eqI) (auto simp: bit_simps)

lemma or_mask_nat: "(m :: nat) OR mask k = m div 2 ^ k * 2 ^ k + (2 ^ k - 1)"
proof -
  have "m OR mask k = push_bit k (drop_bit k m) OR mask k"
    by (rule bit_eqI) (auto simp: bit_simps)
  also have "\<dots> = push_bit k (drop_bit k m) + mask k"
    by (rule disjunctive_add_eq_or [symmetric]) (auto simp: bit_eq_iff bit_simps)
  finally show ?thesis by (simp add: push_bit_eq_mult drop_bit_eq_div mask_eq_exp_minus_1)
qed

lemma unat_or_mask: "k \<le> 32 \<Longrightarrow> unat (a OR mask k :: 32 word) = unat a div 2 ^ k * 2 ^ k + (2 ^ k - 1)"
  by (simp add: unsigned_or_eq unat_mask_32 or_mask_nat)

lemma net4_range: "net4_base n a + net4_size n \<le> 2 ^ 32"
proof -
  have "unat (a OR mask (32 - n)) < 2 ^ 32" using unat_less_32 by simp
  then show ?thesis by (simp add: unat_or_mask net4_base_def net4_size_def)
qed

text \<open>
  The machine addresses of an IPv4 prefix: all but the first \<open>reserved_hosts\<close> and the
  broadcast address. The pool is their list, lowest first.
\<close>

definition pool :: "prefix \<Rightarrow> addr list" where
  "pool p =
     (case pf_addr p of
        V4 a \<Rightarrow> map (\<lambda>x. V4 (of_nat x))
          [net4_base (pf_bits p) a + reserved_hosts ..< net4_base (pf_bits p) a + net4_size (pf_bits p) - 1]
      | _ \<Rightarrow> [])"

definition first_free :: "addr list \<Rightarrow> addr list \<Rightarrow> addr option" where
  "first_free hosts used = List.find (\<lambda>x. x \<notin> set used) hosts"

lemma pool_scan_find:
  assumes p_def: "p = pf_masked \<lparr>pf_addr = V4 a, pf_bits = n\<rparr>" and l_def: "l = net4_base n a + net4_size n - 1"
    and lst: "unat lst = l" and x: "net4_base n a \<le> unat x"
  shows "pool_scan p (V4 lst) used (V4 x) = first_free (map (\<lambda>y. V4 (of_nat y)) [unat x..<l]) used"
  using x
proof (induction "l - unat x" arbitrary: x)
  case 0
  then have "l \<le> unat x" by simp
  then have "\<not> pf_contains p (V4 x) \<or> x = lst"
    using lst by (auto simp: p_def contains4_iff l_def word_unat_eq_iff)
  then show ?case using \<open>l \<le> unat x\<close> by (subst pool_scan.simps) (auto simp: first_free_def)
next
  case (Suc k)
  then have less: "unat x < l" by simp
  then have c: "pf_contains p (V4 x)" "x \<noteq> lst"
    using lst Suc.prems by (auto simp: p_def contains4_iff l_def)
  have "unat x + 1 < 2 ^ 32" using less net4_range [of n a] by (simp add: l_def)
  moreover have "x + 1 = 0 \<Longrightarrow> unat x = 2 ^ 32 - 1"
    by (simp add: eq_neg_iff_add_eq_0 [symmetric] unsigned_minus_1_eq_mask mask_eq_exp_minus_1)
  ultimately have "x + 1 \<noteq> 0" by auto
  then have nx: "x + 1 \<noteq> 0" "unat (x + 1) = Suc (unat x)" by (simp_all add: unat_succ)
  have ih: "pool_scan p (V4 lst) used (V4 (x + 1)) = first_free (map (\<lambda>y. V4 (of_nat y)) [Suc (unat x)..<l]) used"
    using Suc.hyps(1) [of "x + 1"] Suc.hyps(2) Suc.prems nx by simp
  have "[unat x..<l] = unat x # [Suc (unat x)..<l]" using less by (rule upt_conv_Cons)
  then show ?case
    using c nx ih by (subst pool_scan.simps) (simp add: first_free_def)
qed

lemma unat_of_nat_32: "y < 2 ^ 32 \<Longrightarrow> unat (of_nat y :: 32 word) = y"
  by (simp add: unsigned_of_nat take_bit_nat_eq_self)

lemma next_free_first:
  assumes n: "n \<le> 32"
  shows "next_free_addr \<lparr>pf_addr = V4 a, pf_bits = n\<rparr> used = first_free (pool \<lparr>pf_addr = V4 a, pf_bits = n\<rparr>) used"
proof -
  let ?p = "pf_masked \<lparr>pf_addr = V4 a, pf_bits = n\<rparr>"
  let ?b = "a AND NOT (mask (32 - n))"
  have again: "a AND NOT (mask k) OR mask k = a OR mask k" for k
    by (simp add: bit_eq_iff bit_simps) blast
  have lst: "last_addr ?p = V4 (a OR mask (32 - n))" "unat (a OR mask (32 - n)) = net4_base n a + net4_size n - 1"
    using last4 [OF n, of ?b] n
    by (simp_all add: pf_masked_def again unat_or_mask net4_base_def net4_size_def)
  have b: "pf_addr ?p = V4 ?b" "unat ?b = net4_base n a"
    by (simp_all add: pf_masked_def unat_and_not_mask net4_base_def)
  have start: "(addr_next ^^ reserved_hosts) (V4 ?b) = addr_next (addr_next (V4 ?b))"
    by (simp add: reserved_hosts_def numeral_2_eq_2)
  consider "?b + 1 \<noteq> 0" "?b + 1 + 1 \<noteq> 0" | "?b + 1 = 0 \<or> ?b + 1 + 1 = 0" by blast
  then show ?thesis
  proof cases
    case 1
    then have u: "unat (?b + 1 + 1) = net4_base n a + reserved_hosts"
      using unat_succ [of ?b] unat_succ [of "?b + 1"] b(2) by (simp only: reserved_hosts_def add_2_eq_Suc' not_False_eq_True)
    show ?thesis
      using 1 pool_scan_find [OF refl refl lst(2), of "?b + 1 + 1" used] u
      by (simp add: next_free_addr_def Let_def lst(1) b(1) start pool_def)
  next
    case 2
    then have "2 ^ 32 \<le> unat ?b + 2"
    proof
      assume "?b + 1 = 0"
      then have "?b = -1" by (simp add: eq_neg_iff_add_eq_0)
      then show ?thesis by (simp add: unsigned_minus_1_eq_mask mask_eq_exp_minus_1)
    next
      assume "?b + 1 + 1 = 0"
      then have "?b = -2" by (simp add: eq_neg_iff_add_eq_0 add.assoc)
      then show ?thesis by simp
    qed
    then have "pool \<lparr>pf_addr = V4 a, pf_bits = n\<rparr> = []"
      using net4_range [of n a] by (simp add: pool_def b(2) reserved_hosts_def)
    moreover have "addr_next (addr_next (V4 ?b)) = NoAddr" using 2 by auto
    ultimately show ?thesis
      by (simp add: next_free_addr_def Let_def b(1) start first_free_def pool_scan.simps pf_contains_def)
  qed
qed

lemma pool_size: "length (pool \<lparr>pf_addr = V4 a, pf_bits = n\<rparr>) = 2 ^ (32 - n) - 3"
  by (simp add: pool_def reserved_hosts_def net4_size_def)

lemma pool_mem:
  "V4 x \<in> set (pool \<lparr>pf_addr = V4 a, pf_bits = n\<rparr>) \<longleftrightarrow>
     net4_base n a + 2 \<le> unat x \<and> unat x + 1 < net4_base n a + net4_size n"
proof -
  have small: "y < net4_base n a + net4_size n \<Longrightarrow> y < 2 ^ 32" for y using net4_range [of n a] by simp
  have "V4 x \<in> set (pool \<lparr>pf_addr = V4 a, pf_bits = n\<rparr>) \<longleftrightarrow>
      (\<exists>y \<in> {net4_base n a + 2 ..< net4_base n a + net4_size n - 1}. x = of_nat y)"
    by (auto simp: pool_def reserved_hosts_def)
  also have "\<dots> \<longleftrightarrow> unat x \<in> {net4_base n a + 2 ..< net4_base n a + net4_size n - 1}"
  proof
    assume "\<exists>y \<in> {net4_base n a + 2 ..< net4_base n a + net4_size n - 1}. x = of_nat y"
    then show "unat x \<in> {net4_base n a + 2 ..< net4_base n a + net4_size n - 1}"
      using small by (auto simp: unat_of_nat_32)
  next
    assume "unat x \<in> {net4_base n a + 2 ..< net4_base n a + net4_size n - 1}"
    then show "\<exists>y \<in> {net4_base n a + 2 ..< net4_base n a + net4_size n - 1}. x = of_nat y"
      by (rule rev_bexI) simp
  qed
  finally show ?thesis by auto
qed

lemma pool_V4: "x \<in> set (pool \<lparr>pf_addr = V4 a, pf_bits = n\<rparr>) \<Longrightarrow> \<exists>y. x = V4 y"
  by (auto simp: pool_def)

section \<open>Reading and printing\<close>

text \<open>What is left to the library: IPv6 addresses, and why a prefix could not be read.\<close>

record netip_lib =
  ni_parse6 :: "string \<Rightarrow> addr option"
  ni_show6 :: "128 word \<Rightarrow> string"
  ni_reason :: "string \<Rightarrow> string"

text \<open>A field of an IPv4 address has one to three digits, no leading zero, and fits a byte.\<close>

definition go_octet :: "string \<Rightarrow> nat option" where
  "go_octet s =
     (if s = [] \<or> \<not> list_all is_digit s \<or> (1 < length s \<and> hd s = CHR ''0'') \<or> 255 < digits_value 10 s
      then None else Some (digits_value 10 s))"

definition go_parse4 :: "string \<Rightarrow> addr option" where
  "go_parse4 s =
     (case map go_octet (split_on CHR ''.'' s) of
        [Some a, Some b, Some c, Some d] \<Rightarrow> Some (V4 (of_nat (((a * 256 + b) * 256 + c) * 256 + d)))
      | _ \<Rightarrow> None)"

text \<open>\<open>netip.ParseAddr\<close> looks for the first dot, colon or percent sign.\<close>

definition go_parse_addr :: "netip_lib \<Rightarrow> string \<Rightarrow> addr option" where
  "go_parse_addr lib s =
     (case List.find (\<lambda>c. c = CHR ''.'' \<or> c = CHR '':'' \<or> c = CHR ''%'') s of
        None \<Rightarrow> None
      | Some c \<Rightarrow> if c = CHR ''.'' then go_parse4 s else if c = CHR '':'' then ni_parse6 lib s else None)"

definition go_prefix_bits :: "string \<Rightarrow> nat option" where
  "go_prefix_bits s =
     (if s = [] \<or> \<not> list_all is_digit s \<or> (1 < length s \<and> hd s = CHR ''0'') then None else Some (digits_value 10 s))"

text \<open>\<open>netip.ParsePrefix\<close>, which cuts at the last slash.\<close>

definition go_parse_prefix :: "netip_lib \<Rightarrow> string \<Rightarrow> prefix option" where
  "go_parse_prefix lib s =
     (case dropWhile (\<lambda>c. c \<noteq> CHR ''/'') (rev s) of
        [] \<Rightarrow> None
      | _ # r \<Rightarrow>
          (case (go_parse_addr lib (rev r), go_prefix_bits (rev (takeWhile (\<lambda>c. c \<noteq> CHR ''/'') (rev s)))) of
             (Some a, Some n) \<Rightarrow> if (if addr_is4 a then 32 else 128) < n then None else Some \<lparr>pf_addr = a, pf_bits = n\<rparr>
           | _ \<Rightarrow> None))"

definition show_addr4 :: "32 word \<Rightarrow> string" where
  "show_addr4 a =
     show_nat (unat a div 2 ^ 24) @ ''.'' @ show_nat (unat a div 2 ^ 16 mod 256) @ ''.'' @
     show_nat (unat a div 2 ^ 8 mod 256) @ ''.'' @ show_nat (unat a mod 256)"

fun show_addr :: "netip_lib \<Rightarrow> addr \<Rightarrow> string" where
  "show_addr lib NoAddr = ''invalid IP''"
| "show_addr lib (V4 a) = show_addr4 a"
| "show_addr lib (V6 a) = ni_show6 lib a"

definition show_prefix :: "netip_lib \<Rightarrow> prefix \<Rightarrow> string" where
  "show_prefix lib p = show_addr lib (pf_addr p) @ ''/'' @ show_nat (pf_bits p)"

definition default_cidr :: string where
  "default_cidr = ''10.203.0.0/16''"

definition parse_cidr :: "netip_lib \<Rightarrow> string \<Rightarrow> string + prefix" where
  "parse_cidr lib raw0 =
     (let raw = (if go_trim raw0 = [] then default_cidr else raw0) in
      (case go_parse_prefix lib (go_trim raw) of
         None \<Rightarrow> Inl (''cidr is not a valid prefix: '' @ ni_reason lib (go_trim raw))
       | Some p \<Rightarrow>
           if \<not> addr_is4 (pf_addr p) then Inl ''cidr must be IPv4''
           else if \<not> addr_private (pf_addr p) then Inl ''cidr must be a private range (10/8, 172.16/12 or 192.168/16)''
           else if 30 < pf_bits p then Inl ''cidr must be /30 or larger''
           else Inr (pf_masked p)))"

lemma digit_value_char: "d < 10 \<Longrightarrow> digit_value (digit_char d) = d"
  by (simp add: digit_value_def digit_char_def)

lemma is_digit_char: "d < 10 \<Longrightarrow> is_digit (digit_char d)"
  by (simp add: is_digit_def digit_char_def)

lemma digits_show_nat: "digits_value 10 (show_nat n) = n"
  by (induction n rule: show_nat.induct)
    (subst show_nat.simps, auto simp: digits_value_def digit_value_char)

lemma show_nat_nonempty: "show_nat n \<noteq> []"
  by (subst show_nat.simps) simp

lemma show_nat_digits: "list_all is_digit (show_nat n)"
proof (induction n rule: show_nat.induct)
  case (1 n)
  then show ?case by (subst show_nat.simps) (simp add: is_digit_char)
qed

lemma show_nat_hd: "0 < n \<Longrightarrow> hd (show_nat n) \<noteq> CHR ''0''"
proof (induction n rule: show_nat.induct)
  case (1 n)
  have "digit_value (CHR ''0'') = 0" by (simp add: digit_value_def)
  then have "digit_char d \<noteq> CHR ''0''" if "0 < d" "d < 10" for d using that digit_value_char [of d] by auto
  moreover have "hd (show_nat (n div 10) @ [c]) = hd (show_nat (n div 10))" for c
    by (simp add: show_nat_nonempty hd_append)
  ultimately show ?case using 1 by (subst show_nat.simps) auto
qed

lemma show_nat_plain: "1 < length (show_nat n) \<Longrightarrow> hd (show_nat n) \<noteq> CHR ''0''"
  using show_nat_hd [of n] by (cases "n = 0") (auto simp: show_nat.simps [of 0])

lemma go_octet_show: "n < 256 \<Longrightarrow> go_octet (show_nat n) = Some n"
  using show_nat_digits [of n] show_nat_nonempty [of n] show_nat_plain [of n] by (auto simp: go_octet_def digits_show_nat)

lemma go_bits_show: "go_prefix_bits (show_nat n) = Some n"
  using show_nat_digits [of n] show_nat_nonempty [of n] show_nat_plain [of n] by (auto simp: go_prefix_bits_def digits_show_nat)

lemma show_nat_no: "\<not> is_digit c \<Longrightarrow> c \<notin> set (show_nat n)"
  using show_nat_digits [of n] by (auto simp: list_all_iff)

lemma octets:
  fixes m :: nat
  shows "((m div 2 ^ 24 * 256 + m div 2 ^ 16 mod 256) * 256 + m div 2 ^ 8 mod 256) * 256 + m mod 256 = m"
proof -
  have d: "m div 2 ^ 24 = m div 2 ^ 16 div 256" "m div 2 ^ 16 = m div 2 ^ 8 div 256" "m div 2 ^ 8 = m div 256"
    by (simp_all add: div_mult2_eq [symmetric])
  show ?thesis unfolding d(1) div_mult_mod_eq unfolding d(2) div_mult_mod_eq unfolding d(3) div_mult_mod_eq ..
qed

lemma parse4_show: "go_parse4 (show_addr4 a) = Some (V4 a)"
proof -
  have dot: "CHR ''.'' \<notin> set (show_nat n)" for n by (rule show_nat_no) (simp add: is_digit_def)
  have "unat a div 2 ^ 24 < 256" using unat_less_32 [of a] by simp
  then show ?thesis
    using octets [of "unat a"] dot
    by (simp add: go_parse4_def show_addr4_def split_on_append split_on_none go_octet_show del: of_nat_add of_nat_mult)
qed

lemma find_after_none: "\<forall>c \<in> set xs. \<not> P c \<Longrightarrow> P y \<Longrightarrow> List.find P (xs @ y # ys) = Some y"
  by (induction xs) auto

lemma parse_prefix_show:
  assumes "n \<le> 32"
  shows "go_parse_prefix lib (show_prefix lib \<lparr>pf_addr = V4 a, pf_bits = n\<rparr>) = Some \<lparr>pf_addr = V4 a, pf_bits = n\<rparr>"
proof -
  have no: "\<forall>c \<in> set (show_nat k). c \<noteq> CHR ''/'' \<and> c \<noteq> CHR '':'' \<and> c \<noteq> CHR ''%'' \<and> c \<noteq> CHR ''.''" for k
    using show_nat_no [of "CHR ''/''" k] show_nat_no [of "CHR '':''" k] show_nat_no [of "CHR ''%''" k]
      show_nat_no [of "CHR ''.''" k]
    by (auto simp: is_digit_def)
  have "takeWhile (\<lambda>c. c \<noteq> CHR ''/'') (rev (show_nat n) @ CHR ''/'' # r) = rev (show_nat n)"
    "dropWhile (\<lambda>c. c \<noteq> CHR ''/'') (rev (show_nat n) @ CHR ''/'' # r) = CHR ''/'' # r" for r
    using no [of n] by (subst takeWhile_append2 dropWhile_append2; force)+
  moreover have f: "List.find (\<lambda>c. c = CHR ''.'' \<or> c = CHR '':'' \<or> c = CHR ''%'') (show_nat k @ CHR ''.'' # r) = Some (CHR ''.'')" for k r
    using no [of k] by (intro find_after_none) auto
  moreover have "List.find (\<lambda>c. c = CHR ''.'' \<or> c = CHR '':'' \<or> c = CHR ''%'') (show_addr4 a) = Some (CHR ''.'')"
    unfolding show_addr4_def append_Cons append_Nil by (rule f)
  ultimately show ?thesis
    using assms by (simp add: go_parse_prefix_def show_prefix_def go_parse_addr_def parse4_show go_bits_show)
qed

section \<open>The range of a tenant\<close>

lemma parse_cidr_Inr:
  assumes "parse_cidr lib raw = Inr p"
  obtains a n where "p = pf_masked \<lparr>pf_addr = V4 a, pf_bits = n\<rparr>" "n \<le> 30" "addr_private (V4 a)"
    "go_parse_prefix lib (go_trim (if go_trim raw = [] then default_cidr else raw)) = Some \<lparr>pf_addr = V4 a, pf_bits = n\<rparr>"
proof -
  obtain q where q: "go_parse_prefix lib (go_trim (if go_trim raw = [] then default_cidr else raw)) = Some q"
    and r: "addr_is4 (pf_addr q)" "addr_private (pf_addr q)" "\<not> 30 < pf_bits q" "p = pf_masked q"
    using assms by (auto simp: parse_cidr_def Let_def split: option.splits if_splits)
  obtain a where "pf_addr q = V4 a" using r(1) by (cases "pf_addr q") auto
  then have e: "q = \<lparr>pf_addr = V4 a, pf_bits = pf_bits q\<rparr>" by simp
  show ?thesis
    using that [of a "pf_bits q", folded e, OF r(4)] r(2,3) q \<open>pf_addr q = V4 a\<close> by simp
qed

lemma masked4: "pf_masked \<lparr>pf_addr = V4 a, pf_bits = n\<rparr> = \<lparr>pf_addr = V4 (a AND NOT (mask (32 - n))), pf_bits = n\<rparr>"
  by (simp add: pf_masked_def)

lemma net4_base_masked: "net4_base n (a AND NOT (mask (32 - n))) = net4_base n a"
  "unat (a AND NOT (mask (32 - n))) = net4_base n a"
  by (simp_all add: net4_base_def unat_and_not_mask)

lemma first_free_Some:
  assumes "first_free (map f [i..<j]) used = Some x"
  obtains y where "i \<le> y" "y < j" "x = f y" "x \<notin> set used" "\<forall>z. i \<le> z \<and> z < y \<longrightarrow> f z \<in> set used"
proof -
  obtain k where k: "k < j - i" "x = f (i + k)" "f (i + k) \<notin> set used" "\<forall>m<k. f (i + m) \<in> set used"
    using assms by (auto simp: first_free_def find_Some_iff)
  have "f z \<in> set used" if "i \<le> z" "z < i + k" for z
    using k(4) [rule_format, of "z - i"] that by simp
  then show ?thesis using k that [of "i + k"] by auto
qed

text \<open>
  C7. Every accepted range is a pool of machine addresses that is used up exactly. For a
  range that \<open>parseCIDR\<close> accepts, \<open>nextFreeAddr\<close> always ends, with the lowest address after
  the network and relay addresses and before the broadcast address that no machine has; it
  reports an exhausted pool only when every such address is taken. The pool has three
  addresses fewer than the range, so the smallest accepted range, a /30, has one.
\<close>
theorem next_free_addr_lowest:
  assumes "parse_cidr lib raw = Inr p"
  shows "\<exists>a. pf_addr p = V4 a \<and> 1 \<le> length (pool p) \<and> length (pool p) = 2 ^ (32 - pf_bits p) - 3 \<and>
    (\<forall>x. x \<in> set (pool p) \<longleftrightarrow>
      (\<exists>w. x = V4 w \<and> unat a + 2 \<le> unat w \<and> unat w + 1 < unat a + 2 ^ (32 - pf_bits p))) \<and>
    (case next_free_addr p used of
       None \<Rightarrow> set (pool p) \<subseteq> set used
     | Some x \<Rightarrow> x \<in> set (pool p) \<and> x \<notin> set used \<and>
         (\<exists>w. x = V4 w \<and> (\<forall>v. v < w \<and> V4 v \<in> set (pool p) \<longrightarrow> V4 v \<in> set used)))"
proof -
  obtain a0 n where p0: "p = pf_masked \<lparr>pf_addr = V4 a0, pf_bits = n\<rparr>" and n: "n \<le> 30"
    using assms by (rule parse_cidr_Inr)
  define a where "a = a0 AND NOT (mask (32 - n))"
  have p: "p = \<lparr>pf_addr = V4 a, pf_bits = n\<rparr>" by (simp add: p0 masked4 a_def)
  have base: "unat a = net4_base n a" by (simp add: a_def net4_base_masked)
  have "(2::nat) ^ 2 \<le> 2 ^ (32 - n)" using n by (intro power_increasing) auto
  then have len: "1 \<le> length (pool p)" "length (pool p) = 2 ^ (32 - n) - 3"
    using pool_size [of a n] by (simp_all add: p)
  have mem: "x \<in> set (pool p) \<longleftrightarrow> (\<exists>w. x = V4 w \<and> unat a + 2 \<le> unat w \<and> unat w + 1 < unat a + 2 ^ (32 - n))" for x
    using pool_mem [of _ a n] pool_V4 [of x a n] unfolding p base [symmetric] net4_size_def by blast
  have nf: "next_free_addr p used = first_free (pool p) used" unfolding p using n by (intro next_free_first) simp
  have none: "set (pool p) \<subseteq> set used" if "next_free_addr p used = None"
    using that unfolding nf first_free_def find_None_set by blast
  have some: "x \<in> set (pool p) \<and> x \<notin> set used \<and> (\<exists>w. x = V4 w \<and> (\<forall>v. v < w \<and> V4 v \<in> set (pool p) \<longrightarrow> V4 v \<in> set used))"
    if "next_free_addr p used = Some x" for x
  proof -
    have "x \<in> set (pool p) \<and> x \<notin> set used"
      using that unfolding nf first_free_def by (auto dest: find_Some_set)
    moreover have "first_free (map (\<lambda>y. V4 (of_nat y)) [unat a + 2..<unat a + 2 ^ (32 - n) - 1]) used = Some x"
      using that unfolding nf pool_def by (simp add: p base [symmetric] net4_size_def reserved_hosts_def)
    then obtain y where y: "y < unat a + 2 ^ (32 - n) - 1" "x = V4 (of_nat y)"
        "\<forall>z. unat a + 2 \<le> z \<and> z < y \<longrightarrow> V4 (of_nat z) \<in> set used"
      by (rule first_free_Some)
    moreover have uy: "unat (of_nat y :: 32 word) = y"
      using y(1) net4_range [of n a] by (intro unat_of_nat_32) (simp add: base [symmetric] net4_size_def)
    moreover have "V4 v \<in> set used" if "v < of_nat y" "V4 v \<in> set (pool p)" for v
      using y(3) [rule_format, of "unat v"] mem [of "V4 v"] that by (simp add: word_less_nat_alt uy)
    ultimately show ?thesis by blast
  qed
  show ?thesis
    using len mem none some by (simp add: p split: option.splits)
qed

definition demo_lib :: netip_lib where
  "demo_lib = \<lparr>ni_parse6 = (\<lambda>s. None), ni_show6 = (\<lambda>a. []), ni_reason = (\<lambda>s. [])\<rparr>"

lemma trim_show_prefix: "go_trim (show_prefix lib \<lparr>pf_addr = V4 a, pf_bits = n\<rparr>) = show_prefix lib \<lparr>pf_addr = V4 a, pf_bits = n\<rparr>"
proof -
  have "\<forall>c \<in> set (show_nat k). \<not> go_space c" for k
    using show_nat_digits [of k] by (auto simp: list_all_iff is_digit_def go_space_def js_space_def Let_def)
  then show ?thesis
    by (intro go_trim_id) (auto simp: show_prefix_def show_addr4_def go_space_def js_space_def)
qed

lemma parse_cidr_plain:
  assumes "n \<le> 30" "addr_private (V4 a)"
  shows "parse_cidr lib (show_prefix lib \<lparr>pf_addr = V4 a, pf_bits = n\<rparr>) = Inr (pf_masked \<lparr>pf_addr = V4 a, pf_bits = n\<rparr>)"
proof -
  have "show_prefix lib \<lparr>pf_addr = V4 a, pf_bits = n\<rparr> \<noteq> []" by (simp add: show_prefix_def)
  then show ?thesis
    using assms parse_prefix_show [of n lib a] by (simp add: parse_cidr_def trim_show_prefix)
qed

theorem next_free_addr_lowest_witness:
  "next_free_addr \<lparr>pf_addr = V4 0x0A000000, pf_bits = 29\<rparr> [V4 0x0A000002, V4 0x0A000004] = Some (V4 0x0A000003) \<and>
   length (pool \<lparr>pf_addr = V4 0x0A000000, pf_bits = 29\<rparr>) = 5"
proof -
  have m: "pf_masked \<lparr>pf_addr = V4 0x0A000000, pf_bits = 29\<rparr> = \<lparr>pf_addr = V4 0x0A000000, pf_bits = 29\<rparr>"
    by (simp add: pf_masked_def mask_eq_exp_minus_1)
  have "parse_cidr demo_lib (show_prefix demo_lib \<lparr>pf_addr = V4 0x0A000000, pf_bits = 29\<rparr>)
      = Inr \<lparr>pf_addr = V4 0x0A000000, pf_bits = 29\<rparr>"
    by (subst parse_cidr_plain) (simp_all add: m)
  from next_free_addr_lowest [OF this]
  have "length (pool \<lparr>pf_addr = V4 0x0A000000, pf_bits = 29\<rparr>) = 5" by simp
  moreover have "next_free_addr \<lparr>pf_addr = V4 0x0A000000, pf_bits = 29\<rparr> [V4 0x0A000002, V4 0x0A000004] = Some (V4 0x0A000003)"
    by (simp add: next_free_first first_free_def pool_def net4_base_def net4_size_def reserved_hosts_def upt_rec)
  ultimately show ?thesis by simp
qed

text \<open>
  C28. Only part of the accepted ranges is private. \<open>parseCIDR\<close> tests the address it was
  given, not the range around it: the machine addresses of an accepted range are all private
  exactly when the mask is at least as long as that of the private block the address is in
  (8, 12 or 16 bits); with a shorter mask, such as 10.0.0.0/7, machines get public addresses.
\<close>
lemma drop_bit_nat: "drop_bit j (a :: 32 word) = w \<longleftrightarrow> unat a div 2 ^ j = unat w"
  by (simp add: word_unat_eq_iff unat_drop_bit_eq drop_bit_nat_def)

lemma pool_block:
  assumes "k = 32 - n"
  shows "V4 x \<in> set (pool \<lparr>pf_addr = V4 a, pf_bits = n\<rparr>) \<longrightarrow> unat x div 2 ^ k = unat a div 2 ^ k"
  unfolding pool_mem net4_base_def net4_size_def assms [symmetric] by (auto intro!: div_nat_eqI simp: ac_simps)

lemma pow_8: "3 \<le> k \<Longrightarrow> (2::nat) ^ k = 8 * 2 ^ (k - 3)"
  using power_add [of "2::nat" 3 "k - 3"] by simp

lemma eighths':
  "8 * b \<le> 8 * q + 5 \<Longrightarrow> 8 * q + 5 < 8 * b + 8 * c \<Longrightarrow> 8 * b + 2 \<le> 8 * q + 5 \<and> 8 * q + 5 + 1 < 8 * b + (8 * c :: nat)"
  by presburger

lemma eighths:
  assumes "B = 8 * b" "S = 8 * c" "B \<le> y" "y < B + S" "y mod 8 = 5"
  shows "B + 2 \<le> y \<and> y + 1 < B + (S :: nat)"
proof -
  have "y = 8 * (y div 8) + 5" using div_mult_mod_eq [of y 8] assms(5) by simp
  then show ?thesis using eighths' [of b "y div 8" c] assms(1-4) by simp
qed

lemma pool_block_mid:
  assumes k: "k = 32 - n" "3 \<le> k" and y: "unat x div 2 ^ k = unat a div 2 ^ k" "unat x mod 8 = 5"
  shows "V4 x \<in> set (pool \<lparr>pf_addr = V4 a, pf_bits = n\<rparr>)"
proof -
  have e: "(2::nat) ^ k = 8 * 2 ^ (k - 3)" using k(2) by (rule pow_8)
  have "unat a div 2 ^ k * 2 ^ k \<le> unat x" "unat x < unat a div 2 ^ k * 2 ^ k + 2 ^ k"
    using div_block [of "2 ^ k" "unat x" "unat a div 2 ^ k"] y(1) by auto
  moreover obtain b where "unat a div 2 ^ k * 2 ^ k = 8 * b" using e by (metis mult.left_commute)
  ultimately have "unat a div 2 ^ k * 2 ^ k + 2 \<le> unat x \<and> unat x + 1 < unat a div 2 ^ k * 2 ^ k + 2 ^ k"
    using y(2) e eighths by blast
  then show ?thesis unfolding pool_mem net4_base_def net4_size_def k(1) [symmetric] by simp
qed

lemma block_private:
  assumes n: "n \<le> 30" and a: "unat a div 2 ^ j = v" and j: "16 \<le> j" "j < 32"
    and block: "\<And>x. unat x div 2 ^ j = v \<Longrightarrow> addr_private (V4 x)"
    and nb: "w div 2 = v div 2" "unat x = w * 2 ^ j + 5" "\<not> addr_private (V4 x)"
  shows "(\<forall>x \<in> set (pool \<lparr>pf_addr = V4 a, pf_bits = n\<rparr>). addr_private x) \<longleftrightarrow> 32 - j \<le> n"
proof -
  let ?p = "pool \<lparr>pf_addr = V4 a, pf_bits = n\<rparr>"
  define k where k: "k = 32 - n"
  have "addr_private y" if le: "k \<le> j" and m: "y \<in> set ?p" for y
  proof -
    obtain z where y: "y = V4 z" using pool_V4 m by blast
    have "unat z div 2 ^ k = unat a div 2 ^ k" using pool_block [OF k] m y by blast
    then have "unat z div 2 ^ k div 2 ^ (j - k) = unat a div 2 ^ k div 2 ^ (j - k)" by simp
    then have "unat z div 2 ^ j = unat a div 2 ^ j"
      using le by (simp add: div_mult2_eq [symmetric] power_add [symmetric])
    then show ?thesis using a block y by simp
  qed
  moreover have "V4 x \<in> set ?p" if lt: "j < k"
  proof (rule pool_block_mid [OF k])
    have "unat x div 2 ^ Suc j = unat a div 2 ^ Suc j"
    proof -
      have "(5::nat) < 2 ^ j" using power_increasing [of 16 j "2::nat"] j(1) by simp
      then have "unat x div 2 ^ j = w" by (intro div_nat_eqI) (auto simp: nb(2))
      then show ?thesis using nb(1) a by (simp only: power_Suc2 div_mult2_eq)
    qed
    then have "unat x div 2 ^ Suc j div 2 ^ (k - Suc j) = unat a div 2 ^ Suc j div 2 ^ (k - Suc j)" by simp
    then show "unat x div 2 ^ k = unat a div 2 ^ k"
      using lt by (simp only: div_mult2_eq [symmetric] power_add [symmetric]) simp
    have "(2::nat) ^ j = 8 * 2 ^ (j - 3)" using j(1) by (intro pow_8) simp
    then have "unat x = 5 + 8 * (w * 2 ^ (j - 3))" using nb(2) by simp
    then show "unat x mod 8 = 5" by (simp only: mod_mult_self2) simp
  qed (use lt j in simp)
  ultimately show ?thesis using nb(3) n j unfolding k by (cases "32 - n \<le> j") auto
qed

theorem accepted_range_private_iff:
  assumes "go_parse_prefix lib (go_trim raw) = Some \<lparr>pf_addr = V4 a, pf_bits = n\<rparr>" "parse_cidr lib raw = Inr p"
  shows "(\<forall>x \<in> set (pool p). addr_private x) \<longleftrightarrow>
    (if drop_bit 24 a = 10 then 8 else if drop_bit 20 a = 0xAC1 then 12 else 16) \<le> n"
proof -
  have ne: "go_trim raw \<noteq> []"
    using assms(1) by (auto simp: go_parse_prefix_def)
  then have n: "n \<le> 30" "addr_private (V4 a)" "p = pf_masked \<lparr>pf_addr = V4 a, pf_bits = n\<rparr>"
    using assms by (auto simp: parse_cidr_def split: if_splits)
  define b where "b = a AND NOT (mask (32 - n))"
  have pool: "pool p = pool \<lparr>pf_addr = V4 a, pf_bits = n\<rparr>"
    by (simp add: pool_def n(3) masked4 net4_base_masked)
  have u: "(drop_bit 24 a = 10) = (unat a div 2 ^ 24 = 10)" "(drop_bit 20 a = 0xAC1) = (unat a div 2 ^ 20 = 0xAC1)"
    "(drop_bit 16 a = 0xC0A8) = (unat a div 2 ^ 16 = 0xC0A8)" for a :: "32 word"
    by (simp_all add: drop_bit_nat)
  consider "unat a div 2 ^ 24 = 10" | "unat a div 2 ^ 24 \<noteq> 10" "unat a div 2 ^ 20 = 0xAC1"
    | "unat a div 2 ^ 24 \<noteq> 10" "unat a div 2 ^ 20 \<noteq> 0xAC1" "unat a div 2 ^ 16 = 0xC0A8"
    using n(2) by (auto simp: u)
  then show ?thesis
  proof cases
    case 1
    then show ?thesis
      using block_private [OF n(1), where a = a and j = 24 and v = "10" and w = "11" and x = "0x0B000005"] by (simp add: pool u)
  next
    case 2
    then show ?thesis
      using block_private [OF n(1), where a = a and j = 20 and v = "0xAC1" and w = "0xAC0" and x = "0xAC000005"] by (simp add: pool u)
  next
    case 3
    then show ?thesis
      using block_private [OF n(1), where a = a and j = 16 and v = "0xC0A8" and w = "0xC0A9" and x = "0xC0A90005"] by (simp add: pool u)
  qed
qed

theorem accepted_range_private_iff_witness:
  "parse_cidr demo_lib (show_prefix demo_lib \<lparr>pf_addr = V4 0x0A000000, pf_bits = 7\<rparr>)
     = Inr \<lparr>pf_addr = V4 0x0A000000, pf_bits = 7\<rparr> \<and>
   (\<exists>x \<in> set (pool \<lparr>pf_addr = V4 0x0A000000, pf_bits = 7\<rparr>). \<not> addr_private x)"
proof -
  let ?p = "\<lparr>pf_addr = V4 0x0A000000, pf_bits = 7\<rparr>"
  have m: "pf_masked ?p = ?p" by (simp add: pf_masked_def mask_eq_exp_minus_1)
  have c: "parse_cidr demo_lib (show_prefix demo_lib ?p) = Inr ?p"
    by (subst parse_cidr_plain) (simp_all add: m)
  have g: "go_parse_prefix demo_lib (go_trim (show_prefix demo_lib ?p)) = Some ?p"
    by (simp add: trim_show_prefix parse_prefix_show)
  show ?thesis using accepted_range_private_iff [OF g c] c by (auto simp: drop_bit_nat)
qed

end
