(* ===== verification/Database.thy ===== *)
theory Database
  imports ApiClient NetAddr
begin

text \<open>
  The tables of the control plane's database, as the migrations leave them
  (\<open>migrations/0001_init.sql\<close> to \<open>0004_tenant_members.sql\<close>): tenants, their members and
  invites, their enrollment tokens and their machines (peers). Times are in nanoseconds. A
  column that may be null is an option. The sentinel errors of \<open>internal/store\<close> are values.
\<close>

record stored_tenant =
  st_id :: string
  st_name :: string
  st_cidr :: prefix
  st_created :: int

record stored_member =
  sm_tenant :: string
  sm_user :: string
  sm_email :: "string option"
  sm_name :: "string option"
  sm_role :: role
  sm_created :: int

record stored_invite =
  si_id :: string
  si_tenant :: string
  si_hash :: string
  si_role :: role
  si_created_by :: string
  si_max_uses :: int
  si_uses :: int
  si_expires :: int

record stored_token =
  tk_id :: string
  tk_tenant :: string
  tk_hash :: string
  tk_max_uses :: int
  tk_uses :: int
  tk_expires :: int
  tk_revoked :: "int option"
  tk_created :: int

record stored_peer =
  sp_id :: string
  sp_tenant :: string
  sp_name :: string
  sp_key :: string
  sp_ip :: addr
  sp_token :: "string option"
  sp_created :: int
  sp_public_ip :: "addr option"
  sp_udp_port :: "int option"
  sp_reachable :: bool
  sp_endpoint_at :: "int option"
  sp_nat_ip :: "addr option"
  sp_nat_port :: "int option"

record db =
  db_tenants :: "stored_tenant list"
  db_members :: "stored_member list"
  db_invites :: "stored_invite list"
  db_tokens :: "stored_token list"
  db_peers :: "stored_peer list"

definition empty_db :: db where
  "empty_db = \<lparr>db_tenants = [], db_members = [], db_invites = [], db_tokens = [], db_peers = []\<rparr>"

text \<open>
  The sentinel errors; \<open>Constraint\<close> is any other error of the database, such as a violated
  check or foreign key, which the API answers with a 500.
\<close>

datatype store_error =
  NotFound | Conflict | PoolExhausted | TokenInvalid | InviteInvalid | LastOwner | Claimed | Constraint

definition has_tenant :: "db \<Rightarrow> string \<Rightarrow> bool" where
  "has_tenant d t = list_ex (\<lambda>r. st_id r = t) (db_tenants d)"

definition find_tenant :: "db \<Rightarrow> string \<Rightarrow> stored_tenant option" where
  "find_tenant d t = List.find (\<lambda>r. st_id r = t) (db_tenants d)"

named_theorems db_simps "what the lookups of the store mean"

lemma has_tenant_iff [db_simps]: "has_tenant d t \<longleftrightarrow> t \<in> st_id ` set (db_tenants d)"
  by (auto simp: has_tenant_def list_ex_iff)

lemma find_tenant_None: "find_tenant d t = None \<longleftrightarrow> \<not> has_tenant d t"
  by (auto simp: find_tenant_def find_None_set has_tenant_def list_ex_iff)

lemma find_tenant_Some: "find_tenant d t = Some r \<Longrightarrow> r \<in> set (db_tenants d) \<and> st_id r = t"
  unfolding find_tenant_def by (drule find_Some_set) auto

text \<open>A lookup by key finds the row, when keys are unique.\<close>

lemma find_key:
  assumes "distinct (map f xs)" "x \<in> set xs"
  shows "List.find (\<lambda>y. f y = f x) xs = Some x"
  using assms by (induction xs) (auto simp: rev_image_eqI)

text \<open>Rows that keep their key when they are changed keep the keys distinct.\<close>

lemma map_key_same: "(\<And>x. f (g x) = f x) \<Longrightarrow> map f (map g xs) = map f xs"
  by simp

lemma find_snoc: "List.find P (xs @ [x]) = (case List.find P xs of None \<Rightarrow> if P x then Some x else None | Some y \<Rightarrow> Some y)"
  by (induction xs) auto

lemma find_other: "(\<And>x. x \<in> set xs \<Longrightarrow> P x \<Longrightarrow> Q x) \<Longrightarrow> List.find P (filter Q xs) = List.find P xs"
  by (induction xs) auto

lemma find_map_same: "(\<And>x. P (f x) = P x) \<Longrightarrow> List.find P (map f xs) = map_option f (List.find P xs)"
  by (induction xs) auto

end
