(* ===== verification/MemberStore.thy ===== *)
theory MemberStore
  imports Database
begin

text \<open>
  The operations of \<open>internal/store/members.go\<close>, with \<open>CreateTenant\<close> of
  \<open>internal/store/store.go\<close>. Each operation is one transaction, so it is one function from a
  database to an error or a new database; the row locks it takes make two of them on the same
  rows run one after the other. What the database supplies (a random id, the time) is an
  argument, and so is the SHA-256 of a code.
\<close>

record store_user =
  su_id :: string
  su_email :: string
  su_name :: string

section \<open>Operations\<close>

definition nullable :: "string \<Rightarrow> string option" where
  "nullable s = (if s = [] then None else Some s)"

definition has_member :: "db \<Rightarrow> string \<Rightarrow> string \<Rightarrow> bool" where
  "has_member d t u = list_ex (\<lambda>r. sm_tenant r = t \<and> sm_user r = u) (db_members d)"

definition member_of_user :: "int \<Rightarrow> string \<Rightarrow> store_user \<Rightarrow> role \<Rightarrow> stored_member" where
  "member_of_user now t u r =
     \<lparr>sm_tenant = t, sm_user = su_id u, sm_email = nullable (su_email u), sm_name = nullable (su_name u),
      sm_role = r, sm_created = now\<rparr>"

definition add_member :: "int \<Rightarrow> string \<Rightarrow> store_user \<Rightarrow> role \<Rightarrow> db \<Rightarrow> store_error + db" where
  "add_member now t u r d =
     (if has_member d t (su_id u) then Inl Conflict
      else if \<not> has_tenant d t then Inl Constraint
      else Inr (d\<lparr>db_members := db_members d @ [member_of_user now t u r]\<rparr>))"

definition store_create_tenant :: "string \<Rightarrow> int \<Rightarrow> string \<Rightarrow> prefix \<Rightarrow> db \<Rightarrow> store_error + stored_tenant \<times> db" where
  "store_create_tenant new_id now name cidr d =
     (if has_tenant d new_id then Inl Conflict
      else
        (let t = \<lparr>st_id = new_id, st_name = name, st_cidr = cidr, st_created = now\<rparr> in
         Inr (t, d\<lparr>db_tenants := db_tenants d @ [t]\<rparr>)))"

definition create_owned_tenant ::
  "string \<Rightarrow> int \<Rightarrow> string \<Rightarrow> prefix \<Rightarrow> store_user \<Rightarrow> db \<Rightarrow> store_error + stored_tenant \<times> db" where
  "create_owned_tenant new_id now name cidr u d =
     (case store_create_tenant new_id now name cidr d of
        Inl e \<Rightarrow> Inl e
      | Inr (t, d1) \<Rightarrow>
          (case add_member now (st_id t) u Owner d1 of
             Inl e \<Rightarrow> Inl e
           | Inr d2 \<Rightarrow> Inr (t, d2)))"

definition find_member :: "db \<Rightarrow> string \<Rightarrow> string \<Rightarrow> stored_member option" where
  "find_member d t u = List.find (\<lambda>r. sm_tenant r = t \<and> sm_user r = u) (db_members d)"

text \<open>\<open>IS DISTINCT FROM\<close> only spares a write; the tenants are listed oldest first.\<close>

definition refresh_member :: "store_user \<Rightarrow> stored_member \<Rightarrow> stored_member" where
  "refresh_member u r =
     (if sm_user r = su_id u then r\<lparr>sm_email := nullable (su_email u), sm_name := nullable (su_name u)\<rparr> else r)"

definition list_memberships :: "store_user \<Rightarrow> db \<Rightarrow> (stored_tenant \<times> role) list \<times> db" where
  "list_memberships u d =
     (let d1 = d\<lparr>db_members := map (refresh_member u) (db_members d)\<rparr>;
          rows = List.concat (map (\<lambda>r. if sm_user r = su_id u
                   then map (\<lambda>t. (t, sm_role r)) (filter (\<lambda>t. st_id t = sm_tenant r) (db_tenants d1)) else [])
                 (db_members d1))
      in (sort_key (\<lambda>(t, r). st_created t) rows, d1))"

definition get_membership :: "string \<Rightarrow> string \<Rightarrow> db \<Rightarrow> store_error + stored_tenant \<times> role" where
  "get_membership t u d =
     (case (find_member d t u, find_tenant d t) of
        (Some m, Some tn) \<Rightarrow> Inr (tn, sm_role m)
      | _ \<Rightarrow> Inl NotFound)"

text \<open>Owners first, each group oldest first.\<close>

definition list_members :: "string \<Rightarrow> db \<Rightarrow> stored_member list" where
  "list_members t d =
     (let rows = sort_key sm_created (filter (\<lambda>r. sm_tenant r = t) (db_members d)) in
      filter (\<lambda>r. sm_role r = Owner) rows @ filter (\<lambda>r. sm_role r \<noteq> Owner) rows)"

definition owners :: "db \<Rightarrow> string \<Rightarrow> stored_member list" where
  "owners d t = filter (\<lambda>r. sm_tenant r = t \<and> sm_role r = Owner) (db_members d)"

definition store_remove_member :: "string \<Rightarrow> string \<Rightarrow> db \<Rightarrow> store_error + db" where
  "store_remove_member t u d =
     (case find_member d t u of
        None \<Rightarrow> Inl NotFound
      | Some m \<Rightarrow>
          if sm_role m = Owner \<and> length (owners d t) \<le> 1 then Inl LastOwner
          else Inr (d\<lparr>db_members := filter (\<lambda>r. \<not> (sm_tenant r = t \<and> sm_user r = u)) (db_members d)\<rparr>))"

definition store_create_invite ::
  "string \<Rightarrow> string \<Rightarrow> int \<Rightarrow> string \<Rightarrow> role \<Rightarrow> string \<Rightarrow> int \<Rightarrow> int \<Rightarrow> db \<Rightarrow> store_error + stored_invite \<times> db" where
  "store_create_invite new_id hash now t r by_user ttl max_uses d =
     (if list_ex (\<lambda>i. si_id i = new_id \<or> si_hash i = hash) (db_invites d) then Inl Conflict
      else if \<not> has_tenant d t \<or> max_uses \<le> 0 then Inl Constraint
      else
        (let i = \<lparr>si_id = new_id, si_tenant = t, si_hash = hash, si_role = r, si_created_by = by_user,
                  si_max_uses = max_uses, si_uses = 0, si_expires = now + ttl\<rparr> in
         Inr (i, d\<lparr>db_invites := db_invites d @ [i]\<rparr>)))"

definition usable_invite :: "string \<Rightarrow> int \<Rightarrow> stored_invite \<Rightarrow> bool" where
  "usable_invite hash now i \<longleftrightarrow> si_hash i = hash \<and> now < si_expires i \<and> si_uses i < si_max_uses i"

text \<open>Someone already in the tenant keeps their role, and the invite is not used up.\<close>

definition store_accept_invite ::
  "string \<Rightarrow> int \<Rightarrow> store_user \<Rightarrow> db \<Rightarrow> store_error + (stored_tenant \<times> role) \<times> db" where
  "store_accept_invite hash now u d =
     (case List.find (usable_invite hash now) (db_invites d) of
        None \<Rightarrow> Inl InviteInvalid
      | Some i \<Rightarrow>
          (let d1 =
             (if has_member d (si_tenant i) (su_id u) then d
              else d\<lparr>db_members := db_members d @ [member_of_user now (si_tenant i) u (si_role i)],
                     db_invites := map (\<lambda>x. if si_id x = si_id i then x\<lparr>si_uses := si_uses x + 1\<rparr> else x) (db_invites d)\<rparr>)
           in map_sum id (\<lambda>m. (m, d1)) (get_membership (si_tenant i) (su_id u) d1)))"

definition store_claim_tenant :: "string \<Rightarrow> int \<Rightarrow> store_user \<Rightarrow> db \<Rightarrow> store_error + (stored_tenant \<times> role) \<times> db" where
  "store_claim_tenant t now u d =
     (if \<not> has_tenant d t then Inl NotFound
      else if list_ex (\<lambda>r. sm_tenant r = t) (db_members d) then Inl Claimed
      else
        (case add_member now t u Owner d of
           Inl e \<Rightarrow> Inl e
         | Inr d1 \<Rightarrow> map_sum id (\<lambda>m. (m, d1)) (get_membership t (su_id u) d1)))"

section \<open>The invariant\<close>

text \<open>
  Keys are unique, every member is of a stored tenant, the uses of an invite are within bounds,
  and a tenant with members, or with invites, has an owner.
\<close>

definition member_key :: "stored_member \<Rightarrow> string \<times> string" where
  "member_key r = (sm_tenant r, sm_user r)"

definition owned :: "db \<Rightarrow> bool" where
  "owned d \<longleftrightarrow> (\<forall>r \<in> set (db_members d). owners d (sm_tenant r) \<noteq> [])"

definition db_ok :: "db \<Rightarrow> bool" where
  "db_ok d \<longleftrightarrow>
     distinct (map st_id (db_tenants d)) \<and>
     distinct (map member_key (db_members d)) \<and>
     (\<forall>r \<in> set (db_members d). has_tenant d (sm_tenant r)) \<and>
     distinct (map si_id (db_invites d)) \<and> distinct (map si_hash (db_invites d)) \<and>
     (\<forall>i \<in> set (db_invites d). owners d (si_tenant i) \<noteq> [] \<and> 0 \<le> si_uses i \<and> si_uses i \<le> si_max_uses i) \<and>
     owned d"

lemma has_member_iff [db_simps]: "has_member d t u \<longleftrightarrow> (t, u) \<in> member_key ` set (db_members d)"
  by (auto simp: has_member_def member_key_def list_ex_iff)

lemma owners_nonempty [db_simps]: "owners d t \<noteq> [] \<longleftrightarrow> (\<exists>r \<in> set (db_members d). sm_tenant r = t \<and> sm_role r = Owner)"
  by (auto simp: owners_def filter_empty_conv)

lemma find_member_Some: "find_member d t u = Some m \<Longrightarrow> m \<in> set (db_members d) \<and> sm_tenant m = t \<and> sm_user m = u"
  unfolding find_member_def by (drule find_Some_set) auto

lemma find_member_None: "find_member d t u = None \<longleftrightarrow> \<not> has_member d t u"
  by (auto simp: find_member_def find_None_set has_member_def list_ex_iff)

lemma owner_has_tenant: "db_ok d \<Longrightarrow> owners d t \<noteq> [] \<Longrightarrow> has_tenant d t"
  unfolding owners_nonempty db_ok_def by blast

lemma db_ok_empty: "db_ok empty_db"
  by (simp add: db_ok_def empty_db_def owned_def)

text \<open>A new member is welcome when the key is free and an owner is there or joins.\<close>

lemma owned_append:
  assumes "owned d" "owners d (sm_tenant m) \<noteq> [] \<or> sm_role m = Owner"
  shows "owned (d\<lparr>db_members := db_members d @ [m]\<rparr>)"
proof -
  have "owners (d\<lparr>db_members := db_members d @ [m]\<rparr>) t =
      owners d t @ (if sm_tenant m = t \<and> sm_role m = Owner then [m] else [])" for t
    by (simp add: owners_def)
  then show ?thesis using assms by (auto simp: owned_def)
qed

lemma db_ok_add:
  assumes "db_ok d" "\<not> has_member d (sm_tenant m) (sm_user m)" "has_tenant d (sm_tenant m)"
    "owners d (sm_tenant m) \<noteq> [] \<or> sm_role m = Owner"
  shows "db_ok (d\<lparr>db_members := db_members d @ [m]\<rparr>)"
  using assms owned_append [of d m]
  by (auto simp: db_ok_def db_simps member_key_def)

lemma add_member_ok:
  assumes "db_ok d" "add_member now t u r d = Inr d'" "owners d t \<noteq> [] \<or> r = Owner"
  shows "db_ok d'"
  using assms db_ok_add [of d "member_of_user now t u r"]
  by (auto simp: add_member_def member_of_user_def split: if_splits)

lemma create_tenant_ok:
  assumes "db_ok d" "store_create_tenant i now name cidr d = Inr (t, d')"
  shows "db_ok d'"
  using assms by (auto simp: store_create_tenant_def Let_def db_ok_def db_simps owned_def owners_def split: if_splits)

lemma create_owned_ok:
  assumes "db_ok d" "create_owned_tenant i now name cidr u d = Inr (t, d')"
  shows "db_ok d'"
proof -
  obtain t1 d1 where c: "store_create_tenant i now name cidr d = Inr (t1, d1)"
    using assms(2) by (cases "store_create_tenant i now name cidr d") (auto simp: create_owned_tenant_def)
  then have "add_member now (st_id t1) u Owner d1 = Inr d'"
    using assms(2) by (simp add: create_owned_tenant_def split: sum.splits)
  then show ?thesis using add_member_ok [OF create_tenant_ok [OF assms(1) c]] by blast
qed

lemma list_memberships_ok: "db_ok d \<Longrightarrow> db_ok (snd (list_memberships u d))"
proof -
  let ?f = "refresh_member u"
  have k: "member_key (?f r) = member_key r" "sm_tenant (?f r) = sm_tenant r" "sm_role (?f r) = sm_role r" for r
    by (simp_all add: refresh_member_def member_key_def)
  then have "member_key \<circ> ?f = member_key" by (simp add: fun_eq_iff)
  moreover have "owners (d\<lparr>db_members := map ?f (db_members d)\<rparr>) t = map ?f (owners d t)" for t
    by (simp add: owners_def filter_map comp_def k)
  ultimately show "db_ok d \<Longrightarrow> db_ok (snd (list_memberships u d))"
    by (simp add: list_memberships_def Let_def db_ok_def owned_def has_tenant_def k)
qed

lemma removed_owner:
  assumes dist: "distinct (map member_key (db_members d))" and rm: "store_remove_member t u d = Inr d'"
    and o: "owners d t' \<noteq> []"
  shows "owners d' t' \<noteq> []"
proof -
  obtain m where m: "find_member d t u = Some m" "\<not> (sm_role m = Owner \<and> length (owners d t) \<le> 1)"
    and d': "d' = d\<lparr>db_members := filter (\<lambda>r. \<not> (sm_tenant r = t \<and> sm_user r = u)) (db_members d)\<rparr>"
    using rm by (auto simp: store_remove_member_def split: option.splits if_splits)
  have mem: "m \<in> set (db_members d)" "sm_tenant m = t" "sm_user m = u" using find_member_Some [OF m(1)] by auto
  have only: "r = m" if "r \<in> set (db_members d)" "sm_tenant r = t" "sm_user r = u" for r
    using that mem dist by (metis distinct_map inj_onD member_key_def)
  have "\<exists>x \<in> set (owners d t'). x \<noteq> m"
  proof (cases "m \<in> set (owners d t')")
    case True
    then have "t' = t" "sm_role m = Owner" using mem by (auto simp: owners_def)
    then have "2 \<le> length (owners d t')" using m(2) by simp
    moreover have "distinct (owners d t')" using dist by (simp add: owners_def distinct_map)
    ultimately have two: "2 \<le> card (set (owners d t'))" by (simp add: distinct_card)
    have "\<not> set (owners d t') \<subseteq> {m}"
    proof
      assume "set (owners d t') \<subseteq> {m}"
      then have "card (set (owners d t')) \<le> card {m}" by (intro card_mono) simp_all
      with two show False by simp
    qed
    then show ?thesis by blast
  next
    case False
    then show ?thesis using o by (metis last_in_set)
  qed
  then obtain x where "x \<in> set (owners d t')" "x \<noteq> m" by blast
  then have "x \<in> set (owners d' t')" using only by (auto simp: owners_def d')
  then show ?thesis by auto
qed

lemma remove_member_ok:
  assumes ok: "db_ok d" and rm: "store_remove_member t u d = Inr d'"
  shows "db_ok d'"
proof -
  have d': "d' = d\<lparr>db_members := filter (\<lambda>r. \<not> (sm_tenant r = t \<and> sm_user r = u)) (db_members d)\<rparr>"
    using rm by (auto simp: store_remove_member_def split: option.splits if_splits)
  have keep: "owners d t' \<noteq> [] \<Longrightarrow> owners d' t' \<noteq> []" for t'
    using removed_owner [OF _ rm] ok by (simp add: db_ok_def)
  then have "owned d'" using ok by (auto simp: owned_def db_ok_def d')
  moreover have "\<forall>i \<in> set (db_invites d'). owners d' (si_tenant i) \<noteq> []"
    using ok keep by (auto simp: db_ok_def d')
  ultimately show ?thesis
    using ok unfolding db_ok_def by (auto simp: d' has_tenant_def distinct_map_filter)
qed

lemma create_invite_ok:
  assumes "db_ok d" "owners d t \<noteq> []" "store_create_invite i h now t r b ttl n d = Inr (x, d')"
  shows "db_ok d'"
  using assms
  by (auto simp: store_create_invite_def Let_def db_ok_def list_ex_iff db_simps owned_def owners_def split: if_splits)

lemma accept_invite_ok:
  assumes ok: "db_ok d" and acc: "store_accept_invite h now u d = Inr (m, d')"
  shows "db_ok d'"
proof -
  obtain i where i: "List.find (usable_invite h now) (db_invites d) = Some i"
    using acc by (auto simp: store_accept_invite_def split: option.splits)
  have mem: "i \<in> set (db_invites d)" "si_uses i < si_max_uses i"
    using find_Some_set [OF i] by (auto simp: usable_invite_def)
  show ?thesis
  proof (cases "has_member d (si_tenant i) (su_id u)")
    case True
    then have "d' = d" using acc i by (cases "get_membership (si_tenant i) (su_id u) d") (auto simp: store_accept_invite_def)
    then show ?thesis using ok by simp
  next
    case False
    let ?m = "member_of_user now (si_tenant i) u (si_role i)"
    let ?d1 = "d\<lparr>db_members := db_members d @ [?m]\<rparr>"
    let ?bump = "\<lambda>x. if si_id x = si_id i then x\<lparr>si_uses := si_uses x + 1\<rparr> else x"
    have o: "owners d (si_tenant i) \<noteq> []" using ok mem by (simp add: db_ok_def)
    have "has_tenant d (si_tenant i)" using owner_has_tenant [OF ok o] .
    then have ok1: "db_ok ?d1"
      using db_ok_add [OF ok, of ?m] False o by (simp add: member_of_user_def)
    have d': "d' = ?d1\<lparr>db_invites := map ?bump (db_invites d)\<rparr>"
      using acc i False by (auto simp: store_accept_invite_def Let_def map_sum_def split: sum.splits)
    have dist: "distinct (map si_id (db_invites d))" using ok by (simp add: db_ok_def)
    have same: "x = i" if "x \<in> set (db_invites d)" "si_id x = si_id i" for x
      using inj_onD [OF distinct_map [THEN iffD1, OF dist, THEN conjunct2] that(2) that(1) mem(1)] .
    have ids: "map si_id (map ?bump xs) = map si_id xs" "map si_hash (map ?bump xs) = map si_hash xs" for xs
      by simp_all
    have eqs: "db_members d' = db_members ?d1" "db_tenants d' = db_tenants ?d1" "db_invites d' = map ?bump (db_invites d)"
      "\<And>t. owners d' t = owners ?d1 t" "\<And>t. has_tenant d' t = has_tenant ?d1 t"
      by (simp_all add: owners_def has_tenant_def d')
    have invs: "owners ?d1 (si_tenant y) \<noteq> [] \<and> 0 \<le> si_uses y \<and> si_uses y \<le> si_max_uses y"
      if y: "y \<in> set (map ?bump (db_invites d))" for y
    proof -
      obtain x where x: "x \<in> set (db_invites d)" "y = ?bump x" using y by auto
      have "owners ?d1 (si_tenant x) \<noteq> [] \<and> 0 \<le> si_uses x \<and> si_uses x \<le> si_max_uses x"
        using ok1 x(1) by (simp add: db_ok_def)
      then show ?thesis using same [OF x(1)] mem(2) x(2) by auto
    qed
    show ?thesis
      unfolding db_ok_def owned_def eqs ids
      using ok1 invs unfolding db_ok_def owned_def by simp
  qed
qed

section \<open>What the operations mean\<close>

text \<open>
  The contract of the store: who may do what. A tenant that exists gives each of its members
  a role; the operations are stated on that map alone.
\<close>

type_synonym access = "string \<Rightarrow> (string \<Rightarrow> role option) option"

definition spec_create :: "string \<Rightarrow> string \<Rightarrow> access \<Rightarrow> store_error + access" where
  "spec_create t u A = (if A t \<noteq> None then Inl Conflict else Inr (A(t \<mapsto> [u \<mapsto> Owner])))"

definition sole_owner :: "(string \<Rightarrow> role option) \<Rightarrow> string \<Rightarrow> bool" where
  "sole_owner m u \<longleftrightarrow> {v. m v = Some Owner} = {u}"

definition spec_remove :: "string \<Rightarrow> string \<Rightarrow> access \<Rightarrow> store_error + access" where
  "spec_remove t u A =
     (case A t of
        None \<Rightarrow> Inl NotFound
      | Some m \<Rightarrow> if m u = None then Inl NotFound
          else if sole_owner m u then Inl LastOwner
          else Inr (A(t \<mapsto> m(u := None))))"

definition spec_claim :: "string \<Rightarrow> string \<Rightarrow> access \<Rightarrow> store_error + access" where
  "spec_claim t u A =
     (case A t of
        None \<Rightarrow> Inl NotFound
      | Some m \<Rightarrow> if m = Map.empty then Inr (A(t \<mapsto> [u \<mapsto> Owner])) else Inl Claimed)"

definition spec_join :: "string \<Rightarrow> role \<Rightarrow> string \<Rightarrow> access \<Rightarrow> store_error + access" where
  "spec_join t r u A =
     (case A t of
        None \<Rightarrow> Inl NotFound
      | Some m \<Rightarrow> Inr (if m u = None then A(t \<mapsto> m(u \<mapsto> r)) else A))"

definition access_of :: "db \<Rightarrow> access" where
  "access_of d t = (if has_tenant d t then Some (\<lambda>u. map_option sm_role (find_member d t u)) else None)"

lemma access_add:
  assumes "\<not> has_member d (sm_tenant m) (sm_user m)" "access_of d (sm_tenant m) = Some f"
  shows "access_of (d\<lparr>db_members := db_members d @ [m]\<rparr>) = (access_of d)(sm_tenant m \<mapsto> f(sm_user m \<mapsto> sm_role m))"
proof -
  have "find_member (d\<lparr>db_members := db_members d @ [m]\<rparr>) t u =
      (if t = sm_tenant m \<and> u = sm_user m then Some m else find_member d t u)" for t u
    using assms(1) find_member_None [of d t u]
    by (auto simp: find_member_def find_snoc split: option.splits)
  moreover have "f = (\<lambda>u. map_option sm_role (find_member d (sm_tenant m) u))" "has_tenant d (sm_tenant m)"
    using assms(2) by (auto simp: access_of_def split: if_splits)
  moreover have "has_tenant (d\<lparr>db_members := ms\<rparr>) t = has_tenant d t" for t ms by (simp add: has_tenant_def)
  ultimately show ?thesis by (auto simp: access_of_def fun_eq_iff)
qed

lemma access_invites [simp]: "access_of (d\<lparr>db_invites := is\<rparr>) = access_of d"
  by (simp add: access_of_def find_member_def has_tenant_def fun_eq_iff)

lemma access_Some: "has_tenant d t \<Longrightarrow> access_of d t = Some (\<lambda>u. map_option sm_role (find_member d t u))"
  by (simp add: access_of_def)

lemma add_member_access:
  assumes "has_tenant d t"
  shows "map_sum id access_of (add_member now t u r d) =
    (if has_member d t (su_id u) then Inl Conflict
     else Inr ((access_of d)(t \<mapsto> (\<lambda>v. map_option sm_role (find_member d t v))(su_id u \<mapsto> r))))"
  using assms access_add [of d "member_of_user now t u r"]
  by (simp add: add_member_def access_Some member_of_user_def)

lemma get_membership_ok:
  assumes "has_member d t u" "has_tenant d t"
  obtains m where "get_membership t u d = Inr m"
proof -
  obtain m n where "find_member d t u = Some m" "find_tenant d t = Some n"
    using assms by (metis find_member_None find_tenant_None option.exhaust)
  then show ?thesis using that by (simp add: get_membership_def)
qed

lemma member_empty: "(\<lambda>u. map_option sm_role (find_member d t u)) = Map.empty \<longleftrightarrow> \<not> list_ex (\<lambda>r. sm_tenant r = t) (db_members d)"
  by (auto simp: fun_eq_iff find_member_None has_member_def list_ex_iff)

lemma create_owned_access:
  assumes "db_ok d"
  shows "map_sum id (access_of \<circ> snd) (create_owned_tenant i now name cidr u d) = spec_create i (su_id u) (access_of d)"
proof (cases "has_tenant d i")
  case False
  let ?t = "\<lparr>st_id = i, st_name = name, st_cidr = cidr, st_created = now\<rparr>"
  let ?d = "d\<lparr>db_tenants := db_tenants d @ [?t]\<rparr>"
  have none: "\<not> has_member d i v" for v
    using assms False by (auto simp: db_ok_def has_member_def list_ex_iff)
  then have e: "(\<lambda>v. map_option sm_role (find_member ?d i v)) = Map.empty"
    by (simp add: fun_eq_iff find_member_None has_member_def)
  have h: "has_tenant ?d t = (t = i \<or> has_tenant d t)" for t by (auto simp: has_tenant_def)
  have a: "access_of ?d = (access_of d)(i \<mapsto> Map.empty)"
    using e by (auto simp: access_of_def h find_member_def fun_eq_iff)
  have "map_sum id access_of (add_member now i u Owner ?d) = Inr ((access_of d)(i \<mapsto> [su_id u \<mapsto> Owner]))"
    using add_member_access [of ?d i now u Owner] none by (simp add: h e a has_member_def)
  then show ?thesis
    using False by (auto simp: create_owned_tenant_def store_create_tenant_def Let_def spec_create_def access_of_def map_sum_def split: sum.splits)
qed (simp add: create_owned_tenant_def store_create_tenant_def spec_create_def access_of_def)

lemma claim_access:
  "map_sum id (access_of \<circ> snd) (store_claim_tenant t now u d) = spec_claim t (su_id u) (access_of d)"
proof (cases "has_tenant d t \<and> \<not> list_ex (\<lambda>r. sm_tenant r = t) (db_members d)")
  case True
  then have e: "(\<lambda>v. map_option sm_role (find_member d t v)) = Map.empty" by (simp add: member_empty)
  let ?d = "d\<lparr>db_members := db_members d @ [member_of_user now t u Owner]\<rparr>"
  have nm: "\<not> has_member d t (su_id u)" using True by (auto simp: has_member_def list_ex_iff)
  have "has_member ?d t (su_id u)" "has_tenant ?d t"
    using True by (auto simp: has_member_def member_of_user_def has_tenant_def)
  then obtain m where "get_membership t (su_id u) ?d = Inr m" by (rule get_membership_ok)
  moreover have "add_member now t u Owner d = Inr ?d" using True nm by (simp add: add_member_def)
  moreover have "access_of ?d = (access_of d)(t \<mapsto> [su_id u \<mapsto> Owner])"
    using add_member_access [of d t now u Owner] True nm e by (simp add: add_member_def)
  ultimately show ?thesis using True e by (simp add: store_claim_tenant_def spec_claim_def access_of_def)
next
  case False
  then show ?thesis by (auto simp: store_claim_tenant_def spec_claim_def access_of_def member_empty)
qed

lemma accept_access:
  assumes ok: "db_ok d"
  shows "map_sum id (access_of \<circ> snd) (store_accept_invite h now u d) =
    (case List.find (usable_invite h now) (db_invites d) of
       None \<Rightarrow> Inl InviteInvalid
     | Some i \<Rightarrow> spec_join (si_tenant i) (si_role i) (su_id u) (access_of d))"
proof (cases "List.find (usable_invite h now) (db_invites d)")
  case (Some i)
  have "owners d (si_tenant i) \<noteq> []" using find_Some_set [OF Some] ok by (auto simp: db_ok_def)
  then have t: "has_tenant d (si_tenant i)" by (rule owner_has_tenant [OF ok])
  show ?thesis
  proof (cases "has_member d (si_tenant i) (su_id u)")
    case True
    then obtain m where "get_membership (si_tenant i) (su_id u) d = Inr m" using t by (rule get_membership_ok)
    then show ?thesis
      using True t by (simp add: store_accept_invite_def Some spec_join_def access_Some find_member_None)
  next
    case False
    let ?m = "member_of_user now (si_tenant i) u (si_role i)"
    let ?d = "d\<lparr>db_members := db_members d @ [?m], db_invites := map (\<lambda>x. if si_id x = si_id i then x\<lparr>si_uses := si_uses x + 1\<rparr> else x) (db_invites d)\<rparr>"
    have "has_member ?d (si_tenant i) (su_id u)" "has_tenant ?d (si_tenant i)"
      using t by (auto simp: has_member_def member_of_user_def has_tenant_def)
    then obtain m where "get_membership (si_tenant i) (su_id u) ?d = Inr m" by (rule get_membership_ok)
    moreover have "access_of ?d = (access_of d)(si_tenant i \<mapsto> (\<lambda>v. map_option sm_role (find_member d (si_tenant i) v))(su_id u \<mapsto> si_role i))"
      using access_add [of d ?m] access_invites [where d = "d\<lparr>db_members := db_members d @ [?m]\<rparr>"] False t
      by (simp add: member_of_user_def access_Some)
    ultimately show ?thesis
      using False t by (simp add: store_accept_invite_def Some spec_join_def access_Some find_member_None)
  qed
qed (simp add: store_accept_invite_def)

lemma find_member_iff:
  assumes "distinct (map member_key (db_members d))"
  shows "find_member d t u = Some m \<longleftrightarrow> m \<in> set (db_members d) \<and> sm_tenant m = t \<and> sm_user m = u"
proof
  assume m: "m \<in> set (db_members d) \<and> sm_tenant m = t \<and> sm_user m = u"
  then have "List.find (\<lambda>y. member_key y = member_key m) (db_members d) = Some m" using find_key [OF assms] by blast
  moreover have "(\<lambda>y. member_key y = member_key m) = (\<lambda>r. sm_tenant r = t \<and> sm_user r = u)"
    using m by (auto simp: member_key_def)
  ultimately show "find_member d t u = Some m" by (simp add: find_member_def)
qed (rule find_member_Some)

lemma card_le_1_single: "finite A \<Longrightarrow> u \<in> A \<Longrightarrow> card A \<le> 1 \<Longrightarrow> A = {u}"
  using card_le_Suc0_iff_eq [of A] by auto

lemma sole_owner_iff:
  assumes dist: "distinct (map member_key (db_members d))" and m: "find_member d t u = Some m"
  shows "sm_role m = Owner \<and> length (owners d t) \<le> 1 \<longleftrightarrow> sole_owner (\<lambda>u. map_option sm_role (find_member d t u)) u"
proof -
  have set: "{v. map_option sm_role (find_member d t v) = Some Owner} = sm_user ` set (owners d t)"
    using find_member_iff [OF dist] by (force simp: owners_def)
  have inj: "inj_on sm_user (set (owners d t))" and dis: "distinct (owners d t)"
    using dist by (auto simp: owners_def distinct_map inj_on_def member_key_def)
  have card: "card (sm_user ` set (owners d t)) = length (owners d t)"
    by (simp add: card_image inj distinct_card dis)
  have mo: "sm_role m = Owner \<longleftrightarrow> u \<in> sm_user ` set (owners d t)"
    using m set by (metis (mono_tags) mem_Collect_eq option.simps(9) option.inject)
  show ?thesis
  proof
    assume "sm_role m = Owner \<and> length (owners d t) \<le> 1"
    then have "u \<in> sm_user ` set (owners d t)" "card (sm_user ` set (owners d t)) \<le> 1"
      using mo card by simp_all
    then have "sm_user ` set (owners d t) = {u}"
      by (intro card_le_1_single) simp_all
    then show "sole_owner (\<lambda>u. map_option sm_role (find_member d t u)) u" unfolding sole_owner_def set .
  next
    assume "sole_owner (\<lambda>u. map_option sm_role (find_member d t u)) u"
    then have "sm_user ` set (owners d t) = {u}" unfolding sole_owner_def set .
    then show "sm_role m = Owner \<and> length (owners d t) \<le> 1" using mo card by simp
  qed
qed

lemma remove_access:
  assumes ok: "db_ok d"
  shows "map_sum id access_of (store_remove_member t u d) = spec_remove t u (access_of d)"
proof (cases "find_member d t u")
  case None
  then show ?thesis by (simp add: store_remove_member_def spec_remove_def access_of_def)
next
  case (Some m)
  have dist: "distinct (map member_key (db_members d))" using ok by (simp add: db_ok_def)
  have t: "has_tenant d t" using find_member_Some [OF Some] ok by (auto simp: db_ok_def)
  let ?d = "d\<lparr>db_members := filter (\<lambda>r. \<not> (sm_tenant r = t \<and> sm_user r = u)) (db_members d)\<rparr>"
  have "find_member ?d t' v = (if t' = t \<and> v = u then None else find_member d t' v)" for t' v
  proof (cases "t' = t \<and> v = u")
    case False
    then show ?thesis by (auto simp: find_member_def intro: find_other)
  qed (auto simp: find_member_def find_None_set)
  moreover have "has_tenant ?d t' = has_tenant d t'" for t' by (simp add: has_tenant_def)
  ultimately have "access_of ?d = (access_of d)(t \<mapsto> (\<lambda>v. map_option sm_role (find_member d t v))(u := None))"
    using t by (auto simp: access_of_def fun_eq_iff)
  then show ?thesis
    using Some sole_owner_iff [OF dist Some] t by (simp add: store_remove_member_def spec_remove_def access_Some)
qed

lemma list_memberships_db: "snd (list_memberships u d) = d\<lparr>db_members := map (refresh_member u) (db_members d)\<rparr>"
  by (simp add: list_memberships_def Let_def)

lemma list_memberships_access: "access_of (snd (list_memberships u d)) = access_of d"
proof -
  let ?d = "d\<lparr>db_members := map (refresh_member u) (db_members d)\<rparr>"
  have "find_member ?d t v = map_option (refresh_member u) (find_member d t v)" for t v
    unfolding find_member_def by (simp add: refresh_member_def find_map_same)
  moreover have "sm_role \<circ> refresh_member u = sm_role" by (simp add: fun_eq_iff refresh_member_def)
  moreover have "has_tenant ?d t = has_tenant d t" for t by (simp add: has_tenant_def)
  ultimately show ?thesis
    unfolding list_memberships_db by (intro ext) (simp add: access_of_def option.map_comp)
qed

text \<open>
  C5. The member operations implement the contract, errors included. On a consistent
  database, creating an owned tenant, removing a member, accepting an invite and claiming a
  tenant do to the map of roles exactly what the contract says, and fail exactly when it
  says so: the last owner cannot be removed, a tenant with members cannot be claimed, and
  someone already in a tenant keeps their role. Listing memberships and making an invite
  leave the roles alone, and no operation touches the roles of another tenant.
\<close>
theorem member_store_refines:
  assumes "db_ok d"
  shows
    "map_sum id (access_of \<circ> snd) (create_owned_tenant i now name cidr u d) = spec_create i (su_id u) (access_of d) \<and>
     map_sum id access_of (store_remove_member t v d) = spec_remove t v (access_of d) \<and>
     map_sum id (access_of \<circ> snd) (store_claim_tenant t now u d) = spec_claim t (su_id u) (access_of d) \<and>
     map_sum id (access_of \<circ> snd) (store_accept_invite h now u d) =
       (case List.find (usable_invite h now) (db_invites d) of
          None \<Rightarrow> Inl InviteInvalid
        | Some x \<Rightarrow> spec_join (si_tenant x) (si_role x) (su_id u) (access_of d)) \<and>
     access_of (snd (list_memberships u d)) = access_of d \<and>
     (\<forall>x d'. store_create_invite i h now t r v ttl n d = Inr (x, d') \<longrightarrow> access_of d' = access_of d)"
proof -
  have "access_of (snd (list_memberships u d)) = access_of d" by (rule list_memberships_access)
  moreover have "\<forall>x d'. store_create_invite i h now t r v ttl n d = Inr (x, d') \<longrightarrow> access_of d' = access_of d"
    by (auto simp: store_create_invite_def Let_def split: if_splits)
  ultimately show ?thesis
    using create_owned_access [OF assms] remove_access [OF assms] claim_access accept_access [OF assms] by blast
qed

definition demo_db :: db where
  "demo_db = empty_db
     \<lparr>db_tenants := [\<lparr>st_id = ''t1'', st_name = ''home'', st_cidr = \<lparr>pf_addr = V4 0x0A000000, pf_bits = 29\<rparr>, st_created = 1\<rparr>],
      db_members := [\<lparr>sm_tenant = ''t1'', sm_user = ''ann'', sm_email = None, sm_name = None, sm_role = Owner, sm_created = 1\<rparr>,
        \<lparr>sm_tenant = ''t1'', sm_user = ''bob'', sm_email = None, sm_name = None, sm_role = Member, sm_created = 2\<rparr>],
      db_invites := [\<lparr>si_id = ''i1'', si_tenant = ''t1'', si_hash = ''h1'', si_role = Member, si_created_by = ''ann'',
        si_max_uses = 2, si_uses = 1, si_expires = 100\<rparr>]\<rparr>"

lemma demo_db_ok: "db_ok demo_db"
  by (simp add: db_ok_def demo_db_def empty_db_def owned_def owners_def has_tenant_def member_key_def)

theorem member_store_refines_witness:
  "spec_remove ''t1'' ''ann'' (access_of demo_db) = Inl LastOwner \<and>
   (case spec_remove ''t1'' ''bob'' (access_of demo_db) of Inl e \<Rightarrow> False | Inr A \<Rightarrow> A ''t1'' = Some [''ann'' \<mapsto> Owner])"
proof -
  have ann: "store_remove_member ''t1'' ''ann'' demo_db = Inl LastOwner"
    by (simp add: store_remove_member_def find_member_def owners_def demo_db_def empty_db_def)
  have bob: "store_remove_member ''t1'' ''bob'' demo_db = Inr (demo_db\<lparr>db_members := take 1 (db_members demo_db)\<rparr>)"
    by (simp add: store_remove_member_def find_member_def owners_def demo_db_def empty_db_def)
  have "access_of (demo_db\<lparr>db_members := take 1 (db_members demo_db)\<rparr>) ''t1'' = Some [''ann'' \<mapsto> Owner]"
    by (simp add: access_of_def has_tenant_def find_member_def demo_db_def empty_db_def fun_eq_iff)
  moreover have "spec_remove ''t1'' ''ann'' (access_of demo_db) = Inl LastOwner"
    using member_store_refines [OF demo_db_ok, where t = "''t1''" and v = "''ann''", THEN conjunct2, THEN conjunct1]
    by (simp add: ann)
  moreover have "spec_remove ''t1'' ''bob'' (access_of demo_db) = Inr (access_of (demo_db\<lparr>db_members := take 1 (db_members demo_db)\<rparr>))"
    using member_store_refines [OF demo_db_ok, where t = "''t1''" and v = "''bob''", THEN conjunct2, THEN conjunct1]
    by (simp add: bob)
  ultimately show ?thesis by simp
qed

end
