(* ===== verification/PeerStore.thy ===== *)
theory PeerStore
  imports MemberStore
begin

text \<open>
  Enrollment tokens and machines (\<open>internal/store/store.go\<close>). A registration reads the token
  under a row lock, then the tenant and the addresses in use, and writes at the end of its
  transaction; registrations with other tokens run in between, since only the token's row is
  locked. It is therefore two steps, \<open>register_begin\<close> and \<open>register_commit\<close>, and the database
  rejects at the second what its unique keys forbid. Every other operation is one statement.
\<close>

section \<open>Tenants and tokens\<close>

definition store_get_tenant :: "string \<Rightarrow> db \<Rightarrow> store_error + stored_tenant" where
  "store_get_tenant t d = (case find_tenant d t of None \<Rightarrow> Inl NotFound | Some r \<Rightarrow> Inr r)"

text \<open>Newest first.\<close>

definition store_list_tenants :: "db \<Rightarrow> stored_tenant list" where
  "store_list_tenants d = sort_key (\<lambda>r. - st_created r) (db_tenants d)"

definition store_create_token ::
  "string \<Rightarrow> string \<Rightarrow> int \<Rightarrow> string \<Rightarrow> int \<Rightarrow> int \<Rightarrow> db \<Rightarrow> store_error + stored_token \<times> db" where
  "store_create_token new_id hash now t ttl max_uses d =
     (if list_ex (\<lambda>k. tk_id k = new_id \<or> tk_hash k = hash) (db_tokens d) then Inl Conflict
      else if \<not> has_tenant d t \<or> max_uses \<le> 0 then Inl Constraint
      else
        (let k = \<lparr>tk_id = new_id, tk_tenant = t, tk_hash = hash, tk_max_uses = max_uses, tk_uses = 0,
                  tk_expires = now + ttl, tk_revoked = None, tk_created = now\<rparr> in
         Inr (k, d\<lparr>db_tokens := db_tokens d @ [k]\<rparr>)))"

section \<open>Machines\<close>

definition find_peer :: "db \<Rightarrow> string \<Rightarrow> stored_peer option" where
  "find_peer d p = List.find (\<lambda>r. sp_id r = p) (db_peers d)"

definition store_get_peer :: "string \<Rightarrow> db \<Rightarrow> store_error + stored_peer" where
  "store_get_peer p d = (case find_peer d p of None \<Rightarrow> Inl NotFound | Some r \<Rightarrow> Inr r)"

text \<open>Oldest first.\<close>

definition store_list_peers :: "string \<Rightarrow> db \<Rightarrow> stored_peer list" where
  "store_list_peers t d = sort_key sp_created (filter (\<lambda>r. sp_tenant r = t) (db_peers d))"

definition used_addrs :: "string \<Rightarrow> db \<Rightarrow> addr list" where
  "used_addrs t d = map sp_ip (filter (\<lambda>r. sp_tenant r = t) (db_peers d))"

text \<open>An update of one machine; a port out of range violates the check of its column.\<close>

definition update_peer :: "string \<Rightarrow> (stored_peer \<Rightarrow> stored_peer) \<Rightarrow> db \<Rightarrow> db" where
  "update_peer p f d = d\<lparr>db_peers := map (\<lambda>r. if sp_id r = p then f r else r) (db_peers d)\<rparr>"

definition store_set_endpoint :: "int \<Rightarrow> string \<Rightarrow> addr \<Rightarrow> int \<Rightarrow> bool \<Rightarrow> db \<Rightarrow> store_error + stored_peer \<times> db" where
  "store_set_endpoint now p ip port reachable d =
     (if find_peer d p = None then Inl NotFound
      else if port \<le> 0 \<or> 65536 \<le> port then Inl Constraint
      else
        (let d' = update_peer p (\<lambda>r. r\<lparr>sp_public_ip := Some ip, sp_udp_port := Some port, sp_reachable := reachable,
                                     sp_endpoint_at := Some now\<rparr>) d
         in map_sum id (\<lambda>r. (r, d')) (store_get_peer p d')))"

definition store_set_nat_endpoint :: "string \<Rightarrow> addr \<Rightarrow> int \<Rightarrow> db \<Rightarrow> store_error + stored_peer \<times> db" where
  "store_set_nat_endpoint p ip port d =
     (if find_peer d p = None then Inl NotFound
      else if port \<le> 0 \<or> 65536 \<le> port then Inl Constraint
      else
        (let d' = update_peer p (\<lambda>r. r\<lparr>sp_nat_ip := Some ip, sp_nat_port := Some port\<rparr>) d
         in map_sum id (\<lambda>r. (r, d')) (store_get_peer p d')))"

section \<open>Registration\<close>

definition usable_token :: "string \<Rightarrow> int \<Rightarrow> stored_token \<Rightarrow> bool" where
  "usable_token hash now k \<longleftrightarrow> tk_hash k = hash \<and> tk_revoked k = None \<and> now < tk_expires k \<and> tk_uses k < tk_max_uses k"

text \<open>What a registration has read, and will write.\<close>

record registration =
  rg_token :: string
  rg_tenant :: stored_tenant
  rg_name :: string
  rg_key :: string
  rg_ip :: addr

definition register_begin :: "string \<Rightarrow> int \<Rightarrow> string \<Rightarrow> string \<Rightarrow> db \<Rightarrow> store_error + registration" where
  "register_begin hash now name key d =
     (case List.find (usable_token hash now) (db_tokens d) of
        None \<Rightarrow> Inl TokenInvalid
      | Some k \<Rightarrow>
          (case store_get_tenant (tk_tenant k) d of
             Inl e \<Rightarrow> Inl e
           | Inr t \<Rightarrow>
               (case next_free_addr (st_cidr t) (used_addrs (st_id t) d) of
                  None \<Rightarrow> Inl PoolExhausted
                | Some ip \<Rightarrow> Inr \<lparr>rg_token = tk_id k, rg_tenant = t, rg_name = name, rg_key = key, rg_ip = ip\<rparr>)))"

definition peer_of :: "string \<Rightarrow> int \<Rightarrow> registration \<Rightarrow> stored_peer" where
  "peer_of new_id now g =
     \<lparr>sp_id = new_id, sp_tenant = st_id (rg_tenant g), sp_name = rg_name g, sp_key = rg_key g, sp_ip = rg_ip g,
      sp_token = Some (rg_token g), sp_created = now, sp_public_ip = None, sp_udp_port = None, sp_reachable = False,
      sp_endpoint_at = None, sp_nat_ip = None, sp_nat_port = None\<rparr>"

text \<open>The unique keys of the peers table.\<close>

definition peer_clash :: "stored_peer \<Rightarrow> stored_peer \<Rightarrow> bool" where
  "peer_clash p q \<longleftrightarrow> sp_id p = sp_id q \<or> sp_tenant p = sp_tenant q \<and> (sp_ip p = sp_ip q \<or> sp_key p = sp_key q)"

definition register_commit :: "string \<Rightarrow> int \<Rightarrow> registration \<Rightarrow> db \<Rightarrow> store_error + stored_peer \<times> db" where
  "register_commit new_id now g d =
     (let p = peer_of new_id now g in
      if list_ex (peer_clash p) (db_peers d) then Inl Conflict
      else Inr (p, d\<lparr>db_peers := db_peers d @ [p],
                     db_tokens := map (\<lambda>k. if tk_id k = rg_token g then k\<lparr>tk_uses := tk_uses k + 1\<rparr> else k) (db_tokens d)\<rparr>))"

text \<open>A registration that nothing interrupts.\<close>

definition store_register_peer ::
  "string \<Rightarrow> int \<Rightarrow> string \<Rightarrow> string \<Rightarrow> string \<Rightarrow> db \<Rightarrow> store_error + (stored_peer \<times> stored_tenant) \<times> db" where
  "store_register_peer new_id now hash name key d =
     (case register_begin hash now name key d of
        Inl e \<Rightarrow> Inl e
      | Inr g \<Rightarrow> map_sum id (\<lambda>(p, d'). ((p, rg_tenant g), d')) (register_commit new_id now g d))"

section \<open>The invariant\<close>

definition range_ok :: "prefix \<Rightarrow> bool" where
  "range_ok p \<longleftrightarrow> addr_is4 (pf_addr p) \<and> pf_bits p \<le> 30"

definition token_peers :: "db \<Rightarrow> string \<Rightarrow> stored_peer list" where
  "token_peers d k = filter (\<lambda>p. sp_token p = Some k) (db_peers d)"

text \<open>
  No two machines clash; each has an address of its tenant's pool and came with one of its
  tenant's tokens; and a token counts the machines it let in, up to its limit.
\<close>

definition token_ok :: "db \<Rightarrow> stored_token \<Rightarrow> bool" where
  "token_ok d k \<longleftrightarrow> has_tenant d (tk_tenant k) \<and> tk_uses k = int (length (token_peers d (tk_id k))) \<and> tk_uses k \<le> tk_max_uses k"

definition peer_ok :: "db \<Rightarrow> stored_peer \<Rightarrow> bool" where
  "peer_ok d p \<longleftrightarrow>
     (case find_tenant d (sp_tenant p) of None \<Rightarrow> False | Some t \<Rightarrow> sp_ip p \<in> set (pool (st_cidr t))) \<and>
     (\<exists>k \<in> set (db_tokens d). sp_token p = Some (tk_id k) \<and> tk_tenant k = sp_tenant p)"

definition peers_ok :: "db \<Rightarrow> bool" where
  "peers_ok d \<longleftrightarrow>
     distinct (map st_id (db_tenants d)) \<and> (\<forall>t \<in> set (db_tenants d). range_ok (st_cidr t)) \<and>
     distinct (map tk_id (db_tokens d)) \<and> (\<forall>k \<in> set (db_tokens d). token_ok d k) \<and>
     sorted_wrt (\<lambda>p q. \<not> peer_clash p q) (db_peers d) \<and> (\<forall>p \<in> set (db_peers d). peer_ok d p)"

text \<open>Registrations that are under way hold their token's row, so no two have the same.\<close>

definition reg_ok :: "db \<Rightarrow> registration \<Rightarrow> bool" where
  "reg_ok d g \<longleftrightarrow>
     (\<exists>k \<in> set (db_tokens d). tk_id k = rg_token g \<and> tk_tenant k = st_id (rg_tenant g) \<and> tk_uses k < tk_max_uses k) \<and>
     find_tenant d (st_id (rg_tenant g)) = Some (rg_tenant g) \<and> rg_ip g \<in> set (pool (st_cidr (rg_tenant g)))"

definition regs_ok :: "db \<Rightarrow> registration list \<Rightarrow> bool" where
  "regs_ok d gs \<longleftrightarrow> distinct (map rg_token gs) \<and> (\<forall>g \<in> set gs. reg_ok d g)"

lemma peers_ok_empty: "peers_ok empty_db"
  by (simp add: peers_ok_def empty_db_def)

lemma next_free_pool:
  assumes "range_ok p" "next_free_addr p used = Some ip"
  shows "ip \<in> set (pool p) \<and> ip \<notin> set used"
proof -
  obtain a where "pf_addr p = V4 a" "pf_bits p \<le> 32" using assms(1) by (cases "pf_addr p") (auto simp: range_ok_def)
  then have "next_free_addr p used = first_free (pool p) used"
    using next_free_first [of "pf_bits p" a used] by (cases p) simp
  then have "List.find (\<lambda>x. x \<notin> set used) (pool p) = Some ip" using assms(2) by (simp add: first_free_def)
  then show ?thesis using find_Some_set [of _ "pool p" ip] by blast
qed

lemma register_begin_ok:
  assumes ok: "peers_ok d" and b: "register_begin hash now name key d = Inr g"
  shows "reg_ok d g \<and> rg_ip g \<notin> set (used_addrs (st_id (rg_tenant g)) d)"
proof -
  obtain k where k: "List.find (usable_token hash now) (db_tokens d) = Some k"
    using b by (auto simp: register_begin_def split: option.splits)
  obtain t where t: "find_tenant d (tk_tenant k) = Some t"
    using b k by (auto simp: register_begin_def store_get_tenant_def split: option.splits)
  obtain ip where ip: "next_free_addr (st_cidr t) (used_addrs (st_id t) d) = Some ip"
    using b k t by (auto simp: register_begin_def store_get_tenant_def split: option.splits)
  have g: "g = \<lparr>rg_token = tk_id k, rg_tenant = t, rg_name = name, rg_key = key, rg_ip = ip\<rparr>"
    using b k t ip by (simp add: register_begin_def store_get_tenant_def)
  have "k \<in> set (db_tokens d)" "tk_uses k < tk_max_uses k"
    using find_Some_set [OF k] by (auto simp: usable_token_def)
  moreover have "t \<in> set (db_tenants d)" "st_id t = tk_tenant k" using find_tenant_Some [OF t] by auto
  moreover have "range_ok (st_cidr t)" using ok calculation by (simp add: peers_ok_def)
  ultimately show ?thesis
    using next_free_pool [OF _ ip] t unfolding g reg_ok_def by (auto simp: peers_ok_def)
qed

text \<open>What the tables the invariant reads determine.\<close>

lemma peers_ok_cong:
  assumes "db_tenants d' = db_tenants d" "db_tokens d' = db_tokens d" "db_peers d' = db_peers d"
  shows "peers_ok d' = peers_ok d" "regs_ok d' gs = regs_ok d gs"
proof -
  have "has_tenant d' = has_tenant d" "find_tenant d' = find_tenant d" "token_peers d' = token_peers d"
    using assms by (simp_all add: fun_eq_iff has_tenant_def find_tenant_def token_peers_def)
  then show "peers_ok d' = peers_ok d" "regs_ok d' gs = regs_ok d gs"
    using assms by (simp_all add: peers_ok_def regs_ok_def reg_ok_def token_ok_def peer_ok_def)
qed

lemma create_tenant_peers_ok:
  assumes "peers_ok d" "regs_ok d gs" "range_ok c" "store_create_tenant i now name c d = Inr (t, d')"
  shows "peers_ok d' \<and> regs_ok d' gs"
proof -
  have d': "d' = d\<lparr>db_tenants := db_tenants d @ [t]\<rparr>" "st_id t = i" "st_cidr t = c" "\<not> has_tenant d i"
    using assms(4) by (auto simp: store_create_tenant_def Let_def split: if_splits)
  have f: "find_tenant d x = Some y \<Longrightarrow> find_tenant d' x = Some y" for x y
    by (simp add: find_tenant_def d'(1) find_snoc)
  have h: "has_tenant d x \<Longrightarrow> has_tenant d' x" for x by (simp add: has_tenant_def d'(1))
  have "peer_ok d p \<Longrightarrow> peer_ok d' p" for p using f by (auto simp: peer_ok_def d'(1) split: option.splits)
  moreover have "token_ok d k \<Longrightarrow> token_ok d' k" for k using h by (simp add: token_ok_def token_peers_def d'(1))
  moreover have "reg_ok d g \<Longrightarrow> reg_ok d' g" for g using f by (simp add: reg_ok_def d'(1))
  ultimately show ?thesis
    using assms(1-3) d' by (auto simp: peers_ok_def regs_ok_def has_tenant_iff)
qed

lemma create_token_peers_ok:
  assumes "peers_ok d" "regs_ok d gs" "store_create_token i h now t ttl n d = Inr (k, d')"
  shows "peers_ok d' \<and> regs_ok d' gs"
proof -
  have d': "d' = d\<lparr>db_tokens := db_tokens d @ [k]\<rparr>" "tk_id k = i" "tk_tenant k = t" "tk_uses k = 0" "tk_max_uses k = n"
    "has_tenant d t" "0 < n" "i \<notin> tk_id ` set (db_tokens d)"
    using assms(3) by (auto simp: store_create_token_def Let_def list_ex_iff split: if_splits)
  have s: "has_tenant d' = has_tenant d" "find_tenant d' = find_tenant d" "token_peers d' = token_peers d"
    by (simp_all add: fun_eq_iff has_tenant_def find_tenant_def token_peers_def d'(1))
  have rows: "db_tenants d' = db_tenants d" "db_peers d' = db_peers d" "db_tokens d' = db_tokens d @ [k]"
    by (simp_all add: d'(1))
  have "peer_ok d p \<Longrightarrow> peer_ok d' p" for p unfolding peer_ok_def s rows by auto
  moreover have "reg_ok d g \<Longrightarrow> reg_ok d' g" for g unfolding reg_ok_def s rows by auto
  moreover have "token_peers d i = []"
    using assms(1) d'(8) by (fastforce simp: peers_ok_def token_peers_def filter_empty_conv peer_ok_def)
  then have "token_ok d' k" unfolding token_ok_def s using d'(2-7) by simp
  moreover have "token_ok d x \<Longrightarrow> token_ok d' x" for x by (simp add: token_ok_def s)
  ultimately show ?thesis
    using assms(1,2) d'(2,8) unfolding peers_ok_def regs_ok_def rows by auto
qed

lemma update_peer_ok:
  assumes ok: "peers_ok d" "regs_ok d gs"
    and f: "\<And>r. sp_id (f r) = sp_id r \<and> sp_tenant (f r) = sp_tenant r \<and> sp_ip (f r) = sp_ip r \<and> sp_key (f r) = sp_key r
      \<and> sp_token (f r) = sp_token r"
  shows "peers_ok (update_peer p f d) \<and> regs_ok (update_peer p f d) gs"
proof -
  let ?d = "update_peer p f d"
  define g where "g = (\<lambda>r. if sp_id r = p then f r else r)"
  have g: "sp_id (g r) = sp_id r" "sp_tenant (g r) = sp_tenant r" "sp_ip (g r) = sp_ip r" "sp_key (g r) = sp_key r"
    "sp_token (g r) = sp_token r" for r using f by (auto simp: g_def)
  have s: "has_tenant ?d = has_tenant d" "find_tenant ?d = find_tenant d"
    and rows: "db_tenants ?d = db_tenants d" "db_tokens ?d = db_tokens d" "db_peers ?d = map g (db_peers d)"
    by (simp_all add: fun_eq_iff has_tenant_def find_tenant_def update_peer_def g_def)
  have "token_peers ?d k = map g (token_peers d k)" for k
    by (simp add: token_peers_def rows filter_map comp_def g)
  then have "token_ok ?d = token_ok d" by (simp add: fun_eq_iff token_ok_def s)
  moreover have "peer_ok ?d (g r) = peer_ok d r" for r
    by (cases "find_tenant d (sp_tenant r)") (simp_all add: peer_ok_def s rows g)
  moreover have "peer_clash (g r) (g q) = peer_clash r q" for r q by (simp add: peer_clash_def g)
  moreover have "reg_ok ?d = reg_ok d" by (simp add: fun_eq_iff reg_ok_def s rows)
  ultimately show ?thesis
    using ok unfolding peers_ok_def regs_ok_def rows by (simp add: sorted_wrt_map)
qed

lemma set_endpoint_ok:
  assumes "peers_ok d" "regs_ok d gs" "store_set_endpoint now p ip port b d = Inr (x, d')"
  shows "peers_ok d' \<and> regs_ok d' gs"
  using assms(3) update_peer_ok [OF assms(1,2)]
  by (auto simp: store_set_endpoint_def Let_def map_sum_def split: if_splits sum.splits)

lemma set_nat_endpoint_ok:
  assumes "peers_ok d" "regs_ok d gs" "store_set_nat_endpoint p ip port d = Inr (x, d')"
  shows "peers_ok d' \<and> regs_ok d' gs"
  using assms(3) update_peer_ok [OF assms(1,2)]
  by (auto simp: store_set_nat_endpoint_def Let_def map_sum_def split: if_splits sum.splits)

lemma sorted_wrt_snoc: "sorted_wrt R (xs @ [x]) \<longleftrightarrow> sorted_wrt R xs \<and> (\<forall>y \<in> set xs. R y x)"
  by (simp add: sorted_wrt_append)

lemma register_commit_ok:
  assumes ok: "peers_ok d" "regs_ok d gs" and g: "g \<in> set gs" and c: "register_commit i now g d = Inr (p, d')"
  shows "peers_ok d' \<and> regs_ok d' (remove1 g gs)"
proof -
  define bump :: "stored_token \<Rightarrow> stored_token" where "bump = (\<lambda>k. if tk_id k = rg_token g then k\<lparr>tk_uses := tk_uses k + 1\<rparr> else k)"
  have p: "p = peer_of i now g" "\<not> list_ex (peer_clash p) (db_peers d)"
    and d': "d' = d\<lparr>db_peers := db_peers d @ [p], db_tokens := map bump (db_tokens d)\<rparr>"
    using c by (auto simp: register_commit_def Let_def bump_def split: if_splits)
  have rows: "db_tenants d' = db_tenants d" "db_peers d' = db_peers d @ [p]" "db_tokens d' = map bump (db_tokens d)"
    by (simp_all add: d')
  have s: "has_tenant d' = has_tenant d" "find_tenant d' = find_tenant d"
    by (simp_all add: fun_eq_iff has_tenant_def find_tenant_def d')
  have b: "tk_id (bump k) = tk_id k" "tk_tenant (bump k) = tk_tenant k" "tk_max_uses (bump k) = tk_max_uses k"
    "tk_uses (bump k) = tk_uses k + (if tk_id k = rg_token g then 1 else 0)" for k by (simp_all add: bump_def)
  have pf: "sp_token p = Some (rg_token g)" "sp_tenant p = st_id (rg_tenant g)" "sp_ip p = rg_ip g"
    by (simp_all add: p(1) peer_of_def)
  have rg: "reg_ok d g" using ok(2) g by (simp add: regs_ok_def)
  then obtain k0 where k0: "k0 \<in> set (db_tokens d)" "tk_id k0 = rg_token g" "tk_tenant k0 = st_id (rg_tenant g)"
      "tk_uses k0 < tk_max_uses k0" by (auto simp: reg_ok_def)
  have same: "k = k0" if "k \<in> set (db_tokens d)" "tk_id k = rg_token g" for k
    using that k0 ok(1) by (auto simp: peers_ok_def distinct_map inj_on_def)
  have tok: "token_ok d' (bump k)" if k: "k \<in> set (db_tokens d)" for k
  proof -
    have "token_ok d k" using ok(1) k by (simp add: peers_ok_def)
    then show ?thesis
      using same [OF k] k0(4) unfolding token_ok_def b s
      by (auto simp: token_peers_def rows(2) pf(1))
  qed
  have peer: "peer_ok d' q" if "peer_ok d q" for q
    using that unfolding peer_ok_def s rows by (auto simp: b)
  have new: "peer_ok d' p"
    using rg k0 unfolding peer_ok_def s rows pf reg_ok_def by (auto simp: b intro!: bexI [of _ k0])
  have regs: "reg_ok d' h" if h: "h \<in> set gs" "h \<noteq> g" for h
  proof -
    have "rg_token h \<noteq> rg_token g" using h g ok(2) by (auto simp: regs_ok_def distinct_map inj_on_def)
    moreover have "reg_ok d h" using ok(2) h(1) by (simp add: regs_ok_def)
    ultimately show ?thesis unfolding reg_ok_def s rows by (auto simp: b intro!: bexI)
  qed
  have "distinct gs" using ok(2) by (auto simp: regs_ok_def distinct_map)
  then have "regs_ok d' (remove1 g gs)"
    using ok(2) regs by (auto simp: regs_ok_def distinct_map inj_on_def)
  moreover have "tk_id \<circ> bump = tk_id" by (rule ext) (simp add: b)
  moreover have "\<not> peer_clash q p" if "q \<in> set (db_peers d)" for q
    using p(2) that by (auto simp: list_ex_iff peer_clash_def)
  ultimately show ?thesis
    using ok(1) tok peer new unfolding peers_ok_def rows map_map by (auto simp: sorted_wrt_snoc)
qed

end
