(* ===== verification/Utf8.thy ===== *)
theory Utf8
  imports JsUri MeshdCli
begin

text \<open>
  \<open>strings.TrimSpace\<close> on the bytes of a header: it decodes UTF-8 and drops the runes that are
  blank in Unicode, at both ends. A byte that is no part of a valid encoding is a rune of its
  own, and not blank. (On strings of code points below 256 it is \<open>go_trim\<close>.)
\<close>

section \<open>Trimming bytes\<close>

text \<open>
  The encodings of the blank runes: six of ASCII, U+0085, U+00A0, U+1680, U+2000 to U+200A,
  U+2028, U+2029, U+202F, U+205F and U+3000.
\<close>

definition blank_runes :: "string list" where
  "blank_runes =
     [[CHR 0x09], [CHR 0x0A], [CHR 0x0B], [CHR 0x0C], [CHR 0x0D], [CHR 0x20], [CHR 0xC2, CHR 0x85], [CHR 0xC2, CHR 0xA0],
      [CHR 0xE1, CHR 0x9A, CHR 0x80]] @
     map (\<lambda>b. [CHR 0xE2, CHR 0x80, b])
       [CHR 0x80, CHR 0x81, CHR 0x82, CHR 0x83, CHR 0x84, CHR 0x85, CHR 0x86, CHR 0x87, CHR 0x88, CHR 0x89, CHR 0x8A,
        CHR 0xA8, CHR 0xA9, CHR 0xAF] @
     [[CHR 0xE2, CHR 0x81, CHR 0x9F], [CHR 0xE3, CHR 0x80, CHR 0x80]]"

lemma find_word:
  assumes "List.find (\<lambda>w. w \<noteq> [] \<and> starts_with s w) ws = Some w"
  obtains r where "w \<in> set ws" "w \<noteq> []" "s = w @ r"
  using find_Some_set [OF assms] by (auto simp: starts_with_iff)

text \<open>The loop that drops words from the front, as long as there is one.\<close>

function drop_words :: "string list \<Rightarrow> string \<Rightarrow> string" where
  "drop_words ws s =
     (case List.find (\<lambda>w. w \<noteq> [] \<and> starts_with s w) ws of
        None \<Rightarrow> s
      | Some w \<Rightarrow> drop_words ws (drop (length w) s))"
  by pat_completeness auto

termination
proof (relation "measure (length \<circ> snd)")
  fix ws :: "string list" and s w :: string
  assume "List.find (\<lambda>w. w \<noteq> [] \<and> starts_with s w) ws = Some w"
  then obtain r where "w \<noteq> []" "s = w @ r" by (rule find_word)
  then show "((ws, drop (length w) s), (ws, s)) \<in> measure (length \<circ> snd)" by simp
qed simp

declare drop_words.simps [simp del]

definition utf8_trim :: "string \<Rightarrow> string" where
  "utf8_trim s = rev (drop_words (map rev blank_runes) (rev (drop_words blank_runes s)))"

section \<open>Words of which none starts another\<close>

definition comparable :: "string \<Rightarrow> string \<Rightarrow> bool" where
  "comparable v w \<longleftrightarrow> starts_with v w \<or> starts_with w v"

lemma prefixes_comparable: "v @ r = w @ r' \<Longrightarrow> comparable v w"
  by (auto simp: comparable_def starts_with_iff append_eq_append_conv2)

definition prefix_free :: "string list \<Rightarrow> bool" where
  "prefix_free ws \<longleftrightarrow> list_all (\<lambda>v. v \<noteq> [] \<and> list_all (\<lambda>w. comparable v w \<longrightarrow> v = w) ws) ws"

lemma prefix_freeD: "prefix_free ws \<Longrightarrow> v \<in> set ws \<Longrightarrow> w \<in> set ws \<Longrightarrow> comparable v w \<Longrightarrow> v = w"
  "prefix_free ws \<Longrightarrow> v \<in> set ws \<Longrightarrow> v \<noteq> []"
  by (auto simp: prefix_free_def list_all_iff)

lemma blank_runes_free: "prefix_free blank_runes" "prefix_free (map rev blank_runes)"
  by code_simp+

lemma drop_word:
  assumes "prefix_free ws" "w \<in> set ws"
  shows "drop_words ws (w @ r) = drop_words ws r"
proof (cases "List.find (\<lambda>v. v \<noteq> [] \<and> starts_with (w @ r) v) ws")
  case None
  then show ?thesis using assms(2) prefix_freeD(2) [OF assms] by (auto simp: find_None_set)
next
  case (Some v)
  then obtain r' where v: "v \<in> set ws" "w @ r = v @ r'" by (rule find_word)
  then have "w = v" using prefix_freeD(1) [OF assms v(1)] prefixes_comparable by blast
  have "drop_words ws (w @ r) = drop_words ws (drop (length v) (w @ r))"
    by (subst drop_words.simps) (simp only: Some option.case)
  then show ?thesis using \<open>w = v\<close> by simp
qed

lemma drop_none:
  assumes "\<And>w r. w \<in> set ws \<Longrightarrow> w \<noteq> [] \<Longrightarrow> s \<noteq> w @ r"
  shows "drop_words ws s = s"
proof -
  have "List.find (\<lambda>v. v \<noteq> [] \<and> starts_with s v) ws = None"
    using assms by (auto simp: find_None_set starts_with_iff)
  then show ?thesis by (subst drop_words.simps) simp
qed

lemma drop_words_induct [case_names word none]:
  assumes "\<And>w r. w \<in> set ws \<Longrightarrow> w \<noteq> [] \<Longrightarrow> P r \<Longrightarrow> P (w @ r)"
    and "\<And>s. (\<And>w r. w \<in> set ws \<Longrightarrow> w \<noteq> [] \<Longrightarrow> s \<noteq> w @ r) \<Longrightarrow> P s"
  shows "P s"
proof (induction s rule: length_induct)
  case (1 s)
  show ?case
  proof (cases "\<exists>w r. w \<in> set ws \<and> w \<noteq> [] \<and> s = w @ r")
    case True
    then obtain w r where "w \<in> set ws" "w \<noteq> []" "s = w @ r" by blast
    then show ?thesis using 1 assms(1) by simp
  qed (use assms(2) in blast)
qed

section \<open>Trimming an encoded string\<close>

text \<open>A code of characters in which the blank ones, and only they, are the words to drop.\<close>

definition blanks_coded :: "string list \<Rightarrow> (char \<Rightarrow> string) \<Rightarrow> bool" where
  "blanks_coded ws enc \<longleftrightarrow>
     prefix_free ws \<and> list_all (\<lambda>c. if go_space c then enc c \<in> set ws else list_all (\<lambda>w. \<not> comparable (enc c) w) ws) Enum.enum"

lemma char_of_eq: "char_of n = c \<longleftrightarrow> n mod 256 = (of_char c :: nat)"
  by (metis char_of_char of_char_of)

lemma utf8_char_cases [case_names ascii latin]:
  obtains "(of_char c :: nat) < 128" "utf8_char c = [c]"
  | a b where "utf8_char c = [a, b]" "of_char a = (192 + of_char c div 64 :: nat)" "of_char b = (128 + of_char c mod 64 :: nat)"
      "128 \<le> (of_char c :: nat)"
proof (cases "(of_char c :: nat) < 128")
  case False
  define n :: nat where "n = of_char c"
  have "n < 256" by (simp add: n_def)
  then have "(192 + n div 64) mod 256 = 192 + n div 64" "(128 + n mod 64) mod 256 = 128 + n mod 64"
    by (simp_all add: div_less_mono [of n 4096 64, simplified])
  then show thesis using that(2) False by (simp add: utf8_char_def Let_def n_def)
qed (use that(1) in \<open>simp add: utf8_char_def\<close>)

text \<open>The first bytes tell a character that is not blank from the words, from either end.\<close>

lemma word_heads: "w \<in> set blank_runes \<Longrightarrow> comparable [c] w \<Longrightarrow> of_char c < (128 :: nat) \<Longrightarrow> go_space c"
  "w \<in> set blank_runes \<Longrightarrow> comparable [c] (rev w) \<Longrightarrow> of_char c < (128 :: nat) \<Longrightarrow> go_space c"
  by (auto simp: blank_runes_def comparable_def go_space_def js_space_def)

lemma word_pairs:
  assumes "w \<in> set blank_runes" "of_char a \<in> {194, 195 :: nat}" "128 \<le> (of_char b :: nat)"
  shows "comparable [a, b] w \<Longrightarrow> of_char a = (194 :: nat) \<and> of_char b \<in> {133, 160 :: nat}"
    "comparable [b, a] (rev w) \<Longrightarrow> of_char a = (194 :: nat) \<and> of_char b \<in> {133, 160 :: nat}"
  using assms by (auto simp: blank_runes_def comparable_def)

lemma go_space_char: "go_space c \<longleftrightarrow> (of_char c :: nat) \<in> {9, 10, 11, 12, 13, 32, 133, 160}"
  by (auto simp: go_space_def js_space_def Let_def)

lemma blank_coded:
  assumes "go_space c"
  shows "utf8_char c \<in> set blank_runes"
proof -
  have "char_of (of_char c :: nat) \<in> {CHR 0x09, CHR 0x0A, CHR 0x0B, CHR 0x0C, CHR 0x0D, CHR 0x20, CHR 0x85, CHR 0xA0}"
    using assms unfolding go_space_char by (elim insertE) (simp_all only:, code_simp+)
  then have "c \<in> {CHR 0x09, CHR 0x0A, CHR 0x0B, CHR 0x0C, CHR 0x0D, CHR 0x20, CHR 0x85, CHR 0xA0}" by simp
  then show ?thesis by (elim insertE) (simp_all only: empty_iff, code_simp+)
qed

lemma utf8_blanks: "blanks_coded blank_runes utf8_char" "blanks_coded (map rev blank_runes) (rev \<circ> utf8_char)"
proof -
  have "\<not> comparable (utf8_char c) w \<and> \<not> comparable (rev (utf8_char c)) (rev w)" if "\<not> go_space c" "w \<in> set blank_runes" for c w
  proof (cases c rule: utf8_char_cases)
    case ascii
    then show ?thesis using that word_heads by auto
  next
    case (latin a b)
    define n :: nat where "n = of_char c"
    have "n < 256" "128 \<le> n" using latin(4) by (simp_all add: n_def)
    then have "n div 64 \<in> {2, 3}" by auto
    then have "of_char c div 64 \<in> {2, 3 :: nat}" by (simp only: n_def)
    then have a: "of_char a \<in> {194, 195 :: nat}" "128 \<le> (of_char b :: nat)" using latin(2,3) by auto
    have "\<not> (of_char a = (194 :: nat) \<and> of_char b \<in> {133, 160 :: nat})"
    proof
      assume "of_char a = (194 :: nat) \<and> of_char b \<in> {133, 160 :: nat}"
      then have "of_char c div 64 = (2 :: nat)" "of_char c mod 64 \<in> {5, 32 :: nat}" using latin(2,3) by auto
      then have "(of_char c :: nat) \<in> {133, 160}" using div_mult_mod_eq [of "of_char c :: nat" 64] by auto
      then show False using that(1) unfolding go_space_char by auto
    qed
    then show ?thesis using word_pairs [OF that(2) a] latin(1) by auto
  qed
  then show "blanks_coded blank_runes utf8_char" "blanks_coded (map rev blank_runes) (rev \<circ> utf8_char)"
    using blank_runes_free blank_coded by (auto simp: blanks_coded_def list_all_iff)
qed

lemma drop_coded:
  assumes "blanks_coded ws enc"
  shows "drop_words ws (List.concat (map enc s)) = List.concat (map enc (dropWhile go_space s))"
proof (induction s)
  case Nil
  have "drop_words ws [] = []" by (rule drop_none) simp
  then show ?case by simp
next
  case (Cons c s)
  have free: "prefix_free ws" and c: "if go_space c then enc c \<in> set ws else list_all (\<lambda>w. \<not> comparable (enc c) w) ws"
    using assms unfolding blanks_coded_def by (simp, metis (no_types, lifting) UNIV_I enum_UNIV list_all_iff)
  show ?case
  proof (cases "go_space c")
    case True
    then show ?thesis using Cons drop_word [OF free, of "enc c"] c by simp
  next
    case False
    then have "\<forall>w \<in> set ws. \<not> comparable (enc c) w" using c by (simp add: list_all_iff)
    then have "enc c @ r \<noteq> w @ r'" if "w \<in> set ws" for w r r'
      using that prefixes_comparable [of "enc c" r w r'] by blast
    then show ?thesis using False by (simp add: drop_none)
  qed
qed

text \<open>So trimming the encoding of a string trims the string.\<close>

lemma rev_coded: "rev (List.concat (map enc s)) = List.concat (map (rev \<circ> enc) (rev s))"
  by (induction s) simp_all

lemma utf8_trim_utf8: "utf8_trim (utf8 s) = utf8 (go_trim s)"
proof -
  have "rev (drop_words blank_runes (utf8 s)) = List.concat (map (rev \<circ> utf8_char) (rev (dropWhile go_space s)))"
    by (simp only: utf8_def drop_coded [OF utf8_blanks(1)] rev_coded)
  then have "utf8_trim (utf8 s) = rev (List.concat (map (rev \<circ> utf8_char) (dropWhile go_space (rev (dropWhile go_space s)))))"
    by (simp only: utf8_trim_def drop_coded [OF utf8_blanks(2)])
  also have "\<dots> = utf8 (go_trim s)"
    by (simp add: rev_coded utf8_def go_trim_def comp_def)
  finally show ?thesis .
qed

lemma utf8_trim_ascii: "\<forall>c \<in> set s. of_char c < (128 :: nat) \<Longrightarrow> utf8_trim s = go_trim s"
proof -
  assume s: "\<forall>c \<in> set s. of_char c < (128 :: nat)"
  have "set (go_trim s) \<subseteq> set s" by (auto simp: go_trim_def dest!: set_dropWhileD)
  then show ?thesis using s utf8_trim_utf8 [of s] utf8_ascii [of s] utf8_ascii [of "go_trim s"] by auto
qed

end
