(* ===== verification/ControlApi.thy ===== *)
theory ControlApi
  imports Membership PeerStore Utf8
begin

text \<open>
  The HTTP API of the control plane (\<open>internal/api\<close>): who a request comes from, the reading of
  its body, and every handler over the store. A handler checks first and writes last, and other
  requests run in between, so it is two steps: \<open>control_begin\<close> validates and authorizes, and
  either answers or leaves an action to do; \<open>control_finish\<close> does it. Reading JSON text, uuids,
  times and IPv6 addresses are the libraries', arguments of the environment.
\<close>

section \<open>Requests and answers\<close>

text \<open>A body as \<open>encoding/json\<close> reads it: nothing, an error, or a value.\<close>

datatype go_body = EmptyBody | BadBody | JsonBody json

datatype go_route =
  Health
| CreateTenantR go_body | ListTenantsR | GetTenantR string
| CreateTokenR string go_body | ListPeersR string
| RegisterPeerR go_body | UpdateEndpointR string go_body | UpdateNatEndpointR string go_body
| MyTenantsR | CreateMyTenantR go_body | GetMyTenantR string | MyTenantPeersR string
| ListMembersR string | RemoveMemberR string string | CreateInviteR string go_body
| ClaimTenantR string | AcceptInviteR go_body

record go_request =
  gq_route :: go_route
  gq_headers :: "(string \<times> string) list"
  gq_remote :: "addr option"

record go_env =
  ge_web_token :: string
  ge_netip :: netip_lib
  ge_parse_addr_port :: "string \<Rightarrow> (addr \<times> nat) option"
  ge_show_addr_port :: "addr \<Rightarrow> int \<Rightarrow> string"
  ge_uuid :: "string \<Rightarrow> string option"
  ge_hash :: "string \<Rightarrow> string"
  ge_json_error :: "go_body \<Rightarrow> string"
  ge_time :: "int \<Rightarrow> string"
  ge_probe_port :: "nat option"

text \<open>What one transaction draws: the time, a new id, random characters, and what came back.\<close>

record draw =
  dr_now :: int
  dr_id :: string
  dr_random :: string
  dr_ping :: bool
  dr_reachable :: bool

type_synonym answer = "nat \<times> json option"

definition answer_json :: "nat \<Rightarrow> json \<Rightarrow> answer" where
  "answer_json st j = (st, Some j)"

definition fail :: "refusal \<Rightarrow> answer" where
  "fail r = answer_json (fst r) (JObj [(''error'', JStr (snd r))])"

section \<open>Reading a body\<close>

datatype go_type = GoString | GoInt

text \<open>A key names a field exactly, or else in any case; unknown keys are refused.\<close>

definition field_of :: "(string \<times> 't) list \<Rightarrow> string \<Rightarrow> (string \<times> 't) option" where
  "field_of spec k =
     (case List.find (\<lambda>(n, t). n = k) spec of
        Some f \<Rightarrow> Some f
      | None \<Rightarrow> List.find (\<lambda>(n, t). to_lower n = to_lower k) spec)"

fun decodes_to :: "go_type \<Rightarrow> json \<Rightarrow> bool" where
  "decodes_to GoString (JStr s) = True"
| "decodes_to GoInt (JNum n) = (- (2 ^ 63) \<le> n \<and> n < 2 ^ 63)"
| "decodes_to _ _ = False"

text \<open>Null leaves a field as it is; the last value of a field counts.\<close>

fun decode_fields :: "(string \<times> go_type) list \<Rightarrow> (string \<times> json) list \<Rightarrow> (string \<times> json) list \<Rightarrow> (string \<times> json) list option" where
  "decode_fields spec acc [] = Some acc"
| "decode_fields spec acc ((k, v) # fs) =
     (case field_of spec k of
        None \<Rightarrow> None
      | Some (n, t) \<Rightarrow>
          if v = JNull then decode_fields spec acc fs
          else if decodes_to t v then decode_fields spec ((n, v) # acc) fs
          else None)"

definition decode :: "go_env \<Rightarrow> (string \<times> go_type) list \<Rightarrow> go_body \<Rightarrow> refusal + (string \<times> json) list" where
  "decode env spec b =
     (case (case b of
              EmptyBody \<Rightarrow> Some []
            | JsonBody JNull \<Rightarrow> Some []
            | JsonBody (JObj fs) \<Rightarrow> decode_fields spec [] fs
            | _ \<Rightarrow> None) of
        Some vs \<Rightarrow> Inr vs
      | None \<Rightarrow> Inl (400, ''invalid JSON body: '' @ ge_json_error env b))"

text \<open>The zero value of a field that was not given.\<close>

definition str_field :: "(string \<times> json) list \<Rightarrow> string \<Rightarrow> string" where
  "str_field vs n = (case lookup vs n of Some (JStr s) \<Rightarrow> s | _ \<Rightarrow> [])"

definition int_field :: "(string \<times> json) list \<Rightarrow> string \<Rightarrow> int" where
  "int_field vs n = (case lookup vs n of Some (JNum i) \<Rightarrow> i | _ \<Rightarrow> 0)"

section \<open>Who calls\<close>

definition header :: "go_request \<Rightarrow> string \<Rightarrow> string" where
  "header r h = coalesce (lookup (gq_headers r) h) []"

definition from_web :: "go_env \<Rightarrow> go_request \<Rightarrow> bool" where
  "from_web env r \<longleftrightarrow>
     starts_with (header r ''Authorization'') ''Bearer '' \<and> ge_web_token env \<noteq> [] \<and>
     drop 7 (header r ''Authorization'') = ge_web_token env"

text \<open>Without a token the routes that show every tenant stay open.\<close>

definition web_only :: "go_env \<Rightarrow> go_request \<Rightarrow> refusal option" where
  "web_only env r =
     (if ge_web_token env \<noteq> [] \<and> \<not> from_web env r then Some (401, ''this route needs the web UI's token'') else None)"

text \<open>Headers are bytes, trimmed as the UTF-8 that they should be.\<close>

definition as_user :: "go_env \<Rightarrow> go_request \<Rightarrow> refusal + store_user" where
  "as_user env r =
     (if ge_web_token env = [] then Inl (503, ''per-user routes need WEB_API_TOKEN on the control plane'')
      else if \<not> from_web env r then Inl (401, ''this route needs the web UI's token'')
      else if utf8_trim (header r ''X-Mesh2Mesh-User'') = [] then Inl (400, ''X-Mesh2Mesh-User is required'')
      else Inr \<lparr>su_id = utf8_trim (header r ''X-Mesh2Mesh-User''),
                su_email = utf8_trim (header r ''X-Mesh2Mesh-User-Email''),
                su_name = (case query_unescape (header r ''X-Mesh2Mesh-User-Name'') of
                             Some n \<Rightarrow> utf8_trim n | None \<Rightarrow> [])\<rparr>)"

section \<open>What the API shows\<close>

definition tenant_view :: "go_env \<Rightarrow> stored_tenant \<Rightarrow> json" where
  "tenant_view env t =
     JObj [(''id'', JStr (st_id t)), (''name'', JStr (st_name t)),
           (''cidr'', JStr (show_prefix (ge_netip env) (st_cidr t))), (''created_at'', JStr (ge_time env (st_created t)))]"

text \<open>Go prints a map with its keys in order.\<close>

definition membership_view :: "go_env \<Rightarrow> stored_tenant \<times> role \<Rightarrow> json" where
  "membership_view env m =
     JObj [(''cidr'', JStr (show_prefix (ge_netip env) (st_cidr (fst m)))),
           (''created_at'', JStr (ge_time env (st_created (fst m)))), (''id'', JStr (st_id (fst m))),
           (''name'', JStr (st_name (fst m))), (''role'', JStr (show_role (snd m)))]"

definition member_view :: "go_env \<Rightarrow> stored_member \<Rightarrow> json" where
  "member_view env m =
     JObj [(''created_at'', JStr (ge_time env (sm_created m))), (''email'', JStr (coalesce (sm_email m) [])),
           (''name'', JStr (coalesce (sm_name m) [])), (''role'', JStr (show_role (sm_role m))), (''user_id'', JStr (sm_user m))]"

text \<open>The nullable columns of an endpoint, as \<open>scanPeer\<close> folds them.\<close>

fun endpoint_of :: "addr option \<Rightarrow> int option \<Rightarrow> (addr \<times> int) option" where
  "endpoint_of (Some ip) (Some port) = (if ip = NoAddr then None else Some (ip, port mod 65536))"
| "endpoint_of _ _ = None"

definition zero_time :: int where
  "zero_time = - 62135596800000000000"

definition peer_view :: "go_env \<Rightarrow> (string \<times> json) list \<Rightarrow> stored_peer \<Rightarrow> json" where
  "peer_view env extra p =
     JObj ([(''created_at'', JStr (ge_time env (sp_created p))), (''direct_reachable'', JBool (sp_reachable p))] @
       (case endpoint_of (sp_public_ip p) (sp_udp_port p) of
          None \<Rightarrow> []
        | Some (ip, port) \<Rightarrow> [(''endpoint'', JStr (ge_show_addr_port env ip port)),
            (''endpoint_updated_at'', JStr (ge_time env (coalesce (sp_endpoint_at p) zero_time)))]) @
       [(''mesh_ip'', JStr (show_addr (ge_netip env) (sp_ip p))), (''name'', JStr (sp_name p))] @
       (case endpoint_of (sp_nat_ip p) (sp_nat_port p) of
          None \<Rightarrow> []
        | Some (ip, port) \<Rightarrow> [(''nat_endpoint'', JStr (ge_show_addr_port env ip port))]) @
       [(''peer_id'', JStr (sp_id p))] @ extra @ [(''public_key'', JStr (sp_key p))])"

section \<open>Checking a request\<close>

text \<open>What is left to do once a request has passed the checks.\<close>

datatype action =
  AHealth
| ACreateTenant string prefix | AListTenants | AGetTenant string
| ACreateToken string int int | AListPeers string
| ARegister string string string | ASetEndpoint string addr int | ASetNat string addr int
| AMyTenants store_user | ACreateMine store_user string prefix | AShowMine "stored_tenant \<times> role"
| AListMembers string | ARemove store_user string string | AInvite store_user string role int int
| AClaim store_user string | AAccept store_user string

fun and_then :: "refusal + 'a \<Rightarrow> ('a \<Rightarrow> refusal + 'b) \<Rightarrow> refusal + 'b" where
  "and_then (Inl e) f = Inl e"
| "and_then (Inr x) f = f x"

definition tenant_input :: "go_env \<Rightarrow> go_body \<Rightarrow> refusal + string \<times> prefix" where
  "tenant_input env b =
     and_then (decode env [(''name'', GoString), (''cidr'', GoString)] b) (\<lambda>vs.
       if go_trim (str_field vs ''name'') = [] then Inl (400, ''name is required'')
       else (case parse_cidr (ge_netip env) (str_field vs ''cidr'') of
               Inl e \<Rightarrow> Inl (400, e)
             | Inr c \<Rightarrow> Inr (go_trim (str_field vs ''name''), c)))"

definition max_token_ttl :: int where
  "max_token_ttl = 30 * 24 * 3600 * second_ns"

definition default_token_ttl :: int where
  "default_token_ttl = 3600 * second_ns"

definition max_token_uses :: int where
  "max_token_uses = 1000"

definition token_input :: "go_env \<Rightarrow> go_body \<Rightarrow> refusal + int \<times> int" where
  "token_input env b =
     and_then (decode env [(''ttl_seconds'', GoInt), (''max_uses'', GoInt)] b) (\<lambda>vs.
       let secs = int_field vs ''ttl_seconds''; n = int_field vs ''max_uses'';
           ttl = (if secs \<noteq> 0 then wrap64 (secs * second_ns) else default_token_ttl);
           uses = (if n \<noteq> 0 then n else 1) in
       if ttl \<le> 0 \<or> max_token_ttl < ttl then Inl (400, ''ttl_seconds must be between 1 and 2592000'')
       else if uses < 1 \<or> max_token_uses < uses then Inl (400, ''max_uses must be between 1 and 1000'')
       else Inr (ttl, uses))"

definition register_input :: "go_env \<Rightarrow> go_body \<Rightarrow> refusal + string \<times> string \<times> string" where
  "register_input env b =
     and_then (decode env [(''token'', GoString), (''name'', GoString), (''public_key'', GoString)] b) (\<lambda>vs.
       let token = go_trim (str_field vs ''token''); name = go_trim (str_field vs ''name'');
           key = go_trim (str_field vs ''public_key'') in
       if token = [] then Inl (400, ''token is required'')
       else if name = [] then Inl (400, ''name is required'')
       else if key = [] then Inl (400, ''public_key is required'')
       else Inr (token, name, key))"

text \<open>A tenant the caller is not in is as good as none.\<close>

definition caller :: "go_env \<Rightarrow> store_user \<Rightarrow> string \<Rightarrow> bool \<Rightarrow> db \<Rightarrow> refusal + stored_tenant \<times> role" where
  "caller env u raw owner_only d =
     (case ge_uuid env raw of
        None \<Rightarrow> Inl (404, ''no such tenant'')
      | Some t \<Rightarrow>
          (case get_membership t (su_id u) d of
             Inl e \<Rightarrow> Inl (404, ''no such tenant'')
           | Inr m \<Rightarrow>
               if owner_only \<and> snd m \<noteq> Owner then Inl (403, ''only owners of this tenant can do that'')
               else Inr m))"

definition endpoint_input :: "go_env \<Rightarrow> go_request \<Rightarrow> string \<Rightarrow> go_body \<Rightarrow> db \<Rightarrow> refusal + action" where
  "endpoint_input env r raw b d =
     and_then (decode env [(''udp_port'', GoInt)] b) (\<lambda>vs.
       let port = int_field vs ''udp_port'' in
       if port < 1 \<or> 65535 < port then Inl (400, ''udp_port must be between 1 and 65535'')
       else
         (case ge_uuid env raw of
            None \<Rightarrow> Inl (404, ''no such peer'')
          | Some p \<Rightarrow>
              if find_peer d p = None then Inl (404, ''no such peer'')
              else (case gq_remote r of
                      None \<Rightarrow> Inl (500, ''could not read the request source address'')
                    | Some ip \<Rightarrow> Inr (ASetEndpoint p ip port))))"

text \<open>A node may only point its peers at itself.\<close>

definition nat_target :: "go_env \<Rightarrow> go_request \<Rightarrow> string \<Rightarrow> string \<Rightarrow> refusal + action" where
  "nat_target env r raw endpoint =
     (case ge_parse_addr_port env (go_trim endpoint) of
        None \<Rightarrow> Inl (400, ''endpoint must be ip:port'')
      | Some (ip, port) \<Rightarrow>
          if port = 0 then Inl (400, ''endpoint must be ip:port'')
          else
            (case gq_remote r of
               None \<Rightarrow> Inl (500, ''could not read the request source address'')
             | Some src \<Rightarrow>
                 if addr_unmap ip \<noteq> src
                 then Inl (400, ''endpoint address is not the request source '' @ show_addr (ge_netip env) src)
                 else Inr (ASetNat raw (addr_unmap ip) (int port))))"

definition nat_input :: "go_env \<Rightarrow> go_request \<Rightarrow> string \<Rightarrow> go_body \<Rightarrow> refusal + action" where
  "nat_input env r raw b =
     and_then (decode env [(''endpoint'', GoString)] b) (\<lambda>vs. nat_target env r raw (str_field vs ''endpoint''))"

text \<open>\<open>removeMember\<close> and \<open>createInvite\<close> after the caller's membership is known.\<close>

definition remove_input :: "store_user \<Rightarrow> string \<Rightarrow> stored_tenant \<times> role \<Rightarrow> refusal + action" where
  "remove_input u target m =
     (case remove_authorized (snd m) (su_id u) target of
        Some e \<Rightarrow> Inl e
      | None \<Rightarrow> Inr (ARemove u (st_id (fst m)) target))"

definition role_named :: "string \<Rightarrow> role" where
  "role_named s = (if s = ''owner'' then Owner else Member)"

definition invite_input :: "store_user \<Rightarrow> (string \<times> json) list \<Rightarrow> stored_tenant \<times> role \<Rightarrow> refusal + action" where
  "invite_input u vs m =
     and_then (invite_options (snd m) (str_field vs ''role'') (int_field vs ''ttl_seconds'') (int_field vs ''max_uses''))
       (\<lambda>(r, ttl, uses). Inr (AInvite u (st_id (fst m)) (role_named r) ttl uses))"

definition guarded :: "refusal option \<Rightarrow> action \<Rightarrow> refusal + action" where
  "guarded e a = (case e of Some x \<Rightarrow> Inl x | None \<Rightarrow> Inr a)"

text \<open>
  The checks of each handler, up to its first access to the store that may change it: those of
  \<open>health.go\<close>, \<open>tenants.go\<close>, \<open>tokens.go\<close>, \<open>peers.go\<close>, and from \<open>MyTenantsR\<close> on of \<open>members.go\<close>.
\<close>

fun control_begin :: "go_env \<Rightarrow> go_request \<Rightarrow> go_route \<Rightarrow> db \<Rightarrow> refusal + action" where
  "control_begin env r Health d = Inr AHealth"
| "control_begin env r (CreateTenantR b) d = and_then (tenant_input env b) (\<lambda>(n, c). Inr (ACreateTenant n c))"
| "control_begin env r ListTenantsR d = guarded (web_only env r) AListTenants"
| "control_begin env r (GetTenantR t) d = guarded (web_only env r) (AGetTenant t)"
| "control_begin env r (CreateTokenR t b) d = and_then (token_input env b) (\<lambda>(ttl, n). Inr (ACreateToken t ttl n))"
| "control_begin env r (ListPeersR t) d = Inr (AListPeers t)"
| "control_begin env r (RegisterPeerR b) d = and_then (register_input env b) (\<lambda>(tok, n, k). Inr (ARegister tok n k))"
| "control_begin env r (UpdateEndpointR p b) d = endpoint_input env r p b d"
| "control_begin env r (UpdateNatEndpointR p b) d = nat_input env r p b"
| "control_begin env r MyTenantsR d = and_then (as_user env r) (\<lambda>u. Inr (AMyTenants u))"
| "control_begin env r (CreateMyTenantR b) d =
     and_then (as_user env r) (\<lambda>u. and_then (tenant_input env b) (\<lambda>(n, c). Inr (ACreateMine u n c)))"
| "control_begin env r (GetMyTenantR t) d =
     and_then (as_user env r) (\<lambda>u. and_then (caller env u t False d) (\<lambda>m. Inr (AShowMine m)))"
| "control_begin env r (MyTenantPeersR t) d =
     and_then (as_user env r) (\<lambda>u. and_then (caller env u t False d) (\<lambda>m. Inr (AListPeers t)))"
| "control_begin env r (ListMembersR t) d =
     and_then (as_user env r) (\<lambda>u. and_then (caller env u t False d) (\<lambda>m. Inr (AListMembers t)))"
| "control_begin env r (RemoveMemberR t v) d =
     and_then (as_user env r) (\<lambda>u. and_then (caller env u t False d) (remove_input u v))"
| "control_begin env r (CreateInviteR t b) d =
     and_then (as_user env r) (\<lambda>u.
       and_then (decode env [(''role'', GoString), (''ttl_seconds'', GoInt), (''max_uses'', GoInt)] b) (\<lambda>vs.
         and_then (caller env u t True d) (invite_input u vs)))"
| "control_begin env r (ClaimTenantR t) d = and_then (as_user env r) (\<lambda>u. Inr (AClaim u t))"
| "control_begin env r (AcceptInviteR b) d =
     and_then (as_user env r) (\<lambda>u.
       and_then (decode env [(''code'', GoString)] b) (\<lambda>vs. Inr (AAccept u (go_trim (str_field vs ''code'')))))"

section \<open>Doing it\<close>

definition ok_json :: "json \<Rightarrow> answer" where
  "ok_json j = answer_json 200 j"

definition created_json :: "json \<Rightarrow> answer" where
  "created_json j = answer_json 201 j"

text \<open>An id that is not a uuid is not found, as \<open>wrap\<close> has it.\<close>

definition by_uuid :: "go_env \<Rightarrow> string \<Rightarrow> (string \<Rightarrow> store_error + 'a) \<Rightarrow> store_error + 'a" where
  "by_uuid env raw f = (case ge_uuid env raw of None \<Rightarrow> Inl NotFound | Some i \<Rightarrow> f i)"

text \<open>The status and message of an error, by the cases of the handler; any other is a 500.\<close>

definition answer_error :: "(store_error \<times> refusal) list \<Rightarrow> string \<Rightarrow> store_error \<Rightarrow> answer" where
  "answer_error cases other e = fail (coalesce (lookup cases e) (500, other))"

definition no_tenant_error :: "store_error \<times> refusal" where
  "no_tenant_error = (NotFound, (404, ''no such tenant''))"

definition invite_code :: "draw \<Rightarrow> string" where
  "invite_code w = ''m2mi_'' @ dr_random w"

definition token_secret :: "draw \<Rightarrow> string" where
  "token_secret w = ''m2m_'' @ dr_random w"

definition invite_view :: "go_env \<Rightarrow> string \<Rightarrow> stored_invite \<Rightarrow> json" where
  "invite_view env code i =
     JObj [(''code'', JStr code), (''expires_at'', JStr (ge_time env (si_expires i))), (''id'', JStr (si_id i)),
           (''max_uses'', JNum (si_max_uses i)), (''role'', JStr (show_role (si_role i)))]"

definition token_view :: "go_env \<Rightarrow> string \<Rightarrow> string \<Rightarrow> stored_token \<Rightarrow> json" where
  "token_view env raw secret k =
     JObj [(''expires_at'', JStr (ge_time env (tk_expires k))), (''id'', JStr (tk_id k)),
           (''max_uses'', JNum (tk_max_uses k)), (''tenant_id'', JStr raw), (''token'', JStr secret)]"

definition registered_view :: "go_env \<Rightarrow> stored_peer \<Rightarrow> stored_tenant \<Rightarrow> json" where
  "registered_view env p t =
     JObj [(''created_at'', JStr (ge_time env (sp_created p))), (''mesh_cidr'', JStr (show_prefix (ge_netip env) (st_cidr t))),
           (''mesh_ip'', JStr (show_addr (ge_netip env) (sp_ip p))), (''name'', JStr (sp_name p)), (''peer_id'', JStr (sp_id p)),
           (''public_key'', JStr (sp_key p)), (''tenant_id'', JStr (sp_tenant p)), (''tenant_name'', JStr (st_name t))]"

text \<open>The answer to an outcome of the store; the database changes only when it succeeds.\<close>

definition settle :: "db \<Rightarrow> (store_error \<Rightarrow> answer) \<Rightarrow> ('a \<Rightarrow> answer) \<Rightarrow> store_error + 'a \<times> db \<Rightarrow> answer \<times> db" where
  "settle d bad good r = (case r of Inl e \<Rightarrow> (bad e, d) | Inr (x, d') \<Rightarrow> (good x, d'))"

definition reading :: "db \<Rightarrow> store_error + 'a \<Rightarrow> store_error + 'a \<times> db" where
  "reading d = map_sum id (\<lambda>x. (x, d))"

definition register_errors :: "(store_error \<times> refusal) list" where
  "register_errors =
     [(TokenInvalid, (401, ''enrollment token is invalid, expired or already used'')),
      (Conflict, (409, ''that public key is already registered in this tenant'')),
      (PoolExhausted, (409, ''the tenant address pool is exhausted''))]"

definition register_answer :: "go_env \<Rightarrow> db \<Rightarrow> store_error + (stored_peer \<times> stored_tenant) \<times> db \<Rightarrow> answer \<times> db" where
  "register_answer env d =
     settle d (answer_error register_errors ''could not register peer'') (\<lambda>(p, t). created_json (registered_view env p t))"

text \<open>\<open>GetTenant\<close> gives back the id as it was asked for, which may be another text of the same uuid.\<close>

fun control_finish :: "go_env \<Rightarrow> draw \<Rightarrow> action \<Rightarrow> db \<Rightarrow> answer \<times> db" where
  "control_finish env w AHealth d =
     ((if dr_ping w then ok_json (JObj [(''status'', JStr ''ok'')]) else fail (503, ''database unreachable'')), d)"
| "control_finish env w (ACreateTenant n c) d =
     settle d (answer_error [(Conflict, (409, ''a tenant with that name already exists''))] ''could not create tenant'')
       (\<lambda>t. created_json (tenant_view env t)) (store_create_tenant (dr_id w) (dr_now w) n c d)"
| "control_finish env w AListTenants d =
     (ok_json (JObj [(''tenants'', JArr (map (tenant_view env) (store_list_tenants d)))]), d)"
| "control_finish env w (AGetTenant raw) d =
     settle d (answer_error [no_tenant_error] ''could not load tenant'') (\<lambda>t. ok_json (tenant_view env (t\<lparr>st_id := raw\<rparr>)))
       (reading d (by_uuid env raw (\<lambda>t. store_get_tenant t d)))"
| "control_finish env w (ACreateToken raw ttl n) d =
     (case by_uuid env raw (\<lambda>t. store_get_tenant t d) of
        Inl e \<Rightarrow> (answer_error [no_tenant_error] ''could not load tenant'' e, d)
      | Inr t \<Rightarrow>
          settle d (answer_error [] ''could not create token'') (\<lambda>k. created_json (token_view env raw (token_secret w) k))
            (store_create_token (dr_id w) (ge_hash env (token_secret w)) (dr_now w) (st_id t) ttl n d))"
| "control_finish env w (AListPeers raw) d =
     settle d (answer_error [no_tenant_error] ''could not load tenant'')
       (\<lambda>t. ok_json (JObj [(''peers'', JArr (map (peer_view env []) (store_list_peers (st_id t) d)))]))
       (reading d (by_uuid env raw (\<lambda>t. store_get_tenant t d)))"
| "control_finish env w (ARegister token n k) d =
     register_answer env d (store_register_peer (dr_id w) (dr_now w) (ge_hash env token) n k d)"
| "control_finish env w (ASetEndpoint p ip port) d =
     settle d (answer_error [] ''could not save endpoint'')
       (\<lambda>r. ok_json (peer_view env (case ge_probe_port env of None \<Rightarrow> [] | Some q \<Rightarrow> [(''probe_port'', JNum (int q))]) r))
       (store_set_endpoint (dr_now w) p ip port (dr_reachable w \<and> ge_probe_port env \<noteq> None) d)"
| "control_finish env w (ASetNat raw ip port) d =
     settle d (answer_error [(NotFound, (404, ''no such peer''))] ''could not save nat endpoint'')
       (\<lambda>r. ok_json (peer_view env [] r)) (by_uuid env raw (\<lambda>p. store_set_nat_endpoint p ip port d))"
| "control_finish env w (AMyTenants u) d =
     (let (ms, d') = list_memberships u d in (ok_json (JObj [(''tenants'', JArr (map (membership_view env) ms))]), d'))"
| "control_finish env w (ACreateMine u n c) d =
     settle d (answer_error [] ''could not create tenant'') (\<lambda>t. created_json (membership_view env (t, Owner)))
       (create_owned_tenant (dr_id w) (dr_now w) n c u d)"
| "control_finish env w (AShowMine m) d = (ok_json (membership_view env m), d)"
| "control_finish env w (AListMembers raw) d =
     settle d (answer_error [] ''could not list members'')
       (\<lambda>t. ok_json (JObj [(''members'', JArr (map (member_view env) (list_members t d)))]))
       (reading d (by_uuid env raw Inr))"
| "control_finish env w (ARemove u t v) d =
     settle d (answer_error [(NotFound, (404, ''no such member'')),
         (LastOwner, (409, ''the tenant would be left without an owner: invite another owner first''))] ''could not remove member'')
       (\<lambda>x. (204, None)) (map_sum id (\<lambda>d'. ((), d')) (store_remove_member t v d))"
| "control_finish env w (AInvite u t r ttl n) d =
     settle d (answer_error [] ''could not create invite'') (\<lambda>i. created_json (invite_view env (invite_code w) i))
       (store_create_invite (dr_id w) (ge_hash env (invite_code w)) (dr_now w) t r (su_id u) ttl n d)"
| "control_finish env w (AClaim u raw) d =
     settle d (answer_error [no_tenant_error, (Claimed, (409, ''this tenant already has members: ask one of its owners for an invite''))]
         ''could not claim tenant'')
       (\<lambda>m. ok_json (membership_view env m)) (by_uuid env raw (\<lambda>t. store_claim_tenant t (dr_now w) u d))"
| "control_finish env w (AAccept u code) d =
     settle d (answer_error [(InviteInvalid, (404, ''this invite is invalid, expired or already used''))] ''could not accept invite'')
       (\<lambda>m. ok_json (membership_view env m)) (store_accept_invite (ge_hash env code) (dr_now w) u d)"

text \<open>A request that nothing interrupts.\<close>

definition control_serve :: "go_env \<Rightarrow> draw \<Rightarrow> go_request \<Rightarrow> db \<Rightarrow> answer \<times> db" where
  "control_serve env w r d =
     (case control_begin env r (gq_route r) d of
        Inl e \<Rightarrow> (fail e, d)
      | Inr a \<Rightarrow> control_finish env w a d)"

section \<open>The source of a request\<close>

text \<open>
  \<open>TrustProxies\<close> takes the client from the last hop of X-Forwarded-For when the connection
  is one of the proxies; an address it cannot read changes nothing.
\<close>

definition trusted :: "addr \<Rightarrow> prefix list \<Rightarrow> bool" where
  "trusted a proxies = list_ex (\<lambda>p. pf_contains p a) proxies"

definition client_addr :: "netip_lib \<Rightarrow> prefix list \<Rightarrow> string \<Rightarrow> addr option \<Rightarrow> addr option" where
  "client_addr lib proxies forwarded_for conn =
     (case conn of
        None \<Rightarrow> None
      | Some from \<Rightarrow>
          if proxies \<noteq> [] \<and> trusted (addr_unmap from) proxies
          then (case go_parse_addr lib (go_trim (last (split_on CHR '','' forwarded_for))) of
                  Some a \<Rightarrow> Some (addr_unmap a)
                | None \<Rightarrow> Some (addr_unmap from))
          else Some (addr_unmap from))"

end
