(* ===== verification/ControlRuns.thy ===== *)
theory ControlRuns
  imports ControlApi
begin

text \<open>
  The control plane at work: any requests, in any interleaving of their steps
  (\<open>internal/api\<close> over \<open>internal/store\<close>). A state of \<open>control_run\<close> is the database, the
  actions that have passed their checks, the registrations that hold a token's row, and the
  history, latest first, with the database each step saw.
\<close>

section \<open>Runs\<close>

datatype event = Began go_request action db | Finished action draw db answer | Enrolled registration db

fun registers :: "action \<Rightarrow> bool" where
  "registers (ARegister tok n k) = True"
| "registers _ = False"

text \<open>
  A request may be dropped at any point (its client is gone, or it is refused). A token's row
  is locked from \<open>run_enroll\<close> on, so a second registration with it waits.
\<close>

inductive control_run :: "go_env \<Rightarrow> db \<Rightarrow> action list \<Rightarrow> registration list \<Rightarrow> event list \<Rightarrow> bool" for env where
  run_start: "control_run env empty_db [] [] []"
| run_begin: "control_run env d as gs h \<Longrightarrow> control_begin env r (gq_route r) d = Inr a \<Longrightarrow>
    control_run env d (a # as) gs (Began r a d # h)"
| run_finish: "control_run env d as gs h \<Longrightarrow> a \<in> set as \<Longrightarrow> \<not> registers a \<Longrightarrow> control_finish env w a d = (ans, d') \<Longrightarrow>
    control_run env d' (remove1 a as) gs (Finished a w d ans # h)"
| run_enroll: "control_run env d as gs h \<Longrightarrow> ARegister tok n k \<in> set as \<Longrightarrow>
    register_begin (ge_hash env tok) now n k d = Inr g \<Longrightarrow> rg_token g \<notin> rg_token ` set gs \<Longrightarrow>
    control_run env d (remove1 (ARegister tok n k) as) (g # gs) h"
| run_commit: "control_run env d as gs h \<Longrightarrow> g \<in> set gs \<Longrightarrow> register_commit i now g d = Inr (p, d') \<Longrightarrow>
    control_run env d' as (remove1 g gs) (Enrolled g d # h)"
| run_drop: "control_run env d as gs h \<Longrightarrow> control_run env d (remove1 a as) (remove1 g gs) h"

section \<open>What a step changes\<close>

lemma settle_db:
  assumes "settle d bad good r = (ans, d')"
  obtains "d' = d" | x where "r = Inr (x, d')"
  using assms by (auto simp: settle_def split: sum.splits prod.splits)

lemma reading_Inr: "reading d r = Inr (x, d') \<Longrightarrow> d' = d"
  by (cases r) (auto simp: reading_def)

lemma by_uuid_Inr: "by_uuid env raw f = Inr x \<Longrightarrow> \<exists>i. ge_uuid env raw = Some i \<and> f i = Inr x"
  by (auto simp: by_uuid_def split: option.splits)

lemma finish_cases [consumes 2, case_names same tenant token endpoint nat refresh mine remove invite claim accept]:
  assumes f: "control_finish env w a d = (ans, d')" and nr: "\<not> registers a"
  obtains "d' = d"
  | n c t where "a = ACreateTenant n c" "store_create_tenant (dr_id w) (dr_now w) n c d = Inr (t, d')"
  | raw ttl n t k where "a = ACreateToken raw ttl n"
      "store_create_token (dr_id w) (ge_hash env (token_secret w)) (dr_now w) t ttl n d = Inr (k, d')"
  | p ip port b x where "a = ASetEndpoint p ip port" "store_set_endpoint (dr_now w) p ip port b d = Inr (x, d')"
  | raw p ip port x where "a = ASetNat raw ip port" "store_set_nat_endpoint p ip port d = Inr (x, d')"
  | u where "a = AMyTenants u" "d' = snd (list_memberships u d)"
  | u n c t where "a = ACreateMine u n c" "create_owned_tenant (dr_id w) (dr_now w) n c u d = Inr (t, d')"
  | u t v where "a = ARemove u t v" "store_remove_member t v d = Inr d'"
  | u t r ttl n i where "a = AInvite u t r ttl n"
      "store_create_invite (dr_id w) (ge_hash env (invite_code w)) (dr_now w) t r (su_id u) ttl n d = Inr (i, d')"
  | u raw t m where "a = AClaim u raw" "ge_uuid env raw = Some t" "store_claim_tenant t (dr_now w) u d = Inr (m, d')"
  | u code m where "a = AAccept u code" "store_accept_invite (ge_hash env code) (dr_now w) u d = Inr (m, d')"
proof (cases a)
  case (ACreateTenant n c)
  from f [unfolded ACreateTenant control_finish.simps] show ?thesis
    by (rule settle_db) (rule that(1), assumption, rule that(2) [OF ACreateTenant], assumption)
next
  case (AGetTenant raw)
  from f [unfolded AGetTenant control_finish.simps] show ?thesis
    by (rule settle_db) (rule that(1), assumption, rule that(1), erule reading_Inr)
next
  case (ACreateToken raw ttl n)
  show ?thesis
  proof (cases "by_uuid env raw (\<lambda>t. store_get_tenant t d)")
    case (Inr t)
    from f [unfolded ACreateToken control_finish.simps Inr sum.case] show ?thesis
      by (rule settle_db) (rule that(1), assumption, rule that(3) [OF ACreateToken], assumption)
  qed (use f that(1) ACreateToken in simp)
next
  case (AListPeers raw)
  from f [unfolded AListPeers control_finish.simps] show ?thesis
    by (rule settle_db) (rule that(1), assumption, rule that(1), erule reading_Inr)
next
  case (ASetEndpoint p ip port)
  from f [unfolded ASetEndpoint control_finish.simps] show ?thesis
    by (rule settle_db) (rule that(1), assumption, rule that(4) [OF ASetEndpoint], assumption)
next
  case (ASetNat raw ip port)
  from f [unfolded ASetNat control_finish.simps] show ?thesis
    by (rule settle_db) (rule that(1), assumption, drule by_uuid_Inr, elim exE conjE, rule that(5) [OF ASetNat], assumption)
next
  case (AMyTenants u)
  then have "d' = snd (list_memberships u d)" using f by (simp add: Let_def case_prod_beta)
  with AMyTenants show ?thesis by (rule that(6))
next
  case (ACreateMine u n c)
  from f [unfolded ACreateMine control_finish.simps] show ?thesis
    by (rule settle_db) (rule that(1), assumption, rule that(7) [OF ACreateMine], assumption)
next
  case (AListMembers raw)
  from f [unfolded AListMembers control_finish.simps] show ?thesis
    by (rule settle_db) (rule that(1), assumption, rule that(1), erule reading_Inr)
next
  case (ARemove u t v)
  from f [unfolded ARemove control_finish.simps] show ?thesis
    by (rule settle_db) (rule that(1), assumption, rule that(8) [OF ARemove], cases "store_remove_member t v d", simp_all)
next
  case (AInvite u t r ttl n)
  from f [unfolded AInvite control_finish.simps] show ?thesis
    by (rule settle_db) (rule that(1), assumption, rule that(9) [OF AInvite], assumption)
next
  case (AClaim u raw)
  from f [unfolded AClaim control_finish.simps] show ?thesis
    by (rule settle_db) (rule that(1), assumption, drule by_uuid_Inr, elim exE conjE, rule that(10) [OF AClaim])
next
  case (AAccept u code)
  from f [unfolded AAccept control_finish.simps] show ?thesis
    by (rule settle_db) (rule that(1), assumption, rule that(11) [OF AAccept], assumption)
qed (use f nr that(1) in \<open>simp_all split: if_splits\<close>)

section \<open>Both invariants hold throughout\<close>

text \<open>What an action that passed its checks may rely on.\<close>

fun act_ok :: "db \<Rightarrow> action \<Rightarrow> bool" where
  "act_ok d (ACreateTenant n c) = range_ok c"
| "act_ok d (ACreateMine u n c) = range_ok c"
| "act_ok d (AInvite u t r ttl n) = (owners d t \<noteq> [])"
| "act_ok d _ = True"

lemma and_then_Inr: "and_then x f = Inr y \<longleftrightarrow> (\<exists>z. x = Inr z \<and> f z = Inr y)"
  by (cases x) auto

lemma tenant_input_range: "tenant_input env b = Inr (n, c) \<Longrightarrow> range_ok c"
proof -
  assume "tenant_input env b = Inr (n, c)"
  then obtain raw where "parse_cidr (ge_netip env) raw = Inr c"
    by (auto simp: tenant_input_def and_then_Inr split: if_splits sum.splits)
  then show ?thesis by (rule parse_cidr_Inr) (simp add: range_ok_def masked4)
qed

lemma caller_Inr:
  assumes "caller env u raw oo d = Inr m"
  shows "\<exists>t x. ge_uuid env raw = Some t \<and> st_id (fst m) = t \<and> find_member d t (su_id u) = Some x \<and> sm_role x = snd m \<and>
    (oo \<longrightarrow> snd m = Owner)"
proof -
  obtain t where t: "ge_uuid env raw = Some t" "get_membership t (su_id u) d = Inr m" "\<not> (oo \<and> snd m \<noteq> Owner)"
    using assms by (auto simp: caller_def split: option.splits sum.splits if_splits)
  then obtain x tn where "find_member d t (su_id u) = Some x" "find_tenant d t = Some tn" "m = (tn, sm_role x)"
    by (auto simp: get_membership_def split: option.splits)
  then show ?thesis using t find_tenant_Some [of d t tn] by auto
qed

text \<open>Which action a route may lead to, and on what condition.\<close>

fun endpoint_action :: "action \<Rightarrow> bool" where
  "endpoint_action (ASetEndpoint p ip port) = True"
| "endpoint_action (ASetNat p ip port) = True"
| "endpoint_action _ = False"

lemma endpoint_form: "endpoint_input env r p b d = Inr a \<Longrightarrow> endpoint_action a"
  by (auto simp: endpoint_input_def and_then_Inr Let_def split: if_splits option.splits)

lemma nat_target_form: "nat_target env r p s = Inr a \<Longrightarrow> endpoint_action a"
  by (cases "ge_parse_addr_port env (go_trim s)"; cases "gq_remote r") (auto simp: nat_target_def split: if_splits)

lemma nat_form: "nat_input env r p b = Inr a \<Longrightarrow> endpoint_action a"
  by (auto simp: nat_input_def and_then_Inr dest: nat_target_form)

lemma remove_form:
  "remove_input u v m = Inr a \<Longrightarrow> a = ARemove u (st_id (fst m)) v \<and> (v = su_id u \<or> snd m = Owner)"
  by (auto simp: remove_input_def remove_authorized_def split: if_splits)

lemma invite_form: "invite_input u vs m = Inr a \<Longrightarrow> \<exists>ro ttl n. a = AInvite u (st_id (fst m)) ro ttl n"
  by (auto simp: invite_input_def and_then_Inr)

lemma guarded_form: "guarded e a = Inr b \<Longrightarrow> b = a"
  by (auto simp: guarded_def split: option.splits)

lemmas begin_forms = endpoint_form nat_form remove_form invite_form guarded_form caller_Inr

definition owner_in :: "db \<Rightarrow> string \<Rightarrow> string \<Rightarrow> bool" where
  "owner_in d t u = (case find_member d t u of Some m \<Rightarrow> sm_role m = Owner | None \<Rightarrow> False)"

lemma begin_invite:
  "control_begin env r rt d = Inr (AInvite v t ro ttl n) \<Longrightarrow> as_user env r = Inr v \<and> owner_in d t (su_id v)"
  by (cases rt) (auto simp: and_then_Inr owner_in_def dest!: begin_forms)

lemma begin_remove:
  "control_begin env r rt d = Inr (ARemove v t x) \<Longrightarrow> as_user env r = Inr v \<and> (x = su_id v \<or> owner_in d t (su_id v))"
  by (cases rt) (auto simp: and_then_Inr owner_in_def dest!: begin_forms)

fun actor :: "action \<Rightarrow> store_user option" where
  "actor (AMyTenants u) = Some u"
| "actor (ACreateMine u n c) = Some u"
| "actor (ARemove u t v) = Some u"
| "actor (AInvite u t r ttl n) = Some u"
| "actor (AClaim u t) = Some u"
| "actor (AAccept u code) = Some u"
| "actor _ = None"

lemma endpoint_actor: "endpoint_action a \<Longrightarrow> actor a = None"
  by (cases a) simp_all

lemma begin_actor: "control_begin env r rt d = Inr a \<Longrightarrow> actor a = Some u \<Longrightarrow> as_user env r = Inr u"
  by (cases rt) (auto simp: and_then_Inr endpoint_actor dest!: begin_forms)

lemma owner_in_owners: "owner_in d t u \<Longrightarrow> owners d t \<noteq> []"
  unfolding owners_nonempty owner_in_def by (auto split: option.splits dest: find_member_Some)

lemma begin_act_ok:
  assumes "control_begin env r rt d = Inr a"
  shows "act_ok d a"
proof (cases a)
  case (AInvite v t ro ttl n)
  then have "owner_in d t (su_id v)" using begin_invite assms by blast
  then show ?thesis using AInvite by (simp add: owner_in_owners)
next
  case (ACreateTenant n c)
  then show ?thesis using assms by (cases rt) (auto simp: and_then_Inr dest!: begin_forms tenant_input_range)
next
  case (ACreateMine u n c)
  then show ?thesis using assms by (cases rt) (auto simp: and_then_Inr dest!: begin_forms tenant_input_range)
qed simp_all

text \<open>The member tables and the machine tables are apart.\<close>

lemma db_ok_cong:
  assumes "db_tenants d' = db_tenants d" "db_members d' = db_members d" "db_invites d' = db_invites d"
  shows "db_ok d' = db_ok d" "owners d' = owners d"
  using assms by (simp_all add: fun_eq_iff db_ok_def owned_def owners_def has_tenant_def)

lemma remove_tables:
  "store_remove_member t v d = Inr d' \<Longrightarrow>
    db_tenants d' = db_tenants d \<and> db_invites d' = db_invites d \<and> db_tokens d' = db_tokens d \<and> db_peers d' = db_peers d"
  by (auto simp: store_remove_member_def split: option.splits if_splits)

lemma invite_tables:
  "store_create_invite i hs now t r b ttl n d = Inr (x, d') \<Longrightarrow>
    db_tenants d' = db_tenants d \<and> db_members d' = db_members d \<and> db_tokens d' = db_tokens d \<and> db_peers d' = db_peers d \<and>
    db_invites d' = db_invites d @ [x] \<and> si_tenant x = t \<and> si_hash x = hs \<and> si_role x = r \<and> si_created_by x = b"
  by (auto simp: store_create_invite_def Let_def split: if_splits)

lemma claim_tables:
  "store_claim_tenant t now u d = Inr (m, d') \<Longrightarrow>
    d' = d\<lparr>db_members := db_members d @ [member_of_user now t u Owner]\<rparr> \<and> has_tenant d t \<and>
    \<not> list_ex (\<lambda>r. sm_tenant r = t) (db_members d)"
  by (auto simp: store_claim_tenant_def add_member_def map_sum_def split: if_splits sum.splits)

lemma accept_tables:
  assumes "store_accept_invite hs now u d = Inr (m, d')"
  obtains "d' = d"
  | i f where "i \<in> set (db_invites d)" "usable_invite hs now i" "\<not> has_member d (si_tenant i) (su_id u)"
      "d' = d\<lparr>db_members := db_members d @ [member_of_user now (si_tenant i) u (si_role i)], db_invites := map f (db_invites d)\<rparr>"
      "\<And>x. si_id (f x) = si_id x \<and> si_hash (f x) = si_hash x \<and> si_tenant (f x) = si_tenant x \<and> si_role (f x) = si_role x"
proof -
  obtain i where i: "List.find (usable_invite hs now) (db_invites d) = Some i"
    using assms by (auto simp: store_accept_invite_def split: option.splits)
  define bump :: "stored_invite \<Rightarrow> stored_invite" where "bump = (\<lambda>x. if si_id x = si_id i then x\<lparr>si_uses := si_uses x + 1\<rparr> else x)"
  have "d' = (if has_member d (si_tenant i) (su_id u) then d
      else d\<lparr>db_members := db_members d @ [member_of_user now (si_tenant i) u (si_role i)], db_invites := map bump (db_invites d)\<rparr>)"
    using assms unfolding store_accept_invite_def i option.case Let_def bump_def by (auto simp: map_sum_def split: sum.splits)
  moreover have "si_id (bump x) = si_id x \<and> si_hash (bump x) = si_hash x \<and> si_tenant (bump x) = si_tenant x \<and> si_role (bump x) = si_role x" for x
    by (simp add: bump_def)
  ultimately show ?thesis
    using that(1) that(2) [of i bump] find_Some_set [OF i] by presburger
qed

lemma create_owned_tables:
  assumes "create_owned_tenant i now name c u d = Inr (t, d')"
  obtains d1 where "store_create_tenant i now name c d = Inr (t, d1)"
    "d' = d1\<lparr>db_members := db_members d @ [member_of_user now i u Owner]\<rparr>"
proof -
  obtain t1 d1 where c: "store_create_tenant i now name c d = Inr (t1, d1)"
    using assms by (cases "store_create_tenant i now name c d") (auto simp: create_owned_tenant_def)
  then have "add_member now (st_id t1) u Owner d1 = Inr d'" "t1 = t"
    using assms by (auto simp: create_owned_tenant_def split: sum.splits)
  moreover have "st_id t1 = i" "db_members d1 = db_members d"
    using c by (auto simp: store_create_tenant_def Let_def split: if_splits)
  ultimately show ?thesis using that [of d1] c by (auto simp: add_member_def split: if_splits)
qed

lemma owners_append: "owners d t \<noteq> [] \<Longrightarrow> db_members d' = db_members d @ ms \<Longrightarrow> owners d' t \<noteq> []"
  by (auto simp: owners_def)

lemma owners_appended [simp]: "owners (d\<lparr>db_members := db_members d @ ms, db_invites := is\<rparr>) t = owners d t @ owners (d\<lparr>db_members := ms\<rparr>) t"
  by (simp add: owners_def)

lemma finish_db_ok:
  assumes f: "control_finish env w a d = (ans, d')" "\<not> registers a" and ok: "db_ok d" "act_ok d a"
  shows "db_ok d' \<and> (\<forall>t. owners d t \<noteq> [] \<longrightarrow> owners d' t \<noteq> [])"
  using f
proof (cases rule: finish_cases)
  case (tenant n c t)
  then have "db_members d' = db_members d" by (auto simp: store_create_tenant_def Let_def split: if_splits)
  then show ?thesis using create_tenant_ok [OF ok(1) tenant(2)] by (simp add: owners_def)
next
  case (token raw ttl n t k)
  then have "db_tenants d' = db_tenants d" "db_members d' = db_members d" "db_invites d' = db_invites d"
    by (auto simp: store_create_token_def Let_def split: if_splits)
  then show ?thesis using db_ok_cong [of d' d] ok by simp
next
  case (endpoint p ip port b x)
  then have "db_tenants d' = db_tenants d" "db_members d' = db_members d" "db_invites d' = db_invites d"
    by (auto simp: store_set_endpoint_def Let_def map_sum_def update_peer_def split: if_splits sum.splits)
  then show ?thesis using db_ok_cong [of d' d] ok by simp
next
  case (nat raw p ip port x)
  then have "db_tenants d' = db_tenants d" "db_members d' = db_members d" "db_invites d' = db_invites d"
    by (auto simp: store_set_nat_endpoint_def Let_def map_sum_def update_peer_def split: if_splits sum.splits)
  then show ?thesis using db_ok_cong [of d' d] ok by simp
next
  case (refresh u)
  have "owners d' t = map (refresh_member u) (owners d t)" for t
    by (simp add: refresh list_memberships_db owners_def filter_map comp_def refresh_member_def)
  then show ?thesis using list_memberships_ok [OF ok(1)] refresh by simp
next
  case (mine u n c t)
  then obtain d1 where "d' = d1\<lparr>db_members := db_members d @ [member_of_user (dr_now w) (dr_id w) u Owner]\<rparr>"
    by (elim create_owned_tables)
  then show ?thesis using create_owned_ok [OF ok(1) mine(2)] owners_append [of d] by simp
next
  case (remove u t v)
  then show ?thesis using remove_member_ok [OF ok(1)] removed_owner [OF _ remove(2)] ok(1) by (auto simp: db_ok_def)
next
  case (invite u t r ttl n i)
  then show ?thesis using create_invite_ok [OF ok(1) _ invite(2)] ok(2) invite_tables [OF invite(2)]
    by (simp add: owners_def)
next
  case (claim u raw t m)
  have d': "d' = d\<lparr>db_members := db_members d @ [member_of_user (dr_now w) t u Owner]\<rparr>" "has_tenant d t"
      "\<not> list_ex (\<lambda>r. sm_tenant r = t) (db_members d)"
    using claim_tables [OF claim(3)] by simp_all
  then have "\<not> has_member d t (su_id u)" by (auto simp: has_member_def list_ex_iff)
  then have "db_ok d'" using db_ok_add [OF ok(1), of "member_of_user (dr_now w) t u Owner"] d' by (simp add: member_of_user_def)
  then show ?thesis using owners_append [of d] d'(1) by simp
next
  case (accept u code m)
  have "db_ok d'" using accept_invite_ok [OF ok(1) accept(2)] .
  moreover have "owners d t \<noteq> [] \<longrightarrow> owners d' t \<noteq> []" for t
    using accept(2) by (rule accept_tables) (auto intro: owners_append [of d])
  ultimately show ?thesis by blast
qed (use ok in simp)

lemma finish_peers_ok:
  assumes f: "control_finish env w a d = (ans, d')" "\<not> registers a" and ok: "peers_ok d" "regs_ok d gs" "act_ok d a"
  shows "peers_ok d' \<and> regs_ok d' gs"
  using f
proof (cases rule: finish_cases)
  case (tenant n c t)
  then show ?thesis using create_tenant_peers_ok [OF ok(1,2) _ tenant(2)] ok(3) by simp
next
  case (token raw ttl n t k)
  show ?thesis using create_token_peers_ok [OF ok(1,2) token(2)] .
next
  case (endpoint p ip port b x)
  show ?thesis using set_endpoint_ok [OF ok(1,2) endpoint(2)] .
next
  case (nat raw p ip port x)
  show ?thesis using set_nat_endpoint_ok [OF ok(1,2) nat(2)] .
next
  case (refresh u)
  then show ?thesis using peers_ok_cong [of d' d] ok by (simp add: list_memberships_db)
next
  case (mine u n c t)
  obtain d1 where d1: "store_create_tenant (dr_id w) (dr_now w) n c d = Inr (t, d1)"
      "d' = d1\<lparr>db_members := db_members d @ [member_of_user (dr_now w) (dr_id w) u Owner]\<rparr>"
    using mine(2) by (rule create_owned_tables)
  then show ?thesis
    using create_tenant_peers_ok [OF ok(1,2) _ d1(1)] ok(3) mine(1) peers_ok_cong [of d' d1] by simp
next
  case (remove u t v)
  then show ?thesis using peers_ok_cong [of d' d] ok remove_tables [OF remove(2)] by simp
next
  case (invite u t r ttl n i)
  then show ?thesis using peers_ok_cong [of d' d] ok invite_tables [OF invite(2)] by simp
next
  case (claim u raw t m)
  then show ?thesis using peers_ok_cong [of d' d] ok claim_tables [OF claim(3)] by simp
next
  case (accept u code m)
  have "db_tenants d' = db_tenants d \<and> db_tokens d' = db_tokens d \<and> db_peers d' = db_peers d"
    using accept(2) by (rule accept_tables) auto
  then show ?thesis using peers_ok_cong [of d' d] ok by simp
qed (use ok in simp)

lemma act_ok_keep: "(\<forall>t. owners d t \<noteq> [] \<longrightarrow> owners d' t \<noteq> []) \<Longrightarrow> act_ok d a \<Longrightarrow> act_ok d' a"
  by (cases a) auto

definition run_ok :: "db \<Rightarrow> action list \<Rightarrow> registration list \<Rightarrow> bool" where
  "run_ok d as gs \<longleftrightarrow> db_ok d \<and> peers_ok d \<and> regs_ok d gs \<and> (\<forall>a \<in> set as. act_ok d a)"

lemma run_invariant: "control_run env d as gs h \<Longrightarrow> run_ok d as gs"
proof (induction rule: control_run.induct)
  case run_start
  then show ?case by (simp add: run_ok_def db_ok_empty peers_ok_empty regs_ok_def)
next
  case (run_begin d as gs h r a)
  then show ?case using begin_act_ok by (simp add: run_ok_def)
next
  case (run_finish d as gs h a w ans d')
  have ok: "db_ok d" "peers_ok d" "regs_ok d gs" "act_ok d a" "\<forall>a \<in> set as. act_ok d a"
    using run_finish by (auto simp: run_ok_def)
  note m = finish_db_ok [OF run_finish.hyps(4,3) ok(1,4)] finish_peers_ok [OF run_finish.hyps(4,3) ok(2,3,4)]
  have "act_ok d' b" if "b \<in> set (remove1 a as)" for b
    using act_ok_keep [of d d' b] m(1) ok(5) notin_set_remove1 [of b as a] that by blast
  then show ?case using m by (simp add: run_ok_def)
next
  case (run_enroll d as gs h tok n k now g)
  then show ?case
    using register_begin_ok [of d "ge_hash env tok" now n k g] set_remove1_subset [of "ARegister tok n k" as]
    by (auto simp: run_ok_def regs_ok_def)
next
  case (run_commit d as gs h g i now p d')
  have rows: "db_tenants d' = db_tenants d" "db_members d' = db_members d" "db_invites d' = db_invites d"
    using run_commit.hyps by (auto simp: register_commit_def Let_def split: if_splits)
  have "act_ok d' b" if "act_ok d b" for b using that by (cases b) (auto simp: owners_def rows)
  moreover have "peers_ok d' \<and> regs_ok d' (remove1 g gs)"
    using run_commit by (intro register_commit_ok) (auto simp: run_ok_def)
  ultimately show ?case using run_commit.IH db_ok_cong(1) [OF rows] by (simp add: run_ok_def)
next
  case (run_drop d as gs h a g)
  then show ?case
    using set_remove1_subset [of a as] set_remove1_subset [of g gs]
    by (auto simp: run_ok_def regs_ok_def distinct_map inj_on_def dest: notin_set_remove1)
qed

section \<open>How a membership comes about\<close>

text \<open>
  What the history says of an invite (made by someone who was an owner when their request was
  checked) and of a member: they created the tenant, claimed it when nobody was in it, or
  accepted an invite to it with the role they have. Each was asked with the console's token.
\<close>

definition invited :: "go_env \<Rightarrow> event set \<Rightarrow> string \<Rightarrow> role \<Rightarrow> string \<Rightarrow> bool" where
  "invited env H t r hash \<longleftrightarrow>
     (\<exists>v ttl n w d0 ans q dq. Finished (AInvite v t r ttl n) w d0 ans \<in> H \<and> hash = ge_hash env (invite_code w) \<and>
        Began q (AInvite v t r ttl n) dq \<in> H \<and> as_user env q = Inr v \<and> owner_in dq t (su_id v))"

definition founds :: "go_env \<Rightarrow> string \<Rightarrow> action \<Rightarrow> draw \<Rightarrow> db \<Rightarrow> bool" where
  "founds env t a w d =
     (case a of
        ACreateMine u n c \<Rightarrow> dr_id w = t
      | AClaim u raw \<Rightarrow> ge_uuid env raw = Some t \<and> \<not> list_ex (\<lambda>m. sm_tenant m = t) (db_members d)
      | _ \<Rightarrow> False)"

definition earned :: "go_env \<Rightarrow> event set \<Rightarrow> string \<Rightarrow> string \<Rightarrow> role \<Rightarrow> bool" where
  "earned env H t user r \<longleftrightarrow>
     (\<exists>a u w d0 ans q dq. Finished a w d0 ans \<in> H \<and> Began q a dq \<in> H \<and> actor a = Some u \<and> as_user env q = Inr u \<and> su_id u = user \<and>
        (founds env t a w d0 \<and> r = Owner \<or> (\<exists>code. a = AAccept u code \<and> invited env H t r (ge_hash env code))))"

lemma invited_mono: "invited env H t r hs \<Longrightarrow> H \<subseteq> H' \<Longrightarrow> invited env H' t r hs"
  unfolding invited_def by (blast dest: subsetD)

lemma earned_mono: "earned env H t u r \<Longrightarrow> H \<subseteq> H' \<Longrightarrow> earned env H' t u r"
  unfolding earned_def by (blast dest: subsetD intro: invited_mono)

lemma earned_more: "earned env (set h) t u r \<Longrightarrow> earned env (set (e # h)) t u r"
  by (erule earned_mono) auto

lemma invited_more: "invited env (set h) t r hs \<Longrightarrow> invited env (set (e # h)) t r hs"
  by (erule invited_mono) auto

text \<open>Where a member and an invite of the new database come from.\<close>

lemma finish_member_cases [consumes 2, case_names other refresh mine remove invite claim accept]:
  assumes f: "control_finish env w a d = (ans, d')" and nr: "\<not> registers a"
  obtains "db_members d' = db_members d" "db_invites d' = db_invites d"
  | u where "a = AMyTenants u" "d' = d\<lparr>db_members := map (refresh_member u) (db_members d)\<rparr>"
  | u n c where "a = ACreateMine u n c" "db_members d' = db_members d @ [member_of_user (dr_now w) (dr_id w) u Owner]"
      "db_invites d' = db_invites d" "\<not> has_tenant d (dr_id w)"
  | u t v where "a = ARemove u t v" "store_remove_member t v d = Inr d'"
  | u t r ttl n i where "a = AInvite u t r ttl n" "db_members d' = db_members d" "db_invites d' = db_invites d @ [i]"
      "si_tenant i = t" "si_role i = r" "si_hash i = ge_hash env (invite_code w)"
  | u raw t where "a = AClaim u raw" "ge_uuid env raw = Some t"
      "d' = d\<lparr>db_members := db_members d @ [member_of_user (dr_now w) t u Owner]\<rparr>"
      "\<not> list_ex (\<lambda>r. sm_tenant r = t) (db_members d)"
  | u code i f where "a = AAccept u code" "i \<in> set (db_invites d)" "si_hash i = ge_hash env code"
      "d' = d\<lparr>db_members := db_members d @ [member_of_user (dr_now w) (si_tenant i) u (si_role i)], db_invites := map f (db_invites d)\<rparr>"
      "\<And>x. si_id (f x) = si_id x \<and> si_hash (f x) = si_hash x \<and> si_tenant (f x) = si_tenant x \<and> si_role (f x) = si_role x"
  using f nr
proof (cases rule: finish_cases)
  case (tenant n c t)
  then show ?thesis using that(1) by (auto simp: store_create_tenant_def Let_def split: if_splits)
next
  case (token raw ttl n t k)
  then show ?thesis using that(1) by (auto simp: store_create_token_def Let_def split: if_splits)
next
  case (endpoint p ip port b x)
  then show ?thesis using that(1)
    by (auto simp: store_set_endpoint_def Let_def map_sum_def update_peer_def split: if_splits sum.splits)
next
  case (nat raw p ip port x)
  then show ?thesis using that(1)
    by (auto simp: store_set_nat_endpoint_def Let_def map_sum_def update_peer_def split: if_splits sum.splits)
next
  case (refresh u)
  then show ?thesis using that(2) by (simp add: list_memberships_db)
next
  case (mine u n c t)
  obtain d1 where d1: "store_create_tenant (dr_id w) (dr_now w) n c d = Inr (t, d1)"
      "d' = d1\<lparr>db_members := db_members d @ [member_of_user (dr_now w) (dr_id w) u Owner]\<rparr>"
    using mine(2) by (rule create_owned_tables)
  then have "db_invites d' = db_invites d" "\<not> has_tenant d (dr_id w)"
    by (auto simp: store_create_tenant_def Let_def split: if_splits)
  then show ?thesis using that(3) [OF mine(1)] d1(2) by simp
next
  case (remove u t v)
  then show ?thesis by (rule that(4))
next
  case (invite u t r ttl n i)
  then show ?thesis using that(5) [OF invite(1)] invite_tables [OF invite(2)] by blast
next
  case (claim u raw t m)
  then show ?thesis using that(6) [OF claim(1,2)] claim_tables [OF claim(3)] by blast
next
  case (accept u code m)
  from accept(2) show ?thesis
  proof (rule accept_tables)
    fix i f
    assume i: "i \<in> set (db_invites d)" "usable_invite (ge_hash env code) (dr_now w) i" "\<not> has_member d (si_tenant i) (su_id u)"
      and d': "d' = d\<lparr>db_members := db_members d @ [member_of_user (dr_now w) (si_tenant i) u (si_role i)], db_invites := map f (db_invites d)\<rparr>"
      and f: "\<And>x. si_id (f x) = si_id x \<and> si_hash (f x) = si_hash x \<and> si_tenant (f x) = si_tenant x \<and> si_role (f x) = si_role x"
    show ?thesis using that(7) [OF accept(1) i(1) _ d' f] i(2) by (simp add: usable_invite_def)
  qed (use that(1) in simp)
qed (use that(1) in simp)

lemma finish_member:
  assumes f: "control_finish env w a d = (ans, d')" "\<not> registers a" and m: "m \<in> set (db_members d')"
  obtains m0 where "m0 \<in> set (db_members d)" "sm_tenant m0 = sm_tenant m" "sm_user m0 = sm_user m" "sm_role m0 = sm_role m"
  | u where "actor a = Some u" "sm_user m = su_id u" "sm_role m = Owner" "founds env (sm_tenant m) a w d"
  | u code i where "a = AAccept u code" "sm_user m = su_id u" "i \<in> set (db_invites d)" "si_hash i = ge_hash env code"
      "si_tenant i = sm_tenant m" "si_role i = sm_role m"
proof (cases "m \<in> set (db_members d)")
  case True
  then show ?thesis using that(1) by blast
next
  case new: False
  from f show ?thesis
  proof (cases rule: finish_member_cases)
    case (refresh u)
    then obtain m0 where m0: "m0 \<in> set (db_members d)" "m = refresh_member u m0" using m by auto
    show ?thesis by (rule that(1) [OF m0(1)]) (simp_all add: m0(2) refresh_member_def)
  next
    case (mine u n c)
    then have e: "m = member_of_user (dr_now w) (dr_id w) u Owner" using m new by simp
    show ?thesis by (rule that(2) [of u]) (simp_all add: mine(1) e member_of_user_def founds_def)
  next
    case (claim u raw t)
    then have e: "m = member_of_user (dr_now w) t u Owner" using m new by simp
    show ?thesis by (rule that(2) [of u]) (use claim in \<open>simp_all add: e member_of_user_def founds_def\<close>)
  next
    case (accept u code i f)
    then have e: "m = member_of_user (dr_now w) (si_tenant i) u (si_role i)" using m new by simp
    show ?thesis by (rule that(3) [OF accept(1) _ accept(2,3)]) (simp_all add: e member_of_user_def)
  next
    case (remove u t v)
    then show ?thesis using m new by (auto simp: store_remove_member_def split: option.splits if_splits)
  qed (use m new in simp_all)
qed

lemma finish_invite:
  assumes f: "control_finish env w a d = (ans, d')" "\<not> registers a" and i: "i \<in> set (db_invites d')"
  obtains i0 where "i0 \<in> set (db_invites d)" "si_hash i0 = si_hash i" "si_tenant i0 = si_tenant i" "si_role i0 = si_role i"
  | u ttl n where "a = AInvite u (si_tenant i) (si_role i) ttl n" "si_hash i = ge_hash env (invite_code w)"
proof (cases "i \<in> set (db_invites d)")
  case True
  then show ?thesis using that(1) by blast
next
  case new: False
  from f show ?thesis
  proof (cases rule: finish_member_cases)
    case (invite u t r ttl n x)
    then show ?thesis using i new that(2) [of u ttl n] by simp
  next
    case (accept u code x f)
    then obtain i0 where i0: "i0 \<in> set (db_invites d)" "i = f i0" using i by auto
    show ?thesis by (rule that(1) [OF i0(1)]) (simp_all add: i0(2) accept(5))
  next
    case (remove u t v)
    then show ?thesis using i new remove_tables [OF remove(2)] by simp
  qed (use i new in simp_all)
qed

lemma run_began:
  assumes "control_run env d as gs h" "a \<in> set as"
  shows "\<exists>q dq. Began q a dq \<in> set h \<and> control_begin env q (gq_route q) dq = Inr a"
  using assms by (induction rule: control_run.induct) (auto dest: notin_set_remove1)

lemma run_history:
  assumes "control_run env d as gs h"
  shows "(\<forall>m \<in> set (db_members d). earned env (set h) (sm_tenant m) (sm_user m) (sm_role m)) \<and>
    (\<forall>i \<in> set (db_invites d). invited env (set h) (si_tenant i) (si_role i) (si_hash i))"
  using assms
proof (induction rule: control_run.induct)
  case run_start
  then show ?case by (simp add: empty_db_def)
next
  case (run_begin d as gs h r a)
  then show ?case using earned_more invited_more by blast
next
  case (run_finish d as gs h a w ans d')
  let ?H = "set (Finished a w d ans # h)"
  obtain q dq where q: "Began q a dq \<in> set h" "control_begin env q (gq_route q) dq = Inr a"
    using run_began [OF run_finish.hyps(1,2)] by blast
  have mem: "earned env ?H (sm_tenant m) (sm_user m) (sm_role m)" if m: "m \<in> set (db_members d')" for m
    using run_finish.hyps(4,3) m
  proof (cases rule: finish_member)
    case (1 m0)
    then show ?thesis using run_finish.IH earned_more by metis
  next
    case (2 u)
    then have "as_user env q = Inr u" using begin_actor q(2) by blast
    then show ?thesis using 2 q(1) unfolding earned_def by (metis list.set_intros)
  next
    case (3 u code i)
    then have "actor a = Some u" by simp
    then have "as_user env q = Inr u" using begin_actor q(2) by blast
    moreover have "invited env ?H (sm_tenant m) (sm_role m) (ge_hash env code)"
      using 3 run_finish.IH invited_more by metis
    ultimately show ?thesis using 3 q(1) \<open>actor a = Some u\<close> unfolding earned_def by (metis list.set_intros)
  qed
  have inv: "invited env ?H (si_tenant i) (si_role i) (si_hash i)" if i: "i \<in> set (db_invites d')" for i
    using run_finish.hyps(4,3) i
  proof (cases rule: finish_invite)
    case (1 i0)
    then show ?thesis using run_finish.IH invited_more by metis
  next
    case (2 u ttl n)
    then have "as_user env q = Inr u \<and> owner_in dq (si_tenant i) (su_id u)" using begin_invite q(2) by blast
    then show ?thesis using 2 q(1) unfolding invited_def by (metis list.set_intros)
  qed
  show ?case using mem inv by blast
next
  case (run_commit d as gs h g i now p d')
  then have "db_members d' = db_members d" "db_invites d' = db_invites d"
    by (auto simp: register_commit_def Let_def split: if_splits)
  then show ?case using run_commit.IH earned_more invited_more by metis
qed simp_all

section \<open>A tenant is founded once\<close>

fun founding :: "go_env \<Rightarrow> string \<Rightarrow> event \<Rightarrow> bool" where
  "founding env t (Finished a w d ans) = (founds env t a w d \<and> fst ans < 300)"
| "founding env t _ = False"

lemma answer_error_status: "\<forall>e r. (e, r) \<in> set cases \<longrightarrow> 400 \<le> fst r \<Longrightarrow> 400 \<le> fst (answer_error cases msg e)"
  by (auto simp: answer_error_def fail_def answer_json_def lookup_map_of coalesce_def split: option.splits dest!: map_of_SomeD)

lemma settle_ok:
  assumes "settle d bad good r = (ans, d')" "\<And>e. \<not> fst (bad e) < 300" "fst ans < 300"
  obtains x where "r = Inr (x, d')"
  using assms by (auto simp: settle_def split: sum.splits prod.splits)

lemma founding_step:
  assumes f: "control_finish env w a d = (ans, d')" and e: "founding env t (Finished a w d ans)" and ok: "db_ok d"
  shows "owners d t = [] \<and> owners d' t \<noteq> []"
proof (cases a)
  case (ACreateMine u n c)
  then have t: "dr_id w = t" "fst ans < 300" using e by (simp_all add: founds_def)
  obtain x where "create_owned_tenant (dr_id w) (dr_now w) n c u d = Inr (x, d')"
    using f [unfolded ACreateMine control_finish.simps] _ t(2)
    by (rule settle_ok) (simp add: answer_error_def fail_def answer_json_def)
  then obtain d1 where d1: "store_create_tenant t (dr_now w) n c d = Inr (x, d1)"
      "d' = d1\<lparr>db_members := db_members d @ [member_of_user (dr_now w) t u Owner]\<rparr>"
    using t(1) by (elim create_owned_tables) simp
  then have "\<not> has_tenant d t" by (auto simp: store_create_tenant_def split: if_splits)
  then have "owners d t = []" using owner_has_tenant [OF ok] by blast
  then show ?thesis using d1(2) by (simp add: owners_def member_of_user_def)
next
  case (AClaim u raw)
  then have t: "ge_uuid env raw = Some t" "\<not> list_ex (\<lambda>m. sm_tenant m = t) (db_members d)" "fst ans < 300"
    using e by (simp_all add: founds_def)
  obtain x where "by_uuid env raw (\<lambda>t. store_claim_tenant t (dr_now w) u d) = Inr (x, d')"
    using f [unfolded AClaim control_finish.simps] _ t(3)
    by (rule settle_ok) (auto simp: answer_error_def fail_def answer_json_def no_tenant_error_def)
  then have "store_claim_tenant t (dr_now w) u d = Inr (x, d')" by (simp add: by_uuid_def t(1))
  then have "d' = d\<lparr>db_members := db_members d @ [member_of_user (dr_now w) t u Owner]\<rparr>" using claim_tables by blast
  moreover have "owners d t = []" using t(2) by (auto simp: owners_def filter_empty_conv list_ex_iff)
  ultimately show ?thesis by (simp add: owners_def member_of_user_def)
qed (use e in \<open>simp_all add: founds_def\<close>)

lemma run_founded:
  assumes "control_run env d as gs h"
  shows "length (filter (founding env t) h) \<le> 1 \<and> (filter (founding env t) h \<noteq> [] \<longrightarrow> owners d t \<noteq> [])"
  using assms
proof (induction rule: control_run.induct)
  case (run_finish d as gs h a w ans d')
  have ok: "db_ok d" "act_ok d a" using run_invariant [OF run_finish.hyps(1)] run_finish.hyps(2) by (auto simp: run_ok_def)
  show ?case
  proof (cases "founding env t (Finished a w d ans)")
    case True
    then have "owners d t = [] \<and> owners d' t \<noteq> []" using founding_step [OF run_finish.hyps(4)] ok by blast
    then show ?thesis using run_finish.IH True by (auto simp del: founding.simps)
  next
    case False
    then show ?thesis
      using run_finish.IH finish_db_ok [OF run_finish.hyps(4,3) ok] by (simp del: founding.simps)
  qed
next
  case (run_commit d as gs h g i now p d')
  then have "owners d' t = owners d t"
    by (auto simp: register_commit_def Let_def owners_def split: if_splits)
  then show ?case using run_commit.IH by simp
qed simp_all

end
