(* ===== verification/ControlPlane.thy ===== *)
theory ControlPlane
  imports ControlRuns
begin

text \<open>
  What the control plane guarantees over all its runs, with a run to look at: consistency of
  the tables, where memberships come from and how they end, that a tenant is founded once,
  and what the answers to overlapping registrations say.
\<close>

section \<open>A run to look at\<close>

definition plane_env :: go_env where
  "plane_env =
     \<lparr>ge_web_token = ''tok'', ge_netip = demo_lib, ge_parse_addr_port = (\<lambda>s. None), ge_show_addr_port = (\<lambda>a p. []),
      ge_uuid = Some, ge_hash = (\<lambda>s. s), ge_json_error = (\<lambda>b. []), ge_time = (\<lambda>n. []), ge_probe_port = None\<rparr>"

definition web_request :: "string \<Rightarrow> go_route \<Rightarrow> go_request" where
  "web_request u r =
     \<lparr>gq_route = r, gq_headers = [(''Authorization'', ''Bearer tok''), (''X-Mesh2Mesh-User'', u)], gq_remote = None\<rparr>"

definition demo_draw :: "string \<Rightarrow> string \<Rightarrow> draw" where
  "demo_draw i s = \<lparr>dr_now = 5, dr_id = i, dr_random = s, dr_ping = True, dr_reachable = False\<rparr>"

definition ann :: store_user where
  "ann = \<lparr>su_id = ''ann'', su_email = [], su_name = []\<rparr>"

definition bob :: store_user where
  "bob = \<lparr>su_id = ''bob'', su_email = [], su_name = []\<rparr>"

text \<open>Ann creates a tenant and invites, bob accepts.\<close>

definition ann_creates :: go_request where
  "ann_creates = web_request ''ann'' (CreateMyTenantR (JsonBody (JObj [(''name'', JStr ''home''), (''cidr'', JStr ''10.0.0.0/29'')])))"

definition ann_invites :: go_request where
  "ann_invites = web_request ''ann'' (CreateInviteR ''t1'' EmptyBody)"

definition bob_accepts :: go_request where
  "bob_accepts = web_request ''bob'' (AcceptInviteR (JsonBody (JObj [(''code'', JStr ''m2mi_xyz'')])))"

definition demo_range :: prefix where
  "demo_range = \<lparr>pf_addr = V4 0x0A000000, pf_bits = 29\<rparr>"

definition act1 :: action where "act1 = ACreateMine ann ''home'' demo_range"
definition act2 :: action where "act2 = AInvite ann ''t1'' Member default_invite_ttl 1"
definition act3 :: action where "act3 = AAccept bob ''m2mi_xyz''"

definition demo_tenant :: stored_tenant where
  "demo_tenant = \<lparr>st_id = ''t1'', st_name = ''home'', st_cidr = demo_range, st_created = 5\<rparr>"

definition demo_invite :: stored_invite where
  "demo_invite = \<lparr>si_id = ''i1'', si_tenant = ''t1'', si_hash = ''m2mi_xyz'', si_role = Member, si_created_by = ''ann'',
     si_max_uses = 1, si_uses = 0, si_expires = 5 + default_invite_ttl\<rparr>"

definition db1 :: db where
  "db1 = empty_db\<lparr>db_tenants := [demo_tenant], db_members := [member_of_user 5 ''t1'' ann Owner]\<rparr>"

definition db2 :: db where "db2 = db1\<lparr>db_invites := [demo_invite]\<rparr>"

definition db3 :: db where
  "db3 = db2\<lparr>db_members := [member_of_user 5 ''t1'' ann Owner, member_of_user 5 ''t1'' bob Member],
             db_invites := [demo_invite\<lparr>si_uses := 1\<rparr>]\<rparr>"

lemmas demo_defs =
  ann_creates_def ann_invites_def bob_accepts_def web_request_def plane_env_def act1_def act2_def act3_def ann_def bob_def

lemma demo_cidr: "parse_cidr demo_lib ''10.0.0.0/29'' = Inr demo_range"
proof -
  have "show_prefix demo_lib demo_range = ''10.0.0.0/29''"
    by (simp add: show_prefix_def demo_range_def show_addr4_def show_nat.simps digit_char_def char_of_eq_iff)
  moreover have "pf_masked demo_range = demo_range" by (simp add: pf_masked_def demo_range_def mask_eq_exp_minus_1)
  ultimately show ?thesis using parse_cidr_plain [of 29 "0x0A000000" demo_lib] by (simp add: demo_range_def)
qed

lemma trim_plain: "go_trim ''ann'' = ''ann''" "go_trim ''bob'' = ''bob''" "go_trim ''home'' = ''home''"
  "go_trim ''m2mi_xyz'' = ''m2mi_xyz''" "go_trim [] = []"
  by (simp_all add: go_trim_def go_space_def js_space_def)

lemma utf8_trim_plain: "utf8_trim ''ann'' = ''ann''" "utf8_trim ''bob'' = ''bob''" "utf8_trim [] = []"
  by (simp_all add: utf8_trim_ascii trim_plain)

lemma demo_user: "as_user plane_env (web_request ''ann'' r) = Inr ann" "as_user plane_env (web_request ''bob'' r) = Inr bob"
  by (simp_all add: as_user_def from_web_def header_def demo_defs utf8_trim_plain query_unescape_def)

lemma demo_step1: "control_begin plane_env ann_creates (gq_route ann_creates) empty_db = Inr act1"
  "fst (control_finish plane_env (demo_draw ''t1'' []) act1 empty_db) = created_json (membership_view plane_env (demo_tenant, Owner))"
  "snd (control_finish plane_env (demo_draw ''t1'' []) act1 empty_db) = db1"
proof -
  show "control_begin plane_env ann_creates (gq_route ann_creates) empty_db = Inr act1"
    using demo_user [of "CreateMyTenantR (JsonBody (JObj [(''name'', JStr ''home''), (''cidr'', JStr ''10.0.0.0/29'')]))"] demo_cidr
    by (simp add: ann_creates_def web_request_def tenant_input_def decode_def field_of_def str_field_def trim_plain plane_env_def act1_def)
  show "fst (control_finish plane_env (demo_draw ''t1'' []) act1 empty_db) = created_json (membership_view plane_env (demo_tenant, Owner))"
    "snd (control_finish plane_env (demo_draw ''t1'' []) act1 empty_db) = db1"
    by (simp_all add: act1_def demo_draw_def create_owned_tenant_def store_create_tenant_def add_member_def has_tenant_def
        has_member_def empty_db_def Let_def settle_def demo_tenant_def db1_def)
qed

lemma demo_step2: "control_begin plane_env ann_invites (gq_route ann_invites) db1 = Inr act2"
  "control_finish plane_env (demo_draw ''i1'' ''xyz'') act2 db1 = (created_json (invite_view plane_env ''m2mi_xyz'' demo_invite), db2)"
proof -
  have "invite_options Owner [] 0 0 = Inr (''member'', default_invite_ttl, 1)"
    by (simp add: invite_options_def default_invite_ttl_def max_invite_ttl_def max_invite_uses_def second_ns_def)
  moreover have "find_member db1 ''t1'' ''ann'' = Some (member_of_user 5 ''t1'' ann Owner)" "find_tenant db1 ''t1'' = Some demo_tenant"
    by (simp_all add: find_member_def find_tenant_def db1_def demo_tenant_def member_of_user_def ann_def)
  ultimately show "control_begin plane_env ann_invites (gq_route ann_invites) db1 = Inr act2"
    using demo_user [of "CreateInviteR ''t1'' EmptyBody"]
    by (simp add: ann_invites_def web_request_def decode_def caller_def get_membership_def invite_input_def str_field_def int_field_def
        role_named_def plane_env_def act2_def member_of_user_def demo_tenant_def ann_def)
  show "control_finish plane_env (demo_draw ''i1'' ''xyz'') act2 db1 = (created_json (invite_view plane_env ''m2mi_xyz'' demo_invite), db2)"
    by (simp add: act2_def demo_draw_def store_create_invite_def has_tenant_def db1_def db2_def empty_db_def Let_def settle_def
        demo_tenant_def demo_invite_def invite_code_def plane_env_def ann_def)
qed

lemma demo_step3: "control_begin plane_env bob_accepts (gq_route bob_accepts) db2 = Inr act3"
  "control_finish plane_env (demo_draw ''x'' []) act3 db2 = (ok_json (membership_view plane_env (demo_tenant, Member)), db3)"
proof -
  show "control_begin plane_env bob_accepts (gq_route bob_accepts) db2 = Inr act3"
    using demo_user [of "AcceptInviteR (JsonBody (JObj [(''code'', JStr ''m2mi_xyz'')]))"]
    by (simp add: bob_accepts_def web_request_def decode_def field_of_def str_field_def trim_plain act3_def)
  show "control_finish plane_env (demo_draw ''x'' []) act3 db2 = (ok_json (membership_view plane_env (demo_tenant, Member)), db3)"
    by (simp add: act3_def demo_draw_def store_accept_invite_def usable_invite_def db2_def db1_def db3_def empty_db_def Let_def settle_def
        demo_invite_def demo_tenant_def plane_env_def ann_def bob_def has_member_def member_of_user_def get_membership_def find_member_def
        find_tenant_def default_invite_ttl_def second_ns_def)
qed

definition demo_history :: "event list" where
  "demo_history =
     [Finished act3 (demo_draw ''x'' []) db2 (ok_json (membership_view plane_env (demo_tenant, Member))),
      Began bob_accepts act3 db2,
      Finished act2 (demo_draw ''i1'' ''xyz'') db1 (created_json (invite_view plane_env ''m2mi_xyz'' demo_invite)),
      Began ann_invites act2 db1,
      Finished act1 (demo_draw ''t1'' []) empty_db (created_json (membership_view plane_env (demo_tenant, Owner))),
      Began ann_creates act1 empty_db]"

lemma plane_demo_run: "control_run plane_env db3 [] [] demo_history"
proof -
  have s1: "control_finish plane_env (demo_draw ''t1'' []) act1 empty_db = (created_json (membership_view plane_env (demo_tenant, Owner)), db1)"
    using demo_step1(2,3) by (metis prod.collapse)
  have nr: "\<not> registers act1" "\<not> registers act2" "\<not> registers act3" by (simp_all add: act1_def act2_def act3_def)
  have r1: "control_run plane_env empty_db [act1] [] [Began ann_creates act1 empty_db]"
    using run_begin [OF run_start demo_step1(1)] .
  note r2 = run_finish [OF r1 _ nr(1) s1, simplified]
  note r3 = run_begin [OF r2 demo_step2(1)]
  note r4 = run_finish [OF r3 _ nr(2) demo_step2(2), simplified]
  note r5 = run_begin [OF r4 demo_step3(1)]
  note r6 = run_finish [OF r5 _ nr(3) demo_step3(2), simplified]
  show ?thesis using r6 by (simp only: demo_history_def)
qed

section \<open>What always holds\<close>

text \<open>
  C3. The control plane stays consistent under any interleaving. In every reachable state a
  tenant with members or invites has an owner; an invite is used at most as often as it
  allows; no two machines of a tenant share an address or a key; every machine has an address
  of the pool of its tenant's range, and came in with a token of that tenant; and a token has
  let in exactly as many machines as it counts, never more than it allows.
\<close>
theorem control_plane_consistent:
  assumes "control_run env d as gs h"
  shows "(\<forall>m \<in> set (db_members d). \<exists>r \<in> set (db_members d). sm_tenant r = sm_tenant m \<and> sm_role r = Owner) \<and>
    (\<forall>i \<in> set (db_invites d). (\<exists>r \<in> set (db_members d). sm_tenant r = si_tenant i \<and> sm_role r = Owner) \<and>
       0 \<le> si_uses i \<and> si_uses i \<le> si_max_uses i) \<and>
    (\<forall>i < length (db_peers d). \<forall>j < i. sp_tenant (db_peers d ! i) = sp_tenant (db_peers d ! j) \<longrightarrow>
       sp_ip (db_peers d ! i) \<noteq> sp_ip (db_peers d ! j) \<and> sp_key (db_peers d ! i) \<noteq> sp_key (db_peers d ! j)) \<and>
    (\<forall>p \<in> set (db_peers d).
       (\<exists>t \<in> set (db_tenants d). st_id t = sp_tenant p \<and> sp_ip p \<in> set (pool (st_cidr t))) \<and>
       (\<exists>k \<in> set (db_tokens d). sp_token p = Some (tk_id k) \<and> tk_tenant k = sp_tenant p)) \<and>
    (\<forall>k \<in> set (db_tokens d). tk_uses k = int (length (filter (\<lambda>p. sp_token p = Some (tk_id k)) (db_peers d))) \<and>
       tk_uses k \<le> tk_max_uses k)"
proof -
  have ok: "db_ok d" "peers_ok d" using run_invariant [OF assms] by (simp_all add: run_ok_def)
  have p: "\<forall>p \<in> set (db_peers d). peer_ok d p" and k: "\<forall>k \<in> set (db_tokens d). token_ok d k"
    and c: "sorted_wrt (\<lambda>p q. \<not> peer_clash p q) (db_peers d)" using ok(2) by (simp_all add: peers_ok_def)
  have peers: "\<forall>p \<in> set (db_peers d). (\<exists>t \<in> set (db_tenants d). st_id t = sp_tenant p \<and> sp_ip p \<in> set (pool (st_cidr t))) \<and>
       (\<exists>k \<in> set (db_tokens d). sp_token p = Some (tk_id k) \<and> tk_tenant k = sp_tenant p)"
  proof
    fix x
    assume "x \<in> set (db_peers d)"
    then have "peer_ok d x" using p by blast
    then show "(\<exists>t \<in> set (db_tenants d). st_id t = sp_tenant x \<and> sp_ip x \<in> set (pool (st_cidr t))) \<and>
       (\<exists>k \<in> set (db_tokens d). sp_token x = Some (tk_id k) \<and> tk_tenant k = sp_tenant x)"
      using find_tenant_Some [of d "sp_tenant x"] unfolding peer_ok_def by (auto split: option.splits)
  qed
  have clash: "\<forall>i < length (db_peers d). \<forall>j < i. sp_tenant (db_peers d ! i) = sp_tenant (db_peers d ! j) \<longrightarrow>
       sp_ip (db_peers d ! i) \<noteq> sp_ip (db_peers d ! j) \<and> sp_key (db_peers d ! i) \<noteq> sp_key (db_peers d ! j)"
  proof (intro allI impI)
    fix i j
    assume "i < length (db_peers d)" "j < i" "sp_tenant (db_peers d ! i) = sp_tenant (db_peers d ! j)"
    moreover have "\<not> peer_clash (db_peers d ! j) (db_peers d ! i)"
      using c calculation(1,2) by (simp add: sorted_wrt_iff_nth_less)
    ultimately show "sp_ip (db_peers d ! i) \<noteq> sp_ip (db_peers d ! j) \<and> sp_key (db_peers d ! i) \<noteq> sp_key (db_peers d ! j)"
      by (auto simp: peer_clash_def)
  qed
  have toks: "\<forall>k \<in> set (db_tokens d). tk_uses k = int (length (filter (\<lambda>p. sp_token p = Some (tk_id k)) (db_peers d))) \<and>
       tk_uses k \<le> tk_max_uses k"
    using k unfolding token_ok_def token_peers_def by blast
  show ?thesis
    using ok(1) peers clash toks unfolding db_ok_def owned_def owners_nonempty by blast
qed

theorem control_plane_consistent_witness:
  "control_run plane_env db3 [] [] demo_history \<and>
   (\<exists>r \<in> set (db_members db3). sm_tenant r = ''t1'' \<and> sm_role r = Owner)"
proof -
  have "member_of_user 5 ''t1'' bob Member \<in> set (db_members db3)" by (simp add: db3_def)
  then show ?thesis
    using control_plane_consistent [OF plane_demo_run, THEN conjunct1] plane_demo_run by (metis member_of_user_def stored_member.select_convs(1))
qed

text \<open>
  C2. Every membership was earned. Whoever is in a tenant, with whatever role, asked for it
  with the console's token and created the tenant, or claimed it when it had no members, or
  accepted an invite to that tenant for that role; and the invite was made by someone who was
  an owner of the tenant when their request was checked.
\<close>
theorem members_earned:
  assumes "control_run env d as gs h" "m \<in> set (db_members d)"
  shows "\<exists>a u w d0 ans q dq. Finished a w d0 ans \<in> set h \<and> Began q a dq \<in> set h \<and>
    as_user env q = Inr u \<and> su_id u = sm_user m \<and>
    ((\<exists>n c. a = ACreateMine u n c \<and> dr_id w = sm_tenant m \<and> sm_role m = Owner) \<or>
     (\<exists>raw. a = AClaim u raw \<and> ge_uuid env raw = Some (sm_tenant m) \<and> sm_role m = Owner \<and>
        (\<forall>r \<in> set (db_members d0). sm_tenant r \<noteq> sm_tenant m)) \<or>
     (\<exists>code v ttl n w1 d1 ans1 q1 dq1. a = AAccept u code \<and> ge_hash env code = ge_hash env (invite_code w1) \<and>
        Finished (AInvite v (sm_tenant m) (sm_role m) ttl n) w1 d1 ans1 \<in> set h \<and>
        Began q1 (AInvite v (sm_tenant m) (sm_role m) ttl n) dq1 \<in> set h \<and> as_user env q1 = Inr v \<and>
        owner_in dq1 (sm_tenant m) (su_id v)))"
proof -
  have "earned env (set h) (sm_tenant m) (sm_user m) (sm_role m)" using run_history [OF assms(1)] assms(2) by blast
  then obtain a u w d0 ans q dq where e: "Finished a w d0 ans \<in> set h" "Began q a dq \<in> set h" "actor a = Some u"
      "as_user env q = Inr u" "su_id u = sm_user m"
    and how: "founds env (sm_tenant m) a w d0 \<and> sm_role m = Owner \<or>
      (\<exists>code. a = AAccept u code \<and> invited env (set h) (sm_tenant m) (sm_role m) (ge_hash env code))"
    unfolding earned_def by blast
  have "(\<exists>n c. a = ACreateMine u n c \<and> dr_id w = sm_tenant m) \<or>
      (\<exists>raw. a = AClaim u raw \<and> ge_uuid env raw = Some (sm_tenant m) \<and> (\<forall>r \<in> set (db_members d0). sm_tenant r \<noteq> sm_tenant m))"
    if "founds env (sm_tenant m) a w d0"
    using that e(3) by (cases a) (simp_all add: founds_def list_ex_iff)
  with how show ?thesis
  proof (elim disjE conjE exE)
    fix code
    assume "a = AAccept u code" "invited env (set h) (sm_tenant m) (sm_role m) (ge_hash env code)"
    then show ?thesis using e unfolding invited_def by blast
  qed (use e in blast)+
qed

theorem members_earned_witness:
  "control_run plane_env db3 [] [] demo_history \<and>
   (\<exists>u. su_id u = ''bob'' \<and> (\<exists>q a dq. Began q a dq \<in> set demo_history \<and> as_user plane_env q = Inr u))"
proof -
  have "member_of_user 5 ''t1'' bob Member \<in> set (db_members db3)" by (simp add: db3_def)
  from members_earned [OF plane_demo_run this] plane_demo_run show ?thesis
    by (auto simp: member_of_user_def bob_def)
qed

lemma find_append_Some: "List.find P xs = Some x \<Longrightarrow> List.find P (xs @ ys) = Some x"
  by (induction xs) auto

text \<open>
  C11. Roles never change, and a membership ends only by the member's own wish or an owner's.
  Whatever request is carried out next, someone who stays in a tenant keeps their role; and
  when someone drops out, it is by a removal that was checked to come from themselves or from
  someone who was then an owner of the tenant.
\<close>
theorem members_leave_by_right:
  assumes "control_run env d as gs h" "a \<in> set as" "\<not> registers a" "control_finish env w a d = (ans, d')"
    and "find_member d t v = Some m"
  shows "(case find_member d' t v of
      Some m' \<Rightarrow> sm_role m' = sm_role m
    | None \<Rightarrow> (\<exists>u q dq. a = ARemove u t v \<and> Began q a dq \<in> set h \<and> as_user env q = Inr u \<and> (v = su_id u \<or> owner_in dq t (su_id u))))"
proof -
  have dist: "distinct (map member_key (db_members d))"
    using run_invariant [OF assms(1)] by (simp add: run_ok_def db_ok_def)
  have keep: "find_member d' t v = Some m" if "db_members d' = db_members d @ ms" for ms
    using assms(5) that by (simp add: find_member_def find_append_Some)
  obtain q dq where q: "Began q a dq \<in> set h" "control_begin env q (gq_route q) dq = Inr a"
    using run_began [OF assms(1,2)] by blast
  show ?thesis
    using assms(4,3)
  proof (cases rule: finish_member_cases)
    case (refresh u)
    then have "find_member d' t v = Some (refresh_member u m)"
      using assms(5) by (simp add: find_member_def find_map_same refresh_member_def)
    then show ?thesis by (simp add: refresh_member_def)
  next
    case (remove u t1 v1)
    then have d': "db_members d' = filter (\<lambda>r. \<not> (sm_tenant r = t1 \<and> sm_user r = v1)) (db_members d)"
      by (auto simp: store_remove_member_def split: option.splits if_splits)
    show ?thesis
    proof (cases "t = t1 \<and> v = v1")
      case True
      then have "find_member d' t v = None" by (auto simp: find_member_def find_None_set d')
      moreover have "as_user env q = Inr u \<and> (v = su_id u \<or> owner_in dq t (su_id u))"
        using begin_remove [of env q "gq_route q" dq u t v] q(2) remove(1) True by simp
      ultimately show ?thesis using True remove(1) q(1) by auto
    next
      case False
      have "List.find (\<lambda>r. sm_tenant r = t \<and> sm_user r = v) (db_members d') =
          List.find (\<lambda>r. sm_tenant r = t \<and> sm_user r = v) (db_members d)"
        unfolding d' by (rule find_other) (use False in auto)
      then have "find_member d' t v = Some m" using assms(5) by (simp add: find_member_def)
      then show ?thesis by simp
    qed
  qed (use keep [of "[]"] keep in simp_all)
qed

theorem members_leave_by_right_witness:
  "control_begin plane_env (web_request ''bob'' (RemoveMemberR ''t1'' ''bob'')) (RemoveMemberR ''t1'' ''bob'') db3 = Inr (ARemove bob ''t1'' ''bob'') \<and>
   find_member (snd (control_finish plane_env (demo_draw ''x'' []) (ARemove bob ''t1'' ''bob'') db3)) ''t1'' ''bob'' = None \<and>
   (\<exists>q dq. Began q (ARemove bob ''t1'' ''bob'') dq \<in> set (Began (web_request ''bob'' (RemoveMemberR ''t1'' ''bob'')) (ARemove bob ''t1'' ''bob'') db3 # demo_history) \<and>
      as_user plane_env q = Inr bob)"
proof -
  let ?r = "web_request ''bob'' (RemoveMemberR ''t1'' ''bob'')" and ?a = "ARemove bob ''t1'' ''bob''"
  have m: "find_member db3 ''t1'' ''bob'' = Some (member_of_user 5 ''t1'' bob Member)" "find_tenant db3 ''t1'' = Some demo_tenant"
    by (simp_all add: find_member_def find_tenant_def db3_def db2_def db1_def demo_tenant_def member_of_user_def ann_def bob_def)
  then have b: "control_begin plane_env ?r (gq_route ?r) db3 = Inr ?a"
    using demo_user [of "RemoveMemberR ''t1'' ''bob''"]
    by (simp add: web_request_def caller_def get_membership_def plane_env_def remove_input_def remove_authorized_def bob_def
        member_of_user_def demo_tenant_def)
  have f: "control_finish plane_env (demo_draw ''x'' []) ?a db3 = ((204, None), db3\<lparr>db_members := [member_of_user 5 ''t1'' ann Owner]\<rparr>)"
    using m by (simp add: store_remove_member_def settle_def member_of_user_def db3_def ann_def bob_def)
  then have n: "find_member (snd (control_finish plane_env (demo_draw ''x'' []) ?a db3)) ''t1'' ''bob'' = None"
    by (simp add: find_member_def member_of_user_def ann_def)
  have "?a \<in> set [?a]" "\<not> registers ?a" by simp_all
  note w = members_leave_by_right [OF run_begin [OF plane_demo_run b] this f m(1)]
  have "find_member (db3\<lparr>db_members := [member_of_user 5 ''t1'' ann Owner]\<rparr>) ''t1'' ''bob'' = None"
    using n f by simp
  with w b n show ?thesis by (auto simp: web_request_def)
qed

text \<open>
  C35. A tenant is founded once. Whatever the interleaving, among all requests ever answered
  with success at most one created a given tenant for its user or claimed it while it had no
  members; and from then on the tenant has an owner, so no later claim can succeed.
\<close>
theorem founded_once:
  assumes "control_run env d as gs h"
  shows "length (filter (founding env t) h) \<le> 1 \<and>
    (list_ex (founding env t) h \<longrightarrow>
      (\<exists>r \<in> set (db_members d). sm_tenant r = t \<and> sm_role r = Owner) \<and>
      (\<forall>u now. store_claim_tenant t now u d = Inl Claimed))"
proof -
  have "list_ex (founding env t) h \<longleftrightarrow> filter (founding env t) h \<noteq> []" by (auto simp: list_ex_iff filter_empty_conv)
  then have o: "length (filter (founding env t) h) \<le> 1" "list_ex (founding env t) h \<Longrightarrow> owners d t \<noteq> []"
    using run_founded [OF assms] by blast+
  moreover have "store_claim_tenant t now u d = Inl Claimed" if ne: "owners d t \<noteq> []" for now u
  proof -
    have "db_ok d" using run_invariant [OF assms] by (simp add: run_ok_def)
    then have "has_tenant d t" using ne by (rule owner_has_tenant)
    then show ?thesis using ne by (auto simp: store_claim_tenant_def owners_def filter_empty_conv list_ex_iff)
  qed
  ultimately show ?thesis unfolding owners_nonempty by blast
qed

theorem founded_once_witness:
  "length (filter (founding plane_env ''t1'') demo_history) = 1 \<and> store_claim_tenant ''t1'' 9 bob db3 = Inl Claimed"
proof -
  have f: "founding plane_env ''t1'' (Finished act1 (demo_draw ''t1'' []) empty_db (created_json (membership_view plane_env (demo_tenant, Owner))))"
    by (simp add: founds_def act1_def demo_draw_def created_json_def answer_json_def)
  then have e: "list_ex (founding plane_env ''t1'') demo_history" by (simp add: demo_history_def del: founding.simps)
  then have "filter (founding plane_env ''t1'') demo_history \<noteq> []" by (auto simp: list_ex_iff filter_empty_conv)
  then have "1 \<le> length (filter (founding plane_env ''t1'') demo_history)"
    by (metis One_nat_def Suc_leI length_greater_0_conv)
  then show ?thesis using founded_once [OF plane_demo_run, of "''t1''"] e by simp
qed

lemma register_begin_first:
  assumes ok: "peers_ok d" and k: "k \<in> set (db_tokens d)" "usable_token hash now k"
    and only: "\<forall>k' \<in> set (db_tokens d). tk_hash k' = hash \<longrightarrow> k' = k"
    and t: "find_tenant d (tk_tenant k) = Some t"
  shows "register_begin hash now name key d =
    (case first_free (pool (st_cidr t)) (used_addrs (st_id t) d) of
       None \<Rightarrow> Inl PoolExhausted
     | Some ip \<Rightarrow> Inr \<lparr>rg_token = tk_id k, rg_tenant = t, rg_name = name, rg_key = key, rg_ip = ip\<rparr>)"
proof -
  obtain k1 where k1: "List.find (usable_token hash now) (db_tokens d) = Some k1"
    using k by (cases "List.find (usable_token hash now) (db_tokens d)") (auto simp: find_None_set)
  then have "k1 \<in> set (db_tokens d)" "usable_token hash now k1" using find_Some_set [OF k1] by auto
  then have "k1 = k" using only by (auto simp: usable_token_def)
  have tid: "t \<in> set (db_tenants d)" "st_id t = tk_tenant k" using find_tenant_Some [OF t] by auto
  then have "range_ok (st_cidr t)" using ok by (simp add: peers_ok_def)
  then obtain a where "pf_addr (st_cidr t) = V4 a" "pf_bits (st_cidr t) \<le> 32" by (cases "pf_addr (st_cidr t)") (auto simp: range_ok_def)
  then have nf: "next_free_addr (st_cidr t) us = first_free (pool (st_cidr t)) us" for us
    using next_free_first [of "pf_bits (st_cidr t)" a us] by (cases "st_cidr t") simp
  show ?thesis by (simp add: register_begin_def k1 \<open>k1 = k\<close> store_get_tenant_def t nf)
qed

lemma first_free_None_iff: "first_free xs used = None \<longleftrightarrow> set xs \<subseteq> set used"
  by (auto simp: first_free_def find_None_set)

lemma register_begins:
  assumes ok: "peers_ok d" and k: "k \<in> set (db_tokens d)" "usable_token hash now k"
    and only: "\<forall>k' \<in> set (db_tokens d). tk_hash k' = hash \<longrightarrow> k' = k"
    and t: "find_tenant d (tk_tenant k) = Some t"
    and room: "\<not> set (pool (st_cidr t)) \<subseteq> set (used_addrs (st_id t) d)"
  obtains ip where "first_free (pool (st_cidr t)) (used_addrs (st_id t) d) = Some ip" "ip \<notin> set (used_addrs (st_id t) d)"
    "register_begin hash now name key d = Inr \<lparr>rg_token = tk_id k, rg_tenant = t, rg_name = name, rg_key = key, rg_ip = ip\<rparr>"
proof -
  obtain ip where ip: "first_free (pool (st_cidr t)) (used_addrs (st_id t) d) = Some ip"
    using room first_free_None_iff [of "pool (st_cidr t)"] by blast
  moreover have "ip \<notin> set (used_addrs (st_id t) d)" using ip unfolding first_free_def by (metis find_Some_set)
  ultimately show thesis using that register_begin_first [OF ok k only t] by simp
qed

lemma register_succeeds:
  assumes ok: "peers_ok d" and k: "k \<in> set (db_tokens d)" "usable_token hash now k"
    and only: "\<forall>k' \<in> set (db_tokens d). tk_hash k' = hash \<longrightarrow> k' = k"
    and t: "find_tenant d (tk_tenant k) = Some t"
    and room: "\<not> set (pool (st_cidr t)) \<subseteq> set (used_addrs (st_id t) d)"
    and fresh: "\<forall>p \<in> set (db_peers d). sp_id p \<noteq> i \<and> (sp_tenant p = st_id t \<longrightarrow> sp_key p \<noteq> key)"
  obtains ip where "first_free (pool (st_cidr t)) (used_addrs (st_id t) d) = Some ip"
    "register_begin hash now name key d = Inr \<lparr>rg_token = tk_id k, rg_tenant = t, rg_name = name, rg_key = key, rg_ip = ip\<rparr>"
    "store_register_peer i now hash name key d =
       Inr ((peer_of i now \<lparr>rg_token = tk_id k, rg_tenant = t, rg_name = name, rg_key = key, rg_ip = ip\<rparr>, t),
         d\<lparr>db_peers := db_peers d @ [peer_of i now \<lparr>rg_token = tk_id k, rg_tenant = t, rg_name = name, rg_key = key, rg_ip = ip\<rparr>],
           db_tokens := map (\<lambda>k'. if tk_id k' = tk_id k then k'\<lparr>tk_uses := tk_uses k' + 1\<rparr> else k') (db_tokens d)\<rparr>)"
proof -
  obtain ip where ip: "first_free (pool (st_cidr t)) (used_addrs (st_id t) d) = Some ip" and free: "ip \<notin> set (used_addrs (st_id t) d)"
    and b: "register_begin hash now name key d = Inr \<lparr>rg_token = tk_id k, rg_tenant = t, rg_name = name, rg_key = key, rg_ip = ip\<rparr>"
    using register_begins [OF ok k only t room] by blast
  have "\<not> list_ex (peer_clash (peer_of i now \<lparr>rg_token = tk_id k, rg_tenant = t, rg_name = name, rg_key = key, rg_ip = ip\<rparr>)) (db_peers d)"
    using fresh free by (auto simp: list_ex_iff peer_clash_def peer_of_def used_addrs_def)
  then show ?thesis
    using that [OF ip] b unfolding store_register_peer_def b by (simp add: register_commit_def Let_def)
qed

text \<open>
  C8. A usable token always lets its machine in while there is room. If a token is neither
  expired, revoked nor used up, an address of the tenant's pool is free and the key is new in
  the tenant, a registration that nothing interrupts succeeds: the machine gets the first
  free address of the pool and the token counts one more use.
\<close>
theorem registration_succeeds:
  assumes run: "control_run env d as gs h" and k: "k \<in> set (db_tokens d)" "usable_token hash now k"
    and only: "\<forall>k' \<in> set (db_tokens d). tk_hash k' = hash \<longrightarrow> k' = k"
    and t: "find_tenant d (tk_tenant k) = Some t"
    and room: "\<not> set (pool (st_cidr t)) \<subseteq> set (used_addrs (st_id t) d)"
    and fresh: "\<forall>p \<in> set (db_peers d). sp_id p \<noteq> i \<and> (sp_tenant p = st_id t \<longrightarrow> sp_key p \<noteq> key)"
  shows "\<exists>p d'. store_register_peer i now hash name key d = Inr ((p, t), d') \<and>
    first_free (pool (st_cidr t)) (used_addrs (st_id t) d) = Some (sp_ip p) \<and> sp_tenant p = st_id t \<and>
    db_peers d' = db_peers d @ [p] \<and>
    (\<exists>k' \<in> set (db_tokens d'). tk_id k' = tk_id k \<and> tk_uses k' = tk_uses k + 1)"
proof -
  have "peers_ok d" using run_invariant [OF run] by (simp add: run_ok_def)
  from register_succeeds [OF this k only t room fresh, of name]
  obtain ip where ip: "first_free (pool (st_cidr t)) (used_addrs (st_id t) d) = Some ip"
    and r: "store_register_peer i now hash name key d =
       Inr ((peer_of i now \<lparr>rg_token = tk_id k, rg_tenant = t, rg_name = name, rg_key = key, rg_ip = ip\<rparr>, t),
         d\<lparr>db_peers := db_peers d @ [peer_of i now \<lparr>rg_token = tk_id k, rg_tenant = t, rg_name = name, rg_key = key, rg_ip = ip\<rparr>],
           db_tokens := map (\<lambda>k'. if tk_id k' = tk_id k then k'\<lparr>tk_uses := tk_uses k' + 1\<rparr> else k') (db_tokens d)\<rparr>)"
    by blast
  have "k\<lparr>tk_uses := tk_uses k + 1\<rparr> \<in> set (map (\<lambda>k'. if tk_id k' = tk_id k then k'\<lparr>tk_uses := tk_uses k' + 1\<rparr> else k') (db_tokens d))"
    using k(1) by (auto intro!: rev_image_eqI)
  then have "\<exists>k' \<in> set (map (\<lambda>k'. if tk_id k' = tk_id k then k'\<lparr>tk_uses := tk_uses k' + 1\<rparr> else k') (db_tokens d)).
      tk_id k' = tk_id k \<and> tk_uses k' = tk_uses k + 1"
    by (intro bexI [of _ "k\<lparr>tk_uses := tk_uses k + 1\<rparr>"]) simp_all
  then show ?thesis using ip unfolding r by (simp add: peer_of_def)
qed

definition demo_token :: "string \<Rightarrow> string \<Rightarrow> stored_token" where
  "demo_token i s =
     \<lparr>tk_id = i, tk_tenant = ''t1'', tk_hash = ''m2m_'' @ s, tk_max_uses = 1, tk_uses = 0, tk_expires = 5 + default_token_ttl,
      tk_revoked = None, tk_created = 5\<rparr>"

definition db4 :: db where
  "db4 = db1\<lparr>db_tokens := [demo_token ''k1'' ''abc'']\<rparr>"

definition token_request :: go_request where
  "token_request = \<lparr>gq_route = CreateTokenR ''t1'' EmptyBody, gq_headers = [], gq_remote = None\<rparr>"

lemma demo_tenant_found: "find_tenant db1 ''t1'' = Some demo_tenant" "find_tenant db4 ''t1'' = Some demo_tenant"
  by (simp_all add: find_tenant_def db4_def db1_def demo_tenant_def)

lemma demo_token_run: "\<exists>h. control_run plane_env db4 [] [] h"
proof -
  let ?a = "ACreateToken ''t1'' default_token_ttl 1"
  have r1: "control_run plane_env empty_db [act1] [] [Began ann_creates act1 empty_db]"
    using run_begin [OF run_start demo_step1(1)] .
  have s1: "control_finish plane_env (demo_draw ''t1'' []) act1 empty_db = (created_json (membership_view plane_env (demo_tenant, Owner)), db1)"
    using demo_step1(2,3) by (metis prod.collapse)
  have "\<not> registers act1" "\<not> registers ?a" by (simp_all add: act1_def)
  note r2 = run_finish [OF r1 _ this(1) s1, simplified]
  have "control_begin plane_env token_request (gq_route token_request) db1 = Inr ?a"
    by (simp add: token_request_def token_input_def decode_def int_field_def Let_def default_token_ttl_def max_token_ttl_def
        max_token_uses_def second_ns_def)
  note r3 = run_begin [OF r2 this]
  have "snd (control_finish plane_env (demo_draw ''k1'' ''abc'') ?a db1) = db4"
    using demo_tenant_found(1)
    by (simp add: by_uuid_def plane_env_def store_get_tenant_def store_create_token_def demo_draw_def token_secret_def settle_def
        has_tenant_def db4_def db1_def empty_db_def demo_token_def demo_tenant_def Let_def)
  then obtain ans where "control_finish plane_env (demo_draw ''k1'' ''abc'') ?a db1 = (ans, db4)" by (metis prod.collapse)
  from run_finish [OF r3 _ \<open>\<not> registers ?a\<close> this] show ?thesis by auto
qed

lemma demo_pool: "pool demo_range = map (\<lambda>n. V4 (of_nat n)) [0x0A000002..<0x0A000007]"
  by (simp add: pool_def demo_range_def net4_base_def net4_size_def reserved_hosts_def)

lemma demo_first: "first_free (pool demo_range) [] = Some (V4 0x0A000002)"
  by (simp add: demo_pool first_free_def upt_conv_Cons)

theorem registration_succeeds_witness:
  "\<exists>p d'. store_register_peer ''p1'' 6 ''m2m_abc'' ''laptop'' ''key'' db4 = Inr ((p, demo_tenant), d') \<and> sp_ip p = V4 0x0A000002"
proof -
  obtain h where run: "control_run plane_env db4 [] [] h" using demo_token_run by blast
  have k: "demo_token ''k1'' ''abc'' \<in> set (db_tokens db4)" "usable_token ''m2m_abc'' 6 (demo_token ''k1'' ''abc'')"
    by (simp_all add: db4_def demo_token_def usable_token_def default_token_ttl_def second_ns_def)
  have t: "find_tenant db4 (tk_tenant (demo_token ''k1'' ''abc'')) = Some demo_tenant"
    using demo_tenant_found(2) by (simp add: demo_token_def)
  have u: "used_addrs (st_id demo_tenant) db4 = []" by (simp add: used_addrs_def db4_def db1_def empty_db_def)
  have c: "st_cidr demo_tenant = demo_range" by (simp add: demo_tenant_def)
  have one: "\<forall>k' \<in> set (db_tokens db4). tk_hash k' = ''m2m_abc'' \<longrightarrow> k' = demo_token ''k1'' ''abc''"
    by (simp add: db4_def)
  have room: "\<not> set (pool (st_cidr demo_tenant)) \<subseteq> set (used_addrs (st_id demo_tenant) db4)"
    by (simp add: u c demo_pool)
  have new: "\<forall>p \<in> set (db_peers db4). sp_id p \<noteq> ''p1'' \<and> (sp_tenant p = st_id demo_tenant \<longrightarrow> sp_key p \<noteq> ''key'')"
    by (simp add: db4_def db1_def empty_db_def)
  have "\<exists>p d'. store_register_peer ''p1'' 6 ''m2m_abc'' ''laptop'' ''key'' db4 = Inr ((p, demo_tenant), d') \<and>
      first_free (pool (st_cidr demo_tenant)) (used_addrs (st_id demo_tenant) db4) = Some (sp_ip p)"
    using registration_succeeds [OF run k one t room new] by blast
  then show ?thesis by (auto simp: u c demo_first)
qed

text \<open>
  C29. Two registrations that overlap get the same address, and the second is blamed on its
  key. Registrations of one tenant with different tokens do not wait for each other: both
  pick the first free address, the first to finish gets it, and the second is answered with
  409 and the message that its public key is already registered, although that key is new.
\<close>
theorem overlapping_registrations:
  assumes g1: "register_begin hash1 now name1 key1 d = Inr g1" and g2: "register_begin hash2 now name2 key2 d = Inr g2"
    and t: "rg_tenant g1 = rg_tenant g2" and c1: "register_commit i1 now1 g1 d = Inr (p, d1)"
  shows "rg_ip g2 = rg_ip g1 \<and> register_commit i2 now2 g2 d1 = Inl Conflict \<and>
    fst (register_answer env d1 (map_sum id (\<lambda>(p, d'). ((p, rg_tenant g2), d')) (register_commit i2 now2 g2 d1))) =
      fail (409, ''that public key is already registered in this tenant'') \<and>
    (key1 \<noteq> key2 \<and> (\<forall>q \<in> set (db_peers d). sp_tenant q = st_id (rg_tenant g2) \<longrightarrow> sp_key q \<noteq> key2) \<longrightarrow>
      (\<forall>q \<in> set (db_peers d1). sp_tenant q = st_id (rg_tenant g2) \<longrightarrow> sp_key q \<noteq> key2))"
proof -
  have f: "next_free_addr (st_cidr (rg_tenant g)) (used_addrs (st_id (rg_tenant g)) d) = Some (rg_ip g) \<and> rg_key g = key"
    if "register_begin hash now name key d = Inr g" for hash now name key g
    using that by (auto simp: register_begin_def store_get_tenant_def split: option.splits)
  have ip: "rg_ip g2 = rg_ip g1" using f [OF g1] f [OF g2] t by simp
  have p: "p = peer_of i1 now1 g1" "db_peers d1 = db_peers d @ [p]"
    using c1 by (auto simp: register_commit_def Let_def split: if_splits)
  have c: "register_commit i2 now2 g2 d1 = Inl Conflict"
    by (simp add: register_commit_def p peer_clash_def peer_of_def ip t)
  then show ?thesis
    using f [OF g1] ip p
    by (simp add: register_answer_def settle_def answer_error_def register_errors_def peer_of_def)
qed

definition db5 :: db where
  "db5 = db1\<lparr>db_tokens := [demo_token ''k1'' ''abc'', demo_token ''k2'' ''def'']\<rparr>"

definition demo_reg :: "string \<Rightarrow> string \<Rightarrow> registration" where
  "demo_reg tok key = \<lparr>rg_token = tok, rg_tenant = demo_tenant, rg_name = ''pc'', rg_key = key, rg_ip = V4 0x0A000002\<rparr>"

lemma demo_regs:
  "register_begin ''m2m_abc'' 6 ''pc'' ''key1'' db5 = Inr (demo_reg ''k1'' ''key1'')"
  "register_begin ''m2m_def'' 6 ''pc'' ''key2'' db5 = Inr (demo_reg ''k2'' ''key2'')"
proof -
  have t: "store_get_tenant ''t1'' db5 = Inr demo_tenant"
    by (simp add: store_get_tenant_def find_tenant_def db5_def db1_def demo_tenant_def)
  have "next_free_addr demo_range [] = Some (V4 0x0A000002)"
    using next_free_first [of 29 "0x0A000000" "[]"] demo_first by (simp add: demo_range_def)
  moreover have "used_addrs ''t1'' db5 = []" by (simp add: used_addrs_def db5_def db1_def empty_db_def)
  ultimately have n: "next_free_addr (st_cidr demo_tenant) (used_addrs (st_id demo_tenant) db5) = Some (V4 0x0A000002)"
    by (simp add: demo_tenant_def)
  have f: "List.find (usable_token ''m2m_abc'' 6) (db_tokens db5) = Some (demo_token ''k1'' ''abc'')"
    "List.find (usable_token ''m2m_def'' 6) (db_tokens db5) = Some (demo_token ''k2'' ''def'')"
    by (simp_all add: db5_def demo_token_def usable_token_def default_token_ttl_def second_ns_def)
  have k: "tk_id (demo_token x y) = x" "tk_tenant (demo_token x y) = ''t1''" for x y by (simp_all add: demo_token_def)
  show "register_begin ''m2m_abc'' 6 ''pc'' ''key1'' db5 = Inr (demo_reg ''k1'' ''key1'')"
    "register_begin ''m2m_def'' 6 ''pc'' ''key2'' db5 = Inr (demo_reg ''k2'' ''key2'')"
    by (simp_all add: register_begin_def f k t n demo_reg_def)
qed

theorem overlapping_registrations_witness:
  "case register_commit ''p1'' 7 (demo_reg ''k1'' ''key1'') db5 of
     Inl e \<Rightarrow> False
   | Inr (p, d1) \<Rightarrow> register_commit ''p2'' 8 (demo_reg ''k2'' ''key2'') d1 = Inl Conflict"
proof -
  obtain p d1 where c: "register_commit ''p1'' 7 (demo_reg ''k1'' ''key1'') db5 = Inr (p, d1)"
    by (simp add: register_commit_def db5_def db1_def empty_db_def Let_def)
  have "rg_tenant (demo_reg ''k1'' ''key1'') = rg_tenant (demo_reg ''k2'' ''key2'')" by (simp add: demo_reg_def)
  from overlapping_registrations [OF demo_regs this c, of "''p2''" 8] c show ?thesis by simp
qed

end
