(* ===== verification/ControlLink.thy ===== *)
theory ControlLink
  imports Server ControlPlane
begin

text \<open>
  Where the two servers meet: the routes of \<open>internal/api/api.go\<close>, what the control plane
  sees of a request the proxy sent, whom it takes the caller for, and whether what it
  answers is what the console's \<open>api.ts\<close> declares.
\<close>

section \<open>The routes of the control plane\<close>

datatype pattern = Exact string | Wild

definition me_tenant :: "pattern list \<Rightarrow> pattern list" where
  "me_tenant ps = [Exact ''v1'', Exact ''me'', Exact ''tenants'', Wild] @ ps"

definition control_routes :: "(string \<times> pattern list \<times> (string list \<Rightarrow> go_body \<Rightarrow> go_route)) list" where
  "control_routes =
    [(''GET'', [Exact ''healthz''], \<lambda>v b. Health),
     (''POST'', [Exact ''v1'', Exact ''tenants''], \<lambda>v b. CreateTenantR b),
     (''GET'', [Exact ''v1'', Exact ''tenants''], \<lambda>v b. ListTenantsR),
     (''GET'', [Exact ''v1'', Exact ''tenants'', Wild], \<lambda>v b. GetTenantR (v ! 0)),
     (''POST'', [Exact ''v1'', Exact ''tenants'', Wild, Exact ''tokens''], \<lambda>v b. CreateTokenR (v ! 0) b),
     (''GET'', [Exact ''v1'', Exact ''tenants'', Wild, Exact ''peers''], \<lambda>v b. ListPeersR (v ! 0)),
     (''POST'', [Exact ''v1'', Exact ''peers'', Exact ''register''], \<lambda>v b. RegisterPeerR b),
     (''POST'', [Exact ''v1'', Exact ''peers'', Wild, Exact ''endpoint''], \<lambda>v b. UpdateEndpointR (v ! 0) b),
     (''POST'', [Exact ''v1'', Exact ''peers'', Wild, Exact ''nat-endpoint''], \<lambda>v b. UpdateNatEndpointR (v ! 0) b),
     (''GET'', [Exact ''v1'', Exact ''me'', Exact ''tenants''], \<lambda>v b. MyTenantsR),
     (''POST'', [Exact ''v1'', Exact ''me'', Exact ''tenants''], \<lambda>v b. CreateMyTenantR b),
     (''GET'', me_tenant [], \<lambda>v b. GetMyTenantR (v ! 0)),
     (''GET'', me_tenant [Exact ''peers''], \<lambda>v b. MyTenantPeersR (v ! 0)),
     (''GET'', me_tenant [Exact ''members''], \<lambda>v b. ListMembersR (v ! 0)),
     (''DELETE'', me_tenant [Exact ''members'', Wild], \<lambda>v b. RemoveMemberR (v ! 0) (v ! 1)),
     (''POST'', me_tenant [Exact ''invites''], \<lambda>v b. CreateInviteR (v ! 0) b),
     (''POST'', me_tenant [Exact ''claim''], \<lambda>v b. ClaimTenantR (v ! 0)),
     (''POST'', [Exact ''v1'', Exact ''me'', Exact ''invites'', Exact ''accept''], \<lambda>v b. AcceptInviteR b)]"

text \<open>
  \<open>http.ServeMux\<close>: the segments are unescaped one by one (a malformed one stays as it is),
  a wildcard takes any of them, and a path that is not clean is redirected instead. (The route of
  relay tokens, for nodes, is left to the theory of the relay.) No two
  patterns overlap, so their order does not matter. A GET pattern also serves HEAD.
\<close>

fun match_segments :: "pattern list \<Rightarrow> string list \<Rightarrow> string list option" where
  "match_segments [] [] = Some []"
| "match_segments (Exact e # ps) (s # ss) = (if s = e then match_segments ps ss else None)"
| "match_segments (Wild # ps) (s # ss) = map_option ((#) s) (match_segments ps ss)"
| "match_segments _ _ = None"

definition segment_value :: "string \<Rightarrow> string" where
  "segment_value s = coalesce (decode_uri_component s) s"

definition clean_segment :: "string \<Rightarrow> bool" where
  "clean_segment s \<longleftrightarrow> s \<noteq> [] \<and> s \<noteq> ''.'' \<and> s \<noteq> ''..''"

fun mux_find :: "string \<Rightarrow> string list \<Rightarrow> go_body \<Rightarrow>
    (string \<times> pattern list \<times> (string list \<Rightarrow> go_body \<Rightarrow> go_route)) list \<Rightarrow> go_route option" where
  "mux_find meth ss b [] = None"
| "mux_find meth ss b ((m, ps, h) # rs) =
     (if m = meth \<or> m = ''GET'' \<and> meth = ''HEAD''
      then (case match_segments ps ss of Some v \<Rightarrow> Some (h v b) | None \<Rightarrow> mux_find meth ss b rs)
      else mux_find meth ss b rs)"

definition control_mux :: "string \<Rightarrow> string \<Rightarrow> go_body \<Rightarrow> go_route option" where
  "control_mux meth path b =
     (case split_on CHR ''/'' path of
        [] # ss \<Rightarrow>
          if list_all clean_segment ss then mux_find meth (map segment_value ss) b control_routes else None
      | _ \<Rightarrow> None)"

section \<open>What the control plane sees of the proxy's request\<close>

text \<open>A header's value arrives without the blanks around it.\<close>

definition http_blank :: "char \<Rightarrow> bool" where
  "http_blank c \<longleftrightarrow> c \<in> {CHR '' '', CHR 0x09, CHR 0x0A, CHR 0x0D}"

definition header_value :: "string \<Rightarrow> string" where
  "header_value s = rev (dropWhile http_blank (rev (dropWhile http_blank s)))"

definition control_request :: "(string \<Rightarrow> go_body) \<Rightarrow> addr \<Rightarrow> config \<Rightarrow> upstream_request \<Rightarrow> go_request option" where
  "control_request read_json src cfg up =
     map_option (\<lambda>rt. \<lparr>gq_route = rt, gq_headers = map (map_prod id header_value) (up_headers up), gq_remote = Some src\<rparr>)
       (control_mux (up_method up) (drop (length (control_plane cfg)) (up_url up))
          (case up_body up of None \<Rightarrow> EmptyBody | Some b \<Rightarrow> read_json b))"

text \<open>The blanks around a header are blanks of UTF-8 too.\<close>

lemma http_blank_word: "http_blank c \<Longrightarrow> [c] \<in> set blank_runes \<and> [c] \<in> set (map rev blank_runes)"
  by (auto simp: http_blank_def blank_runes_def)

lemma blank_words_end: "list_all (\<lambda>w. w \<noteq> [] \<and> (http_blank (last w) \<longrightarrow> length w = 1)) blank_runes"
  by code_simp

lemma word_blank_end:
  assumes "w \<in> set blank_runes"
  shows "(\<exists>c. w = [c] \<and> http_blank c) \<or> (w \<noteq> [] \<and> \<not> http_blank (last w))"
proof -
  have "w \<noteq> [] \<and> (http_blank (last w) \<longrightarrow> length w = 1)"
    using blank_words_end assms unfolding list_all_iff by blast
  then show ?thesis
  proof (cases "length w = 1")
    case True
    then obtain c where "w = [c]" by (cases w) simp_all
    then show ?thesis by (cases "http_blank c") simp_all
  qed blast
qed

lemma drop_blanks:
  assumes "prefix_free ws" "\<And>c. http_blank c \<Longrightarrow> [c] \<in> set ws"
  shows "drop_words ws (dropWhile http_blank s) = drop_words ws s"
proof (induction s)
  case (Cons c s)
  then show ?case using drop_word [OF assms(1), of "[c]" s] assms(2) by auto
qed simp

definition strip_end :: "string \<Rightarrow> string" where
  "strip_end s = rev (dropWhile http_blank (rev s))"

lemma strip_end_append: "strip_end (a @ b) = (if strip_end b = [] then strip_end a else a @ strip_end b)"
  by (simp add: strip_end_def dropWhile_append)

lemma strip_end_snoc: "strip_end (s @ [c]) = (if http_blank c then strip_end s else s @ [c])"
  by (simp add: strip_end_def)

lemma strip_end_prefix: "\<exists>b. s = strip_end s @ b"
  unfolding strip_end_def by (metis rev_append rev_rev_ident takeWhile_dropWhile_id)

lemma drop_strip_end: "drop_words blank_runes (strip_end s) = strip_end (drop_words blank_runes s)"
proof (induction s rule: drop_words_induct [of blank_runes])
  case (word w r)
  have d: "drop_words blank_runes (w @ x) = drop_words blank_runes x" for x by (rule drop_word [OF blank_runes_free(1) word(1)])
  have nil: "drop_words blank_runes [] = []" "strip_end [] = []" by (rule drop_none) (simp_all add: strip_end_def)
  from word_blank_end [OF word(1)] have w: "strip_end w = [] \<or> strip_end w = w"
  proof
    assume "w \<noteq> [] \<and> \<not> http_blank (last w)"
    then show ?thesis using strip_end_snoc [of "butlast w" "last w"] by simp
  qed (auto simp: strip_end_def)
  have "drop_words blank_runes (strip_end (w @ r)) = drop_words blank_runes (strip_end r)"
  proof (cases "strip_end r = []")
    case True
    then show ?thesis using w d [of "[]"] nil by (auto simp: strip_end_append)
  qed (simp add: strip_end_append d)
  then show ?case using word(3) d by simp
next
  case (none s)
  have "strip_end s \<noteq> w @ r" if "w \<in> set blank_runes" "w \<noteq> []" for w r
    using none [OF that] strip_end_prefix [of s] by (metis append.assoc)
  then show ?case using none by (simp add: drop_none)
qed

lemma utf8_trim_header_value: "utf8_trim (header_value s) = utf8_trim s"
proof -
  have b: "drop_words blank_runes (dropWhile http_blank s) = drop_words blank_runes s"
    "drop_words (map rev blank_runes) (dropWhile http_blank t) = drop_words (map rev blank_runes) t" for t
    using http_blank_word by (intro drop_blanks blank_runes_free; blast)+
  have "drop_words blank_runes (header_value s) = strip_end (drop_words blank_runes s)"
    using drop_strip_end [of "dropWhile http_blank s"] by (simp add: header_value_def strip_end_def b(1))
  then show ?thesis by (simp add: utf8_trim_def strip_end_def b(2))
qed

lemma header_value_plain: "\<forall>c \<in> set s. \<not> http_blank c \<Longrightarrow> header_value s = s"
  by (simp add: header_value_def dropWhile_none)

lemma lookup_header_values: "lookup (map (map_prod id f) hs) k = map_option f (lookup hs k)"
  by (induction hs) auto

section \<open>Where a forwarded request goes\<close>

text \<open>The routes behind \<open>asUser\<close>.\<close>

fun user_route :: "go_route \<Rightarrow> bool" where
  "user_route MyTenantsR = True"
| "user_route (CreateMyTenantR b) = True"
| "user_route (GetMyTenantR t) = True"
| "user_route (MyTenantPeersR t) = True"
| "user_route (ListMembersR t) = True"
| "user_route (RemoveMemberR t u) = True"
| "user_route (CreateInviteR t b) = True"
| "user_route (ClaimTenantR t) = True"
| "user_route (AcceptInviteR b) = True"
| "user_route _ = False"

lemma control_mux_segments:
  "split_on CHR ''/'' path = [] # ss \<Longrightarrow> list_all clean_segment ss \<Longrightarrow>
     control_mux meth path b = mux_find meth (map segment_value ss) b control_routes"
  by (simp add: control_mux_def)

lemma segment_value_plain: "CHR ''%'' \<notin> set s \<Longrightarrow> segment_value s = s"
proof -
  have "unescape Some s = Some s" if "CHR ''%'' \<notin> set s"
    using that by (induction s) auto
  then show "CHR ''%'' \<notin> set s \<Longrightarrow> segment_value s = s"
    by (simp add: segment_value_def decode_uri_component_def)
qed

lemma segment_value_encoded: "segment_value (encode_uri_component s) = utf8 s"
  by (simp add: segment_value_def uri_js.dec_enc)

lemma clean_words [simp]:
  "clean_segment ''v1''" "clean_segment ''me''" "clean_segment ''tenants''" "clean_segment ''healthz''" "clean_segment ''invites''"
  "clean_segment ''accept''" "clean_segment ''peers''" "clean_segment ''members''" "clean_segment ''claim''"
  by (simp_all add: clean_segment_def)

lemma value_words [simp]:
  "segment_value ''v1'' = ''v1''" "segment_value ''me'' = ''me''" "segment_value ''tenants'' = ''tenants''"
  "segment_value ''healthz'' = ''healthz''" "segment_value ''invites'' = ''invites''" "segment_value ''accept'' = ''accept''"
  "segment_value ''peers'' = ''peers''" "segment_value ''members'' = ''members''" "segment_value ''claim'' = ''claim''"
  by (simp_all add: segment_value_plain)

lemma mux_fixed:
  "control_mux ''GET'' ''/healthz'' b = Some Health"
  "control_mux ''GET'' ''/v1/me/tenants'' b = Some MyTenantsR"
  "control_mux ''POST'' ''/v1/me/tenants'' b = Some (CreateMyTenantR b)"
  "control_mux ''POST'' ''/v1/me/invites/accept'' b = Some (AcceptInviteR b)"
  by (simp_all add: control_mux_def control_routes_def me_tenant_def)

text \<open>Below a tenant, for a segment that holds no slash.\<close>

lemma split_tenant:
  assumes "CHR ''/'' \<notin> set t"
  shows "split_on CHR ''/'' (tenant_path t) = [[], ''v1'', ''me'', ''tenants'', t]"
    "split_on CHR ''/'' (tenant_path t @ CHR ''/'' # s) = [] # ''v1'' # ''me'' # ''tenants'' # t # split_on CHR ''/'' s"
  using assms by (simp_all add: tenant_path_def split_on_none split_on_append)

lemma mux_tenant:
  assumes t: "CHR ''/'' \<notin> set t" "clean_segment t"
  shows "control_mux ''GET'' (tenant_path t) b = Some (GetMyTenantR (segment_value t))"
    "control_mux ''GET'' (tenant_path t @ ''/peers'') b = Some (MyTenantPeersR (segment_value t))"
    "control_mux ''GET'' (tenant_path t @ ''/members'') b = Some (ListMembersR (segment_value t))"
    "control_mux ''POST'' (tenant_path t @ ''/invites'') b = Some (CreateInviteR (segment_value t) b)"
    "control_mux ''POST'' (tenant_path t @ ''/claim'') b = Some (ClaimTenantR (segment_value t))"
  using t by (simp_all add: control_mux_def split_tenant control_routes_def me_tenant_def)

lemma mux_member:
  assumes t: "CHR ''/'' \<notin> set t" "clean_segment t" and m: "CHR ''/'' \<notin> set m" "clean_segment m"
  shows "control_mux ''DELETE'' (tenant_path t @ ''/members/'' @ m) b =
    Some (RemoveMemberR (segment_value t) (segment_value m))"
proof -
  have "split_on CHR ''/'' (''members/'' @ m) = [''members'', m]"
    using m by (simp add: split_on_none)
  with t m show ?thesis by (simp add: control_mux_def split_tenant control_routes_def me_tenant_def)
qed

lemma tenant_id_segment:
  assumes "tenant_id t"
  shows "CHR ''/'' \<notin> set t" "clean_segment t" "segment_value t = t"
proof -
  have c: "is_hex_dash c" if "c \<in> set t" for c using assms that by (simp add: tenant_id_def list_all_iff)
  show "CHR ''/'' \<notin> set t" using c [of "CHR ''/''"] by (auto simp: class_defs)
  show "clean_segment t" using assms by (auto simp: clean_segment_def tenant_id_def)
  show "segment_value t = t" using c [of "CHR ''%''"] by (intro segment_value_plain) (auto simp: class_defs)
qed

lemma member_id_segment:
  assumes "member_id m" "m \<notin> {''.'', ''..''}"
  shows "CHR ''/'' \<notin> set m" "clean_segment m" "segment_value m = m"
proof -
  have c: "member_char c" if "c \<in> set m" for c using assms that by (simp add: member_id_def list_all_iff)
  show "CHR ''/'' \<notin> set m" using c [of "CHR ''/''"] by (auto simp: member_char_def class_defs)
  show "clean_segment m" using assms by (auto simp: clean_segment_def member_id_def)
  show "segment_value m = m" using c [of "CHR ''%''"] by (intro segment_value_plain) (auto simp: member_char_def class_defs)
qed

lemma tenant_path_eq: "tenant_path t = tenant_path t' \<longleftrightarrow> t = t'"
  by (simp add: tenant_path_def)

lemma regroup_paths:
  "(m = g \<and> A) \<or> (m \<in> {g, p} \<and> B) \<or> (m = p \<and> C) \<or>
     (\<exists>t. T t \<and> (G t \<or> P t \<or> (D \<and> (\<exists>k. K k \<and> E t k)))) \<Longrightarrow>
   (A \<and> m = g \<or> B \<and> m = g \<or> B \<and> m = p \<or> C \<and> m = p) \<or> (\<exists>t. T t \<and> (G t \<or> P t)) \<or>
     (\<exists>t k. T t \<and> K k \<and> D \<and> E t k)"
  by blast

lemma tenant_path_eqs:
  assumes "tenant_id t" "tenant_id t'"
  shows "tenant_path t @ r = tenant_path t' @ r' \<longleftrightarrow> t = t' \<and> r = r'"
    "tenant_path t = tenant_path t' @ r' \<longleftrightarrow> t = t' \<and> r' = []"
    "tenant_path t @ r = tenant_path t' \<longleftrightarrow> t = t' \<and> r = []"
  using tenant_path_inj [OF assms, of r r'] tenant_path_inj [OF assms, of "[]" r']
    tenant_path_inj [OF assms, of r "[]"] by auto

lemma allowed_shapes:
  assumes "route_allowed meth path"
  obtains (fixed) "path = ''/healthz'' \<and> meth = ''GET'' \<or> path = ''/v1/me/tenants'' \<and> meth = ''GET'' \<or>
      path = ''/v1/me/tenants'' \<and> meth = ''POST'' \<or> path = ''/v1/me/invites/accept'' \<and> meth = ''POST''"
    | (tenant) t where "tenant_id t"
      "meth = ''GET'' \<and> path \<in> {tenant_path t, tenant_path t @ ''/peers'', tenant_path t @ ''/members''} \<or>
       meth = ''POST'' \<and> path \<in> {tenant_path t @ ''/invites'', tenant_path t @ ''/claim''}"
    | (member) t m where "tenant_id t" "member_id m" "meth = ''DELETE''" "path = tenant_path t @ ''/members/'' @ m"
proof -
  define F where "F \<longleftrightarrow> path = ''/healthz'' \<and> meth = ''GET'' \<or> path = ''/v1/me/tenants'' \<and> meth = ''GET'' \<or>
      path = ''/v1/me/tenants'' \<and> meth = ''POST'' \<or> path = ''/v1/me/invites/accept'' \<and> meth = ''POST''"
  define G where "G t \<longleftrightarrow> meth = ''GET'' \<and> path \<in> {tenant_path t, tenant_path t @ ''/peers'', tenant_path t @ ''/members''} \<or>
      meth = ''POST'' \<and> path \<in> {tenant_path t @ ''/invites'', tenant_path t @ ''/claim''}" for t
  have "F \<or> (\<exists>t. tenant_id t \<and> G t) \<or>
      (\<exists>t m. tenant_id t \<and> member_id m \<and> meth = ''DELETE'' \<and> path = tenant_path t @ ''/members/'' @ m)"
    using assms unfolding route_allowed_iff F_def G_def by (rule regroup_paths)
  moreover have "F \<Longrightarrow> thesis" unfolding F_def by (rule fixed)
  moreover have "tenant_id t \<Longrightarrow> G t \<Longrightarrow> thesis" for t unfolding G_def by (rule tenant)
  ultimately show thesis using member by blast
qed

text \<open>
  C12. The proxy's allowlist and the control plane's routes fit each other. Every path the
  proxy forwards is one the control plane serves, with the tenant and the user of the path
  (a user id of only one or two dots apart, which no clean path can name); it is the health
  check or a route that asks who the user is, so the shared token that the proxy adds never
  opens the routes of operators and nodes, and tenants are not listed across users.
\<close>
theorem forwarded_paths_are_user_routes:
  assumes "route_allowed meth path" and "\<forall>q. path \<noteq> q @ ''/.'' \<and> path \<noteq> q @ ''/..''"
  shows "\<exists>rt. control_mux meth path b = Some rt \<and> (rt = Health \<or> user_route rt) \<and>
    (\<forall>t. tenant_id t \<longrightarrow>
      (path = tenant_path t \<longrightarrow> rt = GetMyTenantR t) \<and>
      (path = tenant_path t @ ''/peers'' \<longrightarrow> rt = MyTenantPeersR t) \<and>
      (path = tenant_path t @ ''/members'' \<longrightarrow> rt = ListMembersR t) \<and>
      (path = tenant_path t @ ''/invites'' \<longrightarrow> rt = CreateInviteR t b) \<and>
      (path = tenant_path t @ ''/claim'' \<longrightarrow> rt = ClaimTenantR t) \<and>
      (\<forall>m. path = tenant_path t @ ''/members/'' @ m \<longrightarrow> rt = RemoveMemberR t m))"
proof -
  let ?P = "\<lambda>rt. \<forall>t. tenant_id t \<longrightarrow>
      (path = tenant_path t \<longrightarrow> rt = GetMyTenantR t) \<and>
      (path = tenant_path t @ ''/peers'' \<longrightarrow> rt = MyTenantPeersR t) \<and>
      (path = tenant_path t @ ''/members'' \<longrightarrow> rt = ListMembersR t) \<and>
      (path = tenant_path t @ ''/invites'' \<longrightarrow> rt = CreateInviteR t b) \<and>
      (path = tenant_path t @ ''/claim'' \<longrightarrow> rt = ClaimTenantR t) \<and>
      (\<forall>m. path = tenant_path t @ ''/members/'' @ m \<longrightarrow> rt = RemoveMemberR t m)"
  from assms(1) show ?thesis
  proof (cases rule: allowed_shapes)
    case fixed
    note fixed
    moreover from this have other: "path \<noteq> tenant_path t @ s" for t s
      by (elim disjE conjE) (simp_all add: tenant_path_def)
    ultimately have "\<exists>rt. control_mux meth path b = Some rt \<and> (rt = Health \<or> user_route rt)"
      by (elim disjE conjE) (simp_all only: mux_fixed option.inject ex_simps user_route.simps simp_thms)
    then obtain rt where "control_mux meth path b = Some rt" "rt = Health \<or> user_route rt" by blast
    moreover have "?P rt" using other other [of _ "[]"] by simp
    ultimately show ?thesis by blast
  next
    case (tenant t)
    note seg = tenant_id_segment [OF tenant(1)]
    show ?thesis using tenant(2)
      by (elim disjE conjE insertE) (auto simp: mux_tenant [OF seg(1,2)] seg(3) tenant_path_eqs tenant(1) tenant_path_eq)
  next
    case (member t m)
    have "m \<notin> {''.'', ''..''}"
      using assms(2) [rule_format, of "tenant_path t @ ''/members''"] unfolding member(4) by auto
    note m = member_id_segment [OF member(2) this]
    note seg = tenant_id_segment [OF member(1)]
    have "control_mux meth path b = Some (RemoveMemberR t m)"
      using mux_member [OF seg(1,2) m(1,2), of b] unfolding member(3,4) seg(3) m(3) .
    then show ?thesis by (auto simp: member(4) tenant_path_eqs member(1))
  qed
qed

theorem forwarded_paths_are_user_routes_witness:
  "control_mux ''GET'' (tenant_path demo_tenant_id @ ''/peers'') EmptyBody = Some (MyTenantPeersR demo_tenant_id)"
proof -
  have t: "tenant_id demo_tenant_id" by code_simp
  have a: "route_allowed ''GET'' (tenant_path demo_tenant_id @ ''/peers'')" using t by (auto simp: route_allowed_iff)
  have "tenant_path demo_tenant_id @ ''/peers'' \<noteq> q @ ''/.'' \<and> tenant_path demo_tenant_id @ ''/peers'' \<noteq> q @ ''/..''" for q
    using arg_cong [of "tenant_path demo_tenant_id @ ''/peers''" _ last] by force
  then show ?thesis using forwarded_paths_are_user_routes [OF a, of EmptyBody] t by blast
qed

section \<open>Whom the control plane sees\<close>

lemma starts_with_Bearer: "starts_with (''Bearer '' @ t) ''Bearer ''" "drop 7 (''Bearer '' @ t) = t"
  by simp_all

lemma header_of_control_request:
  assumes "control_request read_json src cfg up = Some r"
  shows "header r h = header_value (coalesce (lookup (up_headers up) h) [])"
  using assms by (cases "lookup (up_headers up) h")
    (auto simp: control_request_def header_def lookup_header_values header_value_def)

lemma as_user_of_proxy:
  assumes r: "control_request read_json src cfg (upstream_request_of cfg meth path bdy u) = Some r"
    and same: "ge_web_token env = control_plane_token cfg" "control_plane_token cfg \<noteq> []"
    and plain: "\<forall>c \<in> set (control_plane_token cfg). \<not> http_blank c"
  shows "as_user env r =
    (if utf8_trim (sub u) = [] then Inl (400, ''X-Mesh2Mesh-User is required'')
     else Inr \<lparr>su_id = utf8_trim (sub u), su_email = utf8_trim (coalesce (email u) []), su_name = utf8 (go_trim (user_name u))\<rparr>)"
proof -
  note h = header_of_control_request [OF r]
  let ?bearer = "''Bearer '' @ control_plane_token cfg"
  have "header_value ?bearer = ?bearer"
  proof -
    obtain s c where s: "control_plane_token cfg = s @ [c]" "\<not> http_blank c"
      using same(2) plain by (metis append_butlast_last_id last_in_set)
    have "\<not> http_blank CHR ''B''" by (simp add: http_blank_def)
    then show ?thesis by (simp add: header_value_def s)
  qed
  then have auth: "header r ''Authorization'' = ?bearer"
    unfolding h by (simp add: upstream_request_of_def)
  then have web: "from_web env r"
    unfolding from_web_def auth same(1) using same(2) starts_with_Bearer by blast
  have "header_value (encode_uri_component (user_name u)) = encode_uri_component (user_name u)"
    using encode_uri_component_chars
    by (intro header_value_plain) (fastforce simp: uri_char_def uri_unreserved_def class_defs http_blank_def)
  then have "query_unescape (header r ''X-Mesh2Mesh-User-Name'') = Some (utf8 (user_name u))"
    unfolding h by (simp add: upstream_request_of_def uri_go.dec_enc)
  moreover have "utf8_trim (header r ''X-Mesh2Mesh-User'') = utf8_trim (sub u)"
    "utf8_trim (header r ''X-Mesh2Mesh-User-Email'') = utf8_trim (coalesce (email u) [])"
    unfolding h utf8_trim_header_value by (simp_all add: upstream_request_of_def)
  ultimately show ?thesis using same web by (simp add: as_user_def utf8_trim_utf8)
qed

text \<open>
  C4. The control plane acts for the user of the session. When the two servers share a
  non-empty token, whatever the web server sends upstream for a browser's request, the
  control plane takes its caller for exactly the user of a live session of that browser:
  the id and email are the bytes of the claims of the identity provider, without the blank
  characters of UTF-8 around them (the email goes through unescaped); the name, without the
  blanks around it, arrives as its UTF-8 bytes whatever it holds; and nothing in the browser's
  request can change any of the three. Only a user with a blank id is refused.
\<close>
theorem caller_is_session_user:
  assumes up: "fst (snd (serve cfg dist w req a)) = Some up"
    and r: "control_request read_json src cfg up = Some r"
    and same: "ge_web_token env = control_plane_token cfg" "control_plane_token cfg \<noteq> []"
    and plain: "\<forall>c \<in> set (control_plane_token cfg). \<not> http_blank c"
  shows "\<exists>u.
    (case oidc cfg of
       None \<Rightarrow> u = dev_user
     | Some p \<Rightarrow> \<exists>i s. read_cookie req session_cookie = Some i \<and> sessions a i = Some s \<and>
         \<not> js_lt (session_expires s) (Num (clock w)) \<and> u = session_user s) \<and>
    as_user env r =
      (if utf8_trim (sub u) = [] then Inl (400, ''X-Mesh2Mesh-User is required'')
       else Inr \<lparr>su_id = utf8_trim (sub u), su_email = utf8_trim (coalesce (email u) []), su_name = utf8 (go_trim (user_name u))\<rparr>)"
proof -
  obtain path u where h: "snd (current_user cfg w req a) = Some u" "fst (proxy cfg w req path u) = Some up"
    using handle_forwards up unfolding serve_upstream by metis
  have "case oidc cfg of
       None \<Rightarrow> u = dev_user
     | Some p \<Rightarrow> \<exists>i s. read_cookie req session_cookie = Some i \<and> sessions a i = Some s \<and>
         \<not> js_lt (session_expires s) (Num (clock w)) \<and> u = session_user s"
    using h(1) session_of_Some [of "clock w" req a]
    by (fastforce simp: current_user_def split: option.splits prod.splits)
  moreover from proxy_forwards [OF h(2)]
  have "up = upstream_request_of cfg (method_of req) path
      (if method_of req = ''POST'' then Some (List.concat (chunks req)) else None) u" by blast
  note as_user_of_proxy [OF r [unfolded this] same plain]
  ultimately show ?thesis by blast
qed

definition link_env :: go_env where
  "link_env =
     \<lparr>ge_web_token = control_plane_token demo_config, ge_netip = demo_lib, ge_parse_addr_port = (\<lambda>s. None), ge_show_addr_port = (\<lambda>a n. []),
      ge_uuid = Some, ge_hash = (\<lambda>s. s), ge_json_error = (\<lambda>b. []), ge_time = (\<lambda>n. []), ge_probe_port = None\<rparr>"

theorem caller_is_session_user_witness:
  "\<exists>up r. fst (snd (serve demo_config ''/app/dist/'' demo_world demo_session_request demo_state)) = Some up \<and>
     control_request (\<lambda>b. BadBody) NoAddr demo_config up = Some r \<and>
     as_user link_env r = Inr \<lparr>su_id = ''u-1'', su_email = [], su_name = ''Ada''\<rparr>"
proof -
  let ?up = "upstream_request_of demo_config ''GET'' ''/v1/me/tenants'' None (user_of_claims demo_claims)"
  have path: "drop (length (control_plane demo_config)) (up_url ?up) = ''/v1/me/tenants''"
    by (simp add: upstream_request_of_def)
  have "up_method ?up = ''GET''" by (simp add: upstream_request_of_def)
  then obtain r where r: "control_request (\<lambda>b. BadBody) NoAddr demo_config ?up = Some r"
    using mux_fixed(2) unfolding control_request_def path by simp
  have same: "ge_web_token link_env = control_plane_token demo_config" by (simp add: link_env_def)
  have plain: "control_plane_token demo_config \<noteq> []" "\<forall>c \<in> set (control_plane_token demo_config). \<not> http_blank c"
    by (simp_all add: demo_config_def http_blank_def)
  have live: "u = user_of_claims demo_claims"
    if "case oidc demo_config of None \<Rightarrow> u = dev_user
      | Some p \<Rightarrow> \<exists>i s. read_cookie demo_session_request session_cookie = Some i \<and> sessions demo_state i = Some s \<and>
         \<not> js_lt (session_expires s) (Num (clock demo_world)) \<and> u = session_user s" for u
    using that by (auto simp: demo_config_def demo_session_cookie demo_state_def new_session_def)
  have "as_user link_env r = Inr \<lparr>su_id = ''u-1'', su_email = [], su_name = ''Ada''\<rparr>"
  proof -
    note c = caller_is_session_user [OF demo_sent r same plain]
    from c obtain u where "u = user_of_claims demo_claims"
      "as_user link_env r =
        (if utf8_trim (sub u) = [] then Inl (400, ''X-Mesh2Mesh-User is required'')
         else Inr \<lparr>su_id = utf8_trim (sub u), su_email = utf8_trim (coalesce (email u) []), su_name = utf8 (go_trim (user_name u))\<rparr>)"
      using live by blast
    then show ?thesis by (simp add: user_of_claims_def demo_claims_def utf8_trim_ascii go_trim_id js_space_def go_space_def utf8_ascii)
  qed
  then show ?thesis using demo_sent r by blast
qed

section \<open>The declared types\<close>

text \<open>The types that \<open>api.ts\<close> gives to answers; a property may be optional, and there are no others.\<close>

datatype ts_type =
  TsString | TsNumber | TsBoolean | TsNull | TsOneOf "string list" | TsArray ts_type
| TsObject "(string \<times> bool \<times> ts_type) list"

fun has_type :: "ts_type \<Rightarrow> json \<Rightarrow> bool" where
  "has_type TsString (JStr s) = True"
| "has_type TsNumber (JNum n) = True"
| "has_type TsBoolean (JBool b) = True"
| "has_type TsNull JNull = True"
| "has_type (TsOneOf ss) (JStr s) = (s \<in> set ss)"
| "has_type (TsArray t) (JArr vs) = list_all (has_type t) vs"
| "has_type (TsObject fs) (JObj vs) =
     (list_all (\<lambda>(k, optional, t). case lookup vs k of None \<Rightarrow> optional | Some v \<Rightarrow> has_type t v) fs \<and>
      list_all (\<lambda>k. k \<in> set (map fst fs)) (map fst vs))"
| "has_type _ _ = False"

definition ts_role :: ts_type where
  "ts_role = TsOneOf [''owner'', ''member'']"

definition ts_tenant :: ts_type where
  "ts_tenant =
     TsObject [(''id'', False, TsString), (''name'', False, TsString), (''cidr'', False, TsString),
       (''created_at'', False, TsString), (''role'', False, ts_role)]"

definition ts_member :: ts_type where
  "ts_member =
     TsObject [(''user_id'', False, TsString), (''email'', False, TsString), (''name'', False, TsString),
       (''role'', False, ts_role), (''created_at'', False, TsString)]"

definition ts_invite :: ts_type where
  "ts_invite =
     TsObject [(''id'', False, TsString), (''code'', False, TsString), (''role'', False, ts_role),
       (''max_uses'', False, TsNumber), (''expires_at'', False, TsString)]"

definition ts_peer :: ts_type where
  "ts_peer =
     TsObject [(''peer_id'', False, TsString), (''name'', False, TsString), (''public_key'', False, TsString),
       (''mesh_ip'', False, TsString), (''created_at'', False, TsString), (''direct_reachable'', False, TsBoolean),
       (''endpoint'', True, TsString), (''endpoint_updated_at'', True, TsString), (''nat_endpoint'', True, TsString)]"

text \<open>Everything the console asks of the control plane, and the type it gives to the answer.\<close>

datatype api_use =
  UseHealth | UseTenants | UsePeers string | UseMembers string
| UseCreateTenant string "string option" | UseCreateInvite string role nat nat
| UseAcceptInvite string | UseClaim string | UseRemove string string

fun sent :: "api_use \<Rightarrow> call" where
  "sent UseHealth = q_call health_query"
| "sent UseTenants = q_call tenants_query"
| "sent (UsePeers t) = q_call (peers_query t)"
| "sent (UseMembers t) = q_call (members_query t)"
| "sent (UseCreateTenant name cidr) = create_tenant name cidr"
| "sent (UseCreateInvite t r ttl n) = create_invite t r ttl n"
| "sent (UseAcceptInvite code) = accept_invite code"
| "sent (UseClaim t) = claim_tenant t"
| "sent (UseRemove t u) = remove_member t u"

fun declared :: "api_use \<Rightarrow> ts_type" where
  "declared UseHealth = TsObject [(''status'', False, TsString)]"
| "declared UseTenants = TsObject [(''tenants'', False, TsArray ts_tenant)]"
| "declared (UsePeers t) = TsObject [(''peers'', False, TsArray ts_peer)]"
| "declared (UseMembers t) = TsObject [(''members'', False, TsArray ts_member)]"
| "declared (UseCreateTenant name cidr) = ts_tenant"
| "declared (UseCreateInvite t r ttl n) = ts_invite"
| "declared (UseAcceptInvite code) = ts_tenant"
| "declared (UseClaim t) = ts_tenant"
| "declared (UseRemove t u) = TsNull"

text \<open>The route a call of the console ends at, behind the proxy that takes off its /api.\<close>

definition arrives_at :: "api_use \<Rightarrow> go_route option" where
  "arrives_at c =
     control_mux (c_method (sent c)) (drop 4 (c_path (sent c)))
       (case c_body (sent c) of None \<Rightarrow> EmptyBody | Some j \<Rightarrow> JsonBody j)"

lemma show_role_typed: "has_type ts_role (JStr (show_role r))"
  by (cases r) (simp_all add: ts_role_def)

lemma membership_typed: "has_type ts_tenant (membership_view env m)"
  by (simp add: ts_tenant_def membership_view_def show_role_typed)

lemma member_typed: "has_type ts_member (member_view env m)"
  by (simp add: ts_member_def member_view_def show_role_typed)

lemma invite_typed: "has_type ts_invite (invite_view env code i)"
  by (simp add: ts_invite_def invite_view_def show_role_typed)

lemma peer_typed: "has_type ts_peer (peer_view env [] p)"
  by (simp add: ts_peer_def peer_view_def lookup_append split: option.splits)

text \<open>What the success of an action that a browser can cause looks like.\<close>

fun action_type :: "action \<Rightarrow> ts_type option" where
  "action_type AHealth = Some (TsObject [(''status'', False, TsString)])"
| "action_type (AMyTenants u) = Some (TsObject [(''tenants'', False, TsArray ts_tenant)])"
| "action_type (ACreateMine u n c) = Some ts_tenant"
| "action_type (AShowMine m) = Some ts_tenant"
| "action_type (AListPeers t) = Some (TsObject [(''peers'', False, TsArray ts_peer)])"
| "action_type (AListMembers t) = Some (TsObject [(''members'', False, TsArray ts_member)])"
| "action_type (ARemove u t v) = Some TsNull"
| "action_type (AInvite u t r ttl n) = Some ts_invite"
| "action_type (AClaim u t) = Some ts_tenant"
| "action_type (AAccept u c) = Some ts_tenant"
| "action_type _ = None"

definition typed_answer :: "ts_type \<Rightarrow> answer \<Rightarrow> bool" where
  "typed_answer t x \<longleftrightarrow>
     (if 200 \<le> fst x \<and> fst x \<le> 299 then has_type t (coalesce (snd x) JNull)
      else \<exists>msg. snd x = Some (JObj [(''error'', JStr msg)]))"

lemma typed_ok: "has_type t j \<Longrightarrow> typed_answer t (ok_json j)" "has_type t j \<Longrightarrow> typed_answer t (created_json j)"
  by (simp_all add: typed_answer_def ok_json_def created_json_def answer_json_def)

lemma typed_fail: "400 \<le> fst e \<Longrightarrow> typed_answer t (fail e)"
  by (simp add: typed_answer_def fail_def answer_json_def)

lemma typed_error: "list_all (\<lambda>(e, st, msg). 400 \<le> st) cs \<Longrightarrow> typed_answer t (answer_error cs other e)"
  unfolding answer_error_def by (rule typed_fail) (induction cs, auto)

lemma typed_no_content: "typed_answer TsNull (204, None)"
  by (simp add: typed_answer_def)

lemma typed_settle:
  "(\<And>e. typed_answer t (bad e)) \<Longrightarrow> (\<And>x. typed_answer t (good x)) \<Longrightarrow> typed_answer t (fst (settle d bad good r))"
  by (cases r) (auto simp: settle_def)

lemma action_typed:
  assumes "action_type a = Some t"
  shows "typed_answer t (fst (control_finish env w a d))"
proof (cases a)
  case AHealth
  then show ?thesis using assms
    by (auto intro!: typed_ok typed_fail)
next
  case (AMyTenants u)
  then show ?thesis using assms
    by (auto simp: list_all_iff membership_typed intro!: typed_ok split: prod.splits)
qed (use assms in \<open>auto simp: list_all_iff no_tenant_error_def membership_typed member_typed invite_typed peer_typed
    intro!: typed_settle typed_error typed_ok typed_no_content split: prod.splits\<close>)

text \<open>
  Where the calls arrive. A call for the empty tenant or for dots arrives nowhere: the URL parser
  resolves the dots to a path that the proxy refuses.
\<close>

lemma encoded_segment: "CHR ''/'' \<notin> set (encode_uri_component s)"
proof
  assume "CHR ''/'' \<in> set (encode_uri_component s)"
  from encode_uri_component_chars [OF this] show False
    by (auto simp: uri_char_def uri_unreserved_def class_defs)
qed

lemma drop_api: "drop 4 (tenant_url t @ s) = tenant_path (encode_uri_component t) @ s"
  by (simp add: tenant_url_def me_path_def tenant_path_def)

lemma clean_tenant:
  "control_mux m (tenant_path (encode_uri_component t) @ CHR ''/'' # s) b = Some rt \<Longrightarrow> clean_segment (encode_uri_component t)"
  using encoded_segment [of t] by (simp add: control_mux_def split_tenant split: if_splits)

lemma arrives:
  "arrives_at UseHealth = Some Health" "arrives_at UseTenants = Some MyTenantsR"
  "\<exists>b. arrives_at (UseCreateTenant n c) = Some (CreateMyTenantR b)"
  "\<exists>b. arrives_at (UseAcceptInvite code) = Some (AcceptInviteR b)"
  using mux_fixed by (simp_all add: arrives_at_def call_defs me_path_def split: option.splits)

lemma arrives_at_tenant:
  "arrives_at (UsePeers t) = control_mux ''GET'' (tenant_path (encode_uri_component t) @ ''/peers'') EmptyBody"
  "arrives_at (UseMembers t) = control_mux ''GET'' (tenant_path (encode_uri_component t) @ ''/members'') EmptyBody"
  "arrives_at (UseCreateInvite t r ttl n) = control_mux ''POST'' (tenant_path (encode_uri_component t) @ ''/invites'')
     (JsonBody (JObj [(''role'', JStr (show_role r)), (''ttl_seconds'', JNum (int ttl)), (''max_uses'', JNum (int n))]))"
  "arrives_at (UseClaim t) = control_mux ''POST'' (tenant_path (encode_uri_component t) @ ''/claim'') (JsonBody (JObj []))"
  "arrives_at (UseRemove t u) =
     control_mux ''DELETE'' (tenant_path (encode_uri_component t) @ ''/members/'' @ encode_uri_component u) EmptyBody"
  by (simp_all add: arrives_at_def call_defs drop_api del: drop_append)

lemma arrives_tenant:
  "arrives_at (UsePeers t) = Some rt \<Longrightarrow> rt = MyTenantPeersR (utf8 t)"
  "arrives_at (UseMembers t) = Some rt \<Longrightarrow> rt = ListMembersR (utf8 t)"
  "arrives_at (UseCreateInvite t r ttl n) = Some rt \<Longrightarrow> \<exists>b. rt = CreateInviteR (utf8 t) b"
  "arrives_at (UseClaim t) = Some rt \<Longrightarrow> rt = ClaimTenantR (utf8 t)"
proof -
  let ?p = "tenant_path (encode_uri_component t)"
  note c = clean_tenant [of _ t] mux_tenant [OF encoded_segment, of t, unfolded segment_value_encoded]
  show "arrives_at (UsePeers t) = Some rt \<Longrightarrow> rt = MyTenantPeersR (utf8 t)"
    using c unfolding arrives_at_tenant by (metis option.inject)
  show "arrives_at (UseMembers t) = Some rt \<Longrightarrow> rt = ListMembersR (utf8 t)"
    using c unfolding arrives_at_tenant by (metis option.inject)
  show "arrives_at (UseCreateInvite t r ttl n) = Some rt \<Longrightarrow> \<exists>b. rt = CreateInviteR (utf8 t) b"
    using c unfolding arrives_at_tenant by (metis option.inject)
  show "arrives_at (UseClaim t) = Some rt \<Longrightarrow> rt = ClaimTenantR (utf8 t)"
    using c unfolding arrives_at_tenant by (metis option.inject)
qed

lemma arrives_remove:
  assumes "arrives_at (UseRemove t u) = Some rt"
  shows "\<exists>x y. rt = RemoveMemberR x y"
proof -
  have "clean_segment (encode_uri_component t)"
    using assms clean_tenant unfolding arrives_at_tenant by simp
  moreover have "clean_segment (encode_uri_component u)"
    using assms encoded_segment [of t] encoded_segment [of u] unfolding arrives_at_tenant
    by (simp add: control_mux_def split_tenant split_on_none split: if_splits)
  ultimately show ?thesis
    using assms mux_member [OF encoded_segment _ encoded_segment] unfolding arrives_at_tenant by force
qed

section \<open>Refusals\<close>

definition refuses :: "refusal + 'a \<Rightarrow> bool" where
  "refuses x \<longleftrightarrow> (\<forall>e. x = Inl e \<longrightarrow> 400 \<le> fst e)"

lemma refuses_simps [simp]: "refuses (Inr y)" "refuses (Inl (n, m)) \<longleftrightarrow> 400 \<le> n"
  by (simp_all add: refuses_def)

lemma refuses_and_then: "refuses x \<Longrightarrow> (\<And>y. refuses (f y)) \<Longrightarrow> refuses (and_then x f)"
  by (cases x) (auto simp: refuses_def)

lemma refuses_inputs:
  "refuses (decode env spec b)" "refuses (as_user env r)" "refuses (caller env u raw oo d)" "refuses (remove_input u v m)"
  "refuses (nat_target env r raw s)"
  by (auto simp: decode_def as_user_def caller_def remove_input_def remove_authorized_def nat_target_def
      split: option.splits sum.splits)

lemma refuses_body:
  "refuses (tenant_input env b)" "refuses (token_input env b)" "refuses (register_input env b)"
  "refuses (endpoint_input env r raw b d)" "refuses (nat_input env r raw b)" "refuses (invite_input u vs m)"
  by (auto simp: tenant_input_def token_input_def register_input_def endpoint_input_def nat_input_def invite_input_def
      invite_options_def Let_def refuses_inputs intro!: refuses_and_then split: option.splits sum.splits)

lemma begin_refuses: "refuses (control_begin env r rt d)"
  by (cases rt) (auto simp: refuses_inputs refuses_body guarded_def web_only_def intro!: refuses_and_then)

lemma begin_refused: "control_begin env r rt d = Inl e \<Longrightarrow> 400 \<le> fst e"
  using begin_refuses [of env r rt d] by (simp add: refuses_def)

lemma begin_typed:
  assumes "arrives_at c = Some rt" "control_begin env r rt d = Inr a"
  shows "action_type a = Some (declared c)"
proof (cases c)
  case (UseCreateTenant n x)
  then show ?thesis using assms arrives(3) [of n x] by (auto simp: and_then_Inr)
next
  case (UseAcceptInvite code)
  then show ?thesis using assms arrives(4) [of code] by (auto simp: and_then_Inr)
next
  case (UseCreateInvite t ro ttl n)
  then show ?thesis using assms arrives_tenant(3) [of t ro ttl n rt] by (auto simp: and_then_Inr dest!: invite_form)
next
  case (UseRemove t u)
  then show ?thesis using assms arrives_remove [of t u rt] by (auto simp: and_then_Inr dest!: remove_form)
qed (use assms arrives(1,2) in \<open>auto simp: and_then_Inr dest!: arrives_tenant(1,2,4)\<close>)

text \<open>What comes of a request between its two steps, and what the console reads of an answer.\<close>

definition answered :: "go_env \<Rightarrow> draw \<Rightarrow> go_request \<Rightarrow> go_route \<Rightarrow> db \<Rightarrow> db \<Rightarrow> answer" where
  "answered env w r rt d d' =
     (case control_begin env r rt d of Inl e \<Rightarrow> fail e | Inr a \<Rightarrow> fst (control_finish env w a d'))"

definition fetched_of :: "string \<Rightarrow> answer \<Rightarrow> fetched" where
  "fetched_of text x = \<lparr>f_status = fst x, f_status_text = text, f_json = snd x\<rparr>"

text \<open>
  C6. The console's types are true of what the control plane answers. \<open>api.ts\<close> casts
  every body to its declared type unchecked; for each of its nine calls, whatever the tenants,
  names and codes in it, whatever the database holds and whatever other requests do between
  the two steps of the handler, a successful answer has exactly the declared properties with
  the declared types (the optional ones may be missing), and a refusal reaches the page as an
  ApiError with the status and the message the control plane wrote.
\<close>
theorem answers_have_declared_types:
  assumes "arrives_at c = Some rt"
  shows "case api_request (\<lambda>k. Inr (fetched_of txt (answered env w r rt d d'))) (sent c) of
      Inr j \<Rightarrow> has_type (declared c) j
    | Inl e \<Rightarrow> \<exists>msg. snd (answered env w r rt d d') = Some (JObj [(''error'', JStr msg)]) \<and>
        e = ApiError (fst (answered env w r rt d d')) msg"
proof -
  let ?x = "answered env w r rt d d'"
  have "typed_answer (declared c) ?x"
  proof (cases "control_begin env r rt d")
    case (Inl e)
    then show ?thesis using begin_refused by (simp add: answered_def typed_fail)
  next
    case (Inr a)
    then show ?thesis using action_typed begin_typed [OF assms Inr] by (simp add: answered_def)
  qed
  then show ?thesis
    by (auto simp: typed_answer_def api_request_def Let_def response_ok_def fetched_of_def split: if_splits)
qed

theorem answers_have_declared_types_witness:
  "case api_request (\<lambda>k. Inr (fetched_of ''OK''
       (answered plane_env (demo_draw ''x'' []) (web_request ''ann'' MyTenantsR) MyTenantsR db1 db1))) (sent UseTenants) of
     Inr j \<Rightarrow> has_type (TsObject [(''tenants'', False, TsArray ts_tenant)]) j
   | Inl e \<Rightarrow> False"
proof -
  let ?x = "answered plane_env (demo_draw ''x'' []) (web_request ''ann'' MyTenantsR) MyTenantsR db1 db1"
  have "fst ?x = 200"
    by (simp add: answered_def demo_user ok_json_def answer_json_def Let_def split: prod.splits)
  then have "api_request (\<lambda>k. Inr (fetched_of ''OK'' ?x)) (sent UseTenants) \<noteq> Inl e" for e
    by (simp add: api_request_def Let_def response_ok_def fetched_of_def)
  moreover have "case api_request (\<lambda>k. Inr (fetched_of ''OK'' ?x)) (sent UseTenants) of
      Inr j \<Rightarrow> has_type (declared UseTenants) j
    | Inl e \<Rightarrow> \<exists>msg. snd ?x = Some (JObj [(''error'', JStr msg)]) \<and> e = ApiError (fst ?x) msg"
    by (rule answers_have_declared_types [OF arrives(2)])
  ultimately show ?thesis by (auto split: sum.splits)
qed

end
