(* ===== verification/View.thy ===== *)
theory View
  imports ApiClient
begin

text \<open>
  What a page is made of: the element trees its components return, the results of the
  query library they read, and the effects their handlers cause.

  An element is its tag or component, its attributes and its children; a fragment is a
  list of elements. The constant \<open>className\<close> styling is left out (it is presentation);
  a class that depends on the state is kept. A component of the page is replaced by what
  it returns, except those with a state of their own that shows only in themselves
  (\<open>CopyValue\<close>, \<open>Command\<close>) and the components of \<open>components/ui\<close> and of packages, which
  stay elements. Characters beyond Latin-1 in the texts (ellipsis, dashes, arrows, curly
  quotes) are written with the ASCII characters they stand for.
\<close>

section \<open>Links and effects\<close>

type_synonym search = "(string \<times> json) list"

record link =
  l_to :: string
  l_search :: search
  l_replace :: bool

definition link_to :: "string \<Rightarrow> search \<Rightarrow> link" where
  "link_to t s = \<lparr>l_to = t, l_search = s, l_replace = False\<rparr>"

definition replacing :: "link \<Rightarrow> link" where
  "replacing l = l\<lparr>l_replace := True\<rparr>"

text \<open>
  What a handler asks of the libraries: \<open>mutate\<close> with the call its \<open>mutationFn\<close> makes,
  \<open>reset\<close> of a mutation, query invalidation, toasts, navigation, the clipboard.
\<close>

datatype effect =
    Mutate call
  | ResetMutation
  | Invalidate "string list"
  | SetMe "user option"
  | ToastSuccess string
  | ToastError string
  | Navigate link
  | ReplaceLocation string
  | PreventDefault
  | WriteClipboard string
  | SetTimeout nat
  | SelectText
  | Throws string
  | SubmitLogout

section \<open>Results of queries and mutations\<close>

text \<open>A query keeps the data of an earlier fetch when a refetch fails.\<close>

datatype 'a query = Pending | Failed "'a option" api_error | Success 'a

fun query_data :: "'a query \<Rightarrow> 'a option" where
  "query_data Pending = None"
| "query_data (Failed d e) = d"
| "query_data (Success d) = Some d"

datatype mutation = Idle | InFlight | Refused api_error | Done

fun is_in_flight :: "mutation \<Rightarrow> bool" where
  "is_in_flight InFlight = True"
| "is_in_flight _ = False"

section \<open>Elements\<close>

datatype 'e attr =
    Str string
  | Flag bool
  | On 'e
  | OnText "string \<Rightarrow> 'e"
  | OnFlag "bool \<Rightarrow> 'e"
  | To link

datatype 'e node = Text string | El string "(string \<times> 'e attr) list" "'e node list"

text \<open>\<open>{condition && element}\<close>, for a boolean condition.\<close>

definition show_if :: "bool \<Rightarrow> 'e node list \<Rightarrow> 'e node list" where
  "show_if b ns = (if b then ns else [])"

definition flag_set :: "string \<Rightarrow> (string \<times> 'e attr) list \<Rightarrow> bool" where
  "flag_set k as = list_ex (\<lambda>(k', a). k' = k \<and> (case a of Flag b \<Rightarrow> b | _ \<Rightarrow> False)) as"

definition flag_unset :: "string \<Rightarrow> (string \<times> 'e attr) list \<Rightarrow> bool" where
  "flag_unset k as = list_ex (\<lambda>(k', a). k' = k \<and> (case a of Flag b \<Rightarrow> \<not> b | _ \<Rightarrow> False)) as"

text \<open>
  A dialog that is not open shows nothing, whether it is the component of the library or the
  primitive of radix-ui that draws it.
\<close>

definition closed_dialog :: "string \<Rightarrow> (string \<times> 'e attr) list \<Rightarrow> bool" where
  "closed_dialog tag as \<longleftrightarrow> tag \<in> {''Dialog'', ''DialogPrimitive.Root''} \<and> flag_unset ''open'' as"

text \<open>The texts on the screen, and what the user can do there.\<close>

primrec texts :: "'e node \<Rightarrow> string list" where
  "texts (Text s) = [s]"
| "texts (El tag as ks) = (if closed_dialog tag as then [] else List.concat (map texts ks))"

fun attr_events :: "'e attr \<Rightarrow> 'e list" where
  "attr_events (On e) = [e]"
| "attr_events _ = []"

fun attr_links :: "'e attr \<Rightarrow> link list" where
  "attr_links (To l) = [l]"
| "attr_links _ = []"

text \<open>The element holds a submit button that is not disabled.\<close>

definition submit_button :: "(string \<times> 'e attr) list \<Rightarrow> bool" where
  "submit_button as \<longleftrightarrow> list_ex (\<lambda>(k, a). k = ''type'' \<and> (case a of Str s \<Rightarrow> s = ''submit'' | _ \<Rightarrow> False)) as \<and>
     \<not> flag_set ''disabled'' as"

primrec can_submit :: "'e node \<Rightarrow> bool" where
  "can_submit (Text s) = False"
| "can_submit (El tag as ks) = (submit_button as \<or> list_ex (\<lambda>b. b) (map can_submit ks))"

text \<open>
  The events of the handlers that take no value, on elements that are not disabled: clicking a
  button or a menu's item, and submitting a form, by its button or by the enter key unless that
  button is disabled. Handlers that take a value (typing, ticking a checkbox, a dialog that is
  closed by its cross, the escape key or a click beside it) are not counted here; the runs of
  the pages let the library call them at any time.
\<close>

primrec clicks :: "'e node \<Rightarrow> 'e list" where
  "clicks (Text s) = []"
| "clicks (El tag as ks) =
     (if closed_dialog tag as then []
      else (if flag_set ''disabled'' as \<or> (tag = ''form'' \<and> \<not> list_ex can_submit ks) then []
            else List.concat (map (attr_events \<circ> snd) as)) @
        List.concat (map clicks ks))"

primrec links :: "'e node \<Rightarrow> link list" where
  "links (Text s) = []"
| "links (El tag as ks) =
     (if closed_dialog tag as then []
      else List.concat (map (attr_links \<circ> snd) as) @ List.concat (map links ks))"

lemmas view_simps = closed_dialog_def flag_set_def flag_unset_def show_if_def submit_button_def

section \<open>Page pieces\<close>

text \<open>\<open>routes/admin/page-header.tsx\<close>.\<close>

definition page_header :: "string \<Rightarrow> 'e node list \<Rightarrow> 'e node list \<Rightarrow> 'e node" where
  "page_header title description actions =
     El ''div'' []
       ([El ''div'' []
          ([El ''h1'' [] [Text title]] @
           show_if (description \<noteq> []) [El ''p'' [] description])] @
        show_if (actions \<noteq> []) [El ''div'' [] actions])"

text \<open>\<open>components/copy.tsx\<close>, where it is used.\<close>

definition CopyValue :: "string \<Rightarrow> string option \<Rightarrow> 'e node" where
  "CopyValue value display =
     El ''CopyValue'' ((''value'', Str value) # (case display of None \<Rightarrow> [] | Some d \<Rightarrow> [(''display'', Str d)])) []"

definition Command :: "string \<Rightarrow> 'e node" where
  "Command s = El ''Command'' [] [Text s]"

definition error_line :: "api_error \<Rightarrow> 'e node" where
  "error_line e = El ''p'' [] [Text (error_message e)]"

definition alert_line :: "mutation \<Rightarrow> 'e node list" where
  "alert_line m =
     (case m of Refused e \<Rightarrow> [El ''p'' [(''role'', Str ''alert'')] [Text (error_message e)]] | _ \<Rightarrow> [])"

text \<open>\<open>components/logo.tsx\<close>: the mark, and the mark with the name.\<close>

definition logo_mark :: "string option \<Rightarrow> 'e node" where
  "logo_mark cls =
     El ''svg'' [(''viewBox'', Str ''0 0 32 32''), (''aria-hidden'', Str ''true''), (''className'', Str (''size-7 '' @ coalesce cls ''''))]
       [El ''rect'' [(''width'', Str ''32''), (''height'', Str ''32''), (''rx'', Str ''8'')] [],
        El ''g'' [(''strokeWidth'', Str ''2''), (''strokeLinecap'', Str ''round''), (''opacity'', Str ''0.55'')]
          [El ''path'' [(''d'', Str ''M10 21.5 16 10.5 22 21.5Z''), (''fill'', Str ''none'')] []],
        El ''g'' []
          [El ''circle'' [(''cx'', Str ''16''), (''cy'', Str ''10.5''), (''r'', Str ''3'')] [],
           El ''circle'' [(''cx'', Str ''10''), (''cy'', Str ''21.5''), (''r'', Str ''3'')] [],
           El ''circle'' [(''cx'', Str ''22''), (''cy'', Str ''21.5''), (''r'', Str ''3'')] []]]"

definition logo :: "string option \<Rightarrow> 'e node" where
  "logo cls = El ''span'' [(''className'', Str (coalesce cls ''''))] [logo_mark None, El ''span'' [] [Text ''Mesh2Mesh'']]"

text \<open>\<open>routes/not-found.tsx\<close>.\<close>

definition not_found_page :: "'e node" where
  "not_found_page =
     El ''div'' []
       [logo_mark (Some ''size-10''),
        El ''h1'' [] [Text ''Page not found''],
        El ''p'' [] [Text ''There is nothing at this address.''],
        El ''Button'' [(''variant'', Str ''outline''), (''asChild'', Flag True)]
          [El ''Link'' [(''to'', To (link_to ''/'' []))] [Text ''Back home'']]]"

end
