(* ===== verification/CurrentTenant.thy ===== *)
theory CurrentTenant
  imports View
begin

text \<open>
  What the console keeps in the browser: \<open>localStorage\<close>, the tenant the user looks at
  (\<open>src/web/src/frontend/lib/current-tenant.ts\<close>) and the theme
  (\<open>src/web/src/frontend/lib/theme.ts\<close>). Both treat a storage that throws, on reading or
  on writing, as one that holds nothing; they share the contract \<open>persisted\<close>.
\<close>

section \<open>localStorage\<close>

record storage =
  items :: "(string \<times> string) list"
  can_read :: bool
  can_write :: bool

definition get_item :: "storage \<Rightarrow> string \<Rightarrow> string option outcome" where
  "get_item s k = (if can_read s then Inr (lookup (items s) k) else Inl ''SecurityError'')"

definition set_item :: "storage \<Rightarrow> string \<Rightarrow> string \<Rightarrow> storage outcome" where
  "set_item s k v = (if can_write s then Inr (s\<lparr>items := (k, v) # items s\<rparr>) else Inl ''QuotaExceededError'')"

text \<open>A write whose exception is swallowed.\<close>

definition try_set_item :: "string \<Rightarrow> string \<Rightarrow> storage \<Rightarrow> storage" where
  "try_set_item k v s = (case set_item s k v of Inl e \<Rightarrow> s | Inr s' \<Rightarrow> s')"

lemma get_try_set:
  "get_item (try_set_item k v s) k' =
     (if k' = k \<and> can_write s \<and> can_read s then Inr (Some v) else get_item s k')"
  by (simp add: get_item_def try_set_item_def set_item_def)

lemma try_set_usable [simp]:
  "can_read (try_set_item k v s) = can_read s" "can_write (try_set_item k v s) = can_write s"
  by (simp_all add: try_set_item_def set_item_def)

definition usable :: "storage \<Rightarrow> bool" where
  "usable s \<longleftrightarrow> can_read s \<and> can_write s"

text \<open>
  A setting persisted under a key: \<open>load\<close> reads what \<open>save\<close> wrote when the storage works,
  sees nothing else than its key, and a write to another key leaves it.
\<close>

locale persisted =
  fixes key :: string
    and encode :: "'a \<Rightarrow> string"
    and decode :: "string option \<Rightarrow> 'b"
    and load :: "storage \<Rightarrow> 'b"
  assumes load_ok: "get_item s key = Inr v \<Longrightarrow> load s = decode v"
    and load_fail: "get_item s key = Inl e \<Longrightarrow> load s = decode None"
begin

definition save :: "'a \<Rightarrow> storage \<Rightarrow> storage" where
  "save v = try_set_item key (encode v)"

lemma load_save: "usable s \<Longrightarrow> load (save v s) = decode (Some (encode v))"
  by (rule load_ok) (simp add: save_def get_try_set usable_def)

lemma load_other: "k \<noteq> key \<Longrightarrow> load (try_set_item k x s) = load s"
  using get_try_set [of k x s key] load_ok load_fail by (cases "get_item s key") (simp, metis)+

lemma load_unwritable: "\<not> can_write s \<Longrightarrow> load (save v s) = load s"
  by (simp add: save_def try_set_item_def set_item_def)

lemma load_saves: "usable s \<Longrightarrow> load (fold save (vs @ [v]) s) = decode (Some (encode v))"
proof -
  assume "usable s"
  then have "usable (fold save vs s)"
    by (induction vs arbitrary: s) (simp_all add: save_def usable_def)
  then show ?thesis by (simp add: load_save)
qed

end

section \<open>current-tenant.ts\<close>

definition tenant_key :: string where
  "tenant_key = ''m2m-tenant''"

definition remembered :: "storage \<Rightarrow> string option" where
  "remembered s = (case get_item s tenant_key of Inl e \<Rightarrow> None | Inr v \<Rightarrow> v)"

definition current_tenant :: "tenant list query \<Rightarrow> string option \<Rightarrow> storage \<Rightarrow> tenant option" where
  "current_tenant q from_url s =
     (let wanted = or_else from_url (remembered s) in
      (case query_data q of
         None \<Rightarrow> None
       | Some ts \<Rightarrow> or_else (List.find (\<lambda>t. Some (t_id t) = wanted) ts) (case ts of [] \<Rightarrow> None | t # _ \<Rightarrow> Some t)))"

text \<open>The effect that runs when the current tenant changes.\<close>

definition remember_current :: "tenant option \<Rightarrow> storage \<Rightarrow> storage" where
  "remember_current current s =
     (case current of None \<Rightarrow> s | Some t \<Rightarrow> try_set_item tenant_key (t_id t) s)"

interpretation tenant_memory: persisted tenant_key "\<lambda>i. i" "\<lambda>v. v" remembered
  by unfold_locales (simp_all add: remembered_def)

lemma remember_save: "remember_current (Some t) s = tenant_memory.save (t_id t) s"
  by (simp add: remember_current_def tenant_memory.save_def)

lemma find_id: "distinct (map t_id ts) \<Longrightarrow> t \<in> set ts \<Longrightarrow> List.find (\<lambda>x. t_id x = t_id t) ts = Some t"
  by (induction ts) (auto simp: image_iff)

lemma current_in: "current_tenant q url s = Some t \<Longrightarrow> \<exists>ts. query_data q = Some ts \<and> t \<in> set ts"
proof -
  assume "current_tenant q url s = Some t"
  then obtain ts where ts: "query_data q = Some ts"
    "or_else (List.find (\<lambda>t. Some (t_id t) = or_else url (remembered s)) ts) (case ts of [] \<Rightarrow> None | x # _ \<Rightarrow> Some x) = Some t"
    by (auto simp: current_tenant_def Let_def split: option.splits)
  have "t \<in> set ts"
  proof (cases "List.find (\<lambda>t. Some (t_id t) = or_else url (remembered s)) ts")
    case None
    then show ?thesis using ts(2) by (cases ts) auto
  next
    case (Some x)
    then show ?thesis using ts(2) find_Some_set [OF Some] by simp
  qed
  with ts show ?thesis by blast
qed

text \<open>
  The tenant the console shows is one of the user's, the one the address asks for when
  it is theirs, and the choice sticks: once shown, with a working storage, it is still the
  current tenant on pages whose address names none, as long as the user belongs to it.
\<close>
theorem current_tenant_sticks:
  assumes cur: "current_tenant q url s = Some t" and s: "usable s"
    and q': "query_data q' = Some ts'" "t \<in> set ts'" "distinct (map t_id ts')"
  shows "(\<exists>ts. query_data q = Some ts \<and> t \<in> set ts \<and>
      (\<forall>t' \<in> set ts. url = Some (t_id t') \<longrightarrow> t_id t = t_id t')) \<and>
    current_tenant q' None (remember_current (Some t) s) = Some t"
proof
  obtain ts where ts: "query_data q = Some ts" "t \<in> set ts" using current_in [OF cur] by blast
  have "t_id t = t_id t'" if "t' \<in> set ts" "url = Some (t_id t')" for t'
  proof -
    have "List.find (\<lambda>x. Some (t_id x) = url) ts \<noteq> None"
      using that by (auto simp: find_None_set)
    then obtain x where "List.find (\<lambda>x. Some (t_id x) = url) ts = Some x" by blast
    then show ?thesis using cur ts that by (auto simp: current_tenant_def dest: find_Some_set)
  qed
  with ts show "\<exists>ts. query_data q = Some ts \<and> t \<in> set ts \<and> (\<forall>t' \<in> set ts. url = Some (t_id t') \<longrightarrow> t_id t = t_id t')"
    by blast
  have "remembered (remember_current (Some t) s) = Some (t_id t)"
    unfolding remember_save by (rule tenant_memory.load_save [OF s])
  then show "current_tenant q' None (remember_current (Some t) s) = Some t"
    using q' find_id [of ts' t] by (simp add: current_tenant_def)
qed

definition demo_tenant :: tenant where
  "demo_tenant =
     \<lparr>t_id = demo_tenant_id, t_name = ''acme'', t_cidr = ''10.203.0.0/16'',
      t_created_at = ''2026-01-01T00:00:00Z'', t_role = Owner\<rparr>"

definition other_tenant :: tenant where
  "other_tenant =
     \<lparr>t_id = ''1b4e28ba-2fa1-41d2-883f-0016d3cca427'', t_name = ''lab'', t_cidr = ''10.204.0.0/16'',
      t_created_at = ''2026-01-02T00:00:00Z'', t_role = Member\<rparr>"

definition empty_storage :: storage where
  "empty_storage = \<lparr>items = [], can_read = True, can_write = True\<rparr>"

theorem current_tenant_sticks_witness:
  "current_tenant (Success [demo_tenant, other_tenant]) (Some (t_id other_tenant)) empty_storage = Some other_tenant \<and>
   current_tenant (Success [demo_tenant, other_tenant]) None
     (remember_current (Some other_tenant) empty_storage) = Some other_tenant"
proof -
  let ?q = "Success [demo_tenant, other_tenant]"
  have c: "current_tenant ?q (Some (t_id other_tenant)) empty_storage = Some other_tenant"
    by (simp add: current_tenant_def demo_tenant_def other_tenant_def demo_tenant_id_def)
  have "current_tenant ?q None (remember_current (Some other_tenant) empty_storage) = Some other_tenant"
    using current_tenant_sticks [OF c, of ?q "[demo_tenant, other_tenant]"]
    by (simp add: usable_def empty_storage_def demo_tenant_def other_tenant_def demo_tenant_id_def)
  with c show ?thesis by simp
qed

section \<open>theme.ts\<close>

datatype theme = Light | Dark | System

fun show_theme :: "theme \<Rightarrow> string" where
  "show_theme Light = ''light''"
| "show_theme Dark = ''dark''"
| "show_theme System = ''system''"

definition theme_key :: string where
  "theme_key = ''m2m-theme''"

definition theme_of :: "string option \<Rightarrow> theme" where
  "theme_of v = (if v = Some ''light'' then Light else if v = Some ''dark'' then Dark else System)"

definition stored_theme :: "storage \<Rightarrow> theme" where
  "stored_theme s = (case get_item s theme_key of Inl e \<Rightarrow> System | Inr v \<Rightarrow> theme_of v)"

text \<open>
  The module's variable, the media query, the class on the document, the subscribed
  components and those called back, the last one first.
\<close>

record theme_state =
  th_storage :: storage
  th_current :: theme
  th_prefers_dark :: bool
  th_dark_class :: bool
  th_listeners :: "nat list"
  th_called :: "nat list"

definition apply_theme :: "theme_state \<Rightarrow> theme_state" where
  "apply_theme st =
     st\<lparr>th_dark_class := (th_current st = Dark \<or> (th_current st = System \<and> th_prefers_dark st))\<rparr>"

definition load_theme :: "storage \<Rightarrow> bool \<Rightarrow> theme_state" where
  "load_theme s prefers =
     apply_theme \<lparr>th_storage = s, th_current = stored_theme s, th_prefers_dark = prefers,
       th_dark_class = False, th_listeners = [], th_called = []\<rparr>"

definition set_theme :: "theme \<Rightarrow> theme_state \<Rightarrow> theme_state" where
  "set_theme t st =
     (let st1 = st\<lparr>th_current := t\<rparr>;
          st2 = st1\<lparr>th_storage := try_set_item theme_key (show_theme t) (th_storage st1)\<rparr>;
          st3 = apply_theme st2
      in st3\<lparr>th_called := rev (th_listeners st3) @ th_called st3\<rparr>)"

datatype theme_event =
    SetTheme theme
  | MediaChange bool
  | Subscribe nat
  | Unsubscribe nat
  | ReloadPage

fun theme_step :: "theme_event \<Rightarrow> theme_state \<Rightarrow> theme_state" where
  "theme_step (SetTheme t) st = set_theme t st"
| "theme_step (MediaChange b) st = apply_theme (st\<lparr>th_prefers_dark := b\<rparr>)"
| "theme_step (Subscribe l) st =
     (if l \<in> set (th_listeners st) then st else st\<lparr>th_listeners := th_listeners st @ [l]\<rparr>)"
| "theme_step (Unsubscribe l) st = st\<lparr>th_listeners := filter (\<lambda>x. x \<noteq> l) (th_listeners st)\<rparr>"
| "theme_step ReloadPage st = load_theme (th_storage st) (th_prefers_dark st)"

interpretation theme_memory: persisted theme_key show_theme theme_of stored_theme
  by unfold_locales (simp_all add: stored_theme_def theme_of_def)

lemma theme_of_show [simp]: "theme_of (Some (show_theme t)) = t"
  by (cases t) (simp_all add: theme_of_def)

text \<open>What holds of every reachable theme state.\<close>

definition theme_ok :: "theme_state \<Rightarrow> bool" where
  "theme_ok st \<longleftrightarrow>
     th_dark_class st = (th_current st = Dark \<or> (th_current st = System \<and> th_prefers_dark st)) \<and>
     (usable (th_storage st) \<longrightarrow> stored_theme (th_storage st) = th_current st)"

lemma load_theme_ok: "theme_ok (load_theme s prefers)"
  by (simp add: theme_ok_def load_theme_def apply_theme_def)

lemma theme_step_ok: "theme_ok st \<Longrightarrow> theme_ok (theme_step e st)"
proof (cases e)
  case (SetTheme t)
  have "usable (th_storage st) \<Longrightarrow> stored_theme (try_set_item theme_key (show_theme t) (th_storage st)) = t"
    using theme_memory.load_save [of "th_storage st" t] by (simp add: theme_memory.save_def)
  then show ?thesis
    by (auto simp: SetTheme theme_ok_def set_theme_def apply_theme_def Let_def usable_def)
next
  case ReloadPage
  then show ?thesis by (simp add: load_theme_ok)
qed (auto simp: theme_ok_def apply_theme_def)

lemma theme_run_ok: "theme_ok st \<Longrightarrow> theme_ok (fold theme_step es st)"
  by (induction es arbitrary: st) (simp_all add: theme_step_ok)

lemma storage_usable_step: "usable (th_storage (theme_step e st)) = usable (th_storage st)"
  by (cases e) (simp_all add: set_theme_def apply_theme_def load_theme_def usable_def Let_def)

lemma storage_usable_run: "usable (th_storage (fold theme_step es st)) = usable (th_storage st)"
  by (induction es arbitrary: st) (simp_all add: storage_usable_step)

text \<open>
  The page is dark when it should be, and the choice survives a reload. After any
  sequence of theme choices, changes of the system preference, subscriptions and reloads,
  the dark class is on exactly when the theme is dark, or is the system's and the system
  prefers dark; and with a working storage a reload keeps the theme and the class.
\<close>
theorem theme_follows_choice:
  assumes st: "st = fold theme_step es (load_theme s prefers)"
  shows "th_dark_class st = (th_current st = Dark \<or> (th_current st = System \<and> th_prefers_dark st)) \<and>
    (usable s \<longrightarrow>
       th_current (theme_step ReloadPage st) = th_current st \<and>
       th_dark_class (theme_step ReloadPage st) = th_dark_class st)"
proof -
  have ok: "theme_ok st" unfolding st by (intro theme_run_ok load_theme_ok)
  moreover have "usable s \<Longrightarrow> usable (th_storage st)"
    unfolding st storage_usable_run by (simp add: load_theme_def apply_theme_def)
  ultimately show ?thesis by (auto simp: theme_ok_def load_theme_def apply_theme_def)
qed

theorem theme_follows_choice_witness:
  "th_current (theme_step ReloadPage (fold theme_step [SetTheme Dark, MediaChange False] (load_theme empty_storage True))) =
   th_current (fold theme_step [SetTheme Dark, MediaChange False] (load_theme empty_storage True))"
  using theme_follows_choice [OF refl, of "[SetTheme Dark, MediaChange False]" empty_storage True]
  by (simp only: empty_storage_def usable_def storage.simps simp_thms)

end
