(* ===== verification/Components.thy ===== *)
theory Components
  imports CurrentTenant
begin

text \<open>
  The component library of the console, \<open>components/ui\<close>: every component as the function
  from its props and children to the element it returns, and the drawing of a page, which
  replaces the components of the library by what they return.

  As in \<open>View\<close> the constant class names are left out (\<open>cn\<close> and \<open>cva\<close> only join them); the
  \<open>className\<close> a caller gives is passed on. The primitives of radix-ui and the icons are
  packages: they stay elements, \<open>Slot.Root\<close> among them, which merges the props of a
  component drawn \<open>asChild\<close> into its child. A prop that is \<open>undefined\<close> is absent.
\<close>

section \<open>Props\<close>

type_synonym 'e props = "(string \<times> 'e attr) list"

text \<open>The rest of the props when some are taken out of them by name, as in \<open>{ size, ...props }\<close>.\<close>

definition rest_props :: "string list \<Rightarrow> 'e props \<Rightarrow> 'e props" where
  "rest_props ks as = filter (\<lambda>(k, a). k \<notin> set ks) as"

text \<open>A prop with a default, \<open>size = "default"\<close>; one without; and a boolean one.\<close>

definition prop_or :: "string \<Rightarrow> 'e attr \<Rightarrow> 'e props \<Rightarrow> 'e attr" where
  "prop_or k d as = (case lookup as k of None \<Rightarrow> d | Some a \<Rightarrow> a)"

definition prop_as :: "string \<Rightarrow> string \<Rightarrow> 'e props \<Rightarrow> 'e props" where
  "prop_as name k as = (case lookup as k of None \<Rightarrow> [] | Some a \<Rightarrow> [(name, a)])"

definition flag_prop :: "string \<Rightarrow> bool \<Rightarrow> 'e props \<Rightarrow> bool" where
  "flag_prop k d as = (case lookup as k of None \<Rightarrow> d | Some (Flag b) \<Rightarrow> b | Some (Str s) \<Rightarrow> s \<noteq> '''' | _ \<Rightarrow> True)"

definition slot :: "string \<Rightarrow> string \<times> 'e attr" where
  "slot s = (''data-slot'', Str s)"

text \<open>\<open><tag data-slot=... {...props} />\<close>: the props follow, so they win.\<close>

definition element :: "string \<Rightarrow> 'e props \<Rightarrow> 'e props \<Rightarrow> 'e node list \<Rightarrow> 'e node" where
  "element tag own as ks = El tag (spread own as) ks"

section \<open>avatar.tsx\<close>

definition Avatar :: "'e props \<Rightarrow> 'e node list \<Rightarrow> 'e node" where
  "Avatar as ks = element ''AvatarPrimitive.Root'' [slot ''avatar'', (''data-size'', prop_or ''size'' (Str ''default'') as)]
     (rest_props [''size''] as) ks"

definition AvatarImage :: "'e props \<Rightarrow> 'e node list \<Rightarrow> 'e node" where
  "AvatarImage as ks = element ''AvatarPrimitive.Image'' [slot ''avatar-image''] as ks"

definition AvatarFallback :: "'e props \<Rightarrow> 'e node list \<Rightarrow> 'e node" where
  "AvatarFallback as ks = element ''AvatarPrimitive.Fallback'' [slot ''avatar-fallback''] as ks"

definition AvatarBadge :: "'e props \<Rightarrow> 'e node list \<Rightarrow> 'e node" where
  "AvatarBadge as ks = element ''span'' [slot ''avatar-badge''] as ks"

definition AvatarGroup :: "'e props \<Rightarrow> 'e node list \<Rightarrow> 'e node" where
  "AvatarGroup as ks = element ''div'' [slot ''avatar-group''] as ks"

definition AvatarGroupCount :: "'e props \<Rightarrow> 'e node list \<Rightarrow> 'e node" where
  "AvatarGroupCount as ks = element ''div'' [slot ''avatar-group-count''] as ks"

section \<open>badge.tsx and button.tsx\<close>

definition Badge :: "'e props \<Rightarrow> 'e node list \<Rightarrow> 'e node" where
  "Badge as ks =
     element (if flag_prop ''asChild'' False as then ''Slot.Root'' else ''span'')
       [slot ''badge'', (''data-variant'', prop_or ''variant'' (Str ''default'') as)]
       (rest_props [''variant'', ''asChild''] as) ks"

definition Button :: "'e props \<Rightarrow> 'e node list \<Rightarrow> 'e node" where
  "Button as ks =
     element (if flag_prop ''asChild'' False as then ''Slot.Root'' else ''button'')
       [slot ''button'', (''data-variant'', prop_or ''variant'' (Str ''default'') as),
        (''data-size'', prop_or ''size'' (Str ''default'') as)]
       (rest_props [''variant'', ''size'', ''asChild''] as) ks"

section \<open>card.tsx\<close>

definition Card :: "'e props \<Rightarrow> 'e node list \<Rightarrow> 'e node" where
  "Card as ks = element ''div'' [slot ''card'', (''data-size'', prop_or ''size'' (Str ''default'') as)]
     (rest_props [''size''] as) ks"

definition CardHeader :: "'e props \<Rightarrow> 'e node list \<Rightarrow> 'e node" where
  "CardHeader as ks = element ''div'' [slot ''card-header''] as ks"

definition CardTitle :: "'e props \<Rightarrow> 'e node list \<Rightarrow> 'e node" where
  "CardTitle as ks = element ''div'' [slot ''card-title''] as ks"

definition CardDescription :: "'e props \<Rightarrow> 'e node list \<Rightarrow> 'e node" where
  "CardDescription as ks = element ''div'' [slot ''card-description''] as ks"

definition CardAction :: "'e props \<Rightarrow> 'e node list \<Rightarrow> 'e node" where
  "CardAction as ks = element ''div'' [slot ''card-action''] as ks"

definition CardContent :: "'e props \<Rightarrow> 'e node list \<Rightarrow> 'e node" where
  "CardContent as ks = element ''div'' [slot ''card-content''] as ks"

definition CardFooter :: "'e props \<Rightarrow> 'e node list \<Rightarrow> 'e node" where
  "CardFooter as ks = element ''div'' [slot ''card-footer''] as ks"

section \<open>checkbox.tsx\<close>

definition Checkbox :: "'e props \<Rightarrow> 'e node list \<Rightarrow> 'e node" where
  "Checkbox as ks =
     element ''CheckboxPrimitive.Root'' [slot ''checkbox''] as
       [El ''CheckboxPrimitive.Indicator'' [slot ''checkbox-indicator''] [El ''CheckIcon'' [] []]]"

section \<open>dialog.tsx\<close>

definition Dialog :: "'e props \<Rightarrow> 'e node list \<Rightarrow> 'e node" where
  "Dialog as ks = element ''DialogPrimitive.Root'' [slot ''dialog''] as ks"

definition DialogTrigger :: "'e props \<Rightarrow> 'e node list \<Rightarrow> 'e node" where
  "DialogTrigger as ks = element ''DialogPrimitive.Trigger'' [slot ''dialog-trigger''] as ks"

definition DialogPortal :: "'e props \<Rightarrow> 'e node list \<Rightarrow> 'e node" where
  "DialogPortal as ks = element ''DialogPrimitive.Portal'' [slot ''dialog-portal''] as ks"

definition DialogClose :: "'e props \<Rightarrow> 'e node list \<Rightarrow> 'e node" where
  "DialogClose as ks = element ''DialogPrimitive.Close'' [slot ''dialog-close''] as ks"

definition DialogOverlay :: "'e props \<Rightarrow> 'e node list \<Rightarrow> 'e node" where
  "DialogOverlay as ks = element ''DialogPrimitive.Overlay'' [slot ''dialog-overlay''] as ks"

text \<open>The cross in the corner, whose label is for screen readers, unless \<open>showCloseButton\<close> is false.\<close>

definition DialogContent :: "'e props \<Rightarrow> 'e node list \<Rightarrow> 'e node" where
  "DialogContent as ks =
     DialogPortal []
       [DialogOverlay [] [],
        element ''DialogPrimitive.Content'' [slot ''dialog-content''] (rest_props [''showCloseButton''] as)
          (ks @
           show_if (flag_prop ''showCloseButton'' True as)
             [El ''DialogPrimitive.Close'' [slot ''dialog-close'', (''asChild'', Flag True)]
               [Button [(''variant'', Str ''ghost''), (''size'', Str ''icon-sm'')]
                 [El ''XIcon'' [] [], El ''span'' [] [Text ''Close'']]]])]"

definition DialogHeader :: "'e props \<Rightarrow> 'e node list \<Rightarrow> 'e node" where
  "DialogHeader as ks = element ''div'' [slot ''dialog-header''] as ks"

definition DialogFooter :: "'e props \<Rightarrow> 'e node list \<Rightarrow> 'e node" where
  "DialogFooter as ks =
     element ''div'' [slot ''dialog-footer''] (rest_props [''showCloseButton''] as)
       (ks @
        show_if (flag_prop ''showCloseButton'' False as)
          [El ''DialogPrimitive.Close'' [(''asChild'', Flag True)]
            [Button [(''variant'', Str ''outline'')] [Text ''Close'']]])"

definition DialogTitle :: "'e props \<Rightarrow> 'e node list \<Rightarrow> 'e node" where
  "DialogTitle as ks = element ''DialogPrimitive.Title'' [slot ''dialog-title''] as ks"

definition DialogDescription :: "'e props \<Rightarrow> 'e node list \<Rightarrow> 'e node" where
  "DialogDescription as ks = element ''DialogPrimitive.Description'' [slot ''dialog-description''] as ks"

section \<open>dropdown-menu.tsx\<close>

definition DropdownMenu :: "'e props \<Rightarrow> 'e node list \<Rightarrow> 'e node" where
  "DropdownMenu as ks = element ''DropdownMenuPrimitive.Root'' [slot ''dropdown-menu''] as ks"

definition DropdownMenuPortal :: "'e props \<Rightarrow> 'e node list \<Rightarrow> 'e node" where
  "DropdownMenuPortal as ks = element ''DropdownMenuPrimitive.Portal'' [slot ''dropdown-menu-portal''] as ks"

definition DropdownMenuTrigger :: "'e props \<Rightarrow> 'e node list \<Rightarrow> 'e node" where
  "DropdownMenuTrigger as ks = element ''DropdownMenuPrimitive.Trigger'' [slot ''dropdown-menu-trigger''] as ks"

definition DropdownMenuContent :: "'e props \<Rightarrow> 'e node list \<Rightarrow> 'e node" where
  "DropdownMenuContent as ks =
     El ''DropdownMenuPrimitive.Portal'' []
       [element ''DropdownMenuPrimitive.Content''
          [slot ''dropdown-menu-content'', (''sideOffset'', prop_or ''sideOffset'' (Str ''4'') as),
           (''align'', prop_or ''align'' (Str ''start'') as)]
          (rest_props [''align'', ''sideOffset''] as) ks]"

definition DropdownMenuGroup :: "'e props \<Rightarrow> 'e node list \<Rightarrow> 'e node" where
  "DropdownMenuGroup as ks = element ''DropdownMenuPrimitive.Group'' [slot ''dropdown-menu-group''] as ks"

definition DropdownMenuItem :: "'e props \<Rightarrow> 'e node list \<Rightarrow> 'e node" where
  "DropdownMenuItem as ks =
     element ''DropdownMenuPrimitive.Item''
       (slot ''dropdown-menu-item'' # prop_as ''data-inset'' ''inset'' as @
        [(''data-variant'', prop_or ''variant'' (Str ''default'') as)])
       (rest_props [''inset'', ''variant''] as) ks"

text \<open>The check mark that a checkbox item and a radio item put before their children.\<close>

definition item_indicator :: "string \<Rightarrow> 'e node" where
  "item_indicator s =
     El ''span'' [slot s] [El ''DropdownMenuPrimitive.ItemIndicator'' [] [El ''CheckIcon'' [] []]]"

definition DropdownMenuCheckboxItem :: "'e props \<Rightarrow> 'e node list \<Rightarrow> 'e node" where
  "DropdownMenuCheckboxItem as ks =
     element ''DropdownMenuPrimitive.CheckboxItem''
       (slot ''dropdown-menu-checkbox-item'' # prop_as ''data-inset'' ''inset'' as @ prop_as ''checked'' ''checked'' as)
       (rest_props [''checked'', ''inset''] as)
       (item_indicator ''dropdown-menu-checkbox-item-indicator'' # ks)"

definition DropdownMenuRadioGroup :: "'e props \<Rightarrow> 'e node list \<Rightarrow> 'e node" where
  "DropdownMenuRadioGroup as ks = element ''DropdownMenuPrimitive.RadioGroup'' [slot ''dropdown-menu-radio-group''] as ks"

definition DropdownMenuRadioItem :: "'e props \<Rightarrow> 'e node list \<Rightarrow> 'e node" where
  "DropdownMenuRadioItem as ks =
     element ''DropdownMenuPrimitive.RadioItem''
       (slot ''dropdown-menu-radio-item'' # prop_as ''data-inset'' ''inset'' as)
       (rest_props [''inset''] as)
       (item_indicator ''dropdown-menu-radio-item-indicator'' # ks)"

definition DropdownMenuLabel :: "'e props \<Rightarrow> 'e node list \<Rightarrow> 'e node" where
  "DropdownMenuLabel as ks =
     element ''DropdownMenuPrimitive.Label'' (slot ''dropdown-menu-label'' # prop_as ''data-inset'' ''inset'' as)
       (rest_props [''inset''] as) ks"

definition DropdownMenuSeparator :: "'e props \<Rightarrow> 'e node list \<Rightarrow> 'e node" where
  "DropdownMenuSeparator as ks = element ''DropdownMenuPrimitive.Separator'' [slot ''dropdown-menu-separator''] as ks"

definition DropdownMenuShortcut :: "'e props \<Rightarrow> 'e node list \<Rightarrow> 'e node" where
  "DropdownMenuShortcut as ks = element ''span'' [slot ''dropdown-menu-shortcut''] as ks"

definition DropdownMenuSub :: "'e props \<Rightarrow> 'e node list \<Rightarrow> 'e node" where
  "DropdownMenuSub as ks = element ''DropdownMenuPrimitive.Sub'' [slot ''dropdown-menu-sub''] as ks"

definition DropdownMenuSubTrigger :: "'e props \<Rightarrow> 'e node list \<Rightarrow> 'e node" where
  "DropdownMenuSubTrigger as ks =
     element ''DropdownMenuPrimitive.SubTrigger''
       (slot ''dropdown-menu-sub-trigger'' # prop_as ''data-inset'' ''inset'' as)
       (rest_props [''inset''] as) (ks @ [El ''ChevronRightIcon'' [] []])"

definition DropdownMenuSubContent :: "'e props \<Rightarrow> 'e node list \<Rightarrow> 'e node" where
  "DropdownMenuSubContent as ks = element ''DropdownMenuPrimitive.SubContent'' [slot ''dropdown-menu-sub-content''] as ks"

section \<open>input.tsx, label.tsx, separator.tsx, skeleton.tsx\<close>

definition Input :: "'e props \<Rightarrow> 'e node list \<Rightarrow> 'e node" where
  "Input as ks =
     element ''input'' (prop_as ''type'' ''type'' as @ [slot ''input'']) (rest_props [''type''] as) ks"

definition Label :: "'e props \<Rightarrow> 'e node list \<Rightarrow> 'e node" where
  "Label as ks = element ''LabelPrimitive.Root'' [slot ''label''] as ks"

definition Separator :: "'e props \<Rightarrow> 'e node list \<Rightarrow> 'e node" where
  "Separator as ks =
     element ''SeparatorPrimitive.Root''
       [slot ''separator'', (''decorative'', prop_or ''decorative'' (Flag True) as),
        (''orientation'', prop_or ''orientation'' (Str ''horizontal'') as)]
       (rest_props [''orientation'', ''decorative''] as) ks"

definition Skeleton :: "'e props \<Rightarrow> 'e node list \<Rightarrow> 'e node" where
  "Skeleton as ks = element ''div'' [slot ''skeleton''] as ks"

section \<open>sonner.tsx\<close>

text \<open>The icon of each kind of toast; the styles of the toasts are left out.\<close>

definition toast_icons :: "(string \<times> string) list" where
  "toast_icons =
     [(''success'', ''CircleCheckIcon''), (''info'', ''InfoIcon''), (''warning'', ''TriangleAlertIcon''),
      (''error'', ''OctagonXIcon''), (''loading'', ''Loader2Icon'')]"

definition Toaster :: "theme \<Rightarrow> 'e props \<Rightarrow> 'e node list \<Rightarrow> 'e node" where
  "Toaster theme as ks =
     element ''Sonner''
       ((''theme'', Str (show_theme theme)) # map (\<lambda>(k, i). (''icons.'' @ k, Str i)) toast_icons) as ks"

section \<open>table.tsx\<close>

definition Table :: "'e props \<Rightarrow> 'e node list \<Rightarrow> 'e node" where
  "Table as ks =
     El ''div'' [slot ''table-container''] [element ''table'' [slot ''table''] as ks]"

definition TableHeader :: "'e props \<Rightarrow> 'e node list \<Rightarrow> 'e node" where
  "TableHeader as ks = element ''thead'' [slot ''table-header''] as ks"

definition TableBody :: "'e props \<Rightarrow> 'e node list \<Rightarrow> 'e node" where
  "TableBody as ks = element ''tbody'' [slot ''table-body''] as ks"

definition TableFooter :: "'e props \<Rightarrow> 'e node list \<Rightarrow> 'e node" where
  "TableFooter as ks = element ''tfoot'' [slot ''table-footer''] as ks"

definition TableRow :: "'e props \<Rightarrow> 'e node list \<Rightarrow> 'e node" where
  "TableRow as ks = element ''tr'' [slot ''table-row''] as ks"

definition TableHead :: "'e props \<Rightarrow> 'e node list \<Rightarrow> 'e node" where
  "TableHead as ks = element ''th'' [slot ''table-head''] as ks"

definition TableCell :: "'e props \<Rightarrow> 'e node list \<Rightarrow> 'e node" where
  "TableCell as ks = element ''td'' [slot ''table-cell''] as ks"

definition TableCaption :: "'e props \<Rightarrow> 'e node list \<Rightarrow> 'e node" where
  "TableCaption as ks = element ''caption'' [slot ''table-caption''] as ks"

section \<open>tooltip.tsx\<close>

definition TooltipProvider :: "'e props \<Rightarrow> 'e node list \<Rightarrow> 'e node" where
  "TooltipProvider as ks =
     element ''TooltipPrimitive.Provider''
       [slot ''tooltip-provider'', (''delayDuration'', prop_or ''delayDuration'' (Str ''0'') as)]
       (rest_props [''delayDuration''] as) ks"

definition Tooltip :: "'e props \<Rightarrow> 'e node list \<Rightarrow> 'e node" where
  "Tooltip as ks = element ''TooltipPrimitive.Root'' [slot ''tooltip''] as ks"

definition TooltipTrigger :: "'e props \<Rightarrow> 'e node list \<Rightarrow> 'e node" where
  "TooltipTrigger as ks = element ''TooltipPrimitive.Trigger'' [slot ''tooltip-trigger''] as ks"

definition TooltipContent :: "'e props \<Rightarrow> 'e node list \<Rightarrow> 'e node" where
  "TooltipContent as ks =
     El ''TooltipPrimitive.Portal'' []
       [element ''TooltipPrimitive.Content''
          [slot ''tooltip-content'', (''sideOffset'', prop_or ''sideOffset'' (Str ''0'') as)]
          (rest_props [''sideOffset''] as) (ks @ [El ''TooltipPrimitive.Arrow'' [] []])]"

section \<open>Drawing\<close>

text \<open>What each imported name is bound to, and the page with the library's components replaced.\<close>

definition ui_library :: "theme \<Rightarrow> (string \<times> ('e props \<Rightarrow> 'e node list \<Rightarrow> 'e node)) list" where
  "ui_library theme =
     [(''Avatar'', Avatar), (''AvatarImage'', AvatarImage), (''AvatarFallback'', AvatarFallback),
      (''AvatarBadge'', AvatarBadge), (''AvatarGroup'', AvatarGroup), (''AvatarGroupCount'',
      AvatarGroupCount), (''Badge'', Badge), (''Button'', Button), (''Card'', Card), (''CardHeader'',
      CardHeader), (''CardTitle'', CardTitle), (''CardDescription'', CardDescription),
      (''CardAction'', CardAction), (''CardContent'', CardContent), (''CardFooter'', CardFooter),
      (''Checkbox'', Checkbox), (''Dialog'', Dialog), (''DialogTrigger'', DialogTrigger),
      (''DialogPortal'', DialogPortal), (''DialogClose'', DialogClose), (''DialogOverlay'',
      DialogOverlay), (''DialogContent'', DialogContent), (''DialogHeader'', DialogHeader),
      (''DialogFooter'', DialogFooter), (''DialogTitle'', DialogTitle), (''DialogDescription'',
      DialogDescription), (''DropdownMenu'', DropdownMenu), (''DropdownMenuPortal'',
      DropdownMenuPortal), (''DropdownMenuTrigger'', DropdownMenuTrigger), (''DropdownMenuContent'',
      DropdownMenuContent), (''DropdownMenuGroup'', DropdownMenuGroup), (''DropdownMenuItem'',
      DropdownMenuItem), (''DropdownMenuCheckboxItem'', DropdownMenuCheckboxItem),
      (''DropdownMenuRadioGroup'', DropdownMenuRadioGroup), (''DropdownMenuRadioItem'',
      DropdownMenuRadioItem), (''DropdownMenuLabel'', DropdownMenuLabel), (''DropdownMenuSeparator'',
      DropdownMenuSeparator), (''DropdownMenuShortcut'', DropdownMenuShortcut), (''DropdownMenuSub'',
      DropdownMenuSub), (''DropdownMenuSubTrigger'', DropdownMenuSubTrigger),
      (''DropdownMenuSubContent'', DropdownMenuSubContent), (''Input'', Input), (''Label'', Label),
      (''Separator'', Separator), (''Skeleton'', Skeleton), (''Table'', Table), (''TableHeader'',
      TableHeader), (''TableBody'', TableBody), (''TableFooter'', TableFooter), (''TableRow'',
      TableRow), (''TableHead'', TableHead), (''TableCell'', TableCell), (''TableCaption'',
      TableCaption), (''TooltipProvider'', TooltipProvider), (''Tooltip'', Tooltip),
      (''TooltipTrigger'', TooltipTrigger), (''TooltipContent'', TooltipContent),
      (''Toaster'', Toaster theme)]"

primrec draw :: "theme \<Rightarrow> 'e node \<Rightarrow> 'e node" where
  "draw theme (Text s) = Text s"
| "draw theme (El tag as ks) =
     (case lookup (ui_library theme) tag of
        None \<Rightarrow> El tag as (map (draw theme) ks)
      | Some C \<Rightarrow> C as (map (draw theme) ks))"

lemmas ui_defs = Avatar_def AvatarImage_def AvatarFallback_def AvatarBadge_def AvatarGroup_def AvatarGroupCount_def Badge_def Button_def Card_def CardHeader_def CardTitle_def CardDescription_def CardAction_def CardContent_def CardFooter_def Checkbox_def Dialog_def DialogTrigger_def DialogPortal_def DialogClose_def DialogOverlay_def DialogContent_def DialogHeader_def DialogFooter_def DialogTitle_def DialogDescription_def DropdownMenu_def DropdownMenuPortal_def DropdownMenuTrigger_def DropdownMenuContent_def DropdownMenuGroup_def DropdownMenuItem_def DropdownMenuCheckboxItem_def DropdownMenuRadioGroup_def DropdownMenuRadioItem_def DropdownMenuLabel_def DropdownMenuSeparator_def DropdownMenuShortcut_def DropdownMenuSub_def DropdownMenuSubTrigger_def DropdownMenuSubContent_def Input_def Label_def Separator_def Skeleton_def Table_def TableHeader_def TableBody_def TableFooter_def TableRow_def TableHead_def TableCell_def TableCaption_def TooltipProvider_def Tooltip_def TooltipTrigger_def TooltipContent_def Toaster_def

section \<open>A drawn page does what the page says\<close>

text \<open>
  The types of the props, as far as it matters: no key twice, what a component takes out of
  its props for itself is neither a handler nor a link, and a checkbox has no children.
\<close>

definition own_props :: "string list" where
  "own_props =
     [''asChild'', ''variant'', ''size'', ''showCloseButton'', ''align'', ''sideOffset'', ''inset'', ''checked'', ''type'',
      ''orientation'', ''decorative'', ''delayDuration'']"

definition plain_attr :: "string \<times> 'e attr \<Rightarrow> bool" where
  "plain_attr a = (case snd a of Str s \<Rightarrow> True | Flag b \<Rightarrow> True | _ \<Rightarrow> False)"

definition typed_props :: "'e props \<Rightarrow> bool" where
  "typed_props as \<longleftrightarrow> distinct (map fst as) \<and> list_all (\<lambda>a. fst a \<in> set own_props \<longrightarrow> plain_attr a) as"

primrec typed_page :: "'e node \<Rightarrow> bool" where
  "typed_page (Text s) = True"
| "typed_page (El tag as ks) =
     (typed_props as \<and> (tag = ''Checkbox'' \<longrightarrow> ks = []) \<and> list_all (\<lambda>b. b) (map typed_page ks))"

primrec tags :: "'e node \<Rightarrow> string list" where
  "tags (Text s) = []"
| "tags (El tag as ks) = tag # List.concat (map tags ks)"

definition handlers :: "'e props \<Rightarrow> 'e list" where
  "handlers as = List.concat (map (attr_events \<circ> snd) as)"

definition targets :: "'e props \<Rightarrow> link list" where
  "targets as = List.concat (map (attr_links \<circ> snd) as)"

lemma handlers_append [simp]: "handlers (a @ b) = handlers a @ handlers b"
  and targets_append [simp]: "targets (a @ b) = targets a @ targets b"
  by (simp_all add: handlers_def targets_def)

lemma plain_quiet:
  "list_all plain_attr as \<Longrightarrow> handlers as = []" "list_all plain_attr as \<Longrightarrow> targets as = []"
  by (induction as) (auto simp: handlers_def targets_def plain_attr_def split: attr.splits)

text \<open>The props a component sets itself are plain, and none is the state of an element.\<close>

definition own_quiet :: "'e props \<Rightarrow> bool" where
  "own_quiet own \<longleftrightarrow> list_all plain_attr own \<and> list_all (\<lambda>a. fst a \<notin> {''disabled'', ''open''}) own"

definition own_ok :: "'e props \<Rightarrow> bool" where
  "own_ok own \<longleftrightarrow> own_quiet own \<and> list_all (\<lambda>a. fst a \<noteq> ''type'') own"

lemma list_all_filter: "list_all P xs \<Longrightarrow> list_all P (filter Q xs)"
  by (auto simp: list_all_iff)

lemma plain_spread:
  assumes "own_quiet own"
  shows "handlers (spread own as) = handlers as" "targets (spread own as) = targets as"
  using assms by (simp_all add: spread_def own_quiet_def plain_quiet list_all_filter)

lemma flags_spread:
  assumes "own_quiet own"
  shows "flag_set ''disabled'' (spread own as) = flag_set ''disabled'' as"
    "flag_unset ''open'' (spread own as) = flag_unset ''open'' as"
  using assms by (auto simp: spread_def own_quiet_def flag_set_def flag_unset_def list_all_iff list_ex_iff)

lemma rest_quiet:
  assumes "typed_props as" "set ks \<subseteq> set own_props"
  shows "handlers (rest_props ks as) = handlers as" "targets (rest_props ks as) = targets as"
proof -
  have "handlers (filter (\<lambda>(k, a). k \<notin> set ks) as) = handlers as \<and>
      targets (filter (\<lambda>(k, a). k \<notin> set ks) as) = targets as"
    if "list_all (\<lambda>a. fst a \<in> set own_props \<longrightarrow> plain_attr a) as" for as :: "'a props"
    using that assms(2)
    by (induction as) (auto simp: handlers_def targets_def plain_attr_def split: attr.splits)
  then show "handlers (rest_props ks as) = handlers as" "targets (rest_props ks as) = targets as"
    using assms(1) by (simp_all add: typed_props_def rest_props_def)
qed

lemma rest_flags:
  assumes "k \<notin> set ks"
  shows "flag_set k (rest_props ks as) = flag_set k as" "flag_unset k (rest_props ks as) = flag_unset k as"
  using assms by (auto simp: rest_props_def flag_set_def flag_unset_def list_ex_iff)


lemma state_not_own: "''disabled'' \<notin> set own_props" "''open'' \<notin> set own_props"
  by code_simp+

lemma rest_Nil: "as = rest_props [] as"
  by (simp add: rest_props_def)

lemma submit_spread:
  assumes "own_ok own"
  shows "submit_button (spread own as) = submit_button as"
proof -
  have q: "own_quiet own" using assms by (simp add: own_ok_def)
  have "list_ex (\<lambda>(k, a). k = ''type'' \<and> Q a) (filter R own) = False" for Q R
    using assms [unfolded own_ok_def, THEN conjunct2] by (induction own) auto
  then show ?thesis unfolding submit_button_def flags_spread [OF q] by (simp add: spread_def)
qed

lemma submit_rest:
  assumes "''type'' \<notin> set ks" "''disabled'' \<notin> set ks"
  shows "submit_button (rest_props ks as) = submit_button as"
proof -
  have "list_ex (\<lambda>(k, a). k = ''type'' \<and> Q a) (rest_props ks as) = list_ex (\<lambda>(k, a). k = ''type'' \<and> Q a) as" for Q
    using assms(1) by (induction as) (auto simp: rest_props_def)
  then show ?thesis using assms(2) by (simp add: submit_button_def rest_flags)
qed

text \<open>Nothing that can be seen or done differs, but for the label of the button that closes a dialog.\<close>

definition labels :: "'e node list \<Rightarrow> string list" where
  "labels ns = filter (\<lambda>s. s \<noteq> ''Close'') (List.concat (map texts ns))"

definition same_view :: "'e node list \<Rightarrow> 'e node list \<Rightarrow> bool" where
  "same_view ns ns' \<longleftrightarrow>
     List.concat (map clicks ns) = List.concat (map clicks ns') \<and>
     List.concat (map links ns) = List.concat (map links ns') \<and>
     list_ex can_submit ns = list_ex can_submit ns' \<and> labels ns = labels ns'"

lemma same_view_refl [intro, simp]: "same_view ns ns"
  by (simp add: same_view_def)

lemma same_view_trans: "same_view a b \<Longrightarrow> same_view b c \<Longrightarrow> same_view a c"
  by (simp add: same_view_def)

lemma same_view_append: "same_view a b \<Longrightarrow> same_view c d \<Longrightarrow> same_view (a @ c) (b @ d)"
  by (simp add: same_view_def labels_def)

lemma same_view_silent:
  "same_view s [] \<Longrightarrow> same_view (s @ ks) ks" "same_view s [] \<Longrightarrow> same_view (ks @ s) ks"
  by (simp_all add: same_view_def labels_def)

text \<open>An element in place of another: with props of its own, and with what replaces its children.\<close>

lemma same_view_El:
  assumes "same_view ks ks'" "handlers as = handlers as'" "targets as = targets as'"
    "flag_set ''disabled'' as = flag_set ''disabled'' as'" "submit_button as = submit_button as'"
    "tag = ''form'' \<longleftrightarrow> tag' = ''form''" "closed_dialog tag as = closed_dialog tag' as'"
  shows "same_view [El tag as ks] [El tag' as' ks']"
  using assms by (simp add: same_view_def labels_def handlers_def targets_def list_ex_iff)

lemma same_view_element:
  assumes "typed_props as" "own_ok own" "set out \<subseteq> set own_props - {''type''}" "same_view ks' ks"
    "tag \<noteq> ''form''" "tag' \<noteq> ''form''" "tag = ''Dialog'' \<longleftrightarrow> tag' = ''DialogPrimitive.Root''"
    "tag \<noteq> ''DialogPrimitive.Root''" "tag' \<noteq> ''Dialog''"
  shows "same_view [element tag' own (rest_props out as) ks'] [El tag as ks]"
proof -
  have out: "set out \<subseteq> set own_props" "''type'' \<notin> set out" "''disabled'' \<notin> set out" "''open'' \<notin> set out"
    using assms(3) state_not_own by blast+
  have q: "own_quiet own" using assms(2) by (simp add: own_ok_def)
  show ?thesis unfolding element_def
  proof (rule same_view_El [OF assms(4)])
    show "handlers (spread own (rest_props out as)) = handlers as" "targets (spread own (rest_props out as)) = targets as"
      by (simp_all only: plain_spread [OF q] rest_quiet [OF assms(1) out(1)])
    show "flag_set ''disabled'' (spread own (rest_props out as)) = flag_set ''disabled'' as"
      by (simp only: flags_spread [OF q] rest_flags [OF out(3)])
    show "submit_button (spread own (rest_props out as)) = submit_button as"
      by (simp only: submit_spread [OF assms(2)] submit_rest [OF out(2,3)])
    show "tag' = ''form'' \<longleftrightarrow> tag = ''form''" using assms(5,6) by simp
    have "flag_unset ''open'' (spread own (rest_props out as)) = flag_unset ''open'' as"
      by (simp only: flags_spread [OF q] rest_flags [OF out(4)])
    then show "closed_dialog tag' (spread own (rest_props out as)) = closed_dialog tag as"
      using assms(7-9) by (auto simp: closed_dialog_def)
  qed
qed

lemmas same_view_props = same_view_element [where out = "[]", unfolded rest_Nil [symmetric]]

lemma lookup_plain:
  assumes "typed_props as" "k \<in> set own_props" "lookup as k = Some a"
  shows "plain_attr (k', a)"
proof -
  have "(k, a) \<in> set as" using assms(3) by (auto simp: lookup_map_of intro: map_of_SomeD)
  then show ?thesis using assms(1,2) by (auto simp: typed_props_def list_all_iff plain_attr_def)
qed

lemma own_ok_simps [simp]:
  "own_ok []" "own_ok (slot s # own) \<longleftrightarrow> own_ok own" "own_ok (a @ b) \<longleftrightarrow> own_ok a \<and> own_ok b"
  "own_ok ((k, Str s) # own) \<longleftrightarrow> k \<notin> {''disabled'', ''open'', ''type''} \<and> own_ok own"
  by (auto simp: own_ok_def own_quiet_def slot_def plain_attr_def)

lemma own_ok_prop:
  assumes "typed_props as" "k \<in> set own_props" "k' \<notin> {''disabled'', ''open'', ''type''}"
  shows "plain_attr (k, d) \<Longrightarrow> own_ok own \<Longrightarrow> own_ok ((k', prop_or k d as) # own)" "own_ok (prop_as k' k as)"
  using assms lookup_plain [OF assms(1,2), of _ k']
  by (auto simp: own_ok_def own_quiet_def prop_or_def prop_as_def plain_attr_def split: option.splits)

definition faithful :: "string \<times> ('e props \<Rightarrow> 'e node list \<Rightarrow> 'e node) \<Rightarrow> bool" where
  "faithful c \<longleftrightarrow> (\<forall>as ks. typed_props as \<longrightarrow> (fst c = ''Checkbox'' \<longrightarrow> ks = []) \<longrightarrow>
     same_view [snd c as ks] [El (fst c) as ks])"

lemma faithfulI:
  "(\<And>as ks. typed_props as \<Longrightarrow> (tag = ''Checkbox'' \<Longrightarrow> ks = []) \<Longrightarrow> same_view [C as ks] [El tag as ks]) \<Longrightarrow> faithful (tag, C)"
  by (auto simp: faithful_def)

lemma faithful_plain:
  assumes "\<And>as ks. C as ks = element tag' [slot s] as ks"
    "tag \<noteq> ''form''" "tag' \<noteq> ''form''" "tag = ''Dialog'' \<longleftrightarrow> tag' = ''DialogPrimitive.Root''"
    "tag \<noteq> ''DialogPrimitive.Root''" "tag' \<noteq> ''Dialog''"
  shows "faithful (tag, C)"
  using assms by (intro faithfulI) (auto intro!: same_view_props)

lemma faithful_plain_ui:
  "faithful (''AvatarImage'', AvatarImage)" "faithful (''AvatarFallback'', AvatarFallback)"
  "faithful (''AvatarBadge'', AvatarBadge)" "faithful (''AvatarGroup'', AvatarGroup)"
  "faithful (''AvatarGroupCount'', AvatarGroupCount)" "faithful (''CardHeader'', CardHeader)"
  "faithful (''CardTitle'', CardTitle)" "faithful (''CardDescription'', CardDescription)"
  "faithful (''CardAction'', CardAction)" "faithful (''CardContent'', CardContent)"
  "faithful (''CardFooter'', CardFooter)" "faithful (''Dialog'', Dialog)"
  "faithful (''DialogTrigger'', DialogTrigger)" "faithful (''DialogPortal'', DialogPortal)"
  "faithful (''DialogClose'', DialogClose)" "faithful (''DialogOverlay'', DialogOverlay)"
  "faithful (''DialogHeader'', DialogHeader)" "faithful (''DialogTitle'', DialogTitle)"
  "faithful (''DialogDescription'', DialogDescription)" "faithful (''DropdownMenu'', DropdownMenu)"
  "faithful (''DropdownMenuPortal'', DropdownMenuPortal)"
  "faithful (''DropdownMenuTrigger'', DropdownMenuTrigger)"
  "faithful (''DropdownMenuGroup'', DropdownMenuGroup)"
  "faithful (''DropdownMenuRadioGroup'', DropdownMenuRadioGroup)"
  "faithful (''DropdownMenuSeparator'', DropdownMenuSeparator)"
  "faithful (''DropdownMenuShortcut'', DropdownMenuShortcut)"
  "faithful (''DropdownMenuSub'', DropdownMenuSub)"
  "faithful (''DropdownMenuSubContent'', DropdownMenuSubContent)" "faithful (''Label'', Label)"
  "faithful (''Skeleton'', Skeleton)" "faithful (''TableHeader'', TableHeader)"
  "faithful (''TableBody'', TableBody)" "faithful (''TableFooter'', TableFooter)"
  "faithful (''TableRow'', TableRow)" "faithful (''TableHead'', TableHead)"
  "faithful (''TableCell'', TableCell)" "faithful (''TableCaption'', TableCaption)"
  "faithful (''Tooltip'', Tooltip)" "faithful (''TooltipTrigger'', TooltipTrigger)"
  by (rule faithful_plain, rule ui_defs, simp_all)+

lemma faithful_own_props:
  "faithful (''Avatar'', Avatar)" "faithful (''Badge'', Badge)" "faithful (''Button'', Button)"
  "faithful (''Card'', Card)" "faithful (''DropdownMenuItem'', DropdownMenuItem)"
  "faithful (''DropdownMenuLabel'', DropdownMenuLabel)" "faithful (''Separator'', Separator)"
  "faithful (''TooltipProvider'', TooltipProvider)"
  by (rule faithfulI, unfold ui_defs, rule same_view_element;
      simp add: own_ok_prop own_props_def plain_attr_def)+

text \<open>What the components draw beside their children says and does nothing, but for the closing button.\<close>

lemma same_view_silent_nodes:
  "same_view [item_indicator sl] []" "same_view [El ''ChevronRightIcon'' [] []] []"
  "same_view [El ''TooltipPrimitive.Arrow'' [] []] []" "same_view [DialogOverlay [] []] []"
  "same_view [El ''DialogPrimitive.Close'' (slot sl # [(''asChild'', Flag True)]) [Button [(''variant'', Str v), (''size'', Str z)]
      [El ''XIcon'' [] [], El ''span'' [] [Text ''Close'']]]] []"
  "same_view [El ''DialogPrimitive.Close'' [(''asChild'', Flag True)] [Button [(''variant'', Str v)] [Text ''Close'']]] []"
  by (simp_all add: same_view_def labels_def item_indicator_def DialogOverlay_def Button_def element_def
      spread_def slot_def view_simps prop_or_def flag_prop_def rest_props_def)

lemma same_view_wrap:
  "tag \<notin> {''form'', ''Dialog'', ''DialogPrimitive.Root''} \<Longrightarrow> submit_button as = False \<Longrightarrow> list_all plain_attr as \<Longrightarrow>
    same_view [El tag as ks] ks"
  by (simp add: same_view_def labels_def closed_dialog_def plain_quiet [unfolded handlers_def] plain_quiet [unfolded targets_def] list_ex_iff)

lemma same_view_wrapped:
  "tag \<notin> {''form'', ''Dialog'', ''DialogPrimitive.Root''} \<Longrightarrow> same_view ks ks' \<Longrightarrow> same_view [El tag [] ks] ks'"
  by (rule same_view_trans [OF same_view_wrap]) (simp_all add: submit_button_def)

lemma same_view_Cons: "same_view [s] [] \<Longrightarrow> same_view ks ks' \<Longrightarrow> same_view (s # ks) ks'"
  using same_view_append [of "[s]" "[]" ks ks'] by simp

lemma same_view_show_if: "same_view ns [] \<Longrightarrow> same_view (ks @ show_if b ns) ks"
  by (simp add: show_if_def same_view_silent)

lemma faithful_menu_items:
  "faithful (''DropdownMenuCheckboxItem'', DropdownMenuCheckboxItem)"
  "faithful (''DropdownMenuRadioItem'', DropdownMenuRadioItem)"
  "faithful (''DropdownMenuSubTrigger'', DropdownMenuSubTrigger)"
  by (rule faithfulI, unfold ui_defs, rule same_view_element;
      simp add: own_ok_prop own_props_def plain_attr_def same_view_Cons same_view_silent same_view_silent_nodes)+

lemma faithful_footer: "faithful (''DialogFooter'', DialogFooter)"
  by (rule faithfulI, unfold DialogFooter_def, rule same_view_element;
      simp add: own_props_def same_view_show_if same_view_silent_nodes)+

lemma same_view_table:
  "typed_props as \<Longrightarrow> same_view [Table as ks] [El ''Table'' as ks]"
  unfolding Table_def
  by (rule same_view_trans [OF same_view_wrap same_view_props])
     (simp_all add: slot_def submit_button_def plain_attr_def)

lemma faithful_wrapped:
  "faithful (''DropdownMenuContent'', DropdownMenuContent)" "faithful (''TooltipContent'', TooltipContent)"
  by (rule faithfulI, unfold ui_defs, rule same_view_wrapped, simp, rule same_view_element;
      simp add: own_ok_prop own_props_def plain_attr_def same_view_silent same_view_silent_nodes)+

lemma faithful_content: "faithful (''DialogContent'', DialogContent)"
proof (rule faithfulI)
  fix as :: "'e props" and ks assume as: "typed_props as"
  have "same_view [element ''DialogPrimitive.Content'' [slot ''dialog-content''] (rest_props [''showCloseButton''] as)
      (ks @ show_if (flag_prop ''showCloseButton'' True as)
        [El ''DialogPrimitive.Close'' [slot ''dialog-close'', (''asChild'', Flag True)]
          [Button [(''variant'', Str ''ghost''), (''size'', Str ''icon-sm'')]
            [El ''XIcon'' [] [], El ''span'' [] [Text ''Close'']]]])] [El ''DialogContent'' as ks]"
    using as by (rule same_view_element) (simp_all add: own_props_def same_view_show_if same_view_silent_nodes)
  from same_view_Cons [OF same_view_silent_nodes(4) this]
  show "same_view [DialogContent as ks] [El ''DialogContent'' as ks]"
    unfolding DialogContent_def DialogPortal_def element_def [of "''DialogPrimitive.Portal''"]
    by (intro same_view_trans [OF same_view_wrap]) (simp_all add: spread_def slot_def submit_button_def plain_attr_def)
qed

lemma faithful_checkbox: "faithful (''Checkbox'', Checkbox)"
  by (rule faithfulI, unfold Checkbox_def, rule same_view_props)
     (simp_all add: same_view_def labels_def slot_def closed_dialog_def submit_button_def)

lemma faithful_toaster: "faithful (''Toaster'', Toaster th)"
  by (rule faithfulI, unfold Toaster_def, rule same_view_props) (simp_all add: toast_icons_def)

text \<open>An input takes its type out of the props and puts it back.\<close>

lemma list_ex_key:
  assumes "distinct (map fst as)"
  shows "list_ex (\<lambda>(k, a). k = x \<and> Q a) as = (case lookup as x of None \<Rightarrow> False | Some a \<Rightarrow> Q a)"
proof -
  have "list_ex (\<lambda>(k, a). k = x \<and> Q a) as \<longleftrightarrow> (\<exists>a. map_of as x = Some a \<and> Q a)"
    using assms by (auto simp: list_ex_iff map_of_eq_Some_iff)
  then show ?thesis by (auto simp: lookup_map_of split: option.splits)
qed

lemma faithful_input: "faithful (''Input'', Input)"
proof (rule faithfulI)
  fix as :: "'e props" and ks assume as: "typed_props as"
  define own :: "'e props" where "own = prop_as ''type'' ''type'' as @ [slot ''input'']"
  have q: "own_quiet own"
    using lookup_plain [OF as, of "''type''" _ "''type''"]
    by (auto simp: own_def own_quiet_def prop_as_def slot_def plain_attr_def own_props_def split: option.splits)
  have free: "lookup (rest_props [''type''] as) ''type'' = None"
    by (auto simp: rest_props_def lookup_filter_keys)
  have no_type: "list_ex (\<lambda>(k, a). k = ''type'' \<and> Q a) (rest_props [''type''] as) = False" for Q
    by (auto simp: rest_props_def list_ex_iff)
  have "list_ex (\<lambda>(k, a). k = ''type'' \<and> Q a) (spread own (rest_props [''type''] as)) =
      list_ex (\<lambda>(k, a). k = ''type'' \<and> Q a) as" for Q
    using as free by (simp add: spread_def no_type list_ex_key typed_props_def)
      (auto simp: own_def prop_as_def slot_def split: option.splits)
  moreover have "flag_set ''disabled'' (spread own (rest_props [''type''] as)) = flag_set ''disabled'' as"
    "handlers (spread own (rest_props [''type''] as)) = handlers as" "targets (spread own (rest_props [''type''] as)) = targets as"
    by (simp_all add: flags_spread [OF q] rest_flags plain_spread [OF q] rest_quiet [OF as] own_props_def)
  ultimately show "same_view [Input as ks] [El ''Input'' as ks]"
    unfolding Input_def element_def own_def [symmetric]
    by (intro same_view_El) (simp_all add: submit_button_def closed_dialog_def)
qed

lemma ui_faithful: "list_all faithful (ui_library th)"
  unfolding ui_library_def list.pred_inject
  by (intro conjI TrueI faithful_plain_ui faithful_own_props faithful_menu_items faithful_footer faithful_wrapped
      faithful_content faithful_checkbox faithful_toaster faithful_input)
     (simp_all add: faithful_def same_view_table)

lemma same_view_map:
  "(\<And>k. k \<in> set ks \<Longrightarrow> same_view [f k] [k]) \<Longrightarrow> same_view (map f ks) ks"
proof (induction ks)
  case (Cons k ks)
  have "same_view [f k] [k]" "same_view (map f ks) ks" using Cons by simp_all
  from same_view_append [OF this] show ?case by simp
qed simp

lemma faithful_lookup:
  "lookup (ui_library th) tag = Some C \<Longrightarrow> typed_props as \<Longrightarrow> (tag = ''Checkbox'' \<Longrightarrow> ks = []) \<Longrightarrow>
    same_view [C as ks] [El tag as ks]"
  using ui_faithful [of th] map_of_SomeD [of "ui_library th" tag C]
  by (auto simp: lookup_map_of list_all_iff faithful_def)

lemma draw_same_view: "typed_page n \<Longrightarrow> same_view [draw th n] [n]"
proof (induction n)
  case (El tag as ks)
  then have typed: "typed_props as" "tag = ''Checkbox'' \<Longrightarrow> map (draw th) ks = []"
    and kids: "same_view (map (draw th) ks) ks"
    by (auto simp: list_all_iff intro: same_view_map)
  have same: "same_view [El tag as (map (draw th) ks)] [El tag as ks]"
    by (rule same_view_El [OF kids]) simp_all
  show ?case
  proof (cases "lookup (ui_library th :: (string \<times> ('a props \<Rightarrow> 'a node list \<Rightarrow> 'a node)) list) tag")
    case None
    then show ?thesis using same by simp
  next
    case (Some C)
    from same_view_trans [OF faithful_lookup [OF Some typed] same] show ?thesis by (simp add: Some)
  qed
qed simp

text \<open>What is left in a drawn page: elements of HTML, of radix-ui, of sonner, and icons.\<close>

definition primitives :: "string list" where
  "primitives =
     [''AvatarPrimitive.Fallback'', ''AvatarPrimitive.Image'', ''AvatarPrimitive.Root'',
      ''CheckIcon'', ''CheckboxPrimitive.Indicator'', ''CheckboxPrimitive.Root'',
      ''ChevronRightIcon'', ''DialogPrimitive.Close'', ''DialogPrimitive.Content'',
      ''DialogPrimitive.Description'', ''DialogPrimitive.Overlay'', ''DialogPrimitive.Portal'',
      ''DialogPrimitive.Root'', ''DialogPrimitive.Title'', ''DialogPrimitive.Trigger'',
      ''DropdownMenuPrimitive.CheckboxItem'', ''DropdownMenuPrimitive.Content'',
      ''DropdownMenuPrimitive.Group'', ''DropdownMenuPrimitive.Item'',
      ''DropdownMenuPrimitive.ItemIndicator'', ''DropdownMenuPrimitive.Label'',
      ''DropdownMenuPrimitive.Portal'', ''DropdownMenuPrimitive.RadioGroup'',
      ''DropdownMenuPrimitive.RadioItem'', ''DropdownMenuPrimitive.Root'',
      ''DropdownMenuPrimitive.Separator'', ''DropdownMenuPrimitive.Sub'',
      ''DropdownMenuPrimitive.SubContent'', ''DropdownMenuPrimitive.SubTrigger'',
      ''DropdownMenuPrimitive.Trigger'', ''LabelPrimitive.Root'', ''SeparatorPrimitive.Root'',
      ''Slot.Root'', ''Sonner'', ''TooltipPrimitive.Arrow'', ''TooltipPrimitive.Content'',
      ''TooltipPrimitive.Portal'', ''TooltipPrimitive.Provider'', ''TooltipPrimitive.Root'',
      ''TooltipPrimitive.Trigger'', ''XIcon'', ''button'', ''caption'', ''div'', ''input'', ''span'',
      ''table'', ''tbody'', ''td'', ''tfoot'', ''th'', ''thead'', ''tr'']"

definition ui_names :: "string list" where
  "ui_names =
     [''Avatar'', ''AvatarImage'', ''AvatarFallback'', ''AvatarBadge'', ''AvatarGroup'',
      ''AvatarGroupCount'', ''Badge'', ''Button'', ''Card'', ''CardHeader'', ''CardTitle'',
      ''CardDescription'', ''CardAction'', ''CardContent'', ''CardFooter'', ''Checkbox'', ''Dialog'',
      ''DialogTrigger'', ''DialogPortal'', ''DialogClose'', ''DialogOverlay'', ''DialogContent'',
      ''DialogHeader'', ''DialogFooter'', ''DialogTitle'', ''DialogDescription'', ''DropdownMenu'',
      ''DropdownMenuPortal'', ''DropdownMenuTrigger'', ''DropdownMenuContent'',
      ''DropdownMenuGroup'', ''DropdownMenuItem'', ''DropdownMenuCheckboxItem'',
      ''DropdownMenuRadioGroup'', ''DropdownMenuRadioItem'', ''DropdownMenuLabel'',
      ''DropdownMenuSeparator'', ''DropdownMenuShortcut'', ''DropdownMenuSub'',
      ''DropdownMenuSubTrigger'', ''DropdownMenuSubContent'', ''Input'', ''Label'', ''Separator'',
      ''Skeleton'', ''Table'', ''TableHeader'', ''TableBody'', ''TableFooter'', ''TableRow'',
      ''TableHead'', ''TableCell'', ''TableCaption'', ''TooltipProvider'', ''Tooltip'',
      ''TooltipTrigger'', ''TooltipContent'', ''Toaster'']"

lemma ui_names: "map fst (ui_library th) = ui_names"
  by (simp add: ui_names_def ui_library_def)

lemma lookup_ui_None:
  "lookup (ui_library th :: (string \<times> ('e props \<Rightarrow> 'e node list \<Rightarrow> 'e node)) list) t = None \<longleftrightarrow> t \<notin> set ui_names"
proof -
  have "set (map fst (ui_library th :: (string \<times> ('e props \<Rightarrow> 'e node list \<Rightarrow> 'e node)) list)) = set ui_names"
    by (simp only: ui_names)
  then show ?thesis by (simp add: lookup_map_of map_of_eq_None_iff)
qed

lemma primitive_not_ui: "t \<in> set primitives \<Longrightarrow> t \<notin> set ui_names"
proof -
  have "list_all (\<lambda>t. t \<notin> set ui_names) primitives" by code_simp
  then show "t \<in> set primitives \<Longrightarrow> t \<notin> set ui_names" by (simp add: list_all_iff)
qed

definition draws :: "string set \<Rightarrow> string \<times> ('e props \<Rightarrow> 'e node list \<Rightarrow> 'e node) \<Rightarrow> bool" where
  "draws T c \<longleftrightarrow> (\<forall>as ks. set (tags (snd c as ks)) \<subseteq> T \<union> set (List.concat (map tags ks)))"

lemma ui_draws:
  assumes "list_all (\<lambda>t. t \<in> T) primitives"
  shows "list_all (draws T) (ui_library th)"
  using assms
  unfolding ui_library_def list.pred_inject draws_def snd_conv primitives_def
  by (simp add: ui_defs element_def item_indicator_def show_if_def)

lemma draw_tags: "set (tags (draw th n)) \<subseteq> set primitives \<union> (set (tags n) - set ui_names)"
proof (induction n)
  case (El tag as ks)
  then have kids: "set (List.concat (map tags (map (draw th) ks))) \<subseteq>
      set primitives \<union> (set (List.concat (map tags ks)) - set ui_names)"
    by auto
  show ?case
  proof (cases "lookup (ui_library th :: (string \<times> ('a props \<Rightarrow> 'a node list \<Rightarrow> 'a node)) list) tag")
    case None
    then have "tag \<notin> set ui_names" by (simp add: lookup_ui_None)
    then show ?thesis using kids by (auto simp: None)
  next
    case (Some C)
    then have "(tag, C) \<in> set (ui_library th)" by (simp add: lookup_map_of map_of_SomeD)
    then have "draws (set primitives) (tag, C)"
      using ui_draws [of "set primitives" th] by (auto simp: list_all_iff)
    then have "set (tags (C as (map (draw th) ks))) \<subseteq> set primitives \<union> set (List.concat (map tags (map (draw th) ks)))"
      unfolding draws_def snd_conv by blast
    then show ?thesis using kids by (auto simp: Some)
  qed
qed simp

end
