(* ===== verification/Shell.thy ===== *)
theory Shell
  imports JsRegex
begin

text \<open>
  \<open>src/web/src/frontend/lib/shell.ts\<close>: quoting one argument for the commands the
  console shows, against the rules of the shell they are pasted into (POSIX: quote
  removal and field splitting on blanks, as \<open>sh_words\<close>; \<open>None\<close> for an unclosed quote
  and for any unquoted character that means something else to a shell).
\<close>

definition shell_safe :: "char \<Rightarrow> bool" where
  "shell_safe c \<longleftrightarrow> is_word c \<or> c \<in> set ''@%+=:,./-''"

definition escape_quote :: "char \<Rightarrow> string" where
  "escape_quote c = (if c = CHR 0x27 then [CHR 0x27, CHR 0x5C, CHR 0x27, CHR 0x27] else [c])"

definition shell_arg :: "string \<Rightarrow> string" where
  "shell_arg s =
     (if re_test [Rep shell_safe 1 None] s then s
      else [CHR 0x27] @ List.concat (map escape_quote s) @ [CHR 0x27])"

section \<open>The shell\<close>

definition sh_blank :: "char \<Rightarrow> bool" where
  "sh_blank c \<longleftrightarrow> c = CHR '' '' \<or> c = CHR 0x09"

text \<open>Characters that stand for themselves outside quotes, after the command's name.\<close>

definition sh_plain :: "char \<Rightarrow> bool" where
  "sh_plain c \<longleftrightarrow> 32 < (of_char c :: nat) \<and> c \<notin> set ''|&;<>()$`*?[]{}#~!^'' \<and>
     c \<noteq> CHR 0x22 \<and> c \<noteq> CHR 0x27 \<and> c \<noteq> CHR 0x5C \<and> (of_char c :: nat) \<noteq> 127"

text \<open>Outside quotes, with the word begun so far; and inside single quotes.\<close>

fun sh_lex :: "string option \<Rightarrow> string \<Rightarrow> string list option"
and sh_quoted :: "string \<Rightarrow> string \<Rightarrow> string list option" where
  "sh_lex cur [] = Some (case cur of None \<Rightarrow> [] | Some w \<Rightarrow> [w])"
| "sh_lex cur (c # s) =
     (if sh_blank c
      then (case cur of None \<Rightarrow> sh_lex None s | Some w \<Rightarrow> map_option ((#) w) (sh_lex None s))
      else if c = CHR 0x27 then sh_quoted (coalesce cur []) s
      else if c = CHR 0x5C
      then (case s of [] \<Rightarrow> None | d # r \<Rightarrow> if d = CHR 0x0A then sh_lex cur r else sh_lex (Some (coalesce cur [] @ [d])) r)
      else if sh_plain c then sh_lex (Some (coalesce cur [] @ [c])) s
      else None)"
| "sh_quoted w [] = None"
| "sh_quoted w (c # s) = (if c = CHR 0x27 then sh_lex (Some w) s else sh_quoted (w @ [c]) s)"

definition sh_words :: "string \<Rightarrow> string list option" where
  "sh_words = sh_lex None"

section \<open>Quoting is undone by the shell\<close>

lemma shell_safe_plain: "shell_safe c \<Longrightarrow> sh_plain c \<and> \<not> sh_blank c \<and> c \<noteq> CHR 0x27 \<and> c \<noteq> CHR 0x5C"
  by (auto simp: shell_safe_def sh_plain_def sh_blank_def is_word_def class_defs)

lemma sh_lex_plain:
  "\<forall>c \<in> set s. shell_safe c \<Longrightarrow> s \<noteq> [] \<Longrightarrow> sh_lex cur (s @ r) = sh_lex (Some (coalesce cur [] @ s)) r"
proof (induction s arbitrary: cur)
  case (Cons c s)
  then show ?case
    using shell_safe_plain [of c] by (cases "s = []") simp_all
qed simp

lemma sh_quoted_escaped:
  "sh_quoted w (List.concat (map escape_quote s) @ CHR 0x27 # r) = sh_lex (Some (w @ s)) r"
proof (induction s arbitrary: w)
  case (Cons c s)
  then show ?case by (simp add: escape_quote_def sh_blank_def)
qed simp

lemma shell_safe_test: "re_test [Rep shell_safe 1 None] s \<longleftrightarrow> s \<noteq> [] \<and> (\<forall>c \<in> set s. shell_safe c)"
  by (auto simp: re_test_iff rep_ok_def Suc_le_eq)

lemma sh_lex_arg: "sh_lex cur (shell_arg s @ r) = sh_lex (Some (coalesce cur [] @ s)) r"
proof (cases "re_test [Rep shell_safe 1 None] s")
  case True
  then have "s \<noteq> [] \<and> (\<forall>c \<in> set s. shell_safe c)" "shell_arg s = s"
    unfolding shell_arg_def shell_safe_test by simp_all
  then show ?thesis using sh_lex_plain [of s cur r] by simp
next
  case False
  then show ?thesis
    using sh_quoted_escaped [of "coalesce cur []" s r] by (simp add: shell_arg_def sh_blank_def)
qed

text \<open>A word of plain characters, such as an option's name, is itself.\<close>

definition plain_word :: "string \<Rightarrow> bool" where
  "plain_word w \<longleftrightarrow> w \<noteq> [] \<and> (\<forall>c \<in> set w. shell_safe c)"

lemma plain_word_arg: "plain_word w \<Longrightarrow> shell_arg w = w"
  unfolding shell_arg_def plain_word_def shell_safe_test by simp

lemma sh_lex_space: "sh_lex (Some w) (CHR '' '' # r) = map_option ((#) w) (sh_lex None r)"
  by (simp add: sh_blank_def)

lemma sh_words_join: "sh_words (join_with '' '' (map shell_arg ws)) = Some ws"
proof (induction ws rule: induct_list012)
  case (2 x)
  show ?case using sh_lex_arg [of None x "[]"] by (simp add: sh_words_def)
next
  case (3 x y zs)
  then show ?case
    using sh_lex_arg [of None x "CHR '' '' # join_with '' '' (map shell_arg (y # zs))"]
    by (simp add: sh_words_def sh_lex_space del: sh_lex.simps(2))
qed (simp add: sh_words_def)

text \<open>
  Whatever a user types, a shell reads back the same arguments. A command line made of
  any strings, each quoted by \<open>shellArg\<close> and joined with spaces, splits into exactly these
  strings: nothing in them can close a quote, start another command, expand or vanish
  (the empty string stays an argument).
\<close>
theorem shell_arg_round_trip: "sh_words (join_with '' '' (map shell_arg ws)) = Some ws"
  by (rule sh_words_join)

end
