(* ===== verification/DeviceDialogs.thy ===== *)
theory DeviceDialogs
  imports CurrentTenant Shell MeshdCli
begin

text \<open>
  \<open>src/web/src/frontend/routes/admin/device-dialogs.tsx\<close>: the dialogs that give the
  commands to run on a machine, and that meshd reads from a shell exactly what the user
  typed into them.
\<close>

definition releases_url :: string where
  "releases_url = ''https://github.com/Le-Big-et-le-Big/Mesh2Mesh/releases/latest''"

record add_device =
  ad_name :: string
  ad_port :: string
  ad_verbose :: bool

datatype add_event =
    AddSetName string
  | AddSetPort string
  | AddSetVerbose bool

definition add_device_start :: add_device where
  "add_device_start = \<lparr>ad_name = [], ad_port = [], ad_verbose = False\<rparr>"

fun add_device_step :: "add_event \<Rightarrow> add_device \<Rightarrow> add_device" where
  "add_device_step (AddSetName s) st = st\<lparr>ad_name := s\<rparr>"
| "add_device_step (AddSetPort s) st = st\<lparr>ad_port := s\<rparr>"
| "add_device_step (AddSetVerbose b) st = st\<lparr>ad_verbose := b\<rparr>"

section \<open>The commands\<close>

definition join_command :: "string option \<Rightarrow> tenant \<Rightarrow> string \<Rightarrow> string" where
  "join_command api tenant name =
     join_with '' '' (filter (\<lambda>w. truthy w)
       [''sudo meshd join'', t_id tenant,
        (if truthy (coalesce api []) then ''--api '' @ shell_arg (coalesce api []) else ''''),
        (if truthy (trim name) then ''--name '' @ shell_arg (trim name) else '''')])"

definition run_command :: "string \<Rightarrow> bool \<Rightarrow> string" where
  "run_command port verbose =
     join_with '' '' (filter (\<lambda>w. truthy w)
       [''sudo meshd run'',
        (if re_test [Rep is_digit 1 (Some 5)] port then ''--port '' @ port else ''''),
        (if verbose then ''-v'' else '''')])"

section \<open>The dialogs\<close>

definition step_item :: "nat \<Rightarrow> string \<Rightarrow> 'e node list \<Rightarrow> 'e node" where
  "step_item n title children =
     El ''li'' [] [El ''span'' [] [Text (show_nat n)], El ''div'' [] ([El ''h3'' [] [Text title]] @ children)]"

definition add_device_dialog ::
  "runtime_config query \<Rightarrow> tenant \<Rightarrow> bool \<Rightarrow> (bool \<Rightarrow> 'e) \<Rightarrow> (add_event \<Rightarrow> 'e) \<Rightarrow> add_device \<Rightarrow> 'e node" where
  "add_device_dialog config tenant is_open on_open ev st =
     El ''Dialog'' [(''open'', Flag is_open), (''onOpenChange'', OnFlag on_open)]
       [El ''DialogContent'' []
         [El ''DialogHeader'' []
           [El ''DialogTitle'' [] [Text ''Add a Linux server''],
            El ''DialogDescription'' []
              [Text ''Run these on the machine to add it to '', El ''span'' [] [Text (t_name tenant)], Text ''.'']],
          El ''ol'' []
           [step_item 1 ''Install meshd''
             [El ''p'' []
               [Text ''Download the archive for its architecture from the'', Text '' '',
                El ''a'' [(''href'', Str releases_url), (''target'', Str ''_blank''), (''rel'', Str ''noreferrer'')] [Text ''latest release''],
                Text '' '', Text ''and put '', El ''code'' [] [Text ''meshd''], Text '' on its PATH.'']],
            step_item 2 ''Join the tenant''
             [El ''div'' []
               [El ''Label'' [(''htmlFor'', Str ''device-name'')] [Text ''Machine name (defaults to its hostname)''],
                El ''Input'' [(''id'', Str ''device-name''), (''value'', Str (ad_name st)), (''onChange'', OnText (\<lambda>s. ev (AddSetName s))), (''placeholder'', Str ''web-1'')] []],
              Command (join_command (map_option rc_public_api_url (query_data config)) tenant (ad_name st))],
            step_item 3 ''Connect''
             [El ''div'' []
               [El ''div'' []
                 [El ''Label'' [(''htmlFor'', Str ''device-port'')] [Text ''UDP port (default 51820)''],
                  El ''Input'' [(''id'', Str ''device-port''), (''value'', Str (ad_port st)), (''onChange'', OnText (\<lambda>s. ev (AddSetPort s))), (''placeholder'', Str ''51820''), (''inputMode'', Str ''numeric'')] []],
                El ''Label'' []
                 [El ''Checkbox'' [(''checked'', Flag (ad_verbose st)), (''onCheckedChange'', OnFlag (\<lambda>b. ev (AddSetVerbose b)))] [],
                  Text ''Verbose logs'']],
              Command (run_command (ad_port st) (ad_verbose st)),
              El ''p'' []
                [Text ''It runs as '', El ''code'' [] [Text ''mesh2mesh.service''], Text '' and shows up here as connected within a few seconds.'']]]]]"

definition stop_device_dialog :: "peer option \<Rightarrow> (bool \<Rightarrow> 'e) \<Rightarrow> 'e node" where
  "stop_device_dialog peer on_open =
     El ''Dialog'' [(''open'', Flag (peer \<noteq> None)), (''onOpenChange'', OnFlag on_open)]
       [El ''DialogContent'' []
         [El ''DialogHeader'' []
           [El ''DialogTitle'' [] [Text ''Stop '', Text (case peer of None \<Rightarrow> [] | Some p \<Rightarrow> p_name p)],
            El ''DialogDescription'' []
              [Text (''Run this on the machine. It stops meshd, disables the service and removes mesh0. The machine stays in the '' @ ''tenant: ''),
               El ''code'' [] [Text ''meshd run''], Text '' brings it back.'']],
          Command ''sudo meshd stop'']]"

section \<open>What a shell and meshd read\<close>

text \<open>The parts of a command, each a list of words.\<close>

definition quoted :: "string list \<Rightarrow> string" where
  "quoted ws = join_with '' '' (map shell_arg ws)"

lemma join_with_append: "xs \<noteq> [] \<Longrightarrow> ys \<noteq> [] \<Longrightarrow> join_with s (xs @ ys) = join_with s xs @ s @ join_with s ys"
proof (induction xs rule: induct_list012)
  case (2 x)
  then show ?case by (cases ys) auto
qed auto

lemma quoted_append: "a \<noteq> [] \<Longrightarrow> b \<noteq> [] \<Longrightarrow> quoted (a @ b) = quoted a @ '' '' @ quoted b"
  by (simp add: quoted_def join_with_append)

lemma join_quoted:
  "\<forall>ws \<in> set wss. ws \<noteq> [] \<Longrightarrow> join_with '' '' (map quoted wss) = quoted (List.concat wss)"
proof (induction wss rule: induct_list012)
  case (3 a b c)
  then show ?case by (simp add: quoted_append)
qed (simp_all add: quoted_def)

lemma quoted_nonempty: "ws \<noteq> [] \<Longrightarrow> truthy (quoted ws)"
proof -
  assume "ws \<noteq> []"
  then have "sh_words (quoted ws) \<noteq> Some []" by (simp add: quoted_def sh_words_join)
  then show ?thesis by (auto simp: sh_words_def)
qed

lemma filter_quoted: "filter (\<lambda>w. truthy w) (map quoted wss) = map quoted (filter (\<lambda>ws. ws \<noteq> []) wss)"
proof (induction wss)
  case (Cons ws wss)
  have "quoted [] = []" by (simp add: quoted_def)
  then show ?case using Cons quoted_nonempty [of ws] by (cases "ws = []") simp_all
qed simp

lemma sh_words_parts: "sh_words (join_with '' '' (filter (\<lambda>w. truthy w) (map quoted wss))) = Some (List.concat wss)"
proof -
  have "List.concat (filter (\<lambda>ws. ws \<noteq> []) wss) = List.concat wss" by (induction wss) auto
  then show ?thesis
    unfolding filter_quoted using join_quoted [of "filter (\<lambda>ws. ws \<noteq> []) wss"] sh_words_join [of "List.concat wss"]
    by (simp add: quoted_def)
qed

lemma quoted_plain: "list_all plain_word ws \<Longrightarrow> quoted ws = join_with '' '' ws"
  unfolding quoted_def by (induction ws) (simp_all add: plain_word_arg map_idI list_all_iff)

lemma quoted_option: "plain_word n \<Longrightarrow> quoted [n, v] = n @ CHR '' '' # shell_arg v"
  by (simp add: quoted_def plain_word_arg)

lemma tenant_id_plain_word: "tenant_id t \<Longrightarrow> plain_word t"
  by (auto simp: tenant_id_def plain_word_def list_all_iff shell_safe_def is_hex_dash_def dest: is_hex_word)

lemma tenant_id_go_trim: "tenant_id t \<Longrightarrow> go_trim t = t"
  by (rule go_trim_id)
    (auto simp: tenant_id_def list_all_iff go_space_def js_space_def class_defs)

definition option_words :: "string \<Rightarrow> string \<Rightarrow> string list" where
  "option_words n v = (if truthy v then [n, v] else [])"

lemma join_command_words:
  assumes "tenant_id (t_id tenant)"
  shows "sh_words (join_command api tenant name) =
    Some ([''sudo'', ''meshd'', ''join'', t_id tenant] @
      option_words ''--api'' (coalesce api []) @ option_words ''--name'' (trim name))"
proof -
  have p: "list_all plain_word [''sudo'', ''meshd'', ''join'']" "plain_word ''--api''" "plain_word ''--name''"
    by code_simp+
  have head: "quoted [''sudo'', ''meshd'', ''join''] = ''sudo meshd join''"
    unfolding quoted_plain [OF p(1)] by simp
  have id: "quoted [t_id tenant] = t_id tenant"
    using tenant_id_plain_word [OF assms] by (simp add: quoted_def plain_word_arg)
  have opt: "quoted (option_words ''--api'' (coalesce api [])) = (if truthy (coalesce api []) then ''--api '' @ shell_arg (coalesce api []) else '''')"
      "quoted (option_words ''--name'' (trim name)) = (if truthy (trim name) then ''--name '' @ shell_arg (trim name) else '''')"
    using quoted_option [OF p(2)] quoted_option [OF p(3)] by (simp_all add: option_words_def) (simp_all add: quoted_def)
  have "join_command api tenant name = join_with '' '' (filter (\<lambda>w. truthy w) (map quoted
      [[''sudo'', ''meshd'', ''join''], [t_id tenant], option_words ''--api'' (coalesce api []), option_words ''--name'' (trim name)]))"
    unfolding join_command_def list.map head id opt ..
  then show ?thesis by (simp only: sh_words_parts List.concat.simps append.simps append_Nil2)
qed

lemma flag_parse_options:
  assumes "flag_word n" "flag_word m" "n \<in> set known" "m \<in> set known"
  shows "flag_parse known fs (option_words (''--'' @ n) a @ option_words (''--'' @ m) b) =
    Inr ((if truthy b then [(m, b)] else []) @ (if truthy a then [(n, a)] else []) @ fs, [])"
  using flag_parse_option [OF assms(1,3)] flag_parse_option [OF assms(2,4)]
  by (simp add: option_words_def)

text \<open>
  C22. The join command does what the dialog says. For any machine name and API address,
  pasting the command into a shell runs meshd join with that tenant: meshd reads exactly the
  tenant's id as its argument, the address as its api flag and the trimmed name as its name
  flag, each flag left out when the dialog has nothing for it; a name that looks like an
  option, or that holds quotes, spaces or shell syntax, is still only a name.
\<close>
theorem join_command_read_by_meshd:
  assumes id: "tenant_id (t_id tenant)" "hd (t_id tenant) \<noteq> CHR ''-''"
  shows "\<exists>args fs. sh_words (join_command api tenant name) = Some ([''sudo'', ''meshd'', ''join''] @ args) \<and>
    enroll_parse ''join'' join_flags ''tenant-id'' args = Inr (fs, t_id tenant) \<and>
    lookup fs ''api'' = (if truthy (coalesce api []) then api else None) \<and>
    lookup fs ''name'' = (if truthy (trim name) then Some (trim name) else None) \<and>
    lookup fs ''state'' = None"
proof -
  let ?rest = "option_words ''--api'' (coalesce api []) @ option_words ''--name'' (trim name)"
  let ?fs = "(if truthy (trim name) then [(''name'', trim name)] else []) @
    (if truthy (coalesce api []) then [(''api'', coalesce api [])] else []) @ []"
  have w: "flag_word ''api''" "flag_word ''name''" "''api'' \<in> set join_flags" "''name'' \<in> set join_flags"
    by (simp_all add: flag_word_def join_flags_def)
  have "flag_parse join_flags [] ?rest = Inr (?fs, [])"
    using flag_parse_options [OF w, of "[]" "coalesce api []" "trim name"] by simp
  then have "enroll_parse ''join'' join_flags ''tenant-id'' (t_id tenant # ?rest) = Inr (?fs, t_id tenant)"
    using id tenant_id_go_trim by (intro enroll_parse_ok) (auto simp: tenant_id_def)
  moreover have "sh_words (join_command api tenant name) = Some ([''sudo'', ''meshd'', ''join''] @ t_id tenant # ?rest)"
    using join_command_words [OF id(1)] by simp
  moreover have "lookup ?fs ''api'' = (if truthy (coalesce api []) then api else None)"
    by (cases api) auto
  moreover have "lookup ?fs ''name'' = (if truthy (trim name) then Some (trim name) else None)" "lookup ?fs ''state'' = None"
    by auto
  ultimately show ?thesis by blast
qed

lemma run_command_words:
  "sh_words (run_command port verbose) =
    Some ([''sudo'', ''meshd'', ''run''] @
      (if re_test [Rep is_digit 1 (Some 5)] port then [''--port'', port] else []) @ (if verbose then [''-v''] else []))"
proof -
  have p: "list_all plain_word [''sudo'', ''meshd'', ''run'']" "plain_word ''--port''" "plain_word ''-v''"
    by code_simp+
  have "list_all plain_word [''--port'', port]" if "re_test [Rep is_digit 1 (Some 5)] port"
    using that p(2) by (auto simp: re_test_iff rep_ok_def plain_word_def shell_safe_def is_word_def)
  then have port: "quoted (if re_test [Rep is_digit 1 (Some 5)] port then [''--port'', port] else []) =
      (if re_test [Rep is_digit 1 (Some 5)] port then ''--port '' @ port else '''')"
    using quoted_plain by (simp add: quoted_def)
  have head: "quoted [''sudo'', ''meshd'', ''run''] = ''sudo meshd run''"
    unfolding quoted_plain [OF p(1)] by simp
  have v: "quoted (if verbose then [''-v''] else []) = (if verbose then ''-v'' else '''')"
    using plain_word_arg [OF p(3)] by (simp add: quoted_def)
  have "run_command port verbose = join_with '' '' (filter (\<lambda>w. truthy w) (map quoted
      [[''sudo'', ''meshd'', ''run''], (if re_test [Rep is_digit 1 (Some 5)] port then [''--port'', port] else []),
       (if verbose then [''-v''] else [])]))"
    unfolding run_command_def list.map head port v ..
  then show ?thesis by (simp only: sh_words_parts List.concat.simps append.simps append_Nil2)
qed

text \<open>
  What the port field becomes. The run command holds the typed port exactly when it is
  one to five digits, and the verbose switch when it is on; meshd then reads the port in
  decimal exactly when it has no leading zero (or is below eight): with a leading zero, Go's
  integer flag reads octal, so another port is used or the command fails. A port above
  65535 is put into the command too.
\<close>
theorem run_command_port:
  "(\<exists>rest. sh_words (run_command port verbose) = Some ([''sudo'', ''meshd'', ''run''] @ rest) \<and>
     set rest = (if port \<noteq> [] \<and> length port \<le> 5 \<and> list_all is_digit port then {''--port'', port} else {}) \<union>
       (if verbose then {''-v''} else {})) \<and>
   (port \<noteq> [] \<longrightarrow>
     (go_int port = Some (digits_value 10 port) \<longleftrightarrow> hd port \<noteq> CHR ''0'' \<or> digits_value 10 port < 8))"
proof -
  have "re_test [Rep is_digit 1 (Some 5)] port \<longleftrightarrow> port \<noteq> [] \<and> length port \<le> 5 \<and> list_all is_digit port"
    by (auto simp: re_test_iff rep_ok_def list_all_iff Suc_le_eq)
  then show ?thesis
    using run_command_words [of port verbose] go_int_decimal_iff [of port] by auto
qed

theorem run_command_port_witness:
  "go_int ''0443'' \<noteq> Some 443 \<and>
   sh_words (run_command ''0443'' False) = Some [''sudo'', ''meshd'', ''run'', ''--port'', ''0443'']"
proof -
  have "digits_value 10 ''0443'' = 443" "hd ''0443'' = CHR ''0''" by code_simp+
  then have "go_int ''0443'' \<noteq> Some 443"
    using run_command_port [of "''0443''" False] by simp
  moreover have "sh_words (run_command ''0443'' False) = Some [''sudo'', ''meshd'', ''run'', ''--port'', ''0443'']"
    by code_simp
  ultimately show ?thesis by simp
qed

theorem join_command_read_by_meshd_witness:
  "tenant_id (t_id demo_tenant) \<and>
   (\<exists>args fs. sh_words (join_command (Some ''https://api.mesh.example'') demo_tenant ''-x; rm *'') = Some ([''sudo'', ''meshd'', ''join''] @ args) \<and>
     enroll_parse ''join'' join_flags ''tenant-id'' args = Inr (fs, t_id demo_tenant) \<and>
     lookup fs ''name'' = Some ''-x; rm *'')"
proof -
  have id: "tenant_id (t_id demo_tenant)" "hd (t_id demo_tenant) \<noteq> CHR ''-''" by code_simp+
  have t: "trim ''-x; rm *'' = ''-x; rm *''" by code_simp
  have ne: "truthy ''-x; rm *''" by simp
  obtain args fs where
    "sh_words (join_command (Some ''https://api.mesh.example'') demo_tenant ''-x; rm *'') = Some ([''sudo'', ''meshd'', ''join''] @ args)"
    "enroll_parse ''join'' join_flags ''tenant-id'' args = Inr (fs, t_id demo_tenant)"
    "lookup fs ''name'' = (if truthy (trim ''-x; rm *'') then Some (trim ''-x; rm *'') else None)"
    using join_command_read_by_meshd [OF id, of "Some ''https://api.mesh.example''" "''-x; rm *''"]
    by (elim exE conjE) (rule that; assumption)
  then have
    "sh_words (join_command (Some ''https://api.mesh.example'') demo_tenant ''-x; rm *'') = Some ([''sudo'', ''meshd'', ''join''] @ args) \<and>
     enroll_parse ''join'' join_flags ''tenant-id'' args = Inr (fs, t_id demo_tenant) \<and>
     lookup fs ''name'' = Some ''-x; rm *''"
    unfolding t if_P [OF ne] by (intro conjI)
  then show ?thesis by (intro conjI id(1)) (rule exI [of _ args], rule exI [of _ fs])
qed

end
