(* ===== verification/PeerStatus.thy ===== *)
theory PeerStatus
  imports ApiClient
begin

text \<open>
  \<open>src/web/src/frontend/lib/peer.ts\<close> and \<open>lib/time.ts\<close>: what the console says of a
  machine from the fields the control plane gives (\<open>MeshSync\<close> compares \<open>path\<close> with meshd).
  \<open>new Date(s).getTime()\<close> is the argument \<open>date_ms\<close> (NaN for what it cannot read;
  the fractions of a second that Go prints are outside ECMAScript's own format), and
  \<open>Date.now()\<close> is \<open>now\<close>, both in milliseconds.
\<close>

section \<open>Arithmetic of dates\<close>

fun js_sub :: "jsnum \<Rightarrow> jsnum \<Rightarrow> jsnum" where
  "js_sub (Num a) (Num b) = Num (a - b)"
| "js_sub _ _ = NaN"

fun js_max :: "jsnum \<Rightarrow> jsnum \<Rightarrow> jsnum" where
  "js_max (Num a) (Num b) = Num (max a b)"
| "js_max _ _ = NaN"

fun js_round_div :: "jsnum \<Rightarrow> int \<Rightarrow> jsnum" where
  "js_round_div (Num a) b = Num (round_div a b)"
| "js_round_div NaN b = NaN"

section \<open>peer.ts\<close>

definition offline_after_ms :: int where
  "offline_after_ms = 11 * 60000"

datatype presence = Connected | Offline | Never

text \<open>An absent or empty time of the last report means that there was none.\<close>

definition presence :: "(string \<Rightarrow> jsnum) \<Rightarrow> int \<Rightarrow> peer \<Rightarrow> presence" where
  "presence date_ms now p =
     (case p_endpoint_updated_at p of
        None \<Rightarrow> Never
      | Some at \<Rightarrow>
          if \<not> truthy at then Never
          else if js_lt (Num offline_after_ms) (js_sub (Num now) (date_ms at)) then Offline
          else Connected)"

datatype path = Direct | Hole_punch | Relay

definition path :: "peer \<Rightarrow> path option" where
  "path p =
     (if \<not> truthy (coalesce (p_endpoint p) []) then None
      else if p_direct_reachable p then Some Direct
      else if truthy (coalesce (p_nat_endpoint p) []) then Some Hole_punch else Some Relay)"

record path_text =
  label :: string
  hint :: string

fun path_info :: "path \<Rightarrow> path_text" where
  "path_info Direct =
     \<lparr>label = ''Direct'',
      hint = ''Its UDP port answers the control plane's probe: peers connect straight to it.''\<rparr>"
| "path_info Hole_punch =
     \<lparr>label = ''Hole punch'',
      hint = ''Behind NAT: peers punch through to its mapping and fall back to the relay.''\<rparr>"
| "path_info Relay =
     \<lparr>label = ''Relayed'',
      hint = ''Not reachable directly and no NAT mapping: traffic goes through the relay.''\<rparr>"

section \<open>time.ts\<close>

definition ago :: "(string \<Rightarrow> jsnum) \<Rightarrow> int \<Rightarrow> string \<Rightarrow> string" where
  "ago date_ms now stamp =
     (let secs = js_max (Num 0) (js_round_div (js_sub (Num now) (date_ms stamp)) 1000) in
      if js_lt secs (Num 60) then ''just now''
      else let mins = js_round_div secs 60 in
      if js_lt mins (Num 60) then show_num mins @ '' min ago''
      else let hours = js_round_div mins 60 in
      if js_lt hours (Num 48) then show_num hours @ '' h ago''
      else show_num (js_round_div hours 24) @ '' days ago'')"

section \<open>What they show\<close>

lemma round_div_err: "0 < b \<Longrightarrow> 2 * \<bar>b * round_div a b - a\<bar> \<le> b"
proof -
  assume b: "0 < b"
  define q where "q = (2 * a + b) div (2 * b)"
  define r where "r = (2 * a + b) mod (2 * b)"
  have "2 * b * q + r = 2 * a + b" unfolding q_def r_def by (rule mult_div_mod_eq)
  then have "2 * (b * q) = 2 * a + b - r" by (simp add: algebra_simps)
  moreover have "0 \<le> r" "r < 2 * b" using b by (simp_all add: r_def)
  ultimately have "2 * \<bar>b * q - a\<bar> \<le> b" by arith
  then show ?thesis by (simp add: round_div_def q_def)
qed

lemma presence_cases:
  "presence date_ms now p =
     (case p_endpoint_updated_at p of
        Some (c # cs) \<Rightarrow>
          (case date_ms (c # cs) of Num t \<Rightarrow> if t + 660000 < now then Offline else Connected | NaN \<Rightarrow> Connected)
      | _ \<Rightarrow> Never)"
  by (auto simp: presence_def offline_after_ms_def split: option.splits list.splits jsnum.splits)

lemma ago_rounds:
  assumes "date_ms stamp = Num t"
  obtains s m h d where "ago date_ms now stamp =
      (if s < 60 then ''just now'' else if m < 60 then show_int m @ '' min ago''
       else if h < 48 then show_int h @ '' h ago'' else show_int d @ '' days ago'')"
    "2 * \<bar>1000 * s - (now - t)\<bar> \<le> 1000" "2 * \<bar>60 * m - max 0 s\<bar> \<le> 60"
    "2 * \<bar>60 * h - m\<bar> \<le> 60" "2 * \<bar>24 * d - h\<bar> \<le> 24"
    "s < 60 \<Longrightarrow> now - t < 59500" "60 \<le> s \<Longrightarrow> 1 \<le> m" "60 \<le> m \<Longrightarrow> 1 \<le> h" "48 \<le> h \<Longrightarrow> 2 \<le> d"
proof -
  define s where "s = round_div (now - t) 1000"
  define m where "m = round_div (max 0 s) 60"
  define h where "h = round_div m 60"
  define d where "d = round_div h 24"
  have s: "2 * \<bar>1000 * s - (now - t)\<bar> \<le> 1000" unfolding s_def by (rule round_div_err) simp
  have "s < 60 \<Longrightarrow> now - t < 59500"
    using round_div_lower [of 1000 60 "now - t"] s by (cases "now - t < 59500") (auto simp: s_def round_div_def)
  moreover have "60 \<le> s \<Longrightarrow> 1 \<le> m" unfolding m_def by (intro round_div_lower) auto
  moreover have "60 \<le> m \<Longrightarrow> 1 \<le> h" unfolding h_def by (intro round_div_lower) auto
  moreover have "48 \<le> h \<Longrightarrow> 2 \<le> d" unfolding d_def by (intro round_div_lower) auto
  moreover have "2 * \<bar>60 * m - max 0 s\<bar> \<le> 60" unfolding m_def by (rule round_div_err) simp
  moreover have "2 * \<bar>60 * h - m\<bar> \<le> 60" unfolding h_def by (rule round_div_err) simp
  moreover have "2 * \<bar>24 * d - h\<bar> \<le> 24" unfolding d_def by (rule round_div_err) simp
  moreover have "ago date_ms now stamp =
      (if s < 60 then ''just now'' else if m < 60 then show_int m @ '' min ago''
       else if h < 48 then show_int h @ '' h ago'' else show_int d @ '' days ago'')"
    using assms by (simp add: ago_def Let_def s_def m_def h_def d_def)
  ultimately show thesis using s by (intro that)
qed

text \<open>
  The age of a report is told in the largest fitting unit and to the nearest one. For
  a readable time, \<open>ago\<close> says: just now under a minute (times in the future included);
  else 1 to 59 minutes, 1 to 47 hours or 2 days and more, off the true age by at most half
  a unit plus the error of the units below. An unreadable time is shown as NaN days.
\<close>
theorem ago_accurate:
  "case date_ms stamp of
     NaN \<Rightarrow> ago date_ms now stamp = ''NaN days ago''
   | Num t \<Rightarrow>
       (ago date_ms now stamp = ''just now'' \<and> now - t < 59500) \<or>
       (\<exists>n \<in> {1..59}. ago date_ms now stamp = show_int n @ '' min ago'' \<and> \<bar>60000 * n - (now - t)\<bar> \<le> 30500) \<or>
       (\<exists>n \<in> {1..47}. ago date_ms now stamp = show_int n @ '' h ago'' \<and> \<bar>3600000 * n - (now - t)\<bar> \<le> 1830500) \<or>
       (\<exists>n \<ge> 2. ago date_ms now stamp = show_int n @ '' days ago'' \<and> \<bar>86400000 * n - (now - t)\<bar> \<le> 45030500)"
proof (cases "date_ms stamp")
  case NaN
  then show ?thesis by (simp add: ago_def Let_def)
next
  case (Num t)
  then obtain s m h d where r: "ago date_ms now stamp =
      (if s < 60 then ''just now'' else if m < 60 then show_int m @ '' min ago''
       else if h < 48 then show_int h @ '' h ago'' else show_int d @ '' days ago'')"
    "2 * \<bar>1000 * s - (now - t)\<bar> \<le> 1000" "2 * \<bar>60 * m - max 0 s\<bar> \<le> 60"
    "2 * \<bar>60 * h - m\<bar> \<le> 60" "2 * \<bar>24 * d - h\<bar> \<le> 24"
    "s < 60 \<Longrightarrow> now - t < 59500" "60 \<le> s \<Longrightarrow> 1 \<le> m" "60 \<le> m \<Longrightarrow> 1 \<le> h" "48 \<le> h \<Longrightarrow> 2 \<le> d"
    by (rule ago_rounds [where now = now]) (rule that)
  consider "s < 60" | "60 \<le> s" "m < 60" | "60 \<le> s" "60 \<le> m" "h < 48" | "60 \<le> s" "60 \<le> m" "48 \<le> h"
    by linarith
  then show ?thesis
  proof cases
    case 1
    then show ?thesis using Num r(1,6) by simp
  next
    case 2
    then have "ago date_ms now stamp = show_int m @ '' min ago'' \<and> m \<in> {1..59} \<and> \<bar>60000 * m - (now - t)\<bar> \<le> 30500"
      using r(1,2,3,7) by auto
    then show ?thesis using Num by auto
  next
    case 3
    then have "ago date_ms now stamp = show_int h @ '' h ago'' \<and> h \<in> {1..47} \<and> \<bar>3600000 * h - (now - t)\<bar> \<le> 1830500"
      using r(1-4,8) by auto
    then show ?thesis using Num by auto
  next
    case 4
    then have "ago date_ms now stamp = show_int d @ '' days ago'' \<and> 2 \<le> d \<and> \<bar>86400000 * d - (now - t)\<bar> \<le> 45030500"
      using r(1-5,9) by auto
    then show ?thesis using Num by auto
  qed
qed

text \<open>A machine behind a NAT.\<close>

definition demo_peer :: peer where
  "demo_peer =
     \<lparr>p_id = ''7d9f3a52-0000-4000-8000-000000000001'', p_name = ''web-1'', p_public_key = ''pk'',
      p_mesh_ip = ''10.203.0.2'', p_created_at = ''2026-01-01T00:00:00Z'', p_direct_reachable = False,
      p_endpoint = Some ''192.168.1.4:51820'', p_endpoint_updated_at = Some ''2026-01-01T00:05:00Z'',
      p_nat_endpoint = Some ''203.0.113.7:40001''\<rparr>"

end
