(* ===== verification/Machines.thy ===== *)
theory Machines
  imports DeviceDialogs PeerStatus "HOL-Library.Multiset"
begin

text \<open>
  \<open>src/web/src/frontend/routes/admin/machines.tsx\<close>: the machines of the current tenant,
  sorted, searched and shown with their state; the empty and loading pages it shares with
  the other pages. What depends on the visitor's browser (the clock, reading a date,
  printing one, the collation of \<open>localeCompare\<close>, whether there is a clipboard) is the record \<open>browser\<close>.
\<close>

record browser =
  b_now :: int
  b_date_ms :: "string \<Rightarrow> jsnum"
  b_locale_string :: "string \<Rightarrow> string"
  b_locale_date :: "string \<Rightarrow> string"
  b_compare :: "string \<Rightarrow> string \<Rightarrow> int"
  b_origin :: string
  b_clipboard :: bool

section \<open>Sorting and searching\<close>

text \<open>\<open>Array.prototype.sort\<close> with a comparison function: a stable sort.\<close>

fun insert_by :: "('a \<Rightarrow> 'a \<Rightarrow> int) \<Rightarrow> 'a \<Rightarrow> 'a list \<Rightarrow> 'a list" where
  "insert_by cmp x [] = [x]"
| "insert_by cmp x (y # ys) = (if cmp x y \<le> 0 then x # y # ys else y # insert_by cmp x ys)"

definition sort_by :: "('a \<Rightarrow> 'a \<Rightarrow> int) \<Rightarrow> 'a list \<Rightarrow> 'a list" where
  "sort_by cmp xs = foldr (insert_by cmp) xs []"

definition search_fields :: "peer \<Rightarrow> string option list" where
  "search_fields p = [Some (p_name p), Some (p_mesh_ip p), p_endpoint p, p_nat_endpoint p, Some (p_id p)]"

definition matches :: "string \<Rightarrow> peer \<Rightarrow> bool" where
  "matches q p = list_ex (\<lambda>v. case v of None \<Rightarrow> False | Some s \<Rightarrow> js_includes (to_lower s) q) (search_fields p)"

definition shown :: "browser \<Rightarrow> peer list query \<Rightarrow> string \<Rightarrow> peer list" where
  "shown b peers flt =
     (let q = to_lower (trim flt);
          all = sort_by (\<lambda>x y. b_compare b (p_name x) (p_name y)) (coalesce (query_data peers) [])
      in if \<not> truthy q then all else filter (matches q) all)"

section \<open>The page\<close>

record machines_state =
  ms_adding :: bool
  ms_add :: add_device
  ms_filter :: string
  ms_stopping :: "peer option"

datatype machines_event =
    SetAdding bool
  | AddEvent add_event
  | SetFilter string
  | SetStopping peer
  | StopOpenChange bool
  | CopyText string string
  | TextCopied string
  | CopyFailed

definition machines_start :: machines_state where
  "machines_start = \<lparr>ms_adding = False, ms_add = add_device_start, ms_filter = [], ms_stopping = None\<rparr>"

text \<open>
  The copy entries read \<open>navigator.clipboard\<close>, which browsers leave undefined on a page
  that is neither https nor localhost: the call then throws before there is a promise whose
  rejection could be handled.
\<close>

fun machines_step :: "browser \<Rightarrow> machines_event \<Rightarrow> machines_state \<Rightarrow> machines_state \<times> effect list" where
  "machines_step b (SetAdding o') st = (st\<lparr>ms_adding := o'\<rparr>, [])"
| "machines_step b (AddEvent e) st = (st\<lparr>ms_add := add_device_step e (ms_add st)\<rparr>, [])"
| "machines_step b (SetFilter s) st = (st\<lparr>ms_filter := s\<rparr>, [])"
| "machines_step b (SetStopping p) st = (st\<lparr>ms_stopping := Some p\<rparr>, [])"
| "machines_step b (StopOpenChange open) st = (if \<not> open then st\<lparr>ms_stopping := None\<rparr> else st, [])"
| "machines_step b (CopyText what v) st = (st, [if b_clipboard b then WriteClipboard v else Throws ''TypeError''])"
| "machines_step b (TextCopied what) st = (st, [ToastSuccess (what @ '' copied'')])"
| "machines_step b CopyFailed st = (st, [ToastError ''The clipboard needs https or localhost''])"

definition table_skeleton :: "'e node" where
  "table_skeleton =
     El ''div'' []
       [El ''Skeleton'' [] [], El ''Skeleton'' [] [],
        El ''div'' [] (map (\<lambda>i. El ''Skeleton'' [(''key'', Str (show_nat i))] []) [0..<4])]"

definition no_tenant :: "'e node" where
  "no_tenant =
     El ''div'' []
       [El ''h2'' [] [Text ''Welcome to Mesh2Mesh''],
        El ''p'' [] [Text ''A tenant is a private network with its own address range. Create one, or join one you were invited to.''],
        El ''div'' []
          [El ''Button'' [(''variant'', Str ''outline''), (''asChild'', Flag True)]
             [El ''Link'' [(''to'', To (link_to ''/admin/tenants'' [(''join'', JBool True)]))] [Text ''Join with an invite'']],
           El ''Button'' [(''asChild'', Flag True)]
             [El ''Link'' [(''to'', To (link_to ''/admin/tenants'' [(''create'', JBool True)]))]
               [El ''PlusIcon'' [] [], Text '' Create tenant'']]]]"

definition no_machines :: "'e \<Rightarrow> 'e node" where
  "no_machines on_add =
     El ''div'' []
       [El ''div'' [] [El ''ServerIcon'' [] []],
        El ''h2'' [] [Text ''Add your first machine''],
        El ''p'' [] [Text ''Join a server to this tenant with meshd. It shows up here as soon as it registers.''],
        El ''Button'' [(''onClick'', On on_add)] [El ''PlusIcon'' [] [], Text '' Add device'']]"

definition th :: "string list \<Rightarrow> 'e node" where
  "th children = El ''TableHead'' [] (map Text children)"

definition last_seen :: "browser \<Rightarrow> peer \<Rightarrow> 'e node" where
  "last_seen b p =
     (let state = presence (b_date_ms b) (b_now b) p; at = coalesce (p_endpoint_updated_at p) [] in
      if state = Never
      then El ''Tooltip'' []
        [El ''TooltipTrigger'' [(''asChild'', Flag True)]
          [El ''span'' [] [El ''span'' [] [], Text ''Not started'']],
         El ''TooltipContent'' [] [Text ''Joined, but meshd run has not reported in yet'']]
      else El ''Tooltip'' []
        [El ''TooltipTrigger'' [(''asChild'', Flag True)]
          [El ''span'' []
            [El ''span'' [(''className'', Str (if state = Connected then ''bg-success'' else ''bg-muted-foreground/40''))] [],
             El ''span'' [(''className'', Str (if state = Connected then '''' else ''text-muted-foreground''))]
               [Text (if state = Connected then ''Connected'' else ago (b_date_ms b) (b_now b) at)]]],
         El ''TooltipContent'' [] [Text ''Last report '', Text (b_locale_string b at)]])"

definition connection_cell :: "browser \<Rightarrow> peer \<Rightarrow> 'e node" where
  "connection_cell b p =
     (case path p of
        Some route \<Rightarrow>
          if presence (b_date_ms b) (b_now b) p \<noteq> Never
          then El ''Tooltip'' []
            [El ''TooltipTrigger'' [(''asChild'', Flag True)]
              [El ''Badge'' [(''variant'', Str ''outline''),
                  (''className'', Str (if route = Direct then ''border-success/30 text-success'' else ''border-warning/30 text-warning''))]
                [Text (label (path_info route))]],
             El ''TooltipContent'' [] [Text (hint (path_info route))]]
          else El ''span'' [] [Text ''-'']
      | None \<Rightarrow> El ''span'' [] [Text ''-''])"

definition machine_row :: "browser \<Rightarrow> peer \<Rightarrow> machines_event node" where
  "machine_row b p =
     El ''TableRow'' [(''key'', Str (p_id p))]
       [El ''TableCell'' []
         [El ''div'' []
           [El ''div'' [] [El ''ServerIcon'' [] []],
            El ''div'' [] [El ''div'' [] [Text (p_name p)], El ''div'' [] [Text (take 8 (p_id p))]]]],
        El ''TableCell'' [] [CopyValue (p_mesh_ip p) None],
        El ''TableCell'' [] [connection_cell b p],
        El ''TableCell'' [] [Text (coalesce (or_else (p_nat_endpoint p) (p_endpoint p)) ''-'')],
        El ''TableCell'' [] [last_seen b p],
        El ''TableCell'' []
         [El ''DropdownMenu'' []
           [El ''DropdownMenuTrigger'' [(''asChild'', Flag True)]
             [El ''Button'' [(''variant'', Str ''ghost''), (''aria-label'', Str (''Actions for '' @ p_name p))] [El ''EllipsisIcon'' [] []]],
            El ''DropdownMenuContent'' [(''align'', Str ''end'')]
             [El ''DropdownMenuItem'' [(''onSelect'', On (CopyText ''Address'' (p_mesh_ip p)))] [El ''CopyIcon'' [] [], Text '' Copy address''],
              El ''DropdownMenuItem'' [(''onSelect'', On (CopyText ''Peer ID'' (p_id p)))] [El ''CopyIcon'' [] [], Text '' Copy peer ID''],
              El ''DropdownMenuItem'' [(''onSelect'', On (CopyText ''Public key'' (p_public_key p)))] [El ''CopyIcon'' [] [], Text '' Copy public key''],
              El ''DropdownMenuSeparator'' [] [],
              El ''DropdownMenuItem'' [(''onSelect'', On (SetStopping p))] [El ''PowerIcon'' [] [], Text '' Stop meshd...'']]]]]"

definition connected_count :: "browser \<Rightarrow> peer list \<Rightarrow> nat" where
  "connected_count b ps = length (filter (\<lambda>p. presence (b_date_ms b) (b_now b) p = Connected) ps)"

definition machine_list :: "browser \<Rightarrow> peer list query \<Rightarrow> machines_state \<Rightarrow> machines_event node list" where
  "machine_list b peers st =
     (case peers of
        Pending \<Rightarrow> [table_skeleton]
      | Failed d e \<Rightarrow> [error_line e]
      | Success ps \<Rightarrow>
          if ps = [] then [no_machines (SetAdding True)]
          else
            [El ''div'' []
              [El ''div'' []
                [El ''SearchIcon'' [] [],
                 El ''Input'' [(''value'', Str (ms_filter st)), (''onChange'', OnText SetFilter), (''placeholder'', Str ''Search by name, address or peer ID'')] []],
               El ''p'' []
                [Text (show_nat (length ps)), Text '' '', Text (if length ps = 1 then ''machine'' else ''machines''),
                 Text [CHR '' '', CHR 0xB7, CHR '' ''], Text (show_nat (connected_count b ps)), Text '' connected'']],
             El ''div'' []
              [El ''Table'' []
                [El ''TableHeader'' [] [El ''TableRow'' [] (map th [[''Machine''], [''Address''], [''Connection''], [''Endpoint''], [''Last seen''], []])],
                 El ''TableBody'' []
                  (map (machine_row b) (shown b peers (ms_filter st)) @
                   show_if (shown b peers (ms_filter st) = [])
                     [El ''TableRow'' []
                       [El ''TableCell'' [(''colSpan'', Str ''6'')]
                         [Text (''No machine matches '' @ [CHR 0x22]), Text (ms_filter st), Text ([CHR 0x22] @ ''.'')]]])]],
             stop_device_dialog (ms_stopping st) StopOpenChange])"

definition machines_page ::
  "browser \<Rightarrow> tenant list query \<Rightarrow> tenant option \<Rightarrow> peer list query \<Rightarrow> runtime_config query \<Rightarrow> machines_state \<Rightarrow> machines_event node list" where
  "machines_page b tenants current peers config st =
     (case tenants of
        Pending \<Rightarrow> [table_skeleton]
      | Failed d e \<Rightarrow> [error_line e]
      | Success ts \<Rightarrow>
          (case current of
             None \<Rightarrow> [no_tenant]
           | Some t \<Rightarrow>
               [page_header ''Machines''
                  [Text ''The nodes in '', El ''span'' [] [Text (t_name t)], Text '', on'', Text '' '', El ''span'' [] [Text (t_cidr t)], Text ''.'']
                  [El ''Button'' [(''onClick'', On (SetAdding True))] [El ''PlusIcon'' [] [], Text '' Add device'']]] @
               machine_list b peers st @
               [add_device_dialog config t (ms_adding st) SetAdding AddEvent (ms_add st)]))"

section \<open>The sort is a stable sort\<close>

lemma mset_insert_by: "mset (insert_by cmp x ys) = add_mset x (mset ys)"
  by (induction ys) auto

lemma mset_sort_by: "mset (sort_by cmp xs) = mset xs"
  by (induction xs) (simp_all add: sort_by_def mset_insert_by)

lemma set_sort_by: "set (sort_by cmp xs) = set xs"
  using mset_sort_by by (metis set_mset_mset)

lemma set_insert_by: "set (insert_by cmp x ys) = insert x (set ys)"
  by (induction ys) auto

lemma sorted_insert_by:
  assumes "\<And>a b. cmp a b \<le> 0 \<or> cmp b a \<le> (0 :: int)" "\<And>a b c. cmp a b \<le> 0 \<Longrightarrow> cmp b c \<le> 0 \<Longrightarrow> cmp a c \<le> 0"
  shows "sorted_wrt (\<lambda>a b. cmp a b \<le> 0) ys \<Longrightarrow> sorted_wrt (\<lambda>a b. cmp a b \<le> 0) (insert_by cmp x ys)"
proof (induction ys)
  case (Cons y ys)
  show ?case
  proof (cases "cmp x y \<le> 0")
    case True
    then show ?thesis using Cons.prems assms(2) by auto
  next
    case False
    then have "cmp y x \<le> 0" using assms(1) by blast
    then show ?thesis using False Cons by (simp add: set_insert_by)
  qed
qed simp

lemma sorted_sort_by:
  assumes "\<And>a b. cmp a b \<le> 0 \<or> cmp b a \<le> (0 :: int)" "\<And>a b c. cmp a b \<le> 0 \<Longrightarrow> cmp b c \<le> 0 \<Longrightarrow> cmp a c \<le> 0"
  shows "sorted_wrt (\<lambda>a b. cmp a b \<le> 0) (sort_by cmp xs)"
  by (induction xs) (simp_all add: sort_by_def sorted_insert_by [of cmp, OF assms])

lemma filter_insert_by:
  assumes "\<And>y. P y \<Longrightarrow> P x \<Longrightarrow> cmp x y \<le> (0 :: int)"
  shows "filter P (insert_by cmp x ys) = (if P x then x # filter P ys else filter P ys)"
proof (induction ys)
  case (Cons y ys)
  then show ?case using assms [of y] by auto
qed simp

lemma filter_sort_by:
  assumes "\<And>x y. P y \<Longrightarrow> P x \<Longrightarrow> cmp x y \<le> (0 :: int)"
  shows "filter P (sort_by cmp xs) = filter P xs"
  using filter_insert_by [of P _ cmp, OF assms]
  by (induction xs) (simp_all add: sort_by_def)

lemma shown_filter:
  "shown b peers flt =
     filter (\<lambda>p. trim flt = [] \<or> matches (to_lower (trim flt)) p)
       (sort_by (\<lambda>x y. b_compare b (p_name x) (p_name y)) (coalesce (query_data peers) []))"
  by (auto simp: shown_def Let_def to_lower_def)

definition found :: "string \<Rightarrow> peer \<Rightarrow> bool" where
  "found flt p \<longleftrightarrow> trim flt = [] \<or>
     (\<exists>s \<in> {p_name p, p_mesh_ip p, p_id p} \<union> set_option (p_endpoint p) \<union> set_option (p_nat_endpoint p).
        \<exists>u v. to_lower s = u @ to_lower (trim flt) @ v)"

text \<open>
  The search shows the right machines in the right order. Under a collation that is a
  total preorder, the list shown is exactly the machines of the answer one of whose name,
  mesh address, endpoints or id contains the trimmed query, whatever the case (all of them
  for a blank query); it is sorted by name, and machines of the same name keep the order of
  the answer.
\<close>
theorem machines_search:
  assumes "\<And>x y. b_compare b x y \<le> 0 \<or> b_compare b y x \<le> 0"
    "\<And>x y z. b_compare b x y \<le> 0 \<Longrightarrow> b_compare b y z \<le> 0 \<Longrightarrow> b_compare b x z \<le> 0"
    and ps: "query_data peers = Some ps"
  shows "mset (shown b peers flt) = filter_mset (found flt) (mset ps) \<and>
    sorted_wrt (\<lambda>x y. b_compare b (p_name x) (p_name y) \<le> 0) (shown b peers flt) \<and>
    (\<forall>n. filter (\<lambda>p. p_name p = n) (shown b peers flt) = filter (\<lambda>p. found flt p \<and> p_name p = n) ps)"
proof -
  let ?hit = "found flt"
  let ?cmp = "\<lambda>x y. b_compare b (p_name x) (p_name y)"
  have hit: "(\<lambda>p. trim flt = [] \<or> matches (to_lower (trim flt)) p) = ?hit"
    unfolding found_def by (rule ext) (auto simp: matches_def search_fields_def js_includes_iff split: option.splits)
  have s: "shown b peers flt = filter ?hit (sort_by ?cmp ps)"
    using ps by (simp add: shown_filter hit)
  have refl: "b_compare b n n \<le> 0" for n using assms(1) by blast
  have "filter (\<lambda>p. p_name p = n) (filter ?hit (sort_by ?cmp ps)) = filter (\<lambda>p. ?hit p \<and> p_name p = n) ps" for n
    using filter_sort_by [of "\<lambda>p. ?hit p \<and> p_name p = n" ?cmp ps] refl by simp
  moreover have "sorted_wrt (\<lambda>x y. ?cmp x y \<le> 0) (sort_by ?cmp ps)"
    by (rule sorted_sort_by) (use assms(1,2) in blast)+
  ultimately show ?thesis
    unfolding s by (simp add: mset_sort_by sorted_wrt_filter)
qed

definition demo_browser :: browser where
  "demo_browser =
     \<lparr>b_now = 1000000, b_date_ms = (\<lambda>s. Num 900000), b_locale_string = (\<lambda>s. s), b_locale_date = (\<lambda>s. s),
      b_compare = (\<lambda>x y. int (length x) - int (length y)), b_origin = ''https://mesh.example'', b_clipboard = True\<rparr>"

theorem machines_search_witness:
  "query_data (Success [demo_peer]) = Some [demo_peer] \<and>
   mset (shown demo_browser (Success [demo_peer]) '' WEB '') = {#demo_peer#}"
proof -
  have c: "b_compare demo_browser x y \<le> 0 \<or> b_compare demo_browser y x \<le> 0"
      "b_compare demo_browser x y \<le> 0 \<Longrightarrow> b_compare demo_browser y z \<le> 0 \<Longrightarrow> b_compare demo_browser x z \<le> 0" for x y z
    by (auto simp: demo_browser_def)
  have "mset (shown demo_browser (Success [demo_peer]) '' WEB '') = filter_mset (found '' WEB '') (mset [demo_peer])"
    by (rule machines_search [where b = demo_browser and peers = "Success [demo_peer]" and ps = "[demo_peer]", THEN conjunct1])
      (use c in blast, use c in blast, rule query_data.simps)
  moreover have "found '' WEB '' demo_peer"
  proof -
    have "js_includes (to_lower (p_name demo_peer)) (to_lower (trim '' WEB ''))" by code_simp
    then show ?thesis by (auto simp: found_def js_includes_iff)
  qed
  ultimately show ?thesis by simp
qed

section \<open>Copying from the menu\<close>

fun is_settlement :: "machines_event \<Rightarrow> bool" where
  "is_settlement (TextCopied what) = True"
| "is_settlement CopyFailed = True"
| "is_settlement _ = False"

fun is_write :: "effect \<Rightarrow> bool" where
  "is_write (WriteClipboard v) = True"
| "is_write _ = False"

text \<open>Runs of the page: the clipboard's answers come only to writes that were started.\<close>

inductive machines_run :: "browser \<Rightarrow> machines_state \<Rightarrow> nat \<Rightarrow> effect list \<Rightarrow> bool" for b where
  start: "machines_run b machines_start 0 []"
| user: "machines_run b st n h \<Longrightarrow> \<not> is_settlement e \<Longrightarrow> machines_step b e st = (st', effs) \<Longrightarrow>
    machines_run b st' (n + length (filter is_write effs)) (h @ effs)"
| settle: "machines_run b st (Suc n) h \<Longrightarrow> is_settlement e \<Longrightarrow> machines_step b e st = (st', effs) \<Longrightarrow>
    machines_run b st' n (h @ effs)"

lemma user_step_quiet:
  "\<not> is_settlement e \<Longrightarrow> machines_step b e st = (st', effs) \<Longrightarrow> ToastError m \<notin> set effs \<and>
   (\<not> b_clipboard b \<longrightarrow> filter is_write effs = [])"
  by (cases e) (auto split: if_splits)

text \<open>
  The advice about the clipboard is never given where it is needed. On a page served
  without a secure context, where the browser has no clipboard, choosing any copy entry of a
  machine throws; in every run of the page no error toast appears, although the text for it
  says that the clipboard needs https or localhost.
\<close>
theorem clipboard_advice_unreachable:
  assumes "machines_run b st n h" "\<not> b_clipboard b"
  shows "n = 0 \<and> (\<forall>m. ToastError m \<notin> set h) \<and>
    snd (machines_step b (CopyText what v) st) = [Throws ''TypeError'']"
proof -
  from assms(1) have "n = 0 \<and> (\<forall>m. ToastError m \<notin> set h)"
  proof (induction rule: machines_run.induct)
    case (user st n h e st' effs)
    then show ?case using user_step_quiet [OF user.hyps(2,3)] assms(2) by auto
  qed auto
  then show ?thesis using assms(2) by simp
qed

theorem clipboard_advice_unreachable_witness:
  "snd (machines_step (demo_browser\<lparr>b_clipboard := False\<rparr>) (CopyText ''Address'' ''10.203.0.2'') machines_start) = [Throws ''TypeError'']"
proof -
  have "\<not> b_clipboard (demo_browser\<lparr>b_clipboard := False\<rparr>)" by simp
  from clipboard_advice_unreachable [OF machines_run.start this] show ?thesis by blast
qed

end
