(* ===== verification/Copying.thy ===== *)
theory Copying
  imports View
begin

text \<open>
  \<open>src/web/src/frontend/components/copy.tsx\<close>: the \<open>useCopy\<close> hook as a state machine and
  the two components built on it. The state is the \<open>copied\<close> flag with the number of
  \<open>setTimeout\<close> callbacks still to run; a click awaits the clipboard, which answers later.
\<close>

record copy_state =
  copied :: bool
  cp_timers :: nat

datatype copy_event =
    CopyClick string
  | ClipboardOk
  | ClipboardRefused
  | TimerFires

definition copied_for_ms :: nat where
  "copied_for_ms = 1500"

definition copy_start :: copy_state where
  "copy_start = \<lparr>copied = False, cp_timers = 0\<rparr>"

text \<open>\<open>on_fail\<close> is the effect of the optional callback.\<close>

fun copy_step :: "effect list \<Rightarrow> copy_event \<Rightarrow> copy_state \<Rightarrow> copy_state \<times> effect list" where
  "copy_step on_fail (CopyClick text) st = (st, [WriteClipboard text])"
| "copy_step on_fail ClipboardOk st =
     (st\<lparr>copied := True, cp_timers := Suc (cp_timers st)\<rparr>, [SetTimeout copied_for_ms])"
| "copy_step on_fail ClipboardRefused st = (st, on_fail)"
| "copy_step on_fail TimerFires st =
     (if cp_timers st = 0 then st else st\<lparr>copied := False, cp_timers := cp_timers st - 1\<rparr>, [])"

definition copy_value_view :: "bool \<Rightarrow> string \<Rightarrow> string option \<Rightarrow> copy_event node" where
  "copy_value_view is_copied value display =
     El ''button'' [(''type'', Str ''button''), (''onClick'', On (CopyClick value)), (''title'', Str ''Copy'')]
       [El ''span'' [] [Text (coalesce display value)],
        (if is_copied then El ''CheckIcon'' [] [] else El ''CopyIcon'' [] [])]"

definition command_view :: "bool \<Rightarrow> string \<Rightarrow> copy_event node" where
  "command_view is_copied children =
     El ''div'' []
       [El ''span'' [] [Text ''$''],
        El ''code'' [] [Text children],
        El ''Button'' [(''type'', Str ''button''), (''onClick'', On (CopyClick children))]
          [(if is_copied then El ''CheckIcon'' [] [] else El ''CopyIcon'' [] []),
           Text (if is_copied then ''Copied'' else ''Copy'')]]"

text \<open>A command that cannot be copied is selected instead.\<close>

definition command_on_fail :: "effect list" where
  "command_on_fail = [SelectText]"

definition copy_run :: "effect list \<Rightarrow> copy_event list \<Rightarrow> copy_state \<Rightarrow> copy_state" where
  "copy_run on_fail es st = fold (\<lambda>e s. fst (copy_step on_fail e s)) es st"

lemma copy_run_timers:
  "(copied st \<longrightarrow> 0 < cp_timers st) \<Longrightarrow> copied (copy_run on_fail es st) \<longrightarrow> 0 < cp_timers (copy_run on_fail es st)"
proof (induction es arbitrary: st)
  case (Cons e es)
  have "copied (fst (copy_step on_fail e st)) \<longrightarrow> 0 < cp_timers (fst (copy_step on_fail e st))"
    using Cons.prems by (cases e) auto
  then show ?case using Cons.IH by (simp add: copy_run_def)
qed (simp add: copy_run_def)

lemma copy_run_refused:
  "ClipboardOk \<notin> set es \<Longrightarrow> \<not> copied st \<Longrightarrow> \<not> copied (copy_run on_fail es st)"
proof (induction es arbitrary: st)
  case (Cons e es)
  then have "\<not> copied (fst (copy_step on_fail e st))" by (cases e) auto
  then show ?case using Cons by (simp add: copy_run_def)
qed (simp add: copy_run_def)

lemma copy_run_drain: "copied st \<longrightarrow> 0 < cp_timers st \<Longrightarrow> \<not> copied (copy_run on_fail (replicate (cp_timers st) TimerFires) st)"
proof (induction "cp_timers st" arbitrary: st)
  case (Suc n)
  let ?s = "fst (copy_step on_fail TimerFires st)"
  have "cp_timers ?s = n" "\<not> copied ?s" using Suc(2) by (simp_all flip: Suc(2))
  then have "\<not> copied (copy_run on_fail (replicate (cp_timers ?s) TimerFires) ?s)"
    using Suc(1) [of ?s] by simp
  then show ?case using \<open>cp_timers ?s = n\<close> by (simp add: copy_run_def flip: Suc(2))
qed (simp add: copy_run_def)

text \<open>
  Copied is never said of a text that was not, and never stays. In every run from the
  start the button says copied only after the clipboard accepted a text, always with a
  timer pending, and once the pending timers have fired it offers to copy again.
\<close>
theorem copied_is_earned_and_fades:
  "(ClipboardOk \<notin> set es \<longrightarrow> \<not> copied (copy_run on_fail es copy_start)) \<and>
   (copied (copy_run on_fail es copy_start) \<longrightarrow> 0 < cp_timers (copy_run on_fail es copy_start)) \<and>
   \<not> copied (copy_run on_fail (es @ replicate (cp_timers (copy_run on_fail es copy_start)) TimerFires) copy_start)"
proof -
  have s: "copied copy_start \<longrightarrow> 0 < cp_timers copy_start" "\<not> copied copy_start"
    by (simp_all add: copy_start_def)
  have "copied (copy_run on_fail es copy_start) \<longrightarrow> 0 < cp_timers (copy_run on_fail es copy_start)"
    using copy_run_timers [OF s(1)] .
  then show ?thesis
    using copy_run_refused [OF _ s(2)] copy_run_drain [of "copy_run on_fail es copy_start" on_fail]
    by (simp add: copy_run_def)
qed

theorem copied_is_earned_and_fades_witness:
  "\<not> copied (copy_run [] [CopyClick ''x'', ClipboardRefused] copy_start) \<and>
   copied (copy_run [] [CopyClick ''x'', ClipboardOk] copy_start)"
proof -
  have "ClipboardOk \<notin> set [CopyClick ''x'', ClipboardRefused]" by simp
  then have "\<not> copied (copy_run [] [CopyClick ''x'', ClipboardRefused] copy_start)"
    using copied_is_earned_and_fades [of "[CopyClick ''x'', ClipboardRefused]" "[]"] by blast
  moreover have "copied (copy_run [] [CopyClick ''x'', ClipboardOk] copy_start)" by code_simp
  ultimately show ?thesis by simp
qed

end
