(* ===== verification/Members.thy ===== *)
theory Members
  imports Machines Membership Copying
begin

text \<open>
  \<open>src/web/src/frontend/routes/admin/members.tsx\<close>: the members of the current tenant, the
  removal of one, and the dialog that makes invite links. The mutations are the library's:
  a step for each handler of the source, among them the \<open>onSuccess\<close> and \<open>onError\<close> it
  passes, and the status of a mutation is an argument of the views.
\<close>

section \<open>Initials\<close>

text \<open>\<open>s.split(/[...]+/)\<close>: the pieces between runs of a class of characters.\<close>

function split_runs :: "(char \<Rightarrow> bool) \<Rightarrow> string \<Rightarrow> string list" where
  "split_runs P [] = [[]]"
| "split_runs P (c # s) =
     (if P c then [] # split_runs P (dropWhile P s)
      else (case split_runs P s of [] \<Rightarrow> [[c]] | w # ws \<Rightarrow> (c # w) # ws))"
  by pat_completeness auto
termination by (relation "measure (\<lambda>(P, s). length s)") (auto simp: length_dropWhile_le less_Suc_eq_le)

text \<open>
  \<open>toUpperCase\<close>: the sharp s becomes two letters. The micro sign and the y with diaeresis,
  whose capitals are not in Latin-1, are kept as they are.
\<close>

definition upper_char :: "char \<Rightarrow> string" where
  "upper_char c = (let n = of_char c :: nat in
     if n = 223 then ''SS''
     else if (97 \<le> n \<and> n \<le> 122) \<or> (224 \<le> n \<and> n \<le> 254 \<and> n \<noteq> 247) then [char_of (n - 32)] else [c])"

definition to_upper :: "string \<Rightarrow> string" where
  "to_upper s = List.concat (map upper_char s)"

definition initials :: "string \<Rightarrow> string" where
  "initials s =
     js_or (to_upper (take 2 (List.concat (map (take 1)
       (filter (\<lambda>w. truthy w) (split_runs (\<lambda>c. js_space c \<or> c = CHR ''@'' \<or> c = CHR ''.'') s)))))) ''?''"

section \<open>State and handlers\<close>

record invite_dialog =
  iv_role :: role
  iv_expiry :: nat
  iv_uses :: nat
  iv_invite :: "invite option"
  iv_copy :: copy_state

record members_state =
  mb_inviting :: bool
  mb_dialog :: invite_dialog

definition expiries :: "(string \<times> nat) list" where
  "expiries = [(''1 day'', 86400), (''7 days'', 7 * 86400), (''30 days'', 30 * 86400)]"

definition audiences :: "(string \<times> nat) list" where
  "audiences = [(''One person'', 1), (''Up to 10 people'', 10)]"

definition invite_dialog_start :: invite_dialog where
  "invite_dialog_start =
     \<lparr>iv_role = Member, iv_expiry = snd (expiries ! 1), iv_uses = 1, iv_invite = None, iv_copy = copy_start\<rparr>"

definition members_start :: members_state where
  "members_start = \<lparr>mb_inviting = False, mb_dialog = invite_dialog_start\<rparr>"

datatype members_event =
    OpenInviting
  | DialogOpenChange bool
  | ChooseRole role
  | ChooseExpiry nat
  | ChooseUses nat
  | CreateInvite
  | InviteCreated invite
  | CloseDialog
  | CopyInvite copy_event
  | RemoveMember member
  | MemberRemoved member
  | RemoveFailed api_error

text \<open>\<open>close\<close>: a shown invite is forgotten, with the copy button that showed it.\<close>

definition close_dialog :: "bool \<Rightarrow> members_state \<Rightarrow> members_state \<times> effect list" where
  "close_dialog open st =
     (let st1 = (if \<not> open then st\<lparr>mb_dialog := (mb_dialog st)\<lparr>iv_invite := None, iv_copy := copy_start\<rparr>\<rparr> else st);
          effs = (if \<not> open then [ResetMutation] else [])
      in (st1\<lparr>mb_inviting := open\<rparr>, effs))"

definition create_invite_call :: "tenant \<Rightarrow> invite_dialog \<Rightarrow> call" where
  "create_invite_call t d = create_invite (t_id t) (iv_role d) (iv_expiry d) (iv_uses d)"

fun members_step :: "tenant \<Rightarrow> user \<Rightarrow> members_event \<Rightarrow> members_state \<Rightarrow> members_state \<times> effect list" where
  "members_step t me OpenInviting st = (st\<lparr>mb_inviting := True\<rparr>, [])"
| "members_step t me (DialogOpenChange b) st = close_dialog b st"
| "members_step t me (ChooseRole r) st = (st\<lparr>mb_dialog := (mb_dialog st)\<lparr>iv_role := r\<rparr>\<rparr>, [])"
| "members_step t me (ChooseExpiry s) st = (st\<lparr>mb_dialog := (mb_dialog st)\<lparr>iv_expiry := s\<rparr>\<rparr>, [])"
| "members_step t me (ChooseUses n) st = (st\<lparr>mb_dialog := (mb_dialog st)\<lparr>iv_uses := n\<rparr>\<rparr>, [])"
| "members_step t me CreateInvite st = (st, [Mutate (create_invite_call t (mb_dialog st))])"
| "members_step t me (InviteCreated i) st = (st\<lparr>mb_dialog := (mb_dialog st)\<lparr>iv_invite := Some i\<rparr>\<rparr>, [])"
| "members_step t me CloseDialog st = close_dialog False st"
| "members_step t me (CopyInvite e) st =
     (let (c, effs) = copy_step [] e (iv_copy (mb_dialog st)) in (st\<lparr>mb_dialog := (mb_dialog st)\<lparr>iv_copy := c\<rparr>\<rparr>, effs))"
| "members_step t me (RemoveMember m) st = (st, [Mutate (remove_member (t_id t) (m_user_id m))])"
| "members_step t me (MemberRemoved m) st =
     (st,
      if m_user_id m = sub me
      then [ToastSuccess (''You left '' @ t_name t), Invalidate (q_key tenants_query), Navigate (link_to ''/admin/tenants'' [])]
      else [ToastSuccess (js_or (m_name m) (m_email m) @ '' removed''), Invalidate (q_key (members_query (t_id t)))])"
| "members_step t me (RemoveFailed e) st = (st, [ToastError (error_message e)])"

section \<open>The views\<close>

definition role_badge :: "role \<Rightarrow> 'e node" where
  "role_badge r = El ''Badge'' [(''variant'', Str (if r = Owner then ''default'' else ''outline''))] [Text (show_role r)]"

text \<open>One button per option, the chosen one pressed; \<open>show_value\<close> is \<open>String\<close>.\<close>

definition choice :: "('v \<Rightarrow> string) \<Rightarrow> string \<Rightarrow> 'v \<Rightarrow> ('v \<Rightarrow> 'e) \<Rightarrow> ('v \<times> string \<times> string option) list \<Rightarrow> 'e node" where
  "choice show_value lbl value on_change options =
     El ''fieldset'' []
       [El ''legend'' [] [Text lbl],
        El ''div'' [(''className'', Str (if length options = 3 then ''grid-cols-3'' else ''grid-cols-2''))]
          (map (\<lambda>(v, l, h).
             El ''button''
               [(''key'', Str (show_value v)), (''type'', Str ''button''), (''aria-pressed'', Flag (v = value)),
                (''onClick'', On (on_change v)),
                (''className'', Str (if v = value then ''border-foreground ring-1 ring-foreground'' else ''''))]
               ([El ''div'' [] [Text l]] @ (case h of None \<Rightarrow> [] | Some s \<Rightarrow> [El ''div'' [] [Text s]])))
           options)]"

definition invite_link :: "browser \<Rightarrow> invite \<Rightarrow> string" where
  "invite_link b i = b_origin b @ ''/invite/'' @ i_code i"

definition invite_link_view :: "browser \<Rightarrow> bool \<Rightarrow> invite \<Rightarrow> members_event node" where
  "invite_link_view b is_copied i =
     El ''div'' []
       [El ''div'' []
         [El ''Input'' [(''readOnly'', Flag True), (''value'', Str (invite_link b i))] [],
          El ''Button'' [(''onClick'', On (CopyInvite (CopyClick (invite_link b i))))] [Text (if is_copied then ''Copied'' else ''Copy link'')]],
        El ''p'' []
         [Text ''Joins as '', El ''span'' [] [Text (show_role (i_role i))], Text '', for'', Text '' '',
          Text (if i_max_uses i = 1 then ''one person'' else ''up to '' @ show_nat (i_max_uses i) @ '' people''), Text '', until'', Text '' '',
          Text (b_locale_string b (i_expires_at i)), Text ''. Or share the code: '',
          CopyValue (i_code i) (Some (take 12 (i_code i) @ ''...''))]]"

definition invite_dialog_view :: "browser \<Rightarrow> tenant \<Rightarrow> mutation \<Rightarrow> members_state \<Rightarrow> members_event node" where
  "invite_dialog_view b t create st =
     (let d = mb_dialog st in
      El ''Dialog'' [(''open'', Flag (mb_inviting st)), (''onOpenChange'', OnFlag DialogOpenChange)]
       [El ''DialogContent'' []
         [El ''DialogHeader'' []
           [El ''DialogTitle'' [] [Text ''Invite people to '', Text (t_name t)],
            El ''DialogDescription'' [] [Text ''Anyone with the link can create an account, or log in, and join. It is shown only once.'']],
          (case iv_invite d of
             Some i \<Rightarrow> invite_link_view b (copied (iv_copy d)) i
           | None \<Rightarrow>
               El ''div'' []
                 ([choice show_role ''Role'' (iv_role d) ChooseRole
                    [(Member, ''Member'', Some ''Sees machines and adds devices''), (Owner, ''Owner'', Some ''Also invites and removes people'')],
                   choice show_nat ''Expires after'' (iv_expiry d) ChooseExpiry (map (\<lambda>(l, s). (s, l, None)) expiries),
                   choice show_nat ''Can be used by'' (iv_uses d) ChooseUses (map (\<lambda>(l, n). (n, l, None)) audiences)] @
                  alert_line create)),
          El ''DialogFooter'' []
            (case iv_invite d of
               Some i \<Rightarrow> [El ''Button'' [(''onClick'', On CloseDialog)] [Text ''Done'']]
             | None \<Rightarrow>
                 [El ''Button'' [(''variant'', Str ''outline''), (''onClick'', On CloseDialog)] [Text ''Cancel''],
                  El ''Button'' [(''onClick'', On CreateInvite), (''disabled'', Flag (is_in_flight create))]
                    [Text (if is_in_flight create then ''Creating...'' else ''Create invite link'')]])]])"

definition member_row :: "browser \<Rightarrow> tenant \<Rightarrow> user \<Rightarrow> member \<Rightarrow> members_event node" where
  "member_row b t me m =
     (let self = (m_user_id m = sub me); owner = (t_role t = Owner) in
      El ''TableRow'' [(''key'', Str (m_user_id m))]
       [El ''TableCell'' []
         [El ''div'' []
           [El ''Avatar'' [] [El ''AvatarFallback'' [] [Text (initials (js_or (m_name m) (m_email m)))]],
            El ''div'' []
             ([El ''div'' [] ([Text (js_or (js_or (m_name m) (m_email m)) (m_user_id m))] @ show_if self [El ''span'' [] [Text ''(you)'']])] @
              show_if (truthy (m_email m)) [El ''div'' [] [Text (m_email m)]])]],
        El ''TableCell'' [] [role_badge (m_role m)],
        El ''TableCell'' [] [Text (b_locale_date b (m_created_at m))],
        El ''TableCell'' []
         (show_if (self \<or> owner)
           [El ''DropdownMenu'' []
             [El ''DropdownMenuTrigger'' [(''asChild'', Flag True)]
               [El ''Button'' [(''variant'', Str ''ghost''), (''aria-label'', Str (''Actions for '' @ js_or (m_name m) (m_email m)))] [El ''EllipsisIcon'' [] []]],
              El ''DropdownMenuContent'' [(''align'', Str ''end'')]
               [El ''DropdownMenuItem'' [(''variant'', Str ''destructive''), (''onSelect'', On (RemoveMember m))]
                 [(if self then El ''LogOutIcon'' [] [] else El ''UserMinusIcon'' [] []),
                  Text (if self then ''Leave tenant'' else ''Remove from tenant'')]]]])])"

definition member_list :: "browser \<Rightarrow> tenant \<Rightarrow> user \<Rightarrow> member list query \<Rightarrow> members_event node" where
  "member_list b t me members =
     (case members of
        Pending \<Rightarrow> table_skeleton
      | Failed d e \<Rightarrow> error_line e
      | Success ms \<Rightarrow>
          El ''div'' []
           [El ''Table'' []
             [El ''TableHeader'' [] [El ''TableRow'' [] (map (\<lambda>h. El ''TableHead'' [] [Text h]) [''User'', ''Role'', ''Joined'', ''''])],
              El ''TableBody'' [] (map (member_row b t me) ms)]])"

definition members_page ::
  "browser \<Rightarrow> tenant list query \<Rightarrow> tenant option \<Rightarrow> user \<Rightarrow> member list query \<Rightarrow> mutation \<Rightarrow> members_state \<Rightarrow> members_event node list" where
  "members_page b tenants current me members create st =
     (case tenants of
        Pending \<Rightarrow> [table_skeleton]
      | Failed d e \<Rightarrow> [error_line e]
      | Success ts \<Rightarrow>
          (case current of
             None \<Rightarrow> [no_tenant]
           | Some t \<Rightarrow>
               [page_header ''Members''
                  [Text ''The people who can manage '', El ''span'' [] [Text (t_name t)], Text ''.'']
                  (show_if (t_role t = Owner)
                    [El ''Button'' [(''onClick'', On OpenInviting)] [El ''UserPlusIcon'' [] [], Text '' Invite people'']]),
                member_list b t me members,
                invite_dialog_view b t create st]))"

section \<open>What can be clicked\<close>

lemma clicks_option:
  "clicks (El ''button''
      [(''key'', Str k), (''type'', Str ''button''), (''aria-pressed'', Flag p), (''onClick'', On e), (''className'', Str cls)]
      ([El ''div'' [] [Text l]] @ (case h of None \<Rightarrow> [] | Some s \<Rightarrow> [El ''div'' [] [Text s]]))) = [e]"
  by (cases h) (simp_all add: view_simps)

lemma clicks_choice: "clicks (choice sv lbl value f options) = map (f \<circ> fst) options"
proof -
  have "List.concat (map (clicks \<circ> (\<lambda>(v, l, h). El ''button''
      [(''key'', Str (sv v)), (''type'', Str ''button''), (''aria-pressed'', Flag (v = value)), (''onClick'', On (f v)),
       (''className'', Str (if v = value then ''border-foreground ring-1 ring-foreground'' else ''''))]
      ([El ''div'' [] [Text l]] @ (case h of None \<Rightarrow> [] | Some s \<Rightarrow> [El ''div'' [] [Text s]])))) options) = map (f \<circ> fst) options"
    by (induction options) (auto simp: clicks_option simp del: clicks.simps append.simps)
  then show ?thesis by (simp add: choice_def view_simps del: append.simps)
qed

lemma clicks_row:
  "clicks (member_row b t me m) =
     (if m_user_id m = sub me \<or> t_role t = Owner then [RemoveMember m] else [])"
  by (simp add: member_row_def Let_def view_simps role_badge_def)

lemma clicks_list:
  "RemoveMember m \<in> set (clicks (member_list b t me (Success ms))) \<longleftrightarrow>
     m \<in> set ms \<and> (m_user_id m = sub me \<or> t_role t = Owner)"
proof -
  have "clicks (member_list b t me (Success ms)) = List.concat (map (clicks \<circ> member_row b t me) ms)"
    by (simp add: member_list_def view_simps comp_def)
  then show ?thesis by (auto simp: clicks_row)
qed

section \<open>The invite dialog\<close>

text \<open>What the libraries and the browser can call, besides the clicks of the page.\<close>

fun callback_event :: "members_event \<Rightarrow> bool" where
  "callback_event (InviteCreated i) = True"
| "callback_event (MemberRemoved m) = True"
| "callback_event (RemoveFailed e) = True"
| "callback_event (DialogOpenChange o') = True"
| "callback_event (CopyInvite e) = True"
| "callback_event _ = False"

inductive members_run :: "user \<Rightarrow> members_state \<Rightarrow> bool" for me where
  start: "members_run me members_start"
| click: "members_run me st \<Longrightarrow>
    e \<in> set (List.concat (map clicks (members_page b (Success ts) (Some t) me members create st))) \<Longrightarrow>
    members_run me (fst (members_step t me e st))"
| callback: "members_run me st \<Longrightarrow> callback_event e \<Longrightarrow> members_run me (fst (members_step t me e st))"

definition dialog_ok :: "invite_dialog \<Rightarrow> bool" where
  "dialog_ok d \<longleftrightarrow> iv_expiry d \<in> {86400, 604800, 2592000} \<and> iv_uses d \<in> {1, 10}"

lemma step_dialog_ok:
  assumes "dialog_ok (mb_dialog st)"
    "\<And>s. e = ChooseExpiry s \<Longrightarrow> s \<in> snd ` set expiries" "\<And>n. e = ChooseUses n \<Longrightarrow> n \<in> snd ` set audiences"
  shows "dialog_ok (mb_dialog (fst (members_step t me e st)))"
  using assms
  by (cases e) (auto simp: dialog_ok_def expiries_def audiences_def close_dialog_def Let_def split: prod.splits)

lemma clicks_dialog:
  "ChooseExpiry s \<in> set (clicks (invite_dialog_view b t create st)) \<Longrightarrow> s \<in> snd ` set expiries"
  "ChooseUses n \<in> set (clicks (invite_dialog_view b t create st)) \<Longrightarrow> n \<in> snd ` set audiences"
  by (auto simp: invite_dialog_view_def Let_def clicks_choice invite_link_view_def CopyValue_def alert_line_def
      view_simps split: option.splits if_splits mutation.splits intro: rev_image_eqI)

lemma clicks_page:
  assumes "e \<in> set (List.concat (map clicks (members_page b (Success ts) (Some t) me members create st)))"
  shows "e = OpenInviting \<or> (\<exists>m. e = RemoveMember m) \<or> e \<in> set (clicks (invite_dialog_view b t create st))"
proof -
  have "e = OpenInviting \<or> e \<in> set (clicks (member_list b t me members)) \<or> e \<in> set (clicks (invite_dialog_view b t create st))"
    using assms by (auto simp: members_page_def page_header_def view_simps split: if_splits)
  moreover have "\<exists>m. e = RemoveMember m" if "e \<in> set (clicks (member_list b t me members))"
    using that
    by (auto simp: member_list_def view_simps clicks_row table_skeleton_def error_line_def
        split: query.splits if_splits)
  ultimately show ?thesis by blast
qed

lemma members_run_ok: "members_run me st \<Longrightarrow> dialog_ok (mb_dialog st)"
proof (induction rule: members_run.induct)
  case start
  then show ?case by (simp add: members_start_def invite_dialog_start_def dialog_ok_def expiries_def)
next
  case (click st e b ts t members create)
  have "e \<noteq> OpenInviting \<Longrightarrow> (\<And>m. e \<noteq> RemoveMember m) \<Longrightarrow> e \<in> set (clicks (invite_dialog_view b t create st))"
    using clicks_page [OF click.hyps(2)] by blast
  then show ?case
    using clicks_dialog click.IH by (intro step_dialog_ok) auto
next
  case (callback st e t)
  then show ?case by (intro step_dialog_ok) auto
qed

text \<open>
  C24. Every invite the dialog can ask for is one the control plane makes. Whatever the
  user clicks and the libraries call back, in any order, the role, lifetime and number of
  uses in the request are within the API's limits, and the API grants exactly these, with
  no default in their place.
\<close>
theorem invite_request_accepted:
  assumes "members_run me st"
  shows "\<exists>ttl uses. members_step t me CreateInvite st =
      (st, [Mutate (create_invite (t_id t) (iv_role (mb_dialog st)) ttl uses)]) \<and>
    invite_options Owner (show_role (iv_role (mb_dialog st))) (int ttl) (int uses) =
      Inr (show_role (iv_role (mb_dialog st)), int ttl * second_ns, int uses)"
proof -
  let ?d = "mb_dialog st"
  have r: "show_role (iv_role ?d) \<in> {''member'', ''owner''}" by (cases "iv_role ?d") simp_all
  have "invite_options Owner (show_role (iv_role ?d)) (int (iv_expiry ?d)) (int (iv_uses ?d)) =
      Inr (show_role (iv_role ?d), int (iv_expiry ?d) * second_ns, int (iv_uses ?d))"
    using members_run_ok [OF assms] r by (intro invite_options_ok) (auto simp: dialog_ok_def)
  then show ?thesis by (auto simp: create_invite_call_def)
qed

theorem invite_request_accepted_witness:
  "members_run dev_user members_start \<and>
   (\<exists>ttl uses. invite_options Owner (show_role (iv_role (mb_dialog members_start))) (int ttl) (int uses) =
      Inr (show_role (iv_role (mb_dialog members_start)), int ttl * second_ns, int uses))"
  using invite_request_accepted [OF members_run.start, of demo_tenant dev_user] members_run.start [of dev_user] by blast

text \<open>
  What closing the invite dialog does and does not forget. Closing it hides the link
  and resets the request, so that the next opening starts anew; but when the answer of a
  request made before arrives after the closing, its handler still keeps the invite, and
  the next opening, even for another tenant, shows that link instead of the form.
\<close>
theorem closed_dialog_keeps_late_invite:
  "fst (members_step t me CloseDialog st) =
     st\<lparr>mb_inviting := False, mb_dialog := (mb_dialog st)\<lparr>iv_invite := None, iv_copy := copy_start\<rparr>\<rparr> \<and>
   snd (members_step t me CloseDialog st) = [ResetMutation] \<and>
   (let late = fst (members_step t me (InviteCreated i) (fst (members_step t me CloseDialog st)));
        reopened = fst (members_step t' me OpenInviting late)
    in CopyInvite (CopyClick (invite_link b i)) \<in> set (clicks (invite_dialog_view b t' create reopened)) \<and>
       CreateInvite \<notin> set (clicks (invite_dialog_view b t' create reopened)))"
  by (simp add: close_dialog_def Let_def invite_dialog_view_def invite_link_view_def CopyValue_def view_simps)

end
