(* ===== verification/Tenants.thy ===== *)
theory Tenants
  imports Members
begin

text \<open>
  \<open>src/web/src/frontend/routes/admin/tenants.tsx\<close>: the tenants of the user, the dialog that
  creates one and the dialog that joins one with an invite link or claims one by its id.
  Which dialog is open is in the address, so opening one is a navigation.
\<close>

record tenants_state =
  ct_name :: string
  ct_cidr :: string
  jt_value :: string

definition tenants_start :: tenants_state where
  "tenants_start = \<lparr>ct_name = [], ct_cidr = [], jt_value = []\<rparr>"

section \<open>What the user pasted\<close>

definition word_dash :: "char \<Rightarrow> bool" where
  "word_dash c \<longleftrightarrow> is_word c \<or> c = CHR ''-''"

definition invite_re :: regex where
  "invite_re = [Lit ''m2mi_'', Rep word_dash 1 None]"

definition uuid_re :: regex where
  "uuid_re =
    [Rep is_hex 8 (Some 8), Lit ''-'', Rep is_hex 4 (Some 4), Lit ''-'', Rep is_hex 4 (Some 4), Lit ''-'',
     Rep is_hex 4 (Some 4), Lit ''-'', Rep is_hex 12 (Some 12)]"

definition pasted_invite :: "string \<Rightarrow> string option" where
  "pasted_invite v = re_find invite_re v"

definition pasted_tenant :: "string \<Rightarrow> string option" where
  "pasted_tenant v = (if truthy (coalesce (pasted_invite v) []) then None else re_find uuid_re v)"

section \<open>Handlers\<close>

datatype tenants_event =
    SetCreating bool
  | SetJoining bool
  | SetTenantName string
  | SetTenantCidr string
  | SubmitCreate
  | TenantCreated tenant
  | CreateOpenChange bool
  | CancelCreate
  | SetJoinValue string
  | SubmitJoin
  | TenantJoined tenant
  | JoinOpenChange bool
  | CancelJoin

definition set_creating :: "bool \<Rightarrow> effect list" where
  "set_creating open =
     [Navigate (replacing (link_to ''/admin/tenants'' (if open then [(''create'', JBool True)] else [])))]"

definition set_joining :: "bool \<Rightarrow> effect list" where
  "set_joining open =
     [Navigate (replacing (link_to ''/admin/tenants'' (if open then [(''join'', JBool True)] else [])))]"

definition create_call :: "tenants_state \<Rightarrow> call" where
  "create_call st =
     create_tenant (trim (ct_name st)) (if truthy (trim (ct_cidr st)) then Some (trim (ct_cidr st)) else None)"

text \<open>\<open>tenantId!\<close> is not checked: a missing id would be the text undefined.\<close>

definition join_call :: "tenants_state \<Rightarrow> call" where
  "join_call st =
     (case pasted_invite (jt_value st) of
        Some (c # cs) \<Rightarrow> accept_invite (c # cs)
      | _ \<Rightarrow> claim_tenant (coalesce (pasted_tenant (jt_value st)) ''undefined''))"

definition go_to_machines :: "tenant \<Rightarrow> effect" where
  "go_to_machines t = Navigate (link_to ''/admin/machines'' [(''tenant'', JStr (t_id t))])"

fun tenants_step :: "tenants_event \<Rightarrow> tenants_state \<Rightarrow> tenants_state \<times> effect list" where
  "tenants_step (SetCreating b) st = (st, set_creating b)"
| "tenants_step (SetJoining b) st = (st, set_joining b)"
| "tenants_step (SetTenantName s) st = (st\<lparr>ct_name := s\<rparr>, [])"
| "tenants_step (SetTenantCidr s) st = (st\<lparr>ct_cidr := s\<rparr>, [])"
| "tenants_step SubmitCreate st = (st, [PreventDefault, Mutate (create_call st)])"
| "tenants_step (TenantCreated t) st =
     (st\<lparr>ct_name := [], ct_cidr := []\<rparr>,
      [Invalidate (q_key tenants_query), ToastSuccess (''Tenant '' @ t_name t @ '' created''), go_to_machines t])"
| "tenants_step (CreateOpenChange o') st = (st, (if \<not> o' then [ResetMutation] else []) @ set_creating o')"
| "tenants_step CancelCreate st = (st, set_creating False)"
| "tenants_step (SetJoinValue s) st = (st\<lparr>jt_value := s\<rparr>, [])"
| "tenants_step SubmitJoin st = (st, [PreventDefault, Mutate (join_call st)])"
| "tenants_step (TenantJoined t) st =
     (st\<lparr>jt_value := []\<rparr>,
      [Invalidate (q_key tenants_query),
       ToastSuccess ((if truthy (coalesce (pasted_invite (jt_value st)) []) then ''You joined '' else ''You now own '') @ t_name t),
       go_to_machines t])"
| "tenants_step (JoinOpenChange o') st = (st, (if \<not> o' then [ResetMutation] else []) @ set_joining o')"
| "tenants_step CancelJoin st = (st, set_joining False)"

section \<open>Views\<close>

definition setup_command :: "tenants_state \<Rightarrow> string" where
  "setup_command st =
     ''sudo meshd setup '' @ (if truthy (trim (ct_name st)) then shell_arg (trim (ct_name st)) else ''<tenant-name>'') @
     (if truthy (trim (ct_cidr st)) then '' --cidr '' @ shell_arg (trim (ct_cidr st)) else '''')"

definition create_tenant_dialog :: "bool \<Rightarrow> mutation \<Rightarrow> tenants_state \<Rightarrow> tenants_event node" where
  "create_tenant_dialog is_open create st =
     El ''Dialog'' [(''open'', Flag is_open), (''onOpenChange'', OnFlag CreateOpenChange)]
       [El ''DialogContent'' []
         [El ''form'' [(''onSubmit'', On SubmitCreate)]
           ([El ''DialogHeader'' []
              [El ''DialogTitle'' [] [Text ''Create a tenant''],
               El ''DialogDescription'' [] [Text ''A new private network. Machines join it from the Add device dialog.'']],
             El ''div'' []
              [El ''Label'' [(''htmlFor'', Str ''tenant-name'')] [Text ''Name''],
               El ''Input'' [(''id'', Str ''tenant-name''), (''value'', Str (ct_name st)), (''onChange'', OnText SetTenantName), (''placeholder'', Str ''acme''), (''autoFocus'', Flag True), (''required'', Flag True)] []],
             El ''div'' []
              [El ''Label'' [(''htmlFor'', Str ''tenant-cidr'')] [Text ''Address range '', El ''span'' [] [Text ''(optional)'']],
               El ''Input'' [(''id'', Str ''tenant-cidr''), (''value'', Str (ct_cidr st)), (''onChange'', OnText SetTenantCidr), (''placeholder'', Str ''10.203.0.0/16'')] [],
               El ''p'' [] [Text ''A private IPv4 range, /30 or larger.'']]] @
            alert_line create @
            [El ''details'' []
              [El ''summary'' [] [Text ''Or from a machine, joining it too''],
               Command (setup_command st)],
             El ''DialogFooter'' []
              [El ''Button'' [(''type'', Str ''button''), (''variant'', Str ''outline''), (''onClick'', On CancelCreate)] [Text ''Cancel''],
               El ''Button'' [(''type'', Str ''submit''), (''disabled'', Flag (is_in_flight create \<or> trim (ct_name st) = []))]
                [Text (if is_in_flight create then ''Creating...'' else ''Create tenant'')]]])]]"

definition join_tenant_dialog :: "bool \<Rightarrow> mutation \<Rightarrow> tenants_state \<Rightarrow> tenants_event node" where
  "join_tenant_dialog is_open join st =
     (let invite = coalesce (pasted_invite (jt_value st)) []; tenant = coalesce (pasted_tenant (jt_value st)) [] in
      El ''Dialog'' [(''open'', Flag is_open), (''onOpenChange'', OnFlag JoinOpenChange)]
       [El ''DialogContent'' []
         [El ''form'' [(''onSubmit'', On SubmitJoin)]
           ([El ''DialogHeader'' []
              [El ''DialogTitle'' [] [Text ''Join a tenant''],
               El ''DialogDescription'' [] [Text ''Paste the invite link an owner sent you.'']],
             El ''div'' []
              [El ''Label'' [(''htmlFor'', Str ''join-value'')] [Text ''Invite link or code''],
               El ''Input'' [(''id'', Str ''join-value''), (''value'', Str (jt_value st)), (''onChange'', OnText SetJoinValue), (''placeholder'', Str ''https://.../invite/m2mi_...''), (''autoFocus'', Flag True)] [],
               El ''p'' [] [Text ''Made a tenant with '', El ''code'' [] [Text ''meshd setup''], Text ''? Paste its tenant ID to claim it, if nobody has yet.'']]] @
            alert_line join @
            [El ''DialogFooter'' []
              [El ''Button'' [(''type'', Str ''button''), (''variant'', Str ''outline''), (''onClick'', On CancelJoin)] [Text ''Cancel''],
               El ''Button'' [(''type'', Str ''submit''), (''disabled'', Flag (is_in_flight join \<or> (\<not> truthy invite \<and> \<not> truthy tenant)))]
                [Text (if is_in_flight join then ''Joining...'' else if truthy tenant then ''Claim tenant'' else ''Join tenant'')]]])]])"

definition tenant_row :: "tenant \<Rightarrow> tenants_event node" where
  "tenant_row t =
     El ''TableRow'' [(''key'', Str (t_id t))]
       [El ''TableCell'' [] [Text (t_name t)],
        El ''TableCell'' [] [Text (t_cidr t)],
        El ''TableCell'' [] [CopyValue (t_id t) (Some (take 8 (t_id t) @ ''...''))],
        El ''TableCell'' [] [role_badge (t_role t)],
        El ''TableCell'' []
          [El ''Button'' [(''variant'', Str ''ghost''), (''asChild'', Flag True)]
            [El ''Link'' [(''to'', To (link_to ''/admin/machines'' [(''tenant'', JStr (t_id t))]))]
              [Text ''Machines '', El ''ChevronRightIcon'' [] []]]]]"

definition tenants_page :: "tenant list query \<Rightarrow> bool \<times> bool \<Rightarrow> mutation \<Rightarrow> mutation \<Rightarrow> tenants_state \<Rightarrow> tenants_event node list" where
  "tenants_page tenants search create join st =
     [page_header ''Tenants''
        [Text ''The private networks you belong to. Each has its own address range and members.'']
        [El ''Button'' [(''variant'', Str ''outline''), (''onClick'', On (SetJoining True))] [El ''LogInIcon'' [] [], Text '' Join a tenant''],
         El ''Button'' [(''onClick'', On (SetCreating True))] [El ''PlusIcon'' [] [], Text '' Create tenant'']],
      (case tenants of
         Pending \<Rightarrow> table_skeleton
       | Failed d e \<Rightarrow> error_line e
       | Success ts \<Rightarrow>
           if ts = [] then
             El ''div'' [] [Text ''You are not in any tenant yet. Create one, or join one with an invite link.'']
           else
             El ''div'' []
              [El ''Table'' []
                [El ''TableHeader'' []
                  [El ''TableRow'' [] (map (\<lambda>h. El ''TableHead'' [] [Text h]) [''Name'', ''Address range'', ''Tenant ID'', ''Your role'', ''''])],
                 El ''TableBody'' [] (map tenant_row ts)]]),
      create_tenant_dialog (fst search) create st,
      join_tenant_dialog (snd search) join st]"

section \<open>Pasting an invite link\<close>

lemma invite_re_start:
  "re_rests invite_re s \<noteq> [] \<Longrightarrow> starts_with s ''m2mi_''"
  by (cases "starts_with s ''m2mi_''") (simp_all add: invite_re_def)

lemma re_find_here: "re_rests r (w @ t) = t # ts \<Longrightarrow> re_find r (w @ t) = Some w"
  by (simp add: re_find.simps [of r "w @ t"])

lemma invite_re_at:
  assumes "w \<noteq> []" "\<forall>c \<in> set w. word_dash c" "rest = [] \<or> \<not> word_dash (hd rest)"
  shows "re_find invite_re (''m2mi_'' @ w @ rest) = Some (''m2mi_'' @ w)"
proof -
  obtain ts where ts: "rep_rests word_dash 1 None (w @ rest) = rest # ts"
    using rep_rests_hd [of 1 w word_dash rest] assms by (cases w) (auto simp: Suc_le_eq)
  have "re_rests invite_re (''m2mi_'' @ w @ rest) = rest # ts"
  proof -
    have "List.concat (map (re_rests []) (rest # ts)) = rest # ts" by (induction ts) auto
    then show ?thesis using ts by (simp add: invite_re_def)
  qed
  then show ?thesis using re_find_here [of invite_re "''m2mi_'' @ w" rest ts] by simp
qed

text \<open>A prefix without an underscore that ends with a slash hides no earlier match.\<close>

lemma starts_with_overlap: "starts_with (d @ s) p \<Longrightarrow> d \<noteq> [] \<Longrightarrow> set p \<subseteq> set d \<or> last d \<in> set p"
proof -
  assume p: "starts_with (d @ s) p" and d: "d \<noteq> []"
  then have p: "p = take (length p) (d @ s)" by (simp add: starts_with_take)
  show ?thesis
  proof (cases "length p \<le> length d")
    case True
    then have "p = take (length p) d" using p by simp
    then show ?thesis by (metis set_take_subset)
  next
    case False
    then have "p = d @ take (length p - length d) s" using p by simp
    then have "set d \<subseteq> set p" by (metis Un_upper1 set_append)
    then show ?thesis using d by (meson last_in_set subsetD)
  qed
qed

lemma no_invite_before:
  assumes "CHR ''_'' \<notin> set pre" "i < length pre" "last pre = CHR ''/''"
  shows "re_rests invite_re (drop i pre @ s) = []"
proof (rule ccontr)
  assume "re_rests invite_re (drop i pre @ s) \<noteq> []"
  then have "starts_with (drop i pre @ s) ''m2mi_''" by (rule invite_re_start)
  moreover have "drop i pre \<noteq> []" "last (drop i pre) = CHR ''/''" using assms(2,3) by simp_all
  ultimately have "set ''m2mi_'' \<subseteq> set (drop i pre) \<or> CHR ''/'' \<in> set ''m2mi_''"
    using starts_with_overlap by metis
  moreover have "CHR ''_'' \<notin> set (drop i pre)" using assms(1) in_set_dropD by metis
  ultimately show False by simp
qed

lemma pasted_invite_in:
  assumes "CHR ''_'' \<notin> set pre" "last pre = CHR ''/''" "w \<noteq> []" "\<forall>c \<in> set w. word_dash c"
    "rest = [] \<or> \<not> word_dash (hd rest)"
  shows "pasted_invite (pre @ ''m2mi_'' @ w @ rest) = Some (''m2mi_'' @ w)"
  unfolding pasted_invite_def
  using re_find_skip [of pre invite_re "''m2mi_'' @ w @ rest"] no_invite_before [OF assms(1) _ assms(2)]
    invite_re_at [OF assms(3-5)] by simp

text \<open>
  C37. An invite link pasted into the join dialog is recognised. For an invite whose code
  has the control plane's shape, made on a site whose address holds no underscore, pasting
  the link the invite dialog shows, also inside a longer message that has no underscore
  before it and a separator after it, makes the dialog offer to join, and submitting it
  accepts exactly that invite.
\<close>
theorem pasted_link_joins:
  assumes code: "i_code i = ''m2mi_'' @ w" "w \<noteq> []" "\<forall>c \<in> set w. is_word c \<or> c = CHR ''-''"
    and site: "CHR ''_'' \<notin> set (before @ b_origin b)"
    and after: "after = [] \<or> \<not> (is_word (hd after) \<or> hd after = CHR ''-'')"
    and st: "jt_value st = before @ invite_link b i @ after"
  shows "snd (tenants_step SubmitJoin st) = [PreventDefault, Mutate (accept_invite (i_code i))] \<and>
    SubmitJoin \<in> set (clicks (join_tenant_dialog True Idle st))"
proof -
  have "pasted_invite ((before @ b_origin b @ ''/invite/'') @ ''m2mi_'' @ w @ after) = Some (''m2mi_'' @ w)"
    using site code after by (intro pasted_invite_in) (auto simp: word_dash_def)
  then have p: "pasted_invite (jt_value st) = Some (''m2mi_'' @ w)"
    unfolding st invite_link_def code(1) by simp
  show ?thesis
    using code(1) by (simp add: join_call_def p join_tenant_dialog_def pasted_tenant_def Let_def view_simps)
qed

definition demo_invite :: invite where
  "demo_invite =
     \<lparr>i_id = ''i1'', i_code = ''m2mi_Zk-9_x'', i_role = Member, i_max_uses = 1, i_expires_at = ''2026-01-08T00:00:00Z''\<rparr>"

theorem pasted_link_joins_witness:
  "snd (tenants_step SubmitJoin (tenants_start\<lparr>jt_value := ''Hi! '' @ invite_link demo_browser demo_invite @ '' bye''\<rparr>)) =
     [PreventDefault, Mutate (accept_invite ''m2mi_Zk-9_x'')]"
proof -
  have c: "i_code demo_invite = ''m2mi_'' @ ''Zk-9_x''" "''Zk-9_x'' \<noteq> []"
      "\<forall>c \<in> set ''Zk-9_x''. is_word c \<or> c = CHR ''-''"
      "CHR ''_'' \<notin> set (''Hi! '' @ b_origin demo_browser)" "'' bye'' = [] \<or> \<not> (is_word (hd '' bye'') \<or> hd '' bye'' = CHR ''-'')"
    by (simp_all add: demo_invite_def demo_browser_def is_word_def class_defs)
  have "jt_value (tenants_start\<lparr>jt_value := ''Hi! '' @ invite_link demo_browser demo_invite @ '' bye''\<rparr>) =
      ''Hi! '' @ invite_link demo_browser demo_invite @ '' bye''" by simp
  from pasted_link_joins [OF c this, THEN conjunct1]
  show ?thesis by (simp only: demo_invite_def invite.simps)
qed

section \<open>Pasting a tenant id\<close>

lemma uuid_tenant_id: "re_ok uuid_re w \<Longrightarrow> tenant_id w"
  by (auto simp: uuid_re_def tenant_id_def rep_ok_def list_all_iff is_hex_dash_def)

lemma no_underscore_no_invite: "CHR ''_'' \<notin> set v \<Longrightarrow> pasted_invite v = None"
  unfolding pasted_invite_def re_find_none_iff by (auto simp: invite_re_def)

lemma substring_unique:
  assumes "a @ w @ b = pre @ x @ rest" "length w = length x" "w \<noteq> []"
    "\<forall>c \<in> set w. P c" "\<forall>c \<in> set pre. \<not> P c" "\<forall>c \<in> set rest. \<not> P c"
  shows "w = x"
proof -
  have at: "(pre @ x @ rest) ! (length a + j) = w ! j" if "j < length w" for j
    using that unfolding assms(1) [symmetric] by (simp add: nth_append)
  have "length pre \<le> length a"
  proof (rule ccontr)
    assume "\<not> length pre \<le> length a"
    then have "w ! 0 = pre ! length a" "length a < length pre" using at [of 0] assms(3) by (simp_all add: nth_append)
    then show False using assms(3,4,5) by (metis length_greater_0_conv nth_mem)
  qed
  moreover have "length a \<le> length pre"
  proof (rule ccontr)
    assume gt: "\<not> length a \<le> length pre"
    let ?j = "length w - 1"
    have len: "length (a @ w @ b) = length (pre @ x @ rest)" using assms(1) by simp
    have j: "?j < length w" using assms(3) by simp
    let ?k = "length a + ?j - length (pre @ x)"
    have i: "length (pre @ x) \<le> length a + ?j" using gt j assms(2) by simp
    have "w ! ?j = ((pre @ x) @ rest) ! (length a + ?j)" using at [OF j] by simp
    also have "\<dots> = rest ! ?k" using i by (simp only: nth_append not_less [symmetric] if_False)
    finally have "w ! ?j = rest ! ?k" .
    moreover have "?k < length rest" using gt j assms(2) len by simp
    ultimately show False using assms(4,6) j by (metis nth_mem)
  qed
  ultimately have "length a = length pre" by simp
  then show ?thesis using assms(1,2) by simp
qed

text \<open>
  A tenant id pasted into the join dialog claims that tenant. A value that holds one
  tenant id and, around it, any text without hexadecimal digits, dashes and underscores, is
  read as that id; submitting it claims that tenant, with a call that the proxy forwards.
\<close>
theorem pasted_id_claims:
  assumes id: "re_ok uuid_re t"
    and around: "\<forall>c \<in> set (before @ after). \<not> (is_hex c \<or> c = CHR ''-'' \<or> c = CHR ''_'')"
    and st: "jt_value st = before @ t @ after"
  shows "snd (tenants_step SubmitJoin st) = [PreventDefault, Mutate (claim_tenant t)] \<and>
    SubmitJoin \<in> set (clicks (join_tenant_dialog True Idle st)) \<and> forwarded (claim_tenant t)"
proof -
  note t = uuid_tenant_id [OF id]
  have hex: "\<forall>c \<in> set t. is_hex_dash c" and len: "length t = 36" using t by (auto simp: tenant_id_def list_all_iff)
  have "CHR ''_'' \<notin> set t" using hex by (auto simp: is_hex_dash_def is_hex_def Let_def)
  then have none: "pasted_invite (jt_value st) = None"
    using around unfolding st by (intro no_underscore_no_invite) auto
  obtain w where w: "re_find uuid_re (before @ t @ after) = Some w"
    using re_find_complete [OF id] by blast
  then obtain a b where ab: "before @ t @ after = a @ w @ b" "tenant_id w"
    using re_find_sound uuid_tenant_id by metis
  have sides: "\<forall>c \<in> set before. \<not> is_hex_dash c" "\<forall>c \<in> set after. \<not> is_hex_dash c"
    using around by (auto simp: is_hex_dash_def)
  have wt: "length w = length t" "w \<noteq> []" "\<forall>c \<in> set w. is_hex_dash c"
    using ab(2) len by (auto simp: tenant_id_def list_all_iff)
  have "w = t" by (rule substring_unique [OF ab(1) [symmetric] wt sides])
  then have p: "pasted_tenant (jt_value st) = Some t" using w none by (simp add: pasted_tenant_def st)
  have "t \<noteq> []" using len by auto
  moreover have "forwarded (claim_tenant t)" using t by (rule claim_forwarded)
  ultimately show ?thesis
    by (simp add: join_call_def none p join_tenant_dialog_def Let_def view_simps)
qed

theorem pasted_id_claims_witness:
  "snd (tenants_step SubmitJoin (tenants_start\<lparr>jt_value := '' '' @ demo_tenant_id @ ''!''\<rparr>)) =
     [PreventDefault, Mutate (claim_tenant demo_tenant_id)]"
proof -
  have "re_test uuid_re demo_tenant_id" by code_simp
  then have u: "re_ok uuid_re demo_tenant_id" by (simp only: re_test_iff)
  have a: "\<forall>c \<in> set ('' '' @ ''!''). \<not> (is_hex c \<or> c = CHR ''-'' \<or> c = CHR ''_'')"
    by (simp add: class_defs)
  have "jt_value (tenants_start\<lparr>jt_value := '' '' @ demo_tenant_id @ ''!''\<rparr>) = '' '' @ demo_tenant_id @ ''!''" by simp
  from pasted_id_claims [OF u a this] show ?thesis by (elim conjE)
qed

section \<open>Creating a tenant\<close>

text \<open>
  The create dialog sends what was typed, trimmed, and never a blank name. Submitting
  is offered exactly when no creation is running and the name is not blank; the request
  then holds the trimmed name, and the trimmed range exactly when it is not blank, so that a
  blank range leaves the choice to the control plane.
\<close>
theorem create_request_body:
  "(SubmitCreate \<in> set (clicks (create_tenant_dialog True create st)) \<longleftrightarrow>
      \<not> is_in_flight create \<and> (\<exists>c \<in> set (ct_name st). \<not> js_space c)) \<and>
   (\<exists>c. snd (tenants_step SubmitCreate st) = [PreventDefault, Mutate c] \<and> forwarded c \<and>
      c_body c = Some (JObj ([(''name'', JStr (trim (ct_name st)))] @
        (if \<exists>c \<in> set (ct_cidr st). \<not> js_space c then [(''cidr'', JStr (trim (ct_cidr st)))] else []))))"
proof -
  have blank: "trim s = [] \<longleftrightarrow> (\<forall>c \<in> set s. js_space c)" for s
  proof -
    have "trim s = [] \<longleftrightarrow> (\<forall>c \<in> set (dropWhile js_space s). js_space c)"
      by (simp add: trim_def trim_start_def dropWhile_eq_Nil_conv)
    also have "\<dots> \<longleftrightarrow> (\<forall>c \<in> set s. js_space c)"
      by (metis dropWhile_eq_Nil_conv empty_iff list.set(1) set_dropWhileD hd_dropWhile list.set_sel(1))
    finally show ?thesis .
  qed
  have f: "forwarded (create_call st)"
    by (subst forwarded_iff [where p = "''v1/me/tenants''"])
      (auto simp: create_call_def call_defs me_path_def route_allowed_iff plain_dotless)
  have b: "c_body (create_call st) = Some (JObj ([(''name'', JStr (trim (ct_name st)))] @
        (if trim (ct_cidr st) \<noteq> [] then [(''cidr'', JStr (trim (ct_cidr st)))] else [])))"
    by (simp add: create_call_def create_tenant_def post_def call_of_def)
  have c: "SubmitCreate \<in> set (clicks (create_tenant_dialog True create st)) \<longleftrightarrow> \<not> is_in_flight create \<and> trim (ct_name st) \<noteq> []"
    by (auto simp: create_tenant_dialog_def Command_def alert_line_def view_simps split: mutation.splits)
  show ?thesis
    using f b c by (auto simp: blank)
qed

text \<open>
  Cancel leaves the error of a dialog behind. Closing the create or the join dialog by
  the dialog itself resets its request, but its Cancel button only closes it; a refused
  request is then still the dialog's when it is opened again, and its message is shown over
  the form before anything was sent.
\<close>
theorem cancel_keeps_error:
  "ResetMutation \<in> set (snd (tenants_step (CreateOpenChange False) st)) \<and>
   ResetMutation \<in> set (snd (tenants_step (JoinOpenChange False) st)) \<and>
   snd (tenants_step CancelCreate st) = set_creating False \<and> ResetMutation \<notin> set (set_creating False) \<and>
   snd (tenants_step CancelJoin st) = set_joining False \<and> ResetMutation \<notin> set (set_joining False) \<and>
   error_message e \<in> set (texts (create_tenant_dialog True (Refused e) st')) \<and>
   error_message e \<in> set (texts (join_tenant_dialog True (Refused e) st'))"
  by (simp add: set_creating_def set_joining_def create_tenant_dialog_def join_tenant_dialog_def alert_line_def
      view_simps Let_def)

section \<open>The setup command\<close>

lemma setup_command_words:
  assumes "trim (ct_name st) \<noteq> []"
  shows "sh_words (setup_command st) =
    Some ([''sudo'', ''meshd'', ''setup'', trim (ct_name st)] @ option_words ''--cidr'' (trim (ct_cidr st)))"
proof -
  let ?n = "trim (ct_name st)" and ?c = "trim (ct_cidr st)"
  have p: "list_all plain_word [''sudo'', ''meshd'', ''setup'']" "plain_word ''--cidr''" by code_simp+
  have head: "quoted [''sudo'', ''meshd'', ''setup''] = ''sudo meshd setup''"
    unfolding quoted_plain [OF p(1)] by simp
  have "setup_command st = quoted ([''sudo'', ''meshd'', ''setup''] @ [?n] @ option_words ''--cidr'' ?c)"
  proof (cases "?c = []")
    case True
    have "setup_command st = ''sudo meshd setup'' @ '' '' @ quoted [?n]"
      using True assms by (simp add: setup_command_def quoted_def)
    then show ?thesis
      using True head quoted_append [of "[''sudo'', ''meshd'', ''setup'']" "[?n]"]
      by (simp only: option_words_def append_Nil2 simp_thms if_False list.distinct)
  next
    case False
    have "setup_command st = ''sudo meshd setup'' @ '' '' @ quoted [?n] @ '' '' @ quoted [''--cidr'', ?c]"
      using False assms quoted_option [OF p(2), of ?c] by (simp add: setup_command_def quoted_def)
    then show ?thesis
      using False head quoted_append [of "[''sudo'', ''meshd'', ''setup'']" "[?n] @ [''--cidr'', ?c]"]
        quoted_append [of "[?n]" "[''--cidr'', ?c]"]
      by (simp only: option_words_def simp_thms if_True list.distinct append_is_Nil_conv)
  qed
  moreover have "sh_words (quoted ws) = Some ws" for ws by (simp add: quoted_def sh_words_join)
  ultimately show ?thesis by (simp only: append.simps)
qed

text \<open>
  C39. The setup command shown in the create dialog, pasted into a shell, makes meshd read
  the typed name and range, whatever they hold, unless the name starts with a dash: for a
  name of a dash and a text that is none of setup's flags, meshd takes it for an option
  and refuses the command, although the dialog would create that very tenant.
\<close>
theorem setup_command_read_by_meshd:
  assumes "trim (ct_name st) \<noteq> []" "go_trim (trim (ct_name st)) = trim (ct_name st)"
  shows "\<exists>args. sh_words (setup_command st) = Some ([''sudo'', ''meshd'', ''setup''] @ args) \<and>
    (hd (trim (ct_name st)) \<noteq> CHR ''-'' \<longrightarrow>
      enroll_parse ''setup'' setup_flags ''tenant-name'' args =
        Inr (if trim (ct_cidr st) = [] then [] else [(''cidr'', trim (ct_cidr st))], trim (ct_name st))) \<and>
    (\<forall>n. trim (ct_name st) = CHR ''-'' # n \<and> n \<noteq> [] \<and> hd n \<noteq> CHR ''-'' \<and> fst (split_flag n) \<notin> set setup_flags \<longrightarrow>
      (\<exists>e. enroll_parse ''setup'' setup_flags ''tenant-name'' args = Inl e))"
proof -
  let ?n = "trim (ct_name st)" and ?c = "trim (ct_cidr st)"
  let ?rest = "option_words ''--cidr'' ?c"
  have w: "flag_word ''cidr''" "''cidr'' \<in> set setup_flags" by (simp_all add: flag_word_def setup_flags_def)
  have "flag_parse setup_flags [] ?rest = Inr (if ?c = [] then [] else [(''cidr'', ?c)], [])"
    using flag_parse_option [OF w, of "[]" ?c "[]"] by (simp add: option_words_def)
  then have ok: "hd ?n \<noteq> CHR ''-'' \<Longrightarrow> enroll_parse ''setup'' setup_flags ''tenant-name'' (?n # ?rest) =
      Inr (if ?c = [] then [] else [(''cidr'', ?c)], ?n)"
    using assms by (intro enroll_parse_ok) auto
  have bad: "\<exists>e. enroll_parse ''setup'' setup_flags ''tenant-name'' (?n # ?rest) = Inl e"
    if "?n = CHR ''-'' # n" "n \<noteq> []" "hd n \<noteq> CHR ''-''" "fst (split_flag n) \<notin> set setup_flags" for n
    using that by (rule enroll_parse_dash)
  have words: "sh_words (setup_command st) = Some ([''sudo'', ''meshd'', ''setup''] @ ?n # ?rest)"
    using setup_command_words [OF assms(1)] by simp
  show ?thesis by (rule exI [of _ "?n # ?rest"]) (use words ok bad in blast)
qed

theorem setup_command_read_by_meshd_witness:
  "\<exists>args e. sh_words (setup_command (tenants_start\<lparr>ct_name := ''-lab''\<rparr>)) = Some ([''sudo'', ''meshd'', ''setup''] @ args) \<and>
     enroll_parse ''setup'' setup_flags ''tenant-name'' args = Inl e"
proof -
  let ?st = "tenants_start\<lparr>ct_name := ''-lab''\<rparr>"
  have t: "trim (ct_name ?st) = CHR ''-'' # ''lab''" by code_simp
  have ne: "trim (ct_name ?st) \<noteq> []" unfolding t by simp
  have g: "go_trim (trim (ct_name ?st)) = trim (ct_name ?st)" by code_simp
  have n: "''lab'' \<noteq> []" "hd ''lab'' \<noteq> CHR ''-''" "fst (split_flag ''lab'') \<notin> set setup_flags"
    by (simp_all add: split_flag_def setup_flags_def)
  show ?thesis using setup_command_read_by_meshd [OF ne g] t n by blast
qed

end
