(* ===== verification/Routing.thy ===== *)
theory Routing
  imports CurrentTenant
begin

text \<open>
  \<open>src/web/src/frontend/router.tsx\<close>, \<open>main.tsx\<close> and \<open>routes/login.tsx\<close>: the routes, what
  each reads from the address, who may enter, what an API error does, and the way
  through the login page to the server's \<open>/auth/login\<close> and back. The router keeps search
  parameters as JSON values; \<open>ensureQueryData\<close> yields the user, null, or an error.
\<close>

section \<open>Search parameters\<close>

definition string_param :: "search \<Rightarrow> string \<Rightarrow> string option" where
  "string_param s k = (case lookup s k of Some (JStr v) \<Rightarrow> Some v | _ \<Rightarrow> None)"

definition true_param :: "search \<Rightarrow> string \<Rightarrow> bool" where
  "true_param s k \<longleftrightarrow> lookup s k = Some (JBool True) \<or> lookup s k = Some (JStr ''true'')"

record login_search =
  ls_redirect :: "string option"
  ls_error :: "string option"
  ls_signup :: bool

definition validate_login :: "search \<Rightarrow> login_search" where
  "validate_login s =
     \<lparr>ls_redirect = string_param s ''redirect'', ls_error = string_param s ''error'', ls_signup = true_param s ''signup''\<rparr>"

definition validate_tenant :: "search \<Rightarrow> string option" where
  "validate_tenant s = string_param s ''tenant''"

definition validate_tenants_page :: "search \<Rightarrow> bool \<times> bool" where
  "validate_tenants_page s = (true_param s ''create'', true_param s ''join'')"

section \<open>The routes and their guards\<close>

datatype entry = Enter "user option" | Redirected link | Thrown api_error

definition admin_before_load :: "api_error + user option \<Rightarrow> string \<Rightarrow> entry" where
  "admin_before_load me href =
     (case me of
        Inl e \<Rightarrow> Thrown e
      | Inr None \<Rightarrow> Redirected (link_to ''/login'' [(''redirect'', JStr href)])
      | Inr (Some u) \<Rightarrow> Enter (Some u))"

definition admin_index_before_load :: entry where
  "admin_index_before_load = Redirected (link_to ''/admin/machines'' [])"

definition invite_before_load :: "api_error + user option \<Rightarrow> string \<Rightarrow> entry" where
  "invite_before_load me href =
     (case me of
        Inl e \<Rightarrow> Thrown e
      | Inr None \<Rightarrow> Redirected (link_to ''/login'' [(''redirect'', JStr href), (''signup'', JBool True)])
      | Inr (Some u) \<Rightarrow> Enter None)"

record route =
  r_path :: string
  r_guards :: "(api_error + user option \<Rightarrow> string \<Rightarrow> entry) list"
  r_components :: "string list"

text \<open>The route tree, each leaf with the guards and the components of its ancestors first.\<close>

definition route_tree :: "route list" where
  "route_tree =
    [\<lparr>r_path = ''/'', r_guards = [], r_components = [''LandingPage'']\<rparr>,
     \<lparr>r_path = ''/login'', r_guards = [], r_components = [''LoginPage'']\<rparr>,
     \<lparr>r_path = ''/invite/$code'', r_guards = [invite_before_load], r_components = [''InvitePage'']\<rparr>,
     \<lparr>r_path = ''/admin'', r_guards = [admin_before_load, \<lambda>_ _. admin_index_before_load], r_components = [''AdminLayout'']\<rparr>,
     \<lparr>r_path = ''/admin/machines'', r_guards = [admin_before_load], r_components = [''AdminLayout'', ''MachinesPage'']\<rparr>,
     \<lparr>r_path = ''/admin/members'', r_guards = [admin_before_load], r_components = [''AdminLayout'', ''MembersPage'']\<rparr>,
     \<lparr>r_path = ''/admin/tenants'', r_guards = [admin_before_load], r_components = [''AdminLayout'', ''TenantsPage'']\<rparr>]"

text \<open>The guards run in order; one that does not let in ends the navigation.\<close>

fun run_guards :: "(api_error + user option \<Rightarrow> string \<Rightarrow> entry) list \<Rightarrow> api_error + user option \<Rightarrow> string \<Rightarrow> entry option" where
  "run_guards [] me href = None"
| "run_guards (g # gs) me href = (case g me href of Enter u \<Rightarrow> run_guards gs me href | e \<Rightarrow> Some e)"

definition root_component :: "'e node list \<Rightarrow> 'e node" where
  "root_component outlet =
     El ''TooltipProvider'' [(''delayDuration'', Str ''200'')]
       (outlet @ [El ''Toaster'' [(''position'', Str ''bottom-right'')] []])"

section \<open>main.tsx\<close>

definition on_error :: "api_error \<Rightarrow> string \<Rightarrow> effect list" where
  "on_error err href =
     (case err of
        ApiError st msg \<Rightarrow>
          if st = 401 then [SetMe None, Navigate (link_to ''/login'' [(''redirect'', JStr href)])] else []
      | OtherError msg \<Rightarrow> [])"

definition query_stale_time :: nat where
  "query_stale_time = 5000"

definition should_retry :: "nat \<Rightarrow> api_error \<Rightarrow> bool" where
  "should_retry count err \<longleftrightarrow>
     \<not> (case err of ApiError st msg \<Rightarrow> st < 500 | OtherError msg \<Rightarrow> False) \<and> count < 2"

section \<open>login.tsx\<close>

definition login_return_to :: "login_search \<Rightarrow> string" where
  "login_return_to s =
     (case ls_redirect s of
        Some r \<Rightarrow> if starts_with r ''/'' \<and> \<not> starts_with r ''//'' then r else ''/admin/machines''
      | None \<Rightarrow> ''/admin/machines'')"

definition sign_in :: "login_search \<Rightarrow> string" where
  "sign_in s =
     ''/auth/login?returnTo='' @ encode_uri_component (login_return_to s) @ (if ls_signup s then ''&signup=1'' else '''')"

definition login_error :: "login_search \<Rightarrow> bool" where
  "login_error s = truthy (coalesce (ls_error s) [])"

definition login_effect :: "user option query \<Rightarrow> login_search \<Rightarrow> effect list" where
  "login_effect me s =
     (case query_data me of
        None \<Rightarrow> []
      | Some (Some u) \<Rightarrow> [Navigate (replacing (link_to (login_return_to s) []))]
      | Some None \<Rightarrow> if \<not> login_error s then [ReplaceLocation (sign_in s)] else [])"

definition login_page :: "runtime_config query \<Rightarrow> login_search \<Rightarrow> 'e node" where
  "login_page config s =
     El ''div'' []
       [El ''header'' [] [El ''Link'' [(''to'', To (link_to ''/'' [])), (''aria-label'', Str ''Mesh2Mesh home'')] [logo None]],
        El ''main'' []
          [El ''div'' []
            [El ''div'' []
              ([El ''h1'' [] [Text (if login_error s then ''Log in failed'' else ''Log in'')],
                El ''p'' [] [Text ''to the Mesh2Mesh admin console'']] @
               show_if (login_error s)
                 [El ''div'' [(''role'', Str ''alert'')]
                   [El ''TriangleAlertIcon'' [] [], El ''span'' [] [Text (coalesce (ls_error s) [])]]] @
               [El ''div'' []
                 [El ''Button'' [(''asChild'', Flag True), (''size'', Str ''lg'')]
                   [El ''a'' [(''href'', Str (sign_in s))]
                     [El ''KeyRoundIcon'' [] [],
                      Text (if map_option rc_auth_enabled (query_data config) = Some False then ''Continue (login disabled)''
                            else if login_error s then ''Try again'' else ''Continue to sign-in'')]]],
                El ''p'' []
                  [Text (''You will sign in on your organization's Keycloak, then come back here. Ask your administrator for an '' @
                     ''account if you don't have one.'')]]),
             El ''p'' [] [El ''Link'' [(''to'', To (link_to ''/'' []))] [Text ''<- Back to the home page'']]]]]"

section \<open>The server's reading of the address\<close>

text \<open>\<open>URLSearchParams\<close>: a malformed escape stands for itself. The result is in UTF-8 bytes.\<close>

fun form_decode :: "string \<Rightarrow> string" where
  "form_decode [] = []"
| "form_decode (c # s) =
     (if c = CHR ''+'' then CHR '' '' # form_decode s
      else if c = CHR ''%'' then
        (case s of
           h # l # r \<Rightarrow>
             (case (hex_value h, hex_value l) of
                (Some a, Some b) \<Rightarrow> char_of (16 * a + b) # form_decode r
              | _ \<Rightarrow> c # form_decode s)
         | _ \<Rightarrow> c # form_decode s)
      else c # form_decode s)"

definition parse_pair :: "string \<Rightarrow> string \<times> string" where
  "parse_pair w =
     (form_decode (takeWhile (\<lambda>c. c \<noteq> CHR ''='') w), form_decode (drop 1 (dropWhile (\<lambda>c. c \<noteq> CHR ''='') w)))"

definition parse_query :: "string \<Rightarrow> (string \<times> string) list" where
  "parse_query s = map parse_pair (filter (\<lambda>w. truthy w) (split_on (CHR ''&'') s))"

definition get_url :: "string \<Rightarrow> request" where
  "get_url url =
     \<lparr>req_method = Some ''GET'', pathname = takeWhile (\<lambda>c. c \<noteq> CHR ''?'') url,
      query = parse_query (drop 1 (dropWhile (\<lambda>c. c \<noteq> CHR ''?'') url)),
      cookie_header = None, origin_header = None, chunks = []\<rparr>"

lemma form_decode_unescape: "query_unescape s = Some t \<Longrightarrow> form_decode s = t"
proof (induction s arbitrary: t rule: form_decode.induct)
  case (2 c s)
  show ?case
  proof (cases "c = CHR ''%''")
    case True
    then obtain h l r a b u where
      "s = h # l # r" "hex_value h = Some a" "hex_value l = Some b"
      "query_unescape r = Some u" "t = char_of (16 * a + b) # u"
      using "2.prems" by (auto simp: query_unescape_def split: list.splits option.splits)
    then show ?thesis using "2.IH" True by simp
  next
    case False
    then obtain u where "query_unescape s = Some u" "t = (if c = CHR ''+'' then CHR '' '' else c) # u"
      using "2.prems" by (auto simp: query_unescape_def split: option.splits)
    then show ?thesis using 2 False by auto
  qed
qed (simp add: query_unescape_def)

lemma form_decode_encoded: "form_decode (encode_uri_component s) = utf8 s"
  by (rule form_decode_unescape) (rule uri_go.dec_enc)

lemma encoded_no_delimiter:
  "c \<in> set (encode_uri_component s) \<Longrightarrow> c \<noteq> CHR ''&'' \<and> c \<noteq> CHR ''=''"
  by (drule encode_uri_component_chars) (auto simp: uri_char_def uri_unreserved_def class_defs)

lemma sign_in_request:
  "pathname (get_url (sign_in s)) = ''/auth/login'' \<and>
   lookup (query (get_url (sign_in s))) ''returnTo'' = Some (utf8 (login_return_to s)) \<and>
   (lookup (query (get_url (sign_in s))) ''signup'' = Some ''1'' \<longleftrightarrow> ls_signup s)"
proof -
  let ?e = "encode_uri_component (login_return_to s)"
  have amp: "CHR ''&'' \<notin> set (''returnTo='' @ ?e)" using encoded_no_delimiter by auto
  have pair: "parse_pair (''returnTo='' @ ?e) = (''returnTo'', utf8 (login_return_to s))"
    by (simp add: parse_pair_def form_decode_encoded)
  have one: "parse_pair ''signup=1'' = (''signup'', ''1'')" by (simp add: parse_pair_def)
  have ne: "truthy (''returnTo='' @ ?e)" "truthy ''signup=1''" by simp_all
  have q: "parse_query (''returnTo='' @ ?e) = [(''returnTo'', utf8 (login_return_to s))]"
    unfolding parse_query_def split_on_none [OF amp] using ne pair by (simp only: filter.simps list.map if_True simp_thms)
  have s1: "CHR ''&'' \<notin> set ''signup=1''" by simp
  have q': "parse_query (''returnTo='' @ ?e @ ''&signup=1'') =
      [(''returnTo'', utf8 (login_return_to s)), (''signup'', ''1'')]"
  proof -
    have "''returnTo='' @ ?e @ ''&signup=1'' = (''returnTo='' @ ?e) @ CHR ''&'' # ''signup=1''" by simp
    then show ?thesis
      unfolding parse_query_def using split_on_append [OF amp, of "''signup=1''"] split_on_none [OF s1] ne pair one
      by (simp only: filter.simps list.map if_True simp_thms)
  qed
  have url: "sign_in s = ''/auth/login'' @ CHR ''?'' # (''returnTo='' @ ?e @ (if ls_signup s then ''&signup=1'' else ''''))"
    by (simp add: sign_in_def)
  have path: "takeWhile (\<lambda>c. c \<noteq> CHR ''?'') (sign_in s) = ''/auth/login''"
    and rest: "drop 1 (dropWhile (\<lambda>c. c \<noteq> CHR ''?'') (sign_in s)) = ''returnTo='' @ ?e @ (if ls_signup s then ''&signup=1'' else '''')"
    unfolding url by simp_all
  show ?thesis
  proof (cases "ls_signup s")
    case True
    then have "query (get_url (sign_in s)) = [(''returnTo'', utf8 (login_return_to s)), (''signup'', ''1'')]"
      using q' by (simp only: get_url_def rest request.simps if_True)
    with path True show ?thesis by (simp add: get_url_def)
  next
    case False
    then have "query (get_url (sign_in s)) = [(''returnTo'', utf8 (login_return_to s))]"
      using q by (simp only: get_url_def rest request.simps if_False append_Nil2)
    with path False show ?thesis by (simp add: get_url_def)
  qed
qed

text \<open>An address of the site, as \<open>location.href\<close> of the router is: ASCII, one slash first.\<close>

definition site_href :: "string \<Rightarrow> bool" where
  "site_href h \<longleftrightarrow> starts_with h ''/'' \<and> \<not> starts_with h ''//'' \<and> \<not> starts_with h [CHR ''/'', CHR 0x5C] \<and>
     list_all (\<lambda>c. of_char c < (128 :: nat)) h"

lemma sign_in_returns:
  assumes "site_href href" "ls_redirect s = Some href"
  shows "safe_return_to (lookup (query (get_url (sign_in s))) ''returnTo'') = href"
proof -
  have "login_return_to s = href" using assms by (simp add: login_return_to_def site_href_def)
  moreover have "utf8 href = href" using assms(1) by (intro utf8_ascii) (simp add: site_href_def list_all_iff)
  ultimately show ?thesis
    using assms(1) sign_in_request [of s] by (auto simp: safe_return_to_def site_href_def)
qed

text \<open>
  C23. A visitor who has to log in comes back to the page they asked for. Whenever a guard
  turns away a visitor without a session, or an API answer says the session is gone, the
  browser goes to the login page, from there to the server's login route, and what the server
  will redirect to after the login is the address the visitor was on; a visitor who follows
  an invite is offered to sign up, the others are not.
\<close>
theorem login_returns_to_page:
  assumes href: "site_href href"
  shows "\<exists>l l'. admin_before_load (Inr None) href = Redirected l \<and>
      invite_before_load (Inr None) href = Redirected l' \<and>
      on_error (ApiError 401 msg) href = [SetMe None, Navigate l] \<and>
      l_to l = ''/login'' \<and> l_to l' = ''/login'' \<and>
      (\<exists>u u'. login_effect (Success None) (validate_login (l_search l)) = [ReplaceLocation u] \<and>
        login_effect (Success None) (validate_login (l_search l')) = [ReplaceLocation u'] \<and>
        pathname (get_url u) = ''/auth/login'' \<and> pathname (get_url u') = ''/auth/login'' \<and>
        safe_return_to (lookup (query (get_url u)) ''returnTo'') = href \<and>
        safe_return_to (lookup (query (get_url u')) ''returnTo'') = href \<and>
        lookup (query (get_url u)) ''signup'' \<noteq> Some ''1'' \<and> lookup (query (get_url u')) ''signup'' = Some ''1'')"
proof -
  let ?l = "link_to ''/login'' [(''redirect'', JStr href)]"
  let ?l' = "link_to ''/login'' [(''redirect'', JStr href), (''signup'', JBool True)]"
  let ?s = "validate_login (l_search ?l)" and ?s' = "validate_login (l_search ?l')"
  have s: "ls_redirect ?s = Some href" "ls_redirect ?s' = Some href" "\<not> login_error ?s" "\<not> login_error ?s'"
      "\<not> ls_signup ?s" "ls_signup ?s'"
    by (simp_all add: validate_login_def link_to_def string_param_def true_param_def login_error_def)
  have e: "login_effect (Success None) ?s = [ReplaceLocation (sign_in ?s)]"
      "login_effect (Success None) ?s' = [ReplaceLocation (sign_in ?s')]"
    using s by (simp_all add: login_effect_def)
  have g: "admin_before_load (Inr None) href = Redirected ?l" "invite_before_load (Inr None) href = Redirected ?l'"
      "on_error (ApiError 401 msg) href = [SetMe None, Navigate ?l]" "l_to ?l = ''/login''" "l_to ?l' = ''/login''"
    by (simp_all add: admin_before_load_def invite_before_load_def on_error_def link_to_def)
  note r = sign_in_returns [OF href s(1)] sign_in_returns [OF href s(2)]
  have p: "pathname (get_url (sign_in ?s)) = ''/auth/login''" "pathname (get_url (sign_in ?s')) = ''/auth/login''"
      "lookup (query (get_url (sign_in ?s))) ''signup'' \<noteq> Some ''1''"
      "lookup (query (get_url (sign_in ?s'))) ''signup'' = Some ''1''"
    using sign_in_request [of ?s] sign_in_request [of ?s'] s(5,6) by (elim conjE, simp only: simp_thms)+
  show ?thesis
    by (rule exI [of _ ?l], rule exI [of _ ?l'], intro conjI g,
        rule exI [of _ "sign_in ?s"], rule exI [of _ "sign_in ?s'"], intro conjI e p r)
qed

theorem login_returns_to_page_witness:
  "\<exists>u. login_effect (Success None) (validate_login [(''redirect'', JStr ''/admin/members?tenant=t1'')]) = [ReplaceLocation u] \<and>
     safe_return_to (lookup (query (get_url u)) ''returnTo'') = ''/admin/members?tenant=t1''"
proof -
  have "site_href ''/admin/members?tenant=t1''" by code_simp
  from login_returns_to_page [OF this, of "''expired''"]
  show ?thesis by (auto simp: admin_before_load_def link_to_def)
qed

text \<open>
  The console is closed to visitors without a session. Every route under /admin and
  the invite page lets a visitor in only when the server named a user; on an error of that
  question it shows the error, and for no user it redirects to the login page.
\<close>
theorem routes_guarded:
  assumes "r \<in> set route_tree" "r_path r \<notin> {''/'', ''/login''}" "run_guards (r_guards r) me href = None"
  shows "\<exists>u. me = Inr (Some u)"
  using assms
  by (auto simp: route_tree_def admin_before_load_def invite_before_load_def admin_index_before_load_def
      split: sum.splits option.splits)

theorem routes_guarded_witness:
  "run_guards [admin_before_load] (Inr (Some dev_user)) ''/admin/machines'' = None \<and>
   (\<exists>u. (Inr (Some dev_user) :: api_error + user option) = Inr (Some u))"
proof
  show g: "run_guards [admin_before_load] (Inr (Some dev_user)) ''/admin/machines'' = None"
    unfolding run_guards.simps admin_before_load_def by simp
  let ?r = "\<lparr>r_path = ''/admin/machines'', r_guards = [admin_before_load], r_components = [''AdminLayout'', ''MachinesPage'']\<rparr>"
  show "\<exists>u. (Inr (Some dev_user) :: api_error + user option) = Inr (Some u)"
    by (rule routes_guarded [of ?r _ "''/admin/machines''"]) (simp_all add: route_tree_def admin_before_load_def)
qed

end
