(* ===== verification/Layout.thy ===== *)
theory Layout
  imports Tenants Routing OidcFacts
begin

text \<open>
  The frame of the console, \<open>src/web/src/frontend/routes/admin/layout.tsx\<close> (tabs, tenant
  switcher, control-plane status, account menu), and the page that accepts an invite,
  \<open>routes/invite.tsx\<close>.
\<close>

definition docs_url :: string where
  "docs_url = ''https://github.com/Le-Big-et-le-Big/Mesh2Mesh#readme''"

section \<open>layout.tsx\<close>

text \<open>
  Choosing a theme calls \<open>setTheme\<close> (the radio group reports its item, so each item carries
  the event); logging out submits a form to the server.
\<close>

datatype layout_event = ChooseTheme theme | LogOut

fun layout_step :: "layout_event \<Rightarrow> theme_state \<Rightarrow> theme_state \<times> effect list" where
  "layout_step (ChooseTheme t) st = (set_theme t st, [])"
| "layout_step LogOut st = (st, [SubmitLogout])"

text \<open>\<open>(s) => ({ tenant: s.tenant })\<close>: only the tenant of the address is kept.\<close>

definition keep_tenant :: "search \<Rightarrow> search" where
  "keep_tenant s = (case lookup s ''tenant'' of None \<Rightarrow> [] | Some v \<Rightarrow> [(''tenant'', v)])"

definition admin_tabs :: "search \<Rightarrow> 'e node" where
  "admin_tabs s =
     El ''nav'' [(''aria-label'', Str ''Admin sections'')]
       [El ''Link'' [(''to'', To (link_to ''/admin/machines'' (keep_tenant s)))] [Text ''Machines''],
        El ''Link'' [(''to'', To (link_to ''/admin/members'' (keep_tenant s)))] [Text ''Members''],
        El ''Link'' [(''to'', To (link_to ''/admin/tenants'' []))] [Text ''Tenants'']]"

definition switcher_item :: "tenant option \<Rightarrow> tenant \<Rightarrow> 'e node" where
  "switcher_item current t =
     El ''DropdownMenuItem'' [(''key'', Str (t_id t)), (''asChild'', Flag True)]
       [El ''Link'' [(''to'', To (link_to ''/admin/machines'' [(''tenant'', JStr (t_id t))]))]
         ([El ''span'' [] [El ''span'' [] [Text (t_name t)], El ''span'' [] [Text (t_cidr t)]]] @
          show_if (map_option t_id current = Some (t_id t)) [El ''CheckIcon'' [] []])]"

definition tenant_switcher :: "tenant list query \<Rightarrow> tenant option \<Rightarrow> 'e node" where
  "tenant_switcher tenants current =
     El ''DropdownMenu'' []
       [El ''DropdownMenuTrigger'' [(''asChild'', Flag True)]
         [El ''Button'' [(''variant'', Str ''ghost'')]
           [El ''span'' [] [Text (coalesce (map_option t_name current) (if tenants = Pending then ''Loading...'' else ''No tenant''))],
            El ''ChevronsUpDownIcon'' [] []]],
        El ''DropdownMenuContent'' [(''align'', Str ''start'')]
         ([El ''DropdownMenuLabel'' [] [Text ''Tenants'']] @
          (case query_data tenants of None \<Rightarrow> [] | Some ts \<Rightarrow> map (switcher_item current) ts) @
          [El ''DropdownMenuSeparator'' [] [],
           El ''DropdownMenuItem'' [(''asChild'', Flag True)]
            [El ''Link'' [(''to'', To (link_to ''/admin/tenants'' [(''create'', JBool True)]))]
              [El ''PlusIcon'' [] [], Text '' Create tenant'']]])]"

definition control_plane_status :: "json query \<Rightarrow> 'e node" where
  "control_plane_status health =
     (let up = (case health of Success d \<Rightarrow> True | _ \<Rightarrow> False); pending = (health = Pending) in
      El ''Tooltip'' []
       [El ''TooltipTrigger'' [(''asChild'', Flag True)]
         [El ''span'' []
           [El ''span'' [(''className'', Str (if pending then ''bg-border'' else if up then ''bg-success'' else ''bg-destructive''))] [],
            Text (if pending then ''Checking'' else if up then ''Control plane up'' else ''Control plane down'')]],
        El ''TooltipContent'' [] [Text (case health of Failed d e \<Rightarrow> error_message e | _ \<Rightarrow> ''GET /healthz, every 15 s'')]])"

definition menu_initials :: "string \<Rightarrow> string" where
  "menu_initials name = to_upper (take 2 (List.concat (map (take 1) (split_runs js_space name))))"

definition user_menu :: "user \<Rightarrow> theme \<Rightarrow> layout_event node list" where
  "user_menu me theme =
     [El ''form'' [(''method'', Str ''post''), (''action'', Str ''/auth/logout''), (''hidden'', Flag True)] [],
      El ''DropdownMenu'' []
       [El ''DropdownMenuTrigger'' [(''asChild'', Flag True)]
         [El ''Button'' [(''variant'', Str ''ghost''), (''aria-label'', Str ''Account'')]
           [El ''Avatar'' [] [El ''AvatarFallback'' [] [Text (menu_initials (user_name me))]]]],
        El ''DropdownMenuContent'' [(''align'', Str ''end'')]
         [El ''DropdownMenuLabel'' []
           ([El ''div'' [] [Text (user_name me)]] @
            show_if (truthy (coalesce (email me) [])) [El ''div'' [] [Text (coalesce (email me) [])]]),
          El ''DropdownMenuSeparator'' [] [],
          El ''DropdownMenuLabel'' [] [Text ''Theme''],
          El ''DropdownMenuRadioGroup'' [(''value'', Str (show_theme theme))]
           [El ''DropdownMenuRadioItem'' [(''value'', Str ''light''), (''onSelect'', On (ChooseTheme Light))] [El ''SunIcon'' [] [], Text '' Light''],
            El ''DropdownMenuRadioItem'' [(''value'', Str ''dark''), (''onSelect'', On (ChooseTheme Dark))] [El ''MoonIcon'' [] [], Text '' Dark''],
            El ''DropdownMenuRadioItem'' [(''value'', Str ''system''), (''onSelect'', On (ChooseTheme System))] [El ''MonitorIcon'' [] [], Text '' System'']],
          El ''DropdownMenuSeparator'' [] [],
          El ''DropdownMenuItem'' [(''onSelect'', On LogOut)] [El ''LogOutIcon'' [] [], Text '' Log out'']]]]"

definition admin_layout ::
  "tenant list query \<Rightarrow> tenant option \<Rightarrow> json query \<Rightarrow> user \<Rightarrow> theme \<Rightarrow> search \<Rightarrow> layout_event node list \<Rightarrow> layout_event node" where
  "admin_layout tenants current health me theme s outlet =
     El ''div'' []
       [El ''header'' []
         [El ''div'' []
           [El ''div'' []
             [El ''Link'' [(''to'', To (link_to ''/admin/machines'' [])), (''aria-label'', Str ''Admin console'')] [logo_mark None],
              El ''span'' [(''aria-hidden'', Str ''true'')] [Text ''/''],
              tenant_switcher tenants current],
            El ''div'' []
             ([control_plane_status health,
               El ''Button'' [(''variant'', Str ''ghost''), (''asChild'', Flag True)]
                [El ''a'' [(''href'', Str docs_url), (''target'', Str ''_blank''), (''rel'', Str ''noreferrer'')] [El ''BookOpenIcon'' [] [], Text '' Docs'']]] @
              user_menu me theme)],
          admin_tabs s],
        El ''main'' [] outlet]"

section \<open>invite.tsx\<close>

datatype invite_event = AcceptInvite | InviteAccepted tenant

definition invite_step :: "string \<Rightarrow> invite_event \<Rightarrow> effect list" where
  "invite_step code e =
     (case e of
        AcceptInvite \<Rightarrow> [Mutate (accept_invite code)]
      | InviteAccepted t \<Rightarrow>
          [Invalidate (q_key tenants_query), ToastSuccess (''You joined '' @ t_name t),
           Navigate (replacing (link_to ''/admin/machines'' [(''tenant'', JStr (t_id t))]))])"

definition invite_page :: "user option query \<Rightarrow> mutation \<Rightarrow> invite_event node" where
  "invite_page me accept =
     (let user = coalesce (query_data me) None in
      El ''div'' []
       [El ''header'' [] [El ''Link'' [(''to'', To (link_to ''/'' [])), (''aria-label'', Str ''Mesh2Mesh home'')] [logo None]],
        El ''main'' []
         [El ''div'' []
           ([El ''div'' [] [El ''UsersIcon'' [] []],
             El ''h1'' [] [Text ''You're invited''],
             El ''p'' []
              [Text ''Join a Mesh2Mesh tenant as '',
               El ''span'' [] [Text (coalesce (or_else (Option.bind user email) (map_option user_name user)) [])],
               Text (''. You'll see its machines and can add your own.'')]] @
            alert_line accept @
            [El ''Button'' [(''onClick'', On AcceptInvite), (''disabled'', Flag (is_in_flight accept))]
              [Text (if is_in_flight accept then ''Joining...'' else ''Accept invite'')],
             El ''Button'' [(''variant'', Str ''ghost''), (''asChild'', Flag True)]
              [El ''Link'' [(''to'', To (link_to ''/admin/machines'' []))] [Text ''Not now'']]])]])"

section \<open>What they show\<close>

lemma links_switcher:
  "set (links (tenant_switcher (Success ts) current)) =
     (\<lambda>t. link_to ''/admin/machines'' [(''tenant'', JStr (t_id t))]) ` set ts \<union>
     {link_to ''/admin/tenants'' [(''create'', JBool True)]}"
proof -
  have i: "links (switcher_item current t) = [link_to ''/admin/machines'' [(''tenant'', JStr (t_id t))]]" for t
    by (simp add: switcher_item_def view_simps)
  have "set (List.concat (map links (map (switcher_item current) ts))) =
      (\<lambda>t. link_to ''/admin/machines'' [(''tenant'', JStr (t_id t))]) ` set ts"
    by (auto simp: i)
  then show ?thesis by (auto simp: tenant_switcher_def view_simps comp_def i)
qed

text \<open>
  Choosing a tenant in the switcher shows that tenant. Every tenant of the user has an
  entry, whose address the machines page reads as a wish for it and honours, whatever the
  browser remembers; the Machines and Members tabs keep that wish, so that moving between
  them stays on the tenant.
\<close>
theorem switching_selects:
  assumes "t \<in> set ts" "distinct (map t_id ts)"
  shows "\<exists>l \<in> set (links (tenant_switcher (Success ts) current)).
    l_to l = ''/admin/machines'' \<and>
    current_tenant (Success ts) (validate_tenant (l_search l)) s = Some t \<and>
    (\<forall>tab \<in> set (links (admin_tabs (l_search l))). l_to tab \<in> {''/admin/machines'', ''/admin/members''} \<longrightarrow>
       current_tenant (Success ts) (validate_tenant (l_search tab)) s = Some t)"
proof -
  let ?l = "link_to ''/admin/machines'' [(''tenant'', JStr (t_id t))]"
  have l: "?l \<in> set (links (tenant_switcher (Success ts) current))"
    unfolding links_switcher using assms(1) by blast
  have to: "l_to ?l = ''/admin/machines''" and se: "l_search ?l = [(''tenant'', JStr (t_id t))]"
    by (simp_all add: link_to_def)
  have v: "validate_tenant [(''tenant'', JStr (t_id t))] = Some (t_id t)"
    by (simp add: validate_tenant_def string_param_def)
  have c: "current_tenant (Success ts) (Some (t_id t)) s = Some t"
    using find_id [OF assms(2,1)] by (simp add: current_tenant_def)
  have tabs: "set (links (admin_tabs [(''tenant'', JStr (t_id t))])) =
      {?l, link_to ''/admin/members'' [(''tenant'', JStr (t_id t))], link_to ''/admin/tenants'' []}"
    by (simp add: admin_tabs_def keep_tenant_def view_simps)
  show ?thesis
  proof (rule bexI [OF _ l], intro conjI ballI impI to)
    show "current_tenant (Success ts) (validate_tenant (l_search ?l)) s = Some t"
      unfolding se v by (rule c)
  next
    fix tab assume tab: "tab \<in> set (links (admin_tabs (l_search ?l)))" "l_to tab \<in> {''/admin/machines'', ''/admin/members''}"
    from tab have "l_search tab = [(''tenant'', JStr (t_id t))]"
      unfolding se tabs by (elim insertE emptyE) (simp_all add: link_to_def)
    then show "current_tenant (Success ts) (validate_tenant (l_search tab)) s = Some t"
      by (simp only: v c)
  qed
qed

theorem switching_selects_witness:
  "\<exists>l \<in> set (links (tenant_switcher (Success [demo_tenant, other_tenant]) (Some demo_tenant))).
     current_tenant (Success [demo_tenant, other_tenant]) (validate_tenant (l_search l)) empty_storage = Some other_tenant"
proof -
  have "other_tenant \<in> set [demo_tenant, other_tenant]" "distinct (map t_id [demo_tenant, other_tenant])"
    by (simp_all add: demo_tenant_def other_tenant_def demo_tenant_id_def)
  from switching_selects [OF this, of "Some demo_tenant" empty_storage] show ?thesis by blast
qed

text \<open>The request a browser makes for the hidden form, with the cookies it has.\<close>

definition logout_form_request :: "string option \<Rightarrow> string \<Rightarrow> request" where
  "logout_form_request cookies origin =
     \<lparr>req_method = Some ''POST'', pathname = ''/auth/logout'', query = [], cookie_header = cookies,
      origin_header = Some origin, chunks = []\<rparr>"

text \<open>
  Log out in the account menu ends the session. The menu always offers it; the form it
  submits, sent from the site's own origin, is taken by the server as a logout, after which no
  request with the browser's session cookie is logged in.
\<close>
theorem menu_logout_ends_session:
  assumes oidc: "oidc cfg = Some o'" and r: "r = logout_form_request cookies (public_origin o')"
    and same: "read_cookie r' session_cookie = read_cookie r session_cookie"
  shows "LogOut \<in> set (List.concat (map clicks (user_menu me theme))) \<and>
    snd (layout_step LogOut ts) = [SubmitLogout] \<and>
    snd (session_of now r' (fst (auth_route cfg w r a))) = None"
proof -
  have m: "method_of r @ '' '' @ pathname r = ''POST /auth/logout''"
    by (simp add: r logout_form_request_def method_of_def)
  have c: "\<not> cross_origin cfg r" by (simp add: cross_origin_def oidc r logout_form_request_def)
  have "auth_route cfg w r a = logout o' (disc w) r a"
    unfolding auth_route_def Let_def m using oidc c by simp
  moreover have "snd (session_of now r' (fst (logout o' (disc w) r a))) = None"
    using same by (auto simp: session_of_def logout_frame split: option.splits)
  ultimately show ?thesis by (simp add: user_menu_def view_simps)
qed

theorem menu_logout_ends_session_witness:
  "snd (session_of 2000 (logout_form_request (Some ''m2m_session=sid-1'') ''https://mesh.example'')
     (fst (auth_route demo_config demo_world (logout_form_request (Some ''m2m_session=sid-1'') ''https://mesh.example'') no_auth))) = None"
proof -
  have o: "oidc demo_config = Some demo_cfg" by (simp add: demo_config_def)
  have p: "public_origin demo_cfg = ''https://mesh.example''" by code_simp
  show ?thesis
    using menu_logout_ends_session [OF o refl refl, of dev_user System "load_theme empty_storage False" 2000 "Some ''m2m_session=sid-1''" demo_world no_auth]
    unfolding p by (elim conjE)
qed

text \<open>
  C38. The journey of an invite link. For a code of the control plane's shape, the path of
  the link is an address of the site that the login returns to; the page behind it accepts
  exactly that code, on every click and never while a request runs, and success leads to the
  machines of the tenant joined, which becomes the current one.
\<close>
theorem invite_journey:
  assumes code: "i_code i = ''m2mi_'' @ w" "\<forall>c \<in> set w. is_word c \<or> c = CHR ''-''"
    and ts: "t \<in> set ts" "distinct (map t_id ts)"
  shows "\<exists>path l. invite_link b i = b_origin b @ path \<and> path = ''/invite/'' @ i_code i \<and>
    safe_return_to (lookup (query (get_url (sign_in (validate_login [(''redirect'', JStr path), (''signup'', JBool True)])))) ''returnTo'') = path \<and>
    (AcceptInvite \<in> set (clicks (invite_page me m)) \<longleftrightarrow> \<not> is_in_flight m) \<and>
    invite_step (i_code i) AcceptInvite = [Mutate (accept_invite (i_code i))] \<and>
    last (invite_step (i_code i) (InviteAccepted t)) = Navigate l \<and> l_to l = ''/admin/machines'' \<and>
    current_tenant (Success ts) (validate_tenant (l_search l)) s = Some t"
proof -
  let ?path = "''/invite/'' @ i_code i"
  let ?l = "replacing (link_to ''/admin/machines'' [(''tenant'', JStr (t_id t))])"
  let ?s = "validate_login [(''redirect'', JStr ?path), (''signup'', JBool True)]"
  have ascii: "list_all (\<lambda>c. of_char c < (128::nat)) w"
    using code(2) by (auto simp: list_all_iff is_word_def class_defs)
  then have "site_href ?path"
    unfolding code(1) by (simp add: site_href_def list_all_iff)
  moreover have "ls_redirect ?s = Some ?path" by (simp add: validate_login_def string_param_def)
  ultimately have ret: "safe_return_to (lookup (query (get_url (sign_in ?s))) ''returnTo'') = ?path"
    by (rule sign_in_returns)
  have click: "AcceptInvite \<in> set (clicks (invite_page me m)) \<longleftrightarrow> \<not> is_in_flight m"
    by (auto simp: invite_page_def logo_def logo_mark_def alert_line_def Let_def view_simps split: mutation.splits)
  have cur: "current_tenant (Success ts) (validate_tenant (l_search ?l)) s = Some t"
    using find_id [OF ts(2,1)]
    by (simp add: current_tenant_def replacing_def link_to_def validate_tenant_def string_param_def)
  have nav: "last (invite_step (i_code i) (InviteAccepted t)) = Navigate ?l" "l_to ?l = ''/admin/machines''"
    by (simp_all add: invite_step_def replacing_def link_to_def)
  show ?thesis
    by (rule exI [of _ ?path], rule exI [of _ ?l], intro conjI ret click cur nav)
      (simp_all add: invite_link_def invite_step_def)
qed

theorem invite_journey_witness:
  "\<exists>path. safe_return_to (lookup (query (get_url (sign_in (validate_login [(''redirect'', JStr path), (''signup'', JBool True)])))) ''returnTo'') = path \<and>
     path = ''/invite/m2mi_Zk-9_x''"
proof -
  have c: "i_code demo_invite = ''m2mi_'' @ ''Zk-9_x''" "\<forall>c \<in> set ''Zk-9_x''. is_word c \<or> c = CHR ''-''"
    by (simp_all add: demo_invite_def is_word_def class_defs)
  have t: "demo_tenant \<in> set [demo_tenant]" "distinct (map t_id [demo_tenant])" by simp_all
  obtain path where
    "path = ''/invite/'' @ i_code demo_invite"
    "safe_return_to (lookup (query (get_url (sign_in (validate_login [(''redirect'', JStr path), (''signup'', JBool True)])))) ''returnTo'') = path"
    using invite_journey [OF c t, of demo_browser Pending Idle empty_storage] by (elim exE conjE) (rule that; assumption)
  then show ?thesis by (intro exI [of _ path] conjI) (simp_all add: demo_invite_def)
qed

end
