(* ===== verification/Landing.thy ===== *)
theory Landing
  imports View
begin

text \<open>
  \<open>src/web/src/frontend/routes/landing.tsx\<close>: the home page. It is static but for its header,
  which offers the console to a visitor who is logged in and the login to the others.
\<close>

definition repo_url :: string where
  "repo_url = ''https://github.com/Le-Big-et-le-Big/Mesh2Mesh''"

definition site_nav :: "user option query \<Rightarrow> 'e node" where
  "site_nav me =
     El ''header'' []
       [El ''div'' []
         [El ''Link'' [(''to'', To (link_to ''/'' [])), (''aria-label'', Str ''Mesh2Mesh home'')] [logo None],
          El ''nav'' []
           [El ''a'' [(''href'', Str ''#features'')] [Text ''Features''],
            El ''a'' [(''href'', Str ''#how-it-works'')] [Text ''How it works''],
            El ''a'' [(''href'', Str repo_url)] [Text ''GitHub'']],
          El ''div'' []
           (case query_data me of
              Some (Some u) \<Rightarrow>
                [El ''Button'' [(''asChild'', Flag True)] [El ''Link'' [(''to'', To (link_to ''/admin/machines'' []))] [Text ''Admin console'']]]
            | _ \<Rightarrow>
                [El ''Button'' [(''variant'', Str ''ghost''), (''asChild'', Flag True)] [El ''Link'' [(''to'', To (link_to ''/login'' []))] [Text ''Log in'']],
                 El ''Button'' [(''asChild'', Flag True)]
                  [El ''Link'' [(''to'', To (link_to ''/login'' [(''signup'', JBool True)]))] [Text ''Get started'']]])]]"

record preview_row =
  pr_name :: string
  pr_ip :: string
  pr_path :: string
  pr_seen :: string

definition preview_rows :: "preview_row list" where
  "preview_rows =
    [\<lparr>pr_name = ''web-1'', pr_ip = ''10.203.0.2'', pr_path = ''Direct'', pr_seen = ''Connected''\<rparr>,
     \<lparr>pr_name = ''db-primary'', pr_ip = ''10.203.0.3'', pr_path = ''Hole punch'', pr_seen = ''Connected''\<rparr>,
     \<lparr>pr_name = ''edge-paris'', pr_ip = ''10.203.0.4'', pr_path = ''Relayed'', pr_seen = ''Connected''\<rparr>,
     \<lparr>pr_name = ''build-runner'', pr_ip = ''10.203.0.5'', pr_path = ''Direct'', pr_seen = ''12 min ago''\<rparr>]"

definition preview_row_view :: "preview_row \<Rightarrow> 'e node" where
  "preview_row_view r =
     El ''tr'' [(''key'', Str (pr_name r))]
       [El ''td'' [] [Text (pr_name r)],
        El ''td'' [] [Text (pr_ip r)],
        El ''td'' [] [Text (pr_path r)],
        El ''td'' []
         [El ''span'' []
           [El ''span'' [(''className'', Str (if pr_seen r = ''Connected'' then ''bg-success'' else ''bg-border''))] [],
            El ''span'' [(''className'', Str (if pr_seen r = ''Connected'' then '''' else ''text-muted-foreground''))] [Text (pr_seen r)]]]]"

definition product_preview :: "'e node" where
  "product_preview =
     El ''div'' []
       [El ''div'' []
         [El ''div'' []
           [El ''div'' []
             [El ''span'' [(''aria-hidden'', Str ''true'')] [El ''span'' [] [], El ''span'' [] [], El ''span'' [] []],
              El ''span'' [] [Text ''Machines''],
              El ''span'' [] [Text ([CHR 0xB7] @ '' acme'')]],
            El ''span'' [] [Text ''Add device'']],
          El ''table'' []
           [El ''thead'' [] [El ''tr'' [] (map (\<lambda>h. El ''th'' [] [Text h]) [''Machine'', ''Address'', ''Connection'', ''Last seen''])],
            El ''tbody'' [] (map preview_row_view preview_rows)]]]"

definition hero :: "'e node" where
  "hero =
     El ''section'' []
       [El ''div'' [(''aria-hidden'', Str ''true'')] [],
        El ''div'' []
         [El ''p'' []
           [El ''span'' [] [], Text (''Self-hosted '' @ [CHR 0xB7] @ '' WireGuard '' @ [CHR 0xB7] @ '' Open source'')],
          El ''h1'' [] [Text ''A private network for every machine you run''],
          El ''p'' []
           [Text (''Mesh2Mesh gives each node a private address and links them all over WireGuard: directly when it can, through '' @
              ''NAT hole punching when it has to, and through a relay as a last resort.'')],
          El ''div'' []
           [El ''Button'' [(''size'', Str ''lg''), (''asChild'', Flag True)]
             [El ''Link'' [(''to'', To (link_to ''/login'' [(''signup'', JBool True)]))] [Text ''Get started '', El ''ArrowRightIcon'' [] []]],
            El ''Button'' [(''size'', Str ''lg''), (''variant'', Str ''outline''), (''asChild'', Flag True)]
             [El ''a'' [(''href'', Str ''#how-it-works'')] [Text ''See how it works'']]],
          product_preview]]"

record feature =
  fe_icon :: string
  fe_title :: string
  fe_body :: string

definition feature_list :: "feature list" where
  "feature_list =
    [\<lparr>fe_icon = ''LockIcon'', fe_title = ''Encrypted end to end'',
      fe_body = ''Every packet on mesh0 is WireGuard. Private keys are made on the node and never leave it.''\<rparr>,
     \<lparr>fe_icon = ''RouteIcon'', fe_title = ''Through any NAT'',
      fe_body = ''Open port? Peers connect directly. Behind NAT? They hole punch. Symmetric NAT? The relay carries the traffic.''\<rparr>,
     \<lparr>fe_icon = ''ServerIcon'', fe_title = ''Your control plane'',
      fe_body = ''One Go binary and a Postgres database, on your own servers. No third party in the path of your network.''\<rparr>,
     \<lparr>fe_icon = ''BuildingIcon'', fe_title = ''Isolated tenants'',
      fe_body = ''Each tenant gets its own private address range. Its nodes see each other, and nothing else.''\<rparr>,
     \<lparr>fe_icon = ''KeyRoundIcon'', fe_title = ''Single sign-on'',
      fe_body = ''The admin console logs in through Keycloak, so access follows the users and groups you already manage.''\<rparr>,
     \<lparr>fe_icon = ''TerminalIcon'', fe_title = ''Two commands per node'',
      fe_body = ''Join a tenant, then run. meshd installs itself as a systemd service and keeps its peers current.''\<rparr>]"

definition features_section :: "'e node" where
  "features_section =
     El ''section'' [(''id'', Str ''features'')]
       [El ''div'' []
         [El ''div'' []
           [El ''p'' [] [Text ''Features''],
            El ''h2'' [] [Text ''Networking that works out of the box''],
            El ''p'' [] [Text ''No firewall rules to write and no ports to forward. Nodes find the best path to each other on their own.'']],
          El ''div'' []
           (map (\<lambda>f. El ''div'' [(''key'', Str (fe_title f))]
              [El ''div'' [] [El (fe_icon f) [] []],
               El ''h3'' [] [Text (fe_title f)],
               El ''p'' [] [Text (fe_body f)]]) feature_list)]]"

record how_step =
  hs_title :: string
  hs_body :: string
  hs_code :: string

definition how_steps :: "how_step list" where
  "how_steps =
    [\<lparr>hs_title = ''Create a tenant'', hs_body = ''From the admin console, or from the first node.'', hs_code = ''sudo meshd setup acme''\<rparr>,
     \<lparr>hs_title = ''Join your machines'', hs_body = ''Each node gets a key and an address from the tenant's range.'',
      hs_code = ''sudo meshd join <tenant-id> --api https://mesh.example.com''\<rparr>,
     \<lparr>hs_title = ''Start the mesh'', hs_body = ''meshd brings up mesh0 and connects to every peer.'', hs_code = ''sudo meshd run''\<rparr>]"

text \<open>Numbered from one; the list is \<open>steps.map((s, i) => ...)\<close>.\<close>

definition how_it_works :: "'e node" where
  "how_it_works =
     El ''section'' [(''id'', Str ''how-it-works'')]
       [El ''div'' []
         [El ''div'' [] [El ''p'' [] [Text ''How it works''], El ''h2'' [] [Text ''Up and running in minutes'']],
          El ''ol'' []
           (map (\<lambda>(i, s). El ''li'' [(''key'', Str (hs_title s))]
              [El ''span'' [] [Text (show_nat (i + 1))],
               El ''h3'' [] [Text (hs_title s)],
               El ''p'' [] [Text (hs_body s)],
               El ''code'' [] [El ''span'' [] [Text ''$ ''], Text (hs_code s)]]) (List.enumerate 0 how_steps))]]"

definition call_to_action :: "'e node" where
  "call_to_action =
     El ''section'' []
       [El ''div'' []
         [El ''div'' []
           [El ''div'' []
             [El ''h2'' [] [Text ''Your network, on your servers.''],
              El ''p'' [] [Text ''Log in to the admin console and add your first machine.'']],
            El ''Button'' [(''size'', Str ''lg''), (''variant'', Str ''secondary''), (''asChild'', Flag True)]
             [El ''Link'' [(''to'', To (link_to ''/login'' []))] [Text ''Open the console '', El ''ArrowRightIcon'' [] []]]]]]"

definition site_footer :: "'e node" where
  "site_footer =
     El ''footer'' []
       [El ''div'' []
         [logo (Some ''[&_svg]:size-6 [&>span]:text-[15px]''),
          El ''div'' []
           [El ''a'' [(''href'', Str repo_url)] [Text ''GitHub''],
            El ''a'' [(''href'', Str (repo_url @ ''/blob/main/LICENSE''))] [Text ''Apache 2.0''],
            El ''Link'' [(''to'', To (link_to ''/login'' []))] [Text ''Log in'']]]]"

definition landing_page :: "user option query \<Rightarrow> 'e node" where
  "landing_page me =
     El ''div'' [] [site_nav me, El ''main'' [] [hero, features_section, how_it_works, call_to_action], site_footer]"

lemmas landing_defs =
  landing_page_def site_nav_def hero_def product_preview_def preview_row_view_def features_section_def
  how_it_works_def call_to_action_def site_footer_def logo_def logo_mark_def

text \<open>Where the header leads: the console for a known user, else the login.\<close>

lemma site_nav_links:
  "set (links (site_nav me)) =
     insert (link_to ''/'' [])
       (case query_data me of
          Some (Some u) \<Rightarrow> {link_to ''/admin/machines'' []}
        | _ \<Rightarrow> {link_to ''/login'' [], link_to ''/login'' [(''signup'', JBool True)]})"
  by (auto simp: site_nav_def logo_def logo_mark_def view_simps split: option.splits)

end
