(* ===== verification/DrawnPages.thy ===== *)
theory DrawnPages
  imports Components Layout Landing
begin

text \<open>
  The pages of the console as they are drawn: the elements the page components return, with
  the component library of \<open>components/ui\<close> put in their place.
\<close>

named_theorems typed_views "the parts of the pages give the library well-typed props"

lemma typed_page_El:
  "typed_page (El tag as ks) \<longleftrightarrow> typed_props as \<and> (tag = ''Checkbox'' \<longrightarrow> ks = []) \<and> list_all typed_page ks"
  by (simp add: list_all_iff)

lemma typed_props_Nil: "typed_props []"
  by (simp add: typed_props_def)

lemma typed_props_Cons:
  "typed_props ((k, a) # as) \<longleftrightarrow> k \<notin> fst ` set as \<and> (k \<in> set own_props \<longrightarrow> plain_attr (k, a)) \<and> typed_props as"
  by (auto simp: typed_props_def)

lemma typed_show_if: "list_all typed_page (show_if b ns) \<longleftrightarrow> (b \<longrightarrow> list_all typed_page ns)"
  by (simp add: show_if_def)

lemma typed_map: "list_all typed_page (map f xs) \<longleftrightarrow> (\<forall>x \<in> set xs. typed_page (f x))"
  by (simp add: list_all_iff)

lemmas typed_simps =
  typed_page_El typed_page.simps(1) typed_props_Nil typed_props_Cons typed_show_if typed_map list_all_append list.pred_inject
  own_props_def plain_attr_def

declare typed_page.simps(2) [simp del]

lemma typed_shared [typed_views]:
  "typed_page (error_line e)" "typed_page (Command s)" "typed_page (logo_mark c)" "typed_page (logo c)"
  "typed_page not_found_page" "typed_page (page_header t d a) \<longleftrightarrow> list_all typed_page d \<and> list_all typed_page a"
  "typed_page table_skeleton" "typed_page no_tenant" "typed_page (role_badge r)"
  by (simp_all add: typed_simps error_line_def Command_def logo_mark_def logo_def not_found_page_def page_header_def
      table_skeleton_def no_tenant_def role_badge_def) auto

lemma typed_alert [typed_views]: "list_all typed_page (alert_line m)"
  by (simp add: typed_simps alert_line_def split: mutation.split)

lemma typed_copy_value [typed_views]: "typed_page (CopyValue v d)"
  by (simp add: typed_simps CopyValue_def split: option.split)

lemma typed_dialogs [typed_views]:
  "typed_page (step_item n t ks) \<longleftrightarrow> list_all typed_page ks"
  "typed_page (stop_device_dialog p f)"
  by (simp_all add: typed_simps typed_views step_item_def stop_device_dialog_def)

lemma typed_add_device [typed_views]: "typed_page (add_device_dialog c t b f ev st)"
  by (simp add: typed_simps typed_views add_device_dialog_def)

lemma typed_login_page: "typed_page (login_page c s)"
  by (simp add: typed_simps typed_views login_page_def)

lemma typed_landing_page: "typed_page (landing_page me)"
  by (auto simp: typed_simps typed_views landing_defs preview_rows_def feature_list_def how_steps_def split: option.split)

lemma typed_invite_page: "typed_page (invite_page me accept)"
  by (simp add: typed_simps typed_views invite_page_def Let_def)

lemma typed_layout_parts [typed_views]:
  "typed_page (tenant_switcher ts c)" "typed_page (control_plane_status h)" "list_all typed_page (user_menu me theme)"
  "typed_page (admin_tabs s)"
  by (auto simp: typed_simps typed_views tenant_switcher_def switcher_item_def control_plane_status_def user_menu_def
      admin_tabs_def Let_def split: option.split)

lemma typed_admin_layout: "typed_page (admin_layout ts c h me theme s outlet) \<longleftrightarrow> list_all typed_page outlet"
  by (simp add: typed_simps typed_views admin_layout_def)

lemma typed_machine_row [typed_views]: "typed_page (machine_row b p)"
  by (simp add: typed_simps typed_views machine_row_def last_seen_def connection_cell_def Let_def split: option.split)

lemma typed_machine_list [typed_views]: "list_all typed_page (machine_list b ps st)"
  by (simp add: typed_simps typed_views machine_list_def no_machines_def th_def split: query.split)

lemma typed_machines_page: "list_all typed_page (machines_page b ts c ps config st)"
  by (simp add: typed_simps typed_views machines_page_def split: query.split option.split)

lemma typed_choice [typed_views]: "typed_page (choice sv l v f os)"
  by (auto simp: typed_simps choice_def split: option.split)

lemma typed_member_parts [typed_views]:
  "typed_page (invite_link_view b cp i)" "typed_page (member_row b t me m)"
  by (simp_all add: typed_simps typed_views invite_link_view_def member_row_def Let_def)

lemma typed_invite_dialog [typed_views]: "typed_page (invite_dialog_view b t create st)"
  by (simp add: typed_simps typed_views invite_dialog_view_def Let_def split: option.split)

lemma typed_members_page: "list_all typed_page (members_page b ts c me ms create st)"
  by (simp add: typed_simps typed_views members_page_def member_list_def split: query.split option.split)

lemma typed_tenants_page: "list_all typed_page (tenants_page ts search create join st)"
  by (simp add: typed_simps typed_views tenants_page_def create_tenant_dialog_def join_tenant_dialog_def tenant_row_def
      Let_def split: query.split)

text \<open>A page as drawn has the clicks and links of the page, and its texts but for Close, with library parts gone.\<close>

definition drawn_as_written :: "theme \<Rightarrow> 'e node list \<Rightarrow> bool" where
  "drawn_as_written theme ns \<longleftrightarrow>
     List.concat (map (clicks \<circ> draw theme) ns) = List.concat (map clicks ns) \<and>
     List.concat (map (links \<circ> draw theme) ns) = List.concat (map links ns) \<and>
     labels (map (draw theme) ns) = labels ns \<and>
     set (List.concat (map (tags \<circ> draw theme) ns)) \<inter> set ui_names = {}"

lemma drawn_typed:
  assumes "list_all typed_page ns"
  shows "drawn_as_written theme ns"
proof -
  have "same_view (map (draw theme) ns) ns"
    using assms by (intro same_view_map draw_same_view) (simp add: list_all_iff)
  moreover have "set (tags (draw theme n)) \<inter> set ui_names = {}" for n :: "'a node"
    using draw_tags [of theme n] primitive_not_ui by blast
  ultimately show ?thesis by (auto simp: drawn_as_written_def same_view_def)
qed

text \<open>
  The clicks and links of the pages survive the drawing. In every state of its queries, mutations and
  dialogs, each page of the console, drawn with the component library, has the \<open>clicks\<close> and the
  links of its own elements and the same texts, the label Close aside, and holds nothing of the
  library undrawn. The handlers that take a value, and the cross that closes a dialog, are not compared.
\<close>
theorem pages_drawn_as_written:
  "drawn_as_written theme [root_component [landing_page me]] \<and>
   drawn_as_written theme [root_component [login_page config search]] \<and>
   drawn_as_written theme [root_component [invite_page me accept]] \<and>
   drawn_as_written theme [root_component [admin_layout tenants current health user theme keep []]] \<and>
   drawn_as_written theme (machines_page b tenants current peers config machines) \<and>
   drawn_as_written theme (members_page b tenants current user members create invites) \<and>
   drawn_as_written theme (tenants_page tenants opened create join dialogs) \<and>
   drawn_as_written theme [root_component [not_found_page]]"
proof -
  have root: "drawn_as_written theme [root_component [n]]" if "typed_page n" for n :: "'e node"
    using that by (intro drawn_typed) (simp add: typed_simps root_component_def)
  show ?thesis
    by (intro conjI root drawn_typed typed_landing_page typed_login_page typed_invite_page typed_machines_page
        typed_members_page typed_tenants_page typed_shared) (simp add: typed_admin_layout)
qed

end
