(* ===== verification/Removals.thy ===== *)
theory Removals
  imports ControlLink DrawnPages
begin

text \<open>
  The removal of a member from the page to the answer: what the drawn page offers, the request
  that choosing it sends, and what the control plane makes of that request.
\<close>

lemma clicks_members_page:
  "RemoveMember m \<in> set (List.concat (map (clicks \<circ> draw theme) (members_page b (Success ts) (Some t) me (Success ms) create st))) \<longleftrightarrow>
     m \<in> set ms \<and> (m_user_id m = sub me \<or> t_role t = Owner)"
proof -
  let ?ns = "members_page b (Success ts) (Some t) me (Success ms) create st"
  have drawn: "List.concat (map (clicks \<circ> draw theme) ?ns) = List.concat (map clicks ?ns)"
    using drawn_typed [OF typed_members_page] by (simp add: drawn_as_written_def)
  have dialog: "RemoveMember m \<notin> set (clicks (invite_dialog_view b t create st))"
    by (auto simp: invite_dialog_view_def Let_def clicks_choice invite_link_view_def CopyValue_def alert_line_def
        view_simps split: option.splits if_splits mutation.splits)
  have "RemoveMember m \<in> set (List.concat (map clicks ?ns)) \<longleftrightarrow> RemoveMember m \<in> set (clicks (member_list b t me (Success ms)))"
    using dialog by (auto simp: members_page_def page_header_def view_simps)
  then show ?thesis unfolding drawn clicks_list .
qed

lemma plain_arrives:
  assumes t: "tenant_id t" and u: "forwarded (remove_member t u)"
  shows "arrives_at (UseRemove t u) = Some (RemoveMemberR t u)"
proof -
  have p: "u \<noteq> []" "list_all plain_member_char u" "u \<notin> {''.'', ''..''}" using u removal_forwarded [OF t] by blast+
  then have e: "encode_uri_component u = u"
    by (intro encode_uri_component_id) (auto simp: list_all_iff plain_member_char_def uri_unreserved_def is_word_def)
  have "utf8 u = u"
    using p(2) by (intro utf8_ascii) (auto simp: list_all_iff plain_member_char_def is_word_def class_defs)
  then have "segment_value u = u" using segment_value_encoded [of u] by (simp add: e)
  moreover have "clean_segment u" using p by (simp add: clean_segment_def)
  ultimately show ?thesis
    using mux_member [OF tenant_id_segment(1,2) [OF t], of u] encoded_segment [of u] tenant_id_segment(3) [OF t]
    unfolding arrives_at_tenant by (simp add: e tenant_id_plain [OF t])
qed

text \<open>
  C36. The page offers a removal exactly when the caller may remove that member, and the
  only removal offered and refused is that of the last owner. Take a user and a member of
  a tenant as the page shows them and the control plane's database has them, the member with an
  id whose removal the proxy forwards. On the members page as drawn, the entry to remove the
  member (or to leave, for oneself) is missing exactly when the control plane would answer the
  request with 403. Choosing it sends the request that arrives as the removal of that member; it
  is answered with 204 and the member's row is gone, except for an owner without another one,
  when nothing changes and the answer is 409 with the advice to invite another owner first.
\<close>
theorem removal_offered_as_answered:
  assumes caller: "as_user env r = Inr v" "su_id v = sub me"
    and tenant: "tenant_id (t_id t)" "ge_uuid env (t_id t) = Some i" "find_tenant d i = Some row"
    and self: "find_member d i (sub me) = Some x" "t_role t = sm_role x"
    and target: "m \<in> set ms" "find_member d i (m_user_id m) = Some y" "forwarded (remove_member (t_id t) (m_user_id m))"
    and arrives: "arrives_at (UseRemove (t_id t) (m_user_id m)) = Some (gq_route r)"
  shows "let offered = RemoveMember m \<in>
        set (List.concat (map (clicks \<circ> draw theme) (members_page b (Success ts) (Some t) me (Success ms) create st)));
      last_owner = (sm_role y = Owner \<and> length (owners d i) \<le> 1) in
    snd (members_step t me (RemoveMember m) st) = [Mutate (sent (UseRemove (t_id t) (m_user_id m)))] \<and>
    control_serve env w r d =
      (if \<not> offered then (fail (403, ''only owners of this tenant can remove others''), d)
       else if last_owner
       then (fail (409, ''the tenant would be left without an owner: invite another owner first''), d)
       else ((204, None), d\<lparr>db_members := filter (\<lambda>z. \<not> (sm_tenant z = i \<and> sm_user z = m_user_id m)) (db_members d)\<rparr>))"
proof -
  have route: "gq_route r = RemoveMemberR (t_id t) (m_user_id m)"
    using plain_arrives [OF tenant(1) target(3)] arrives by simp
  have row: "st_id row = i" using find_tenant_Some [OF tenant(3)] by simp
  have begun: "control_begin env r (gq_route r) d =
      (if m_user_id m = sub me \<or> t_role t = Owner then Inr (ARemove v i (m_user_id m))
       else Inl (403, ''only owners of this tenant can remove others''))"
    using caller tenant(2,3) self row
    by (simp add: route caller_def get_membership_def remove_input_def remove_authorized_def)
  have "control_finish env w (ARemove v i (m_user_id m)) d =
      (if sm_role y = Owner \<and> length (owners d i) \<le> 1
       then (fail (409, ''the tenant would be left without an owner: invite another owner first''), d)
       else ((204, None), d\<lparr>db_members := filter (\<lambda>z. \<not> (sm_tenant z = i \<and> sm_user z = m_user_id m)) (db_members d)\<rparr>))"
    using target(2) by (simp add: store_remove_member_def settle_def answer_error_def)
  then show ?thesis unfolding clicks_members_page using target(1) begun by (simp add: Let_def control_serve_def)
qed

section \<open>A tenant with one owner\<close>

definition house_db :: db where
  "house_db = empty_db\<lparr>db_tenants := [ControlPlane.demo_tenant\<lparr>st_id := demo_tenant_id\<rparr>],
     db_members := [member_of_user 5 demo_tenant_id ann Owner, member_of_user 5 demo_tenant_id bob Member]\<rparr>"

definition house :: tenant where
  "house = \<lparr>t_id = demo_tenant_id, t_name = ''home'', t_cidr = ''10.0.0.0/29'', t_created_at = [], t_role = Owner\<rparr>"

definition house_me :: user where
  "house_me = \<lparr>sub = ''ann'', user_name = ''Ann'', email = None, username = None\<rparr>"

definition house_member :: "string \<Rightarrow> role \<Rightarrow> member" where
  "house_member u r = \<lparr>m_user_id = u, m_email = [], m_name = [], m_role = r, m_created_at = []\<rparr>"

text \<open>The only owner is offered to leave, and refused; another member is removed.\<close>

theorem removal_offered_as_answered_witness:
  "RemoveMember (house_member ''ann'' Owner) \<in> set (List.concat (map (clicks \<circ> draw Dark)
      (members_page demo_browser (Success [house]) (Some house) house_me (Success [house_member ''ann'' Owner]) Idle members_start))) \<and>
   fst (control_serve plane_env (demo_draw ''x'' []) (web_request ''ann'' (RemoveMemberR demo_tenant_id ''ann'')) house_db) =
     fail (409, ''the tenant would be left without an owner: invite another owner first'') \<and>
   fst (control_serve plane_env (demo_draw ''x'' []) (web_request ''ann'' (RemoveMemberR demo_tenant_id ''bob'')) house_db) = (204, None)"
proof -
  have t: "tenant_id demo_tenant_id" by code_simp
  have house: "t_id house = demo_tenant_id" "t_role house = Owner" "sub house_me = ''ann''" by (simp_all add: house_def house_me_def)
  have u: "as_user plane_env (web_request ''ann'' rt) = Inr ann" "su_id ann = ''ann''" for rt by (simp_all add: demo_user ann_def)
  have g: "ge_uuid plane_env demo_tenant_id = Some demo_tenant_id" by (simp add: plane_env_def)
  have f: "find_tenant house_db demo_tenant_id = Some (ControlPlane.demo_tenant\<lparr>st_id := demo_tenant_id\<rparr>)"
    "find_member house_db demo_tenant_id ''ann'' = Some (member_of_user 5 demo_tenant_id ann Owner)"
    "find_member house_db demo_tenant_id ''bob'' = Some (member_of_user 5 demo_tenant_id bob Member)"
    by (simp_all add: house_db_def find_tenant_def find_member_def member_of_user_def ann_def bob_def)
  have roles: "sm_role (member_of_user 5 demo_tenant_id ann Owner) = Owner" "sm_role (member_of_user 5 demo_tenant_id bob Member) = Member"
    by (simp_all add: member_of_user_def)
  have one: "length (owners house_db demo_tenant_id) = 1" by (simp add: owners_def house_db_def member_of_user_def)
  have fw: "forwarded (remove_member demo_tenant_id ''ann'')" "forwarded (remove_member demo_tenant_id ''bob'')"
    unfolding removal_forwarded [OF t] by code_simp+
  have route: "arrives_at (UseRemove demo_tenant_id k) = Some (gq_route (web_request ''ann'' (RemoveMemberR demo_tenant_id k)))"
    if "forwarded (remove_member demo_tenant_id k)" for k
    using plain_arrives [OF t that] by (simp add: web_request_def)
  let ?ms = "[house_member ''ann'' Owner, house_member ''bob'' Member]"
  have m: "m_user_id (house_member k r) = k" for k r by (simp add: house_member_def)
  note a = removal_offered_as_answered [where t = house and me = house_me and i = demo_tenant_id and ms = ?ms and env = plane_env
      and d = house_db and v = ann, unfolded house clicks_members_page Let_def, OF u t g f(1,2) roles(1) [symmetric]]
  have "RemoveMember (house_member ''ann'' Owner) \<in> set (List.concat (map (clicks \<circ> draw Dark)
      (members_page demo_browser (Success [house]) (Some house) house_me (Success [house_member ''ann'' Owner]) Idle members_start)))"
    unfolding clicks_members_page by (simp add: house m)
  moreover have "fst (control_serve plane_env (demo_draw ''x'' []) (web_request ''ann'' (RemoveMemberR demo_tenant_id ''ann'')) house_db) =
      fail (409, ''the tenant would be left without an owner: invite another owner first'')"
    using a [of "house_member ''ann'' Owner", unfolded m, OF _ f(2) fw(1) route [OF fw(1)]] by (simp add: one roles)
  moreover have "fst (control_serve plane_env (demo_draw ''x'' []) (web_request ''ann'' (RemoveMemberR demo_tenant_id ''bob'')) house_db) = (204, None)"
    using a [of "house_member ''bob'' Member", unfolded m, OF _ f(3) fw(2) route [OF fw(2)]] by (simp add: roles)
  ultimately show ?thesis by blast
qed

end
