(* ===== verification/Wire.thy ===== *)
theory Wire
  imports NetAddr
begin

text \<open>
  The datagrams of \<open>internal/wire\<close>, shared by the prober, the relay and meshd: a header of
  version, type and two reserved bytes, then a payload; addresses are sixteen bytes and a port.
\<close>

type_synonym octets = "8 word list"
type_synonym addr_port = "addr \<times> nat"

definition wire_version :: "8 word" where
  "wire_version = 0"

datatype frame_type = Probe | ProbeReply | BindingRequest | BindingResponse | RelayRegister | RelayAck | RelayData

fun type_byte :: "frame_type \<Rightarrow> 8 word" where
  "type_byte Probe = 1"
| "type_byte ProbeReply = 2"
| "type_byte BindingRequest = 3"
| "type_byte BindingResponse = 4"
| "type_byte RelayRegister = 5"
| "type_byte RelayAck = 6"
| "type_byte RelayData = 7"

definition header_len :: nat where
  "header_len = 4"

definition relay_token_len :: nat where
  "relay_token_len = 16"

definition relay_header_len :: nat where
  "relay_header_len = header_len + 4"

definition nonce_len :: nat where
  "nonce_len = 16"

definition addr_port_len :: nat where
  "addr_port_len = 18"

definition binding_len :: nat where
  "binding_len = nonce_len + addr_port_len"

definition max_frame_len :: nat where
  "max_frame_len = 2048"

lemmas wire_lengths =
  header_len_def relay_token_len_def relay_header_len_def nonce_len_def addr_port_len_def binding_len_def

section \<open>Frames\<close>

definition encode_frame :: "frame_type \<Rightarrow> octets \<Rightarrow> octets" where
  "encode_frame t payload = [wire_version, type_byte t, 0, 0] @ payload"

datatype frame_error = ShortFrame | WrongVersion "8 word"

text \<open>The type is any byte; what a number means is for the receiver to say.\<close>

definition decode_frame :: "octets \<Rightarrow> frame_error + 8 word \<times> octets" where
  "decode_frame buf =
     (if length buf < header_len then Inl ShortFrame
      else if buf ! 0 \<noteq> wire_version then Inl (WrongVersion (buf ! 0))
      else Inr (buf ! 1, drop header_len buf))"

lemma decode_encode: "decode_frame (encode_frame t p) = Inr (type_byte t, p)"
  by (simp add: decode_frame_def encode_frame_def header_len_def)

lemma decode_Inr: "decode_frame buf = Inr (b, p) \<longleftrightarrow> header_len \<le> length buf \<and> buf ! 0 = wire_version \<and> b = buf ! 1 \<and> p = drop header_len buf"
  by (auto simp: decode_frame_def)

text \<open>A frame that a buffer cuts off still has its header.\<close>

lemma decode_take:
  "header_len \<le> n \<Longrightarrow> decode_frame (take n buf) = map_sum id (map_prod id (take (n - header_len))) (decode_frame buf)"
  by (auto simp: decode_frame_def drop_take header_len_def)

lemma take_frame: "length p + header_len \<le> n \<Longrightarrow> take n (encode_frame t p) = encode_frame t p"
  by (simp add: encode_frame_def header_len_def)

lemma type_byte_inj [simp]: "type_byte t = type_byte u \<longleftrightarrow> t = u"
  by (cases t; cases u; simp)

section \<open>Addresses as bytes\<close>

fun be_bytes :: "nat \<Rightarrow> nat \<Rightarrow> octets" where
  "be_bytes 0 x = []"
| "be_bytes (Suc n) x = be_bytes n (x div 256) @ [of_nat x]"

definition be_value :: "octets \<Rightarrow> nat" where
  "be_value bs = foldl (\<lambda>a b. a * 256 + unat b) 0 bs"

lemma be_value_simps [simp]: "be_value [] = 0" "be_value (bs @ [b]) = be_value bs * 256 + unat b"
  by (simp_all add: be_value_def)

lemma length_be_bytes [simp]: "length (be_bytes n x) = n"
  by (induction n arbitrary: x) auto

lemma unat_byte: "unat (of_nat x :: 8 word) = x mod 256"
  by (simp add: unsigned_of_nat take_bit_eq_mod)

lemma unat_eqI: "unat x = unat y \<Longrightarrow> x = y" for x :: "'a::len word"
  by (rule unsigned_word_eqI)

lemma unat_less: "unat (x :: 'a::len word) < 2 ^ LENGTH('a)"
  by (rule unsigned_less)

lemma be_value_bytes: "be_value (be_bytes n x) = x mod 256 ^ n"
proof (induction n arbitrary: x)
  case (Suc n)
  have "x mod (256 * 256 ^ n) = 256 * (x div 256 mod 256 ^ n) + x mod 256" by (rule mod_mult2_eq)
  then show ?case using Suc by (simp add: unat_byte)
qed simp

lemma be_value_less: "be_value bs < 256 ^ length bs"
proof (induction bs rule: rev_induct)
  case (snoc b bs)
  have "unat b < 256" using unsigned_less [of b] by simp
  then show ?case using snoc by simp
qed simp

lemma be_bytes_value: "length bs = n \<Longrightarrow> be_bytes n (be_value bs) = bs"
proof (induction bs arbitrary: n rule: rev_induct)
  case (snoc b bs)
  have "unat b < 256" using unsigned_less [of b] by simp
  then have "(be_value bs * 256 + unat b) div 256 = be_value bs" by simp
  moreover have "(of_nat (be_value bs * 256 + unat b) :: 8 word) = b"
    by (rule unat_eqI) (unfold unat_byte, use \<open>unat b < 256\<close> in simp)
  ultimately show ?case using snoc by (cases n) auto
qed simp

text \<open>\<open>Addr.As16\<close>: an IPv4 address is mapped into IPv6; no address is all zeros.\<close>

fun addr16 :: "addr \<Rightarrow> nat" where
  "addr16 NoAddr = 0"
| "addr16 (V4 a) = 0xFFFF * 2 ^ 32 + unat a"
| "addr16 (V6 a) = unat a"

definition append_addr_port :: "octets \<Rightarrow> addr_port \<Rightarrow> octets" where
  "append_addr_port dst ap = dst @ be_bytes 16 (addr16 (fst ap)) @ be_bytes 2 (snd ap)"

text \<open>Fewer bytes make Go panic.\<close>

definition parse_addr_port :: "octets \<Rightarrow> addr_port option" where
  "parse_addr_port b =
     (if length b < addr_port_len then None
      else Some (addr_unmap (V6 (of_nat (be_value (take 16 b)))), be_value (take 2 (drop 16 b))))"

text \<open>\<open>Addr.As4\<close> and \<open>AddrFrom4\<close>.\<close>

definition bytes4 :: "32 word \<Rightarrow> octets" where
  "bytes4 a = be_bytes 4 (unat a)"

definition addr_from4 :: "octets \<Rightarrow> addr" where
  "addr_from4 b = V4 (of_nat (be_value b))"

lemma length_bytes4 [simp]: "length (bytes4 a) = 4"
  by (simp add: bytes4_def)

lemma addr_from_bytes4: "addr_from4 (bytes4 a) = V4 a"
proof -
  have "unat a < 256 ^ 4" using unsigned_less [of a] by simp
  then show ?thesis by (simp add: addr_from4_def bytes4_def be_value_bytes)
qed

lemma bytes4_from: "length b = 4 \<Longrightarrow> addr_from4 b = V4 a \<longleftrightarrow> b = bytes4 a"
proof
  assume l: "length b = 4" and "addr_from4 b = V4 a"
  then have a: "a = of_nat (be_value b)" by (simp add: addr_from4_def)
  have "be_value b < 256 ^ 4" using be_value_less [of b] unfolding l .
  then have "unat a = be_value b" unfolding a by (simp add: unsigned_of_nat take_bit_eq_mod)
  then show "b = bytes4 a" using be_bytes_value [OF l] by (simp add: bytes4_def)
qed (simp add: addr_from_bytes4)

lemma unmap_addr16: "a \<noteq> NoAddr \<Longrightarrow> addr_unmap (V6 (of_nat (addr16 a))) = addr_unmap a"
proof (cases a)
  case (V4 x)
  have x: "unat x < 2 ^ 32" using unsigned_less [of x] by simp
  define N where "N = 0xFFFF * 2 ^ 32 + unat x"
  have "N < 2 ^ 128" using x by (simp add: N_def)
  then have "unat (of_nat N :: 128 word) = N" by (simp add: unsigned_of_nat take_bit_eq_mod)
  then have n: "unat (of_nat (addr16 a) :: 128 word) = 0xFFFF * 2 ^ 32 + unat x"
    using V4 by (simp add: N_def)
  define w where "w = (of_nat (addr16 a) :: 128 word)"
  have n: "unat w = 0xFFFF * 2 ^ 32 + unat x" using n by (simp only: w_def)
  have "unat (drop_bit 32 w) = 0xFFFF"
    using x unfolding unsigned_drop_bit_eq n by (simp add: drop_bit_eq_div take_bit_eq_mod)
  then have "drop_bit 32 w = 0xFFFF" by (intro unat_eqI) simp
  moreover have "ucast w = x"
  proof (rule unat_eqI)
    have "(0xFFFF * 2 ^ 32 + unat x) mod 2 ^ 32 = unat x" using x mod_mult_self3 [of "0xFFFF" "2 ^ 32" "unat x"] by (simp only: mod_less)
    then show "unat (ucast w :: 32 word) = unat x" unfolding unsigned_ucast_eq n take_bit_eq_mod by simp
  qed
  ultimately show ?thesis using V4 unfolding w_def [symmetric] by simp
qed simp_all

lemma parse_addr_bytes:
  assumes "ip \<noteq> NoAddr" "port < 65536"
  shows "parse_addr_port (be_bytes 16 (addr16 ip) @ be_bytes 2 port @ rest) = Some (addr_unmap ip, port)"
proof -
  have a: "addr16 ip < 256 ^ 16"
  proof (cases ip)
    case (V4 x)
    have "unat x < 2 ^ 32" using unat_less [of x] by simp
    then show ?thesis using V4 by simp
  next
    case (V6 x)
    have "unat x < 2 ^ 128" using unat_less [of x] by simp
    then show ?thesis using V6 by simp
  qed (use assms(1) in simp)
  then have v: "be_value (be_bytes 16 (addr16 ip)) = addr16 ip" by (simp only: be_value_bytes mod_less)
  have p: "be_value (be_bytes 2 port) = port" using assms(2) by (simp add: be_value_bytes)
  show ?thesis using v p unmap_addr16 [OF assms(1)] by (simp add: parse_addr_port_def addr_port_len_def)
qed

text \<open>
  Frames and addresses survive the wire. A frame that any side encodes is decoded to its
  type and payload; an address and port that are written are read back, whatever follows, as
  the same address with an IPv4-mapped one as plain IPv4; and a frame of another version is
  refused with that version.
\<close>
theorem wire_round_trip:
  assumes "ip \<noteq> NoAddr" "port < 65536"
  shows "decode_frame (encode_frame t (append_addr_port dst (ip, port) @ rest)) =
      Inr (type_byte t, append_addr_port dst (ip, port) @ rest) \<and>
    parse_addr_port (drop (length dst) (append_addr_port dst (ip, port) @ rest)) = Some (addr_unmap ip, port) \<and>
    (v \<noteq> wire_version \<longrightarrow> decode_frame (v # tl (encode_frame t p)) = Inl (WrongVersion v))"
  using parse_addr_bytes [OF assms]
  by (simp add: decode_encode append_addr_port_def) (simp add: encode_frame_def decode_frame_def header_len_def)

theorem wire_round_trip_witness:
  "parse_addr_port (append_addr_port [] (V4 0x0A000001, 51820) @ [7]) = Some (V4 0x0A000001, 51820)"
  using wire_round_trip [of "V4 0x0A000001" 51820 Probe "[]" "[7]"] by simp

end
