(* ===== verification/Base64.thy ===== *)
theory Base64
  imports Wire
begin

text \<open>
  Keys and relay tokens as text: Go's \<open>base64.StdEncoding\<close> and \<open>hex.EncodeToString\<close>, and
  \<open>hexKey\<close> of \<open>cmd/meshd/wireguard.go\<close>, which turns the one into the other.
\<close>

section \<open>base64.StdEncoding\<close>

definition b64_char :: "nat \<Rightarrow> char" where
  "b64_char n =
     char_of (if n < 26 then 65 + n else if n < 52 then 71 + n else if n < 62 then n - 4 else if n = 62 then 43 else 47)"

definition b64_value :: "char \<Rightarrow> nat option" where
  "b64_value c =
     (let n = of_char c :: nat in
      if 65 \<le> n \<and> n \<le> 90 then Some (n - 65) else if 97 \<le> n \<and> n \<le> 122 then Some (n - 71)
      else if 48 \<le> n \<and> n \<le> 57 then Some (n + 4) else if n = 43 then Some 62 else if n = 47 then Some 63 else None)"

text \<open>The bytes of four characters, of three before one pad, and of two before two pads.\<close>

definition sextets :: "string \<Rightarrow> nat option" where
  "sextets cs =
     foldl (\<lambda>a c. case (a, b64_value c) of (Some x, Some v) \<Rightarrow> Some (x * 64 + v) | _ \<Rightarrow> None) (Some 0) cs"

definition quantum4 :: "string \<Rightarrow> octets option" where
  "quantum4 cs = map_option (be_bytes 3) (sextets cs)"

text \<open>Of the last characters before the pads the decoder drops the bits that fill no byte.\<close>

definition last_quantum :: "string \<Rightarrow> octets option" where
  "last_quantum cs =
     (if drop 2 cs = ''=='' then map_option (\<lambda>n. be_bytes 1 (n div 16)) (sextets (take 2 cs))
      else if drop 3 cs = ''='' then map_option (\<lambda>n. be_bytes 2 (n div 4)) (sextets (take 3 cs))
      else quantum4 cs)"

fun b64_quanta :: "string \<Rightarrow> octets option" where
  "b64_quanta [] = Some []"
| "b64_quanta [a, b, c, d] = last_quantum [a, b, c, d]"
| "b64_quanta (a # b # c # d # e # r) =
     (case (quantum4 [a, b, c, d], b64_quanta (e # r)) of (Some x, Some y) \<Rightarrow> Some (x @ y) | _ \<Rightarrow> None)"
| "b64_quanta _ = None"

text \<open>\<open>DecodeString\<close>, which skips line ends wherever they are.\<close>

definition b64_decode :: "string \<Rightarrow> octets option" where
  "b64_decode s = b64_quanta (filter (\<lambda>c. c \<noteq> CHR 0x0A \<and> c \<noteq> CHR 0x0D) s)"

fun b64_encode :: "octets \<Rightarrow> string" where
  "b64_encode [] = []"
| "b64_encode [x] = (let n = be_value [x] * 16 in [b64_char (n div 64), b64_char (n mod 64), CHR ''='', CHR ''=''])"
| "b64_encode [x, y] =
     (let n = be_value [x, y] * 4 in
      [b64_char (n div 4096), b64_char (n div 64 mod 64), b64_char (n mod 64), CHR ''=''])"
| "b64_encode (x # y # z # r) =
     (let n = be_value [x, y, z] in
      [b64_char (n div 262144), b64_char (n div 4096 mod 64), b64_char (n div 64 mod 64), b64_char (n mod 64)] @ b64_encode r)"

section \<open>hex.EncodeToString and hexKey\<close>

definition hex_char :: "nat \<Rightarrow> char" where
  "hex_char d = char_of (if d < 10 then 48 + d else 87 + d)"

definition hex_encode :: "octets \<Rightarrow> string" where
  "hex_encode bs = List.concat (map (\<lambda>b. [hex_char (unat b div 16), hex_char (unat b mod 16)]) bs)"

definition hex_key :: "string \<Rightarrow> string option" where
  "hex_key s =
     (case b64_decode (go_trim s) of
        None \<Rightarrow> None
      | Some raw \<Rightarrow> if length raw \<noteq> 32 then None else Some (hex_encode raw))"

section \<open>What is read is what was written\<close>

lemma b64_value_char: "n < 64 \<Longrightarrow> b64_value (b64_char n) = Some n"
  by (auto simp: b64_value_def b64_char_def Let_def)

lemma b64_value_plain: "b64_value c = Some n \<Longrightarrow> c \<notin> {CHR ''='', CHR 0x0A, CHR 0x0D} \<and> \<not> go_space c"
  by (auto simp: b64_value_def go_space_def js_space_def Let_def split: if_splits)

lemmas b64_char_plain = b64_value_plain [OF b64_value_char]

lemma sextets_simps [simp]: "sextets [] = Some 0"
  "sextets (cs @ [c]) = (case (sextets cs, b64_value c) of (Some x, Some v) \<Rightarrow> Some (x * 64 + v) | _ \<Rightarrow> None)"
  by (simp_all add: sextets_def)

lemma sextets_chars:
  "a < 64 \<Longrightarrow> b < 64 \<Longrightarrow> sextets [b64_char a, b64_char b] = Some (a * 64 + b)"
  "a < 64 \<Longrightarrow> b < 64 \<Longrightarrow> c < 64 \<Longrightarrow> sextets [b64_char a, b64_char b, b64_char c] = Some ((a * 64 + b) * 64 + c)"
  "a < 64 \<Longrightarrow> b < 64 \<Longrightarrow> c < 64 \<Longrightarrow> d < 64 \<Longrightarrow>
    sextets [b64_char a, b64_char b, b64_char c, b64_char d] = Some (((a * 64 + b) * 64 + c) * 64 + d)"
  by (simp_all add: sextets_def b64_value_char)

lemma digits64:
  "(n div 64 * 64 + n mod 64 :: nat) = n" "((n div 4096 * 64 + n div 64 mod 64) * 64 + n mod 64 :: nat) = n"
  "(((n div 262144 * 64 + n div 4096 mod 64) * 64 + n div 64 mod 64) * 64 + n mod 64 :: nat) = n"
proof -
  have "n div 4096 = n div 64 div 64" "n div 262144 = n div 64 div 64 div 64" by (simp_all flip: div_mult2_eq)
  then show "(n div 64 * 64 + n mod 64 :: nat) = n" "((n div 4096 * 64 + n div 64 mod 64) * 64 + n mod 64 :: nat) = n"
    "(((n div 262144 * 64 + n div 4096 mod 64) * 64 + n div 64 mod 64) * 64 + n mod 64 :: nat) = n"
    by (simp_all only: div_mult_mod_eq)
qed

lemma quantum3:
  assumes "be_value [x, y, z] = n"
  shows "quantum4 [b64_char (n div 262144), b64_char (n div 4096 mod 64), b64_char (n div 64 mod 64), b64_char (n mod 64)] =
    Some [x, y, z]"
proof -
  have n: "n < 16777216" using be_value_less [of "[x, y, z]"] assms by simp
  note digits64(3) [of n]
  moreover have "be_bytes 3 n = [x, y, z]" using be_bytes_value [of "[x, y, z]" 3] assms by simp
  ultimately show ?thesis using n by (simp add: quantum4_def sextets_chars less_mult_imp_div_less)
qed

lemma quantum2:
  assumes "be_value [x, y] * 4 = n"
  shows "last_quantum [b64_char (n div 4096), b64_char (n div 64 mod 64), b64_char (n mod 64), CHR ''=''] = Some [x, y]"
proof -
  have n: "n < 262144" "n div 4 = be_value [x, y]" using be_value_less [of "[x, y]"] assms by simp_all
  note digits64(2) [of n]
  moreover have "be_bytes 2 (be_value [x, y]) = [x, y]" using be_bytes_value [of "[x, y]" 2] by simp
  moreover have "b64_char (n mod 64) \<noteq> CHR ''=''" using b64_char_plain [of "n mod 64"] by simp
  ultimately show ?thesis using n by (simp add: last_quantum_def sextets_chars less_mult_imp_div_less)
qed

lemma quantum1:
  assumes "be_value [x] * 16 = n"
  shows "last_quantum [b64_char (n div 64), b64_char (n mod 64), CHR ''='', CHR ''=''] = Some [x]"
proof -
  have n: "n < 4096" "n div 16 = be_value [x]" using be_value_less [of "[x]"] assms by simp_all
  note digits64(1) [of n]
  moreover have "be_bytes 1 (be_value [x]) = [x]" using be_bytes_value [of "[x]" 1] by simp
  ultimately show ?thesis using n by (simp add: last_quantum_def sextets_chars less_mult_imp_div_less)
qed

lemma b64_encode_Nil: "b64_encode r = [] \<longleftrightarrow> r = []"
  by (cases r rule: b64_encode.cases) (simp_all add: Let_def)

lemma last_plain:
  "b64_value d \<noteq> None \<Longrightarrow> last_quantum [a, b, c, d] = quantum4 [a, b, c, d]"
  using b64_value_plain [of d] by (auto simp: last_quantum_def)

lemma quanta_encode: "b64_quanta (b64_encode bs) = Some bs"
proof (induction bs rule: b64_encode.induct)
  case (2 x)
  then show ?case by (simp add: Let_def quantum1 [OF refl, simplified])
next
  case (3 x y)
  then show ?case by (simp add: Let_def quantum2 [OF refl, simplified])
next
  case (4 x y z r)
  define n where "n = be_value [x, y, z]"
  note q = quantum3 [OF n_def [symmetric]]
  have v: "b64_value (b64_char (n mod 64)) \<noteq> None" using b64_value_char [of "n mod 64"] by simp
  show ?case
  proof (cases "b64_encode r")
    case Nil
    then show ?thesis using q by (simp add: Let_def last_plain [OF v] b64_encode_Nil flip: n_def)
  next
    case (Cons e t)
    then show ?thesis using q 4 by (simp add: Let_def flip: n_def)
  qed
qed simp

lemma b64_encode_chars: "c \<in> set (b64_encode bs) \<Longrightarrow> c \<in> insert (CHR ''='') (b64_char ` {..<64})"
proof (induction bs rule: b64_encode.induct)
  case (2 x)
  have "be_value [x] * 16 < 4096" using be_value_less [of "[x]"] by simp
  then show ?case using 2 by (auto simp: Let_def less_mult_imp_div_less intro!: imageI)
next
  case (3 x y)
  have "be_value [x, y] * 4 < 262144" using be_value_less [of "[x, y]"] by simp
  then show ?case using 3 by (auto simp: Let_def less_mult_imp_div_less intro!: imageI)
next
  case (4 x y z r)
  have "be_value [x, y, z] < 16777216" using be_value_less [of "[x, y, z]"] by simp
  then show ?case using 4 by (auto simp: Let_def less_mult_imp_div_less intro!: imageI)
qed simp

lemma b64_encode_plain: "c \<in> set (b64_encode bs) \<Longrightarrow> c \<noteq> CHR 0x0A \<and> c \<noteq> CHR 0x0D \<and> \<not> go_space c"
  using b64_encode_chars [of c bs] b64_char_plain by (auto simp: go_space_def js_space_def)

lemma b64_decode_encode: "b64_decode (b64_encode bs) = Some bs"
proof -
  have "filter (\<lambda>c. c \<noteq> CHR 0x0A \<and> c \<noteq> CHR 0x0D) (b64_encode bs) = b64_encode bs"
    using b64_encode_plain by (simp add: filter_id_conv)
  then show ?thesis by (simp add: b64_decode_def quanta_encode)
qed

lemma hex_key_encode: "length bs = 32 \<Longrightarrow> hex_key (b64_encode bs) = Some (hex_encode bs)"
  using b64_encode_plain by (simp add: hex_key_def go_trim_id b64_decode_encode)

end
