(* ===== verification/Relay.thy ===== *)
theory Relay
  imports Wire ControlApi
begin

text \<open>
  The relay (\<open>internal/relay\<close>), which forwards datagrams between machines of a tenant that
  cannot reach each other, and the route that hands out its tokens. Go's four maps point to
  shared session objects that are changed in place, so sessions live in a store here and the
  maps hold their numbers; a number below \<open>rl_next\<close> has been allocated.
\<close>

section \<open>Sessions\<close>

definition session_ttl :: int where
  "session_ttl = 90 * second_ns"

record relay_session =
  rs_peer :: string
  rs_tenant :: string
  rs_mesh :: addr
  rs_token :: octets
  rs_addr :: addr_port
  rs_seen :: int

record relay =
  rl_session :: "nat \<Rightarrow> relay_session"
  rl_next :: nat
  by_peer :: "string \<rightharpoonup> nat"
  by_token :: "octets \<rightharpoonup> nat"
  by_addr :: "addr_port \<rightharpoonup> nat"
  by_mesh :: "(string \<times> addr) \<rightharpoonup> nat"

definition no_addr_port :: addr_port where
  "no_addr_port = (NoAddr, 0)"

definition relay_session0 :: relay_session where
  "relay_session0 = \<lparr>rs_peer = [], rs_tenant = [], rs_mesh = NoAddr, rs_token = [], rs_addr = no_addr_port, rs_seen = zero_time\<rparr>"

definition new_relay :: relay where
  "new_relay =
     \<lparr>rl_session = (\<lambda>n. relay_session0), rl_next = 0, by_peer = (\<lambda>k. None), by_token = (\<lambda>k. None), by_addr = (\<lambda>k. None), by_mesh = (\<lambda>k. None)\<rparr>"

text \<open>\<open>delete(m, k)\<close> if the entry is the session.\<close>

definition drop_entry :: "'k \<Rightarrow> nat \<Rightarrow> ('k \<rightharpoonup> nat) \<Rightarrow> 'k \<rightharpoonup> nat" where
  "drop_entry k s m = (if m k = Some s then m(k := None) else m)"

definition relay_forget :: "nat \<Rightarrow> relay \<Rightarrow> relay" where
  "relay_forget s r =
     (let x = rl_session r s in
      r\<lparr>by_token := (by_token r)(rs_token x := None), by_peer := drop_entry (rs_peer x) s (by_peer r),
        by_addr := drop_entry (rs_addr x) s (by_addr r), by_mesh := drop_entry (rs_tenant x, rs_mesh x) s (by_mesh r)\<rparr>)"

text \<open>\<open>Issue\<close> with the random token it draws.\<close>

definition relay_issue :: "octets \<Rightarrow> string \<Rightarrow> string \<Rightarrow> addr \<Rightarrow> relay \<Rightarrow> (string + octets) \<times> relay" where
  "relay_issue token peer tenant mesh r =
     (if \<not> addr_is4 mesh then (Inl ''relay: mesh address is not IPv4'', r)
      else
        (let s = rl_next r;
             x = \<lparr>rs_peer = peer, rs_tenant = tenant, rs_mesh = mesh, rs_token = token, rs_addr = no_addr_port, rs_seen = zero_time\<rparr>;
             r1 = r\<lparr>rl_session := (rl_session r)(s := x), rl_next := s + 1\<rparr>;
             r2 = (case by_peer r1 peer of Some old \<Rightarrow> relay_forget old r1 | None \<Rightarrow> r1) in
         (Inr token,
          r2\<lparr>by_peer := (by_peer r2)(peer \<mapsto> s), by_token := (by_token r2)(token \<mapsto> s),
             by_mesh := (by_mesh r2)((tenant, mesh) \<mapsto> s)\<rparr>)))"

section \<open>Frames\<close>

type_synonym datagram = "octets \<times> addr_port"

definition relay_live :: "relay \<Rightarrow> int \<Rightarrow> nat option \<Rightarrow> bool" where
  "relay_live r now s =
     (case s of None \<Rightarrow> False
      | Some s \<Rightarrow> fst (rs_addr (rl_session r s)) \<noteq> NoAddr \<and> now - rs_seen (rl_session r s) < session_ttl)"

definition set_session :: "nat \<Rightarrow> (relay_session \<Rightarrow> relay_session) \<Rightarrow> relay \<Rightarrow> relay" where
  "set_session s f r = r\<lparr>rl_session := (rl_session r)(s := f (rl_session r s))\<rparr>"

text \<open>A session that moves takes its address from the session that had it.\<close>

definition relay_move :: "nat \<Rightarrow> addr_port \<Rightarrow> relay \<Rightarrow> relay" where
  "relay_move s src r =
     (let r1 = r\<lparr>by_addr := drop_entry (rs_addr (rl_session r s)) s (by_addr r)\<rparr>;
          r2 = (case by_addr r1 src of Some prev \<Rightarrow> set_session prev (\<lambda>x. x\<lparr>rs_addr := no_addr_port\<rparr>) r1 | None \<Rightarrow> r1);
          r3 = set_session s (\<lambda>x. x\<lparr>rs_addr := src\<rparr>) r2 in
      r3\<lparr>by_addr := (by_addr r3)(src \<mapsto> s)\<rparr>)"

definition relay_register :: "int \<Rightarrow> octets \<Rightarrow> addr_port \<Rightarrow> relay \<Rightarrow> datagram option \<times> relay" where
  "relay_register now payload src r =
     (if length payload < relay_token_len then (None, r)
      else
        (let token = take relay_token_len payload in
         case by_token r token of
           None \<Rightarrow> (None, r)
         | Some s \<Rightarrow>
             (let r1 = (if rs_addr (rl_session r s) \<noteq> src then relay_move s src r else r) in
              (Some (encode_frame RelayAck token, src), set_session s (\<lambda>x. x\<lparr>rs_seen := now\<rparr>) r1))))"

text \<open>The destination is looked up in the sender's tenant only.\<close>

definition relay_forward :: "int \<Rightarrow> octets \<Rightarrow> addr_port \<Rightarrow> relay \<Rightarrow> datagram option \<times> relay" where
  "relay_forward now frame src r =
     (if length frame \<le> relay_header_len then (None, r)
      else
        (case by_addr r src of
           Some s \<Rightarrow>
             if \<not> relay_live r now (Some s) then (None, r)
             else
               (let r1 = set_session s (\<lambda>x. x\<lparr>rs_seen := now\<rparr>) r;
                    dst = addr_from4 (take 4 (drop header_len frame));
                    t = by_mesh r1 (rs_tenant (rl_session r1 s), dst) in
                if t = Some s \<or> \<not> relay_live r1 now t then (None, r1)
                else
                  (case rs_mesh (rl_session r1 s) of
                     V4 a \<Rightarrow>
                       (Some (take header_len frame @ bytes4 a @ drop relay_header_len frame, rs_addr (rl_session r1 (the t))), r1)
                   | _ \<Rightarrow> (None, r1)))
         | None \<Rightarrow> (None, r)))"

definition relay_handle :: "int \<Rightarrow> octets \<Rightarrow> addr_port \<Rightarrow> relay \<Rightarrow> datagram option \<times> relay" where
  "relay_handle now frame src r =
     (case decode_frame frame of
        Inl e \<Rightarrow> (None, r)
      | Inr (t, payload) \<Rightarrow>
          if t = type_byte RelayRegister then relay_register now payload src r
          else if t = type_byte RelayData then relay_forward now frame src r
          else (None, r))"

section \<open>The route\<close>

text \<open>
  \<open>issueRelayToken\<close>: without a relay or a prober the control plane does not relay. The encoding
  of the token as base64 text is an argument.
\<close>

definition issue_relay_token ::
  "go_env \<Rightarrow> (octets \<Rightarrow> string) \<Rightarrow> octets \<Rightarrow> string \<Rightarrow> db \<Rightarrow> relay option \<Rightarrow> answer \<times> relay option" where
  "issue_relay_token env b64 token raw d relay =
     (case (relay, ge_probe_port env) of
        (Some r, Some port) \<Rightarrow>
          (case by_uuid env raw (\<lambda>p. store_get_peer p d) of
             Inl e \<Rightarrow> (answer_error [(NotFound, (404, ''no such peer''))] ''could not load peer'' e, relay)
           | Inr p \<Rightarrow>
               (case relay_issue token (sp_id p) (sp_tenant p) (sp_ip p) r of
                  (Inl e, r') \<Rightarrow> (fail (500, ''could not issue a relay token''), Some r')
                | (Inr k, r') \<Rightarrow>
                    (ok_json (JObj [(''relay_port'', JNum (int port)), (''relay_token'', JStr (b64 k))]), Some r')))
      | _ \<Rightarrow> (fail (503, ''this control plane does not relay''), relay))"

section \<open>What holds of the maps\<close>

text \<open>
  The sessions in use are those of the token map; every other map points to them only, an
  entry's key is its session's, and a session with an address is found under it.
\<close>

definition in_use :: "relay \<Rightarrow> nat \<Rightarrow> bool" where
  "in_use r s \<longleftrightarrow> by_token r (rs_token (rl_session r s)) = Some s"

definition relay_ok :: "relay \<Rightarrow> bool" where
  "relay_ok r \<longleftrightarrow>
     (\<forall>t s. by_token r t = Some s \<longrightarrow> s < rl_next r \<and> rs_token (rl_session r s) = t \<and> by_peer r (rs_peer (rl_session r s)) = Some s \<and>
        addr_is4 (rs_mesh (rl_session r s))) \<and>
     (\<forall>p s. by_peer r p = Some s \<longrightarrow> rs_peer (rl_session r s) = p \<and> in_use r s) \<and>
     (\<forall>a s. by_addr r a = Some s \<longrightarrow> rs_addr (rl_session r s) = a \<and> fst a \<noteq> NoAddr \<and> in_use r s) \<and>
     (\<forall>k s. by_mesh r k = Some s \<longrightarrow> (rs_tenant (rl_session r s), rs_mesh (rl_session r s)) = k \<and> in_use r s) \<and>
     (\<forall>s. in_use r s \<longrightarrow> fst (rs_addr (rl_session r s)) \<noteq> NoAddr \<longrightarrow> by_addr r (rs_addr (rl_session r s)) = Some s)"

lemma relay_okD:
  assumes "relay_ok r"
  shows "by_token r t = Some s \<Longrightarrow> s < rl_next r \<and> rs_token (rl_session r s) = t \<and> by_peer r (rs_peer (rl_session r s)) = Some s \<and>
      addr_is4 (rs_mesh (rl_session r s))"
    "by_peer r p = Some s \<Longrightarrow> rs_peer (rl_session r s) = p \<and> in_use r s"
    "by_addr r a = Some s \<Longrightarrow> rs_addr (rl_session r s) = a \<and> fst a \<noteq> NoAddr \<and> in_use r s"
    "by_mesh r k = Some s \<Longrightarrow> (rs_tenant (rl_session r s), rs_mesh (rl_session r s)) = k \<and> in_use r s"
    "in_use r s \<Longrightarrow> fst (rs_addr (rl_session r s)) \<noteq> NoAddr \<Longrightarrow> by_addr r (rs_addr (rl_session r s)) = Some s"
  using assms unfolding relay_ok_def by blast+

lemma in_use_next: "relay_ok r \<Longrightarrow> in_use r s \<Longrightarrow> s < rl_next r"
  unfolding in_use_def by (drule relay_okD(1)) auto

lemma relay_ok_new: "relay_ok new_relay"
  by (simp add: relay_ok_def new_relay_def in_use_def)

lemma drop_entry_Some: "drop_entry k s m k' = Some v \<longleftrightarrow> m k' = Some v \<and> \<not> (k' = k \<and> v = s)"
  by (auto simp: drop_entry_def)

text \<open>Forgetting a session that is in use takes its entries out, and nothing else.\<close>

lemma forget_maps:
  assumes ok: "relay_ok r" and s: "in_use r s"
  shows "rl_session (relay_forget s r) = rl_session r" "rl_next (relay_forget s r) = rl_next r"
    "by_token (relay_forget s r) t = Some s' \<longleftrightarrow> by_token r t = Some s' \<and> s' \<noteq> s"
    "by_peer (relay_forget s r) p = Some s' \<longleftrightarrow> by_peer r p = Some s' \<and> s' \<noteq> s"
    "by_addr (relay_forget s r) a = Some s' \<longleftrightarrow> by_addr r a = Some s' \<and> s' \<noteq> s"
    "by_mesh (relay_forget s r) k = Some s' \<longleftrightarrow> by_mesh r k = Some s' \<and> s' \<noteq> s"
    "in_use (relay_forget s r) s' \<longleftrightarrow> in_use r s' \<and> s' \<noteq> s"
proof -
  note d = relay_okD [OF ok]
  show "rl_session (relay_forget s r) = rl_session r" "rl_next (relay_forget s r) = rl_next r"
    by (simp_all add: relay_forget_def Let_def)
  show "by_token (relay_forget s r) t = Some s' \<longleftrightarrow> by_token r t = Some s' \<and> s' \<noteq> s" for t
    using d(1) [of t s'] s by (auto simp: relay_forget_def Let_def in_use_def)
  then show "in_use (relay_forget s r) s' \<longleftrightarrow> in_use r s' \<and> s' \<noteq> s"
    by (simp add: in_use_def) (simp add: relay_forget_def Let_def)
  show "by_peer (relay_forget s r) p = Some s' \<longleftrightarrow> by_peer r p = Some s' \<and> s' \<noteq> s"
    using d(2) [of p s'] by (auto simp: relay_forget_def Let_def drop_entry_Some)
  show "by_addr (relay_forget s r) a = Some s' \<longleftrightarrow> by_addr r a = Some s' \<and> s' \<noteq> s"
    using d(3) [of a s'] by (auto simp: relay_forget_def Let_def drop_entry_Some)
  show "by_mesh (relay_forget s r) k = Some s' \<longleftrightarrow> by_mesh r k = Some s' \<and> s' \<noteq> s"
    using d(4) [of k s'] by (auto simp: relay_forget_def Let_def drop_entry_Some)
qed

lemma relay_ok_forget:
  assumes ok: "relay_ok r" and s: "in_use r s"
  shows "relay_ok (relay_forget s r)"
proof -
  note d = relay_okD [OF ok]
  note f = forget_maps [OF ok s]
  show ?thesis
    unfolding relay_ok_def f
  proof (intro conjI allI impI)
    fix t s'
    assume "by_token r t = Some s' \<and> s' \<noteq> s"
    with d(1) [of t s'] show "s' < rl_next r" "rs_token (rl_session r s') = t" "by_peer r (rs_peer (rl_session r s')) = Some s'" "s' \<noteq> s"
      "addr_is4 (rs_mesh (rl_session r s'))" by auto
  next
    fix p s'
    assume "by_peer r p = Some s' \<and> s' \<noteq> s"
    with d(2) [of p s'] show "rs_peer (rl_session r s') = p" "in_use r s'" "s' \<noteq> s" by auto
  next
    fix a s'
    assume "by_addr r a = Some s' \<and> s' \<noteq> s"
    with d(3) [of a s'] show "rs_addr (rl_session r s') = a" "fst a \<noteq> NoAddr" "in_use r s'" "s' \<noteq> s" by auto
  next
    fix k s'
    assume "by_mesh r k = Some s' \<and> s' \<noteq> s"
    with d(4) [of k s'] show "(rs_tenant (rl_session r s'), rs_mesh (rl_session r s')) = k" "in_use r s'" "s' \<noteq> s" by auto
  next
    fix s'
    assume "in_use r s' \<and> s' \<noteq> s" "fst (rs_addr (rl_session r s')) \<noteq> NoAddr"
    with d(5) [of s'] show "by_addr r (rs_addr (rl_session r s')) = Some s'" "s' \<noteq> s" by auto
  qed
qed

text \<open>A new session under a token that was never used, after the machine's earlier one is gone.\<close>

definition relay_add :: "octets \<Rightarrow> string \<Rightarrow> string \<Rightarrow> addr \<Rightarrow> relay \<Rightarrow> relay" where
  "relay_add token peer tenant mesh r =
     (let s = rl_next r;
          x = \<lparr>rs_peer = peer, rs_tenant = tenant, rs_mesh = mesh, rs_token = token, rs_addr = no_addr_port, rs_seen = zero_time\<rparr> in
      r\<lparr>rl_session := (rl_session r)(s := x), rl_next := s + 1, by_peer := (by_peer r)(peer \<mapsto> s), by_token := (by_token r)(token \<mapsto> s),
        by_mesh := (by_mesh r)((tenant, mesh) \<mapsto> s)\<rparr>)"

definition without_peer :: "string \<Rightarrow> relay \<Rightarrow> relay" where
  "without_peer peer r = (case by_peer r peer of Some old \<Rightarrow> relay_forget old r | None \<Rightarrow> r)"

lemma relay_issue_add:
  assumes ok: "relay_ok r"
  shows "relay_issue token peer tenant mesh r =
    (if addr_is4 mesh then (Inr token, relay_add token peer tenant mesh (without_peer peer r)) else (Inl ''relay: mesh address is not IPv4'', r))"
proof -
  let ?x = "\<lparr>rs_peer = peer, rs_tenant = tenant, rs_mesh = mesh, rs_token = token, rs_addr = no_addr_port, rs_seen = zero_time\<rparr>"
  have "relay_forget old (r\<lparr>rl_session := (rl_session r)(rl_next r := ?x), rl_next := rl_next r + 1\<rparr>) =
      (relay_forget old r)\<lparr>rl_session := (rl_session r)(rl_next r := ?x), rl_next := rl_next r + 1\<rparr>"
    if "old < rl_next r" for old
    using that by (simp add: relay_forget_def Let_def)
  moreover have "old < rl_next r" if "by_peer r peer = Some old" for old
    using that in_use_next [OF ok] relay_okD(2) [OF ok] by blast
  moreover have "rl_session (relay_forget old r) = rl_session r" "rl_next (relay_forget old r) = rl_next r" for old
    by (simp_all add: relay_forget_def Let_def)
  ultimately show ?thesis
    by (cases "by_peer r peer") (simp_all add: relay_issue_def relay_add_def without_peer_def Let_def)
qed

lemma without_peer_maps:
  assumes ok: "relay_ok r"
  shows "relay_ok (without_peer peer r)" "rl_next (without_peer peer r) = rl_next r" "rl_session (without_peer peer r) = rl_session r"
    "by_peer (without_peer peer r) peer = None" "by_token (without_peer peer r) t = Some s \<Longrightarrow> by_token r t = Some s"
    "by_addr (without_peer peer r) a = Some s \<Longrightarrow> by_addr r a = Some s"
    "in_use (without_peer peer r) s \<Longrightarrow> in_use r s"
proof -
  consider (none) "by_peer r peer = None" "without_peer peer r = r"
    | (old) old where "by_peer r peer = Some old" "without_peer peer r = relay_forget old r" "in_use r old"
    using relay_okD(2) [OF ok, of peer] by (cases "by_peer r peer") (auto simp: without_peer_def)
  then have "relay_ok (without_peer peer r) \<and> rl_next (without_peer peer r) = rl_next r \<and> rl_session (without_peer peer r) = rl_session r \<and>
    by_peer (without_peer peer r) peer = None \<and> (by_token (without_peer peer r) t = Some s \<longrightarrow> by_token r t = Some s) \<and>
    (by_addr (without_peer peer r) a = Some s \<longrightarrow> by_addr r a = Some s) \<and> (in_use (without_peer peer r) s \<longrightarrow> in_use r s)"
  proof cases
    case (old old)
    note f = forget_maps [OF ok old(3)]
    have "by_peer (relay_forget old r) peer = None"
    proof (cases "by_peer (relay_forget old r) peer")
      case (Some v)
      then have "by_peer r peer = Some v \<and> v \<noteq> old" unfolding f(4) .
      then have False using old(1) by force
      then show ?thesis ..
    qed
    moreover have "by_token (relay_forget old r) t = Some s \<longrightarrow> by_token r t = Some s"
      "by_addr (relay_forget old r) a = Some s \<longrightarrow> by_addr r a = Some s" "in_use (relay_forget old r) s \<longrightarrow> in_use r s"
      unfolding f(3) f(5) f(7) by blast+
    ultimately show ?thesis unfolding old(2) f(1) f(2) using relay_ok_forget [OF ok old(3)] by blast
  qed (use ok in simp)
  then show "relay_ok (without_peer peer r)" "rl_next (without_peer peer r) = rl_next r" "rl_session (without_peer peer r) = rl_session r"
    "by_peer (without_peer peer r) peer = None" "by_token (without_peer peer r) t = Some s \<Longrightarrow> by_token r t = Some s"
    "by_addr (without_peer peer r) a = Some s \<Longrightarrow> by_addr r a = Some s"
    "in_use (without_peer peer r) s \<Longrightarrow> in_use r s"
    by fast+
qed

lemma add_maps:
  fixes tenant :: string and mesh :: addr
  assumes ok: "relay_ok r" and new: "by_peer r peer = None" "by_token r token = None"
  defines "r1 \<equiv> relay_add token peer tenant mesh r"
  shows "rl_session r1 s = (if s = rl_next r then
        \<lparr>rs_peer = peer, rs_tenant = tenant, rs_mesh = mesh, rs_token = token, rs_addr = no_addr_port, rs_seen = zero_time\<rparr>
        else rl_session r s)"
    "rl_next r1 = rl_next r + 1"
    "by_token r1 t = Some s \<longleftrightarrow> by_token r t = Some s \<or> t = token \<and> s = rl_next r"
    "by_peer r1 p = Some s \<longleftrightarrow> by_peer r p = Some s \<or> p = peer \<and> s = rl_next r"
    "by_addr r1 = by_addr r"
    "by_mesh r1 k = Some s \<Longrightarrow> by_mesh r k = Some s \<or> k = (tenant, mesh) \<and> s = rl_next r"
    "in_use r1 s \<longleftrightarrow> in_use r s \<or> s = rl_next r"
proof -
  have n: "\<not> in_use r (rl_next r)" using in_use_next [OF ok] by blast
  have t: "by_token r t = Some s \<Longrightarrow> in_use r s" for t s using relay_okD(1) [OF ok, of t s] by (auto simp: in_use_def)
  show ses: "rl_session r1 s = (if s = rl_next r then
        \<lparr>rs_peer = peer, rs_tenant = tenant, rs_mesh = mesh, rs_token = token, rs_addr = no_addr_port, rs_seen = zero_time\<rparr>
        else rl_session r s)" for s
    by (simp add: r1_def relay_add_def Let_def)
  show tok: "by_token r1 t = Some s \<longleftrightarrow> by_token r t = Some s \<or> t = token \<and> s = rl_next r" for t s
    using new(2) by (auto simp: r1_def relay_add_def Let_def)
  show "by_peer r1 p = Some s \<longleftrightarrow> by_peer r p = Some s \<or> p = peer \<and> s = rl_next r"
    using new(1) by (auto simp: r1_def relay_add_def Let_def)
  show "rl_next r1 = rl_next r + 1" "by_addr r1 = by_addr r"
    by (simp_all add: r1_def relay_add_def Let_def)
  show "by_mesh r1 k = Some s \<Longrightarrow> by_mesh r k = Some s \<or> k = (tenant, mesh) \<and> s = rl_next r"
    by (auto simp: r1_def relay_add_def Let_def split: if_splits)
  show "in_use r1 s \<longleftrightarrow> in_use r s \<or> s = rl_next r"
    unfolding in_use_def [of r1] tok unfolding ses using n t by (auto simp: in_use_def)
qed

lemma relay_ok_add:
  assumes ok: "relay_ok r" and new: "by_peer r peer = None" "by_token r token = None" and v4: "addr_is4 mesh"
  shows "relay_ok (relay_add token peer tenant mesh r)"
proof -
  let ?r = "relay_add token peer tenant mesh r"
  note d = relay_okD [OF ok]
  note m = add_maps [OF ok new, of tenant mesh]
  have n: "s \<noteq> rl_next r" if "in_use r s" for s using that in_use_next [OF ok] by blast
  have t: "by_token r k = Some s \<Longrightarrow> in_use r s" for k s using d(1) [of k s] by (auto simp: in_use_def)
  show ?thesis
    unfolding relay_ok_def
  proof (intro conjI allI impI)
    fix k s
    assume a: "by_token ?r k = Some s"
    show "s < rl_next ?r" "rs_token (rl_session ?r s) = k" "by_peer ?r (rs_peer (rl_session ?r s)) = Some s"
      "addr_is4 (rs_mesh (rl_session ?r s))"
      using a d(1) [of k s] n [of s] t [of k s] v4 unfolding m(1,2,3,4) by auto
  next
    fix p s
    assume a: "by_peer ?r p = Some s"
    show "rs_peer (rl_session ?r s) = p" "in_use ?r s"
      using a d(2) [of p s] n [of s] unfolding m(1,4,7) by auto
  next
    fix a s
    assume a: "by_addr ?r a = Some s"
    show "rs_addr (rl_session ?r s) = a" "fst a \<noteq> NoAddr" "in_use ?r s"
      using a d(3) [of a s] n [of s] unfolding m(1,5,7) by auto
  next
    fix k s
    assume a: "by_mesh ?r k = Some s"
    show "(rs_tenant (rl_session ?r s), rs_mesh (rl_session ?r s)) = k" "in_use ?r s"
      using m(6) [OF a] d(4) [of k s] n [of s] unfolding m(1,7) by auto
  next
    fix s
    assume a: "in_use ?r s" "fst (rs_addr (rl_session ?r s)) \<noteq> NoAddr"
    show "by_addr ?r (rs_addr (rl_session ?r s)) = Some s"
      using a d(5) [of s] n [of s] unfolding m(1,5,7) by (auto simp: no_addr_port_def split: if_splits)
  qed
qed

text \<open>Seeing a machine changes the time of its session only; moving it, its address and that of the session it displaces.\<close>

abbreviation saw :: "nat \<Rightarrow> int \<Rightarrow> relay \<Rightarrow> relay" where
  "saw s now r \<equiv> set_session s (\<lambda>x. x\<lparr>rs_seen := now\<rparr>) r"

lemma saw_maps:
  "by_token (saw s n r) = by_token r" "by_peer (saw s n r) = by_peer r" "by_addr (saw s n r) = by_addr r" "by_mesh (saw s n r) = by_mesh r"
  "rl_next (saw s n r) = rl_next r" "rs_peer (rl_session (saw s n r) x) = rs_peer (rl_session r x)"
  "rs_tenant (rl_session (saw s n r) x) = rs_tenant (rl_session r x)" "rs_mesh (rl_session (saw s n r) x) = rs_mesh (rl_session r x)"
  "rs_token (rl_session (saw s n r) x) = rs_token (rl_session r x)" "rs_addr (rl_session (saw s n r) x) = rs_addr (rl_session r x)"
  "rs_seen (rl_session (saw s n r) x) = (if x = s then n else rs_seen (rl_session r x))" "in_use (saw s n r) x = in_use r x"
  by (simp_all add: set_session_def in_use_def)

lemma relay_ok_saw: "relay_ok (saw s n r) = relay_ok r"
  unfolding relay_ok_def saw_maps ..

lemma move_maps:
  assumes ok: "relay_ok r" and s: "rs_addr (rl_session r s) \<noteq> src"
  defines "r1 \<equiv> relay_move s src r"
  shows "by_token r1 = by_token r" "by_peer r1 = by_peer r" "by_mesh r1 = by_mesh r" "rl_next r1 = rl_next r"
    "rs_peer (rl_session r1 x) = rs_peer (rl_session r x)" "rs_tenant (rl_session r1 x) = rs_tenant (rl_session r x)"
    "rs_mesh (rl_session r1 x) = rs_mesh (rl_session r x)" "rs_token (rl_session r1 x) = rs_token (rl_session r x)"
    "rs_seen (rl_session r1 x) = rs_seen (rl_session r x)"
    "rs_addr (rl_session r1 x) = (if x = s then src else if by_addr r src = Some x then no_addr_port else rs_addr (rl_session r x))"
    "by_addr r1 a = Some x \<longleftrightarrow> (if a = src then x = s else by_addr r a = Some x \<and> x \<noteq> s)"
    "in_use r1 x = in_use r x"
proof -
  have d: "drop_entry (rs_addr (rl_session r s)) s (by_addr r) a = Some x \<longleftrightarrow> by_addr r a = Some x \<and> x \<noteq> s" for a x
    using relay_okD(3) [OF ok, of a x] by (auto simp: drop_entry_Some)
  have p: "drop_entry (rs_addr (rl_session r s)) s (by_addr r) src = by_addr r src"
    using s by (simp add: drop_entry_def)
  consider (none) "by_addr r src = None" | (prev) q where "by_addr r src = Some q" "q \<noteq> s"
    using relay_okD(3) [OF ok, of src s] s by (cases "by_addr r src") auto
  then show "by_token r1 = by_token r" "by_peer r1 = by_peer r" "by_mesh r1 = by_mesh r" "rl_next r1 = rl_next r"
    "rs_peer (rl_session r1 x) = rs_peer (rl_session r x)" "rs_tenant (rl_session r1 x) = rs_tenant (rl_session r x)"
    "rs_mesh (rl_session r1 x) = rs_mesh (rl_session r x)" "rs_token (rl_session r1 x) = rs_token (rl_session r x)"
    "rs_seen (rl_session r1 x) = rs_seen (rl_session r x)"
    "rs_addr (rl_session r1 x) = (if x = s then src else if by_addr r src = Some x then no_addr_port else rs_addr (rl_session r x))"
    "in_use r1 x = in_use r x"
    by (cases; simp add: r1_def relay_move_def Let_def p set_session_def in_use_def)+
  show "by_addr r1 a = Some x \<longleftrightarrow> (if a = src then x = s else by_addr r a = Some x \<and> x \<noteq> s)"
    using d [of a x] by (auto simp: r1_def relay_move_def Let_def p set_session_def split: option.splits)
qed

lemma relay_ok_move:
  assumes ok: "relay_ok r" and s: "rs_addr (rl_session r s) \<noteq> src" "in_use r s" and src: "fst src \<noteq> NoAddr"
  shows "relay_ok (relay_move s src r)"
proof -
  note d = relay_okD [OF ok]
  note m = move_maps [OF ok s(1)]
  have moved: "by_addr r src \<noteq> Some s" using d(3) [of src s] s(1) by blast
  show ?thesis
    unfolding relay_ok_def m
  proof (intro conjI allI impI)
    fix t x
    assume "by_token r t = Some x"
    with d(1) [of t x] show "x < rl_next r" "rs_token (rl_session r x) = t" "by_peer r (rs_peer (rl_session r x)) = Some x"
      "addr_is4 (rs_mesh (rl_session r x))" by auto
  next
    fix p x
    assume "by_peer r p = Some x"
    with d(2) [of p x] show "rs_peer (rl_session r x) = p" "in_use r x" by auto
  next
    fix a x
    assume a: "if a = src then x = s else by_addr r a = Some x \<and> x \<noteq> s"
    show "(if x = s then src else if by_addr r src = Some x then no_addr_port else rs_addr (rl_session r x)) = a"
      using a d(3) [of a x] d(3) [of src x] by (auto split: if_splits)
    show "fst a \<noteq> NoAddr" "in_use r x" using a d(3) [of a x] src s(2) by (auto split: if_splits)
  next
    fix k x
    assume "by_mesh r k = Some x"
    with d(4) [of k x] show "(rs_tenant (rl_session r x), rs_mesh (rl_session r x)) = k" "in_use r x" by auto
  next
    fix x
    let ?a = "if x = s then src else if by_addr r src = Some x then no_addr_port else rs_addr (rl_session r x)"
    assume x: "in_use r x" "fst ?a \<noteq> NoAddr"
    show "if ?a = src then x = s else by_addr r ?a = Some x \<and> x \<noteq> s"
      using x d(5) [of x] by (auto simp: no_addr_port_def split: if_splits)
  qed
qed

lemma by_token_in_use: "relay_ok r \<Longrightarrow> by_token r t = Some s \<Longrightarrow> in_use r s"
  unfolding in_use_def by (drule relay_okD(1)) auto

section \<open>What a frame does\<close>

text \<open>The frame registers its sender under the token.\<close>

definition names_token :: "octets \<Rightarrow> octets \<Rightarrow> bool" where
  "names_token frame token =
     (case decode_frame frame of
        Inr (t, p) \<Rightarrow> t = type_byte RelayRegister \<and> relay_token_len \<le> length p \<and> take relay_token_len p = token
      | Inl e \<Rightarrow> False)"

definition is_data :: "octets \<Rightarrow> bool" where
  "is_data frame = (case decode_frame frame of Inr (t, p) \<Rightarrow> t = type_byte RelayData | Inl e \<Rightarrow> False)"

lemma relay_handle_cases:
  assumes "relay_handle now frame src r = (d, r')"
  obtains (nothing) "d = None" "r' = r"
  | (registers) token s where "names_token frame token" "by_token r token = Some s" "d = Some (encode_frame RelayAck token, src)"
      "r' = saw s now (if rs_addr (rl_session r s) \<noteq> src then relay_move s src r else r)"
  | (data) s where "is_data frame" "by_addr r src = Some s" "relay_live r now (Some s)" "r' = saw s now r" "d = None"
  | (forwards) s t a where "is_data frame" "by_addr r src = Some s" "relay_live r now (Some s)" "r' = saw s now r" "relay_header_len < length frame"
      "by_mesh r (rs_tenant (rl_session r s), addr_from4 (take 4 (drop header_len frame))) = Some t" "t \<noteq> s" "relay_live r now (Some t)"
      "rs_mesh (rl_session r s) = V4 a" "d = Some (take header_len frame @ bytes4 a @ drop relay_header_len frame, rs_addr (rl_session r t))"
proof -
  consider (reg) p where "decode_frame frame = Inr (type_byte RelayRegister, p)" "relay_register now p src r = (d, r')"
    | (dat) p where "decode_frame frame = Inr (type_byte RelayData, p)" "relay_forward now frame src r = (d, r')"
    | (other) "d = None" "r' = r"
    using assms by (auto simp: relay_handle_def split: sum.splits prod.splits if_splits)
  then show thesis
  proof cases
    case (reg p)
    show thesis
    proof (cases "length p < relay_token_len \<or> by_token r (take relay_token_len p) = None")
      case True
      then have "relay_register now p src r = (None, r)" by (auto simp: relay_register_def Let_def)
      then have "d = None" "r' = r" using reg(2) by simp_all
      then show thesis by (rule nothing)
    next
      case False
      then obtain s where s: "by_token r (take relay_token_len p) = Some s" by auto
      show thesis
        by (rule registers [of "take relay_token_len p" s])
          (use reg False s in \<open>auto simp: relay_register_def names_token_def Let_def\<close>)
    qed
  next
    case (dat p)
    show thesis
    proof (cases "relay_header_len < length frame \<and> (\<exists>s. by_addr r src = Some s \<and> relay_live r now (Some s))")
      case False
      then have "relay_forward now frame src r = (None, r)" by (auto simp: relay_forward_def split: option.splits)
      then have "d = None" "r' = r" using dat(2) by simp_all
      then show thesis by (rule nothing)
    next
      case True
      then obtain s where s: "relay_header_len < length frame" "by_addr r src = Some s" "relay_live r now (Some s)" by blast
      let ?t = "by_mesh r (rs_tenant (rl_session r s), addr_from4 (take 4 (drop header_len frame)))"
      have i: "is_data frame" using dat(1) by (simp add: is_data_def)
      have f: "relay_forward now frame src r =
          (if ?t = Some s \<or> \<not> relay_live (saw s now r) now ?t then (None, saw s now r)
           else (case rs_mesh (rl_session r s) of
                   V4 a \<Rightarrow> (Some (take header_len frame @ bytes4 a @ drop relay_header_len frame, rs_addr (rl_session r (the ?t))), saw s now r)
                 | _ \<Rightarrow> (None, saw s now r)))"
        using s by (simp add: relay_forward_def Let_def saw_maps cong: addr.case_cong)
      show thesis
      proof (cases ?t)
        case None
        then have "relay_forward now frame src r = (None, saw s now r)" unfolding f by (simp add: relay_live_def)
        then have "r' = saw s now r" "d = None" using dat(2) by simp_all
          then show thesis by (rule data [OF i s(2,3)])
      next
        case (Some t)
        show thesis
        proof (cases "t = s \<or> \<not> relay_live (saw s now r) now (Some t) \<or> (\<forall>a. rs_mesh (rl_session r s) \<noteq> V4 a)")
          case True
          then have "relay_forward now frame src r = (None, saw s now r)" unfolding f Some by (auto split: addr.splits)
          then have "r' = saw s now r" "d = None" using dat(2) by simp_all
          then show thesis by (rule data [OF i s(2,3)])
        next
          case False
          then obtain a where a: "rs_mesh (rl_session r s) = V4 a" by blast
          have t: "t \<noteq> s" "relay_live r now (Some t)" using False by (auto simp: relay_live_def saw_maps)
          have "relay_forward now frame src r =
              (Some (take header_len frame @ bytes4 a @ drop relay_header_len frame, rs_addr (rl_session r t)), saw s now r)"
            unfolding f Some a using False by simp
          then have "r' = saw s now r"
              "d = Some (take header_len frame @ bytes4 a @ drop relay_header_len frame, rs_addr (rl_session r t))"
            using dat(2) by simp_all
          then show thesis by (rule forwards [OF i s(2,3) _ s(1) Some t a])
        qed
      qed
    qed
  qed (rule nothing)
qed

section \<open>Runs\<close>

text \<open>
  Everything that may happen to a relay: a token is issued (the random bytes never repeat),
  or a datagram arrives from an address, at any time.
\<close>

datatype relay_event = Issued string string addr octets | Received int octets addr_port "datagram option"

definition issued :: "relay_event list \<Rightarrow> octets \<Rightarrow> bool" where
  "issued h token \<longleftrightarrow> (\<exists>p t m. Issued p t m token \<in> set h)"

inductive relay_run :: "relay \<Rightarrow> relay_event list \<Rightarrow> bool" where
  relay_start: "relay_run new_relay []"
| relay_issued: "relay_run r h \<Longrightarrow> \<not> issued h token \<Longrightarrow> relay_issue token peer tenant mesh r = (Inr token, r') \<Longrightarrow>
    relay_run r' (Issued peer tenant mesh token # h)"
| relay_received: "relay_run r h \<Longrightarrow> fst src \<noteq> NoAddr \<Longrightarrow> relay_handle now frame src r = (d, r') \<Longrightarrow>
    relay_run r' (Received now frame src d # h)"

text \<open>An address registered a token; an address was heard of at a time.\<close>

definition registered :: "relay_event list \<Rightarrow> addr_port \<Rightarrow> octets \<Rightarrow> bool" where
  "registered h a token \<longleftrightarrow> (\<exists>n f d. Received n f a d \<in> set h \<and> names_token f token)"

definition heard :: "relay_event list \<Rightarrow> addr_port \<Rightarrow> int \<Rightarrow> bool" where
  "heard h a n \<longleftrightarrow> (\<exists>f d. Received n f a d \<in> set h)"

definition relay_backed :: "relay \<Rightarrow> relay_event list \<Rightarrow> bool" where
  "relay_backed r h \<longleftrightarrow> relay_ok r \<and>
     (\<forall>s. in_use r s \<longrightarrow> Issued (rs_peer (rl_session r s)) (rs_tenant (rl_session r s)) (rs_mesh (rl_session r s)) (rs_token (rl_session r s)) \<in> set h) \<and>
     (\<forall>a s. by_addr r a = Some s \<longrightarrow> registered h a (rs_token (rl_session r s)) \<and> heard h a (rs_seen (rl_session r s)))"

lemma events_kept:
  "registered h a k \<Longrightarrow> registered (e # h) a k" "heard h a n \<Longrightarrow> heard (e # h) a n"
  "registered (Received n f a d # h) a k \<longleftrightarrow> names_token f k \<or> registered h a k" "heard (Received n f a d # h) a n"
  by (auto simp: registered_def heard_def)

lemma relay_run_backed: "relay_run r h \<Longrightarrow> relay_backed r h"
proof (induction rule: relay_run.induct)
  case relay_start
  then show ?case by (simp add: relay_backed_def relay_ok_new) (simp add: new_relay_def in_use_def)
next
  case (relay_issued r h token peer tenant mesh r')
  from relay_issued.IH have ok: "relay_ok r"
    and i: "\<And>s. in_use r s \<Longrightarrow> Issued (rs_peer (rl_session r s)) (rs_tenant (rl_session r s)) (rs_mesh (rl_session r s)) (rs_token (rl_session r s)) \<in> set h"
    and a: "\<And>a s. by_addr r a = Some s \<Longrightarrow> registered h a (rs_token (rl_session r s)) \<and> heard h a (rs_seen (rl_session r s))"
    unfolding relay_backed_def by blast+
  let ?r = "without_peer peer r"
  note w = without_peer_maps [OF ok, of peer]
  have v4: "addr_is4 mesh" and r': "r' = relay_add token peer tenant mesh ?r"
    using relay_issued.hyps(3) unfolding relay_issue_add [OF ok] by (auto split: if_splits)
  have "by_token r token = None"
  proof (cases "by_token r token")
    case (Some s)
    then have "in_use r s" "rs_token (rl_session r s) = token" using relay_okD(1) [OF ok, of token s] by_token_in_use [OF ok] by blast+
    then show ?thesis using i [of s] relay_issued.hyps(2) unfolding issued_def by blast
  qed simp
  then have new: "by_token ?r token = None" using w(5) [of token] by (cases "by_token ?r token") auto
  note m = add_maps [OF w(1,4) new, of tenant mesh, folded r', unfolded w(2,3)]
  show ?case
    unfolding relay_backed_def
  proof (intro conjI allI impI)
    show "relay_ok r'" unfolding r' by (rule relay_ok_add [OF w(1,4) new v4])
  next
    fix s
    assume "in_use r' s"
    then show "Issued (rs_peer (rl_session r' s)) (rs_tenant (rl_session r' s)) (rs_mesh (rl_session r' s)) (rs_token (rl_session r' s))
        \<in> set (Issued peer tenant mesh token # h)"
      unfolding m(7) m(1) using i [of s] w(7) [of s] by auto
  next
    fix b s
    assume b: "by_addr r' b = Some s"
    then have "by_addr r b = Some s" unfolding m(5) by (rule w(6))
    moreover have "s \<noteq> rl_next r" using relay_okD(3) [OF ok calculation] in_use_next [OF ok] by blast
    ultimately show "registered (Issued peer tenant mesh token # h) b (rs_token (rl_session r' s))"
      "heard (Issued peer tenant mesh token # h) b (rs_seen (rl_session r' s))"
      unfolding m(1) using a [of b s] by (simp_all add: events_kept)
  qed
next
  case (relay_received r h src now frame d r')
  from relay_received.IH have ok: "relay_ok r"
    and i: "\<And>s. in_use r s \<Longrightarrow> Issued (rs_peer (rl_session r s)) (rs_tenant (rl_session r s)) (rs_mesh (rl_session r s)) (rs_token (rl_session r s)) \<in> set h"
    and a: "\<And>a s. by_addr r a = Some s \<Longrightarrow> registered h a (rs_token (rl_session r s)) \<and> heard h a (rs_seen (rl_session r s))"
    unfolding relay_backed_def by blast+
  let ?h = "Received now frame src d # h"
  have seen: "relay_backed (saw s now r) ?h" if s: "by_addr r src = Some s" for s
    unfolding relay_backed_def relay_ok_saw saw_maps
  proof (intro conjI allI impI ok)
    fix b x
    assume b: "by_addr r b = Some x"
    show "registered ?h b (rs_token (rl_session r x))" using a [OF b] by (simp add: events_kept)
    have "x = s \<longrightarrow> b = src" using relay_okD(3) [OF ok b] relay_okD(3) [OF ok s] by auto
    then show "heard ?h b (if x = s then now else rs_seen (rl_session r x))" using a [OF b] by (auto simp: events_kept)
  qed (use i in \<open>auto\<close>)
  have same: "relay_backed r ?h"
    unfolding relay_backed_def using ok i a by (auto simp: events_kept)
  show ?case
    using relay_received.hyps(3)
  proof (cases rule: relay_handle_cases)
    case (registers token s)
    have s: "in_use r s" "rs_token (rl_session r s) = token" using relay_okD(1) [OF ok registers(2)] by_token_in_use [OF ok registers(2)] by blast+
    show ?thesis
    proof (cases "rs_addr (rl_session r s) = src")
      case True
      then have "by_addr r src = Some s" using relay_okD(5) [OF ok s(1)] relay_received.hyps(2) by simp
      then show ?thesis using seen registers(4) True by simp
    next
      case False
      note m = move_maps [OF ok False]
      have r': "r' = saw s now (relay_move s src r)" using registers(4) False by simp
      show ?thesis
        unfolding relay_backed_def r' relay_ok_saw saw_maps m
      proof (intro conjI allI impI)
        show "relay_ok (relay_move s src r)" by (rule relay_ok_move [OF ok False s(1) relay_received.hyps(2)])
      next
        fix x
        assume "in_use r x"
        then show "Issued (rs_peer (rl_session r x)) (rs_tenant (rl_session r x)) (rs_mesh (rl_session r x)) (rs_token (rl_session r x)) \<in> set ?h"
          using i by simp
      next
        fix b x
        assume b: "if b = src then x = s else by_addr r b = Some x \<and> x \<noteq> s"
        show "registered ?h b (rs_token (rl_session r x))"
          using b a [of b x] registers(1) s(2) by (auto simp: events_kept split: if_splits)
        show "heard ?h b (if x = s then now else rs_seen (rl_session r x))"
          using b a [of b x] by (auto simp: events_kept split: if_splits)
      qed
    qed
  qed (use same seen in auto)
qed

section \<open>Who gets what\<close>

text \<open>
  C17. The relay forwards within a tenant only, between machines it knows. Whatever has
  happened before, when a data frame is sent on, then its sender's address and the address
  it goes to were each registered with the token of a different machine of one tenant and
  have been heard of less than 90 seconds ago; the frame named the mesh address that the
  receiver's token was issued for; and it arrives unchanged but for that address, in whose
  place stands the one the sender's token was issued for. So no machine reaches another
  tenant, nobody is sent traffic unasked, and a mesh address cannot be forged.
\<close>
theorem relay_confined:
  assumes run: "relay_run r h" and data: "is_data frame"
    and sent: "relay_handle now frame src r = (Some (out, dst), r')"
  shows "\<exists>tenant p a k q b l n m.
    Issued p tenant (V4 a) k \<in> set h \<and> Issued q tenant (V4 b) l \<in> set h \<and> p \<noteq> q \<and>
    registered h src k \<and> heard h src n \<and> now - n < session_ttl \<and>
    registered h dst l \<and> heard h dst m \<and> now - m < session_ttl \<and> fst dst \<noteq> NoAddr \<and>
    take 4 (drop 4 frame) = bytes4 b \<and> out = take 4 frame @ bytes4 a @ drop 8 frame"
proof -
  from relay_run_backed [OF run] have ok: "relay_ok r"
    and i: "\<And>s. in_use r s \<Longrightarrow> Issued (rs_peer (rl_session r s)) (rs_tenant (rl_session r s)) (rs_mesh (rl_session r s)) (rs_token (rl_session r s)) \<in> set h"
    and a: "\<And>a s. by_addr r a = Some s \<Longrightarrow> registered h a (rs_token (rl_session r s)) \<and> heard h a (rs_seen (rl_session r s))"
    unfolding relay_backed_def by blast+
  from sent show ?thesis
  proof (cases rule: relay_handle_cases)
    case (registers token s)
    then show ?thesis using data by (simp add: names_token_def is_data_def split: sum.splits prod.splits)
  next
    case (forwards s t x)
    define f where "f = take 4 (drop header_len frame)"
    have f4: "length f = 4" using forwards(5) by (simp add: f_def wire_lengths)
    have s: "in_use r s" "rs_addr (rl_session r s) = src" using relay_okD(3) [OF ok forwards(2)] by blast+
    have t: "in_use r t" "rs_tenant (rl_session r t) = rs_tenant (rl_session r s)" "rs_mesh (rl_session r t) = addr_from4 f"
      using relay_okD(4) [OF ok forwards(6)] by (simp_all add: f_def)
    have dst: "dst = rs_addr (rl_session r t)" using forwards(10) by simp
    have "fst dst \<noteq> NoAddr" using forwards(8) by (simp add: relay_live_def dst)
    then have "by_addr r dst = Some t" using relay_okD(5) [OF ok t(1)] dst by simp
    note d = a [OF this] and c = a [OF forwards(2)]
    obtain y where y: "rs_mesh (rl_session r t) = V4 y" using t(3) by (simp add: addr_from4_def)
    have "f = bytes4 y" using bytes4_from [OF f4, of y] t(3) y by metis
    moreover have "rs_peer (rl_session r s) \<noteq> rs_peer (rl_session r t)"
    proof
      assume "rs_peer (rl_session r s) = rs_peer (rl_session r t)"
      then show False
        using relay_okD(1) [OF ok s(1) [unfolded in_use_def]] relay_okD(1) [OF ok t(1) [unfolded in_use_def]] forwards(7) by simp
    qed
    moreover have "now - rs_seen (rl_session r s) < session_ttl" "now - rs_seen (rl_session r t) < session_ttl"
      using forwards(3,8) by (simp_all add: relay_live_def)
    moreover have "out = take 4 frame @ bytes4 x @ drop 8 frame" using forwards(10) by (simp add: wire_lengths)
    moreover note i [OF s(1), unfolded forwards(9)] i [OF t(1), unfolded t(2) y] \<open>fst dst \<noteq> NoAddr\<close> c d
    ultimately show ?thesis unfolding f_def header_len_def by blast
  qed simp_all
qed

text \<open>What issuing a token leaves.\<close>

lemma issue_facts:
  assumes ok: "relay_ok r" and new: "by_token r token = None" and iss: "relay_issue token peer tenant mesh r = (Inr token, r')"
  shows "relay_ok r'" "by_token r' token = Some (rl_next r)" "by_mesh r' (tenant, mesh) = Some (rl_next r)" "rl_next r' = rl_next r + 1"
    "rl_session r' (rl_next r) =
       \<lparr>rs_peer = peer, rs_tenant = tenant, rs_mesh = mesh, rs_token = token, rs_addr = no_addr_port, rs_seen = zero_time\<rparr>"
    "in_use r s \<Longrightarrow> rs_peer (rl_session r s) \<noteq> peer \<Longrightarrow> in_use r' s \<and> rl_session r' s = rl_session r s"
    "by_mesh r k = Some s \<Longrightarrow> rs_peer (rl_session r s) \<noteq> peer \<Longrightarrow> k \<noteq> (tenant, mesh) \<Longrightarrow> by_mesh r' k = Some s"
    "by_token r' t \<noteq> None \<Longrightarrow> t = token \<or> by_token r t \<noteq> None"
proof -
  let ?r = "without_peer peer r"
  note w = without_peer_maps [OF ok, of peer]
  have v4: "addr_is4 mesh" and r': "r' = relay_add token peer tenant mesh ?r"
    using iss unfolding relay_issue_add [OF ok] by (auto split: if_splits)
  have new': "by_token ?r token = None" using w(5) [of token] new by (cases "by_token ?r token") auto
  note m = add_maps [OF w(1,4) new', of tenant mesh, folded r', unfolded w(2,3)]
  show "relay_ok r'" unfolding r' by (rule relay_ok_add [OF w(1,4) new' v4])
  show "by_token r' token = Some (rl_next r)" by (simp add: m(3))
  show "by_mesh r' (tenant, mesh) = Some (rl_next r)" by (simp add: r' relay_add_def Let_def w(2))
  show "rl_next r' = rl_next r + 1" by (rule m(2))
  show "rl_session r' (rl_next r) =
      \<lparr>rs_peer = peer, rs_tenant = tenant, rs_mesh = mesh, rs_token = token, rs_addr = no_addr_port, rs_seen = zero_time\<rparr>"
    by (simp add: m(1))
  have other: "in_use ?r s" if "in_use r s" "rs_peer (rl_session r s) \<noteq> peer" for s
  proof (cases "by_peer r peer")
    case (Some old)
    have "s \<noteq> old" using relay_okD(2) [OF ok Some] that(2) by auto
    then show ?thesis using Some that(1) forget_maps(7) [OF ok, of old s] relay_okD(2) [OF ok Some] by (simp add: without_peer_def)
  qed (use that in \<open>simp add: without_peer_def\<close>)
  show "in_use r' s \<and> rl_session r' s = rl_session r s" if "in_use r s" "rs_peer (rl_session r s) \<noteq> peer"
    using other [OF that] in_use_next [OF ok that(1)] unfolding m(7) m(1) by auto
  show "by_mesh r' k = Some s" if k: "by_mesh r k = Some s" "rs_peer (rl_session r s) \<noteq> peer" "k \<noteq> (tenant, mesh)"
  proof -
    have "by_mesh ?r k = Some s"
    proof (cases "by_peer r peer")
      case (Some old)
      have "s \<noteq> old" using relay_okD(2) [OF ok Some] k(2) by auto
      then show ?thesis using Some k(1) forget_maps(6) [OF ok, of old k s] relay_okD(2) [OF ok Some] by (simp add: without_peer_def)
    qed (use k in \<open>simp add: without_peer_def\<close>)
    then show ?thesis using k(3) by (simp add: r' relay_add_def Let_def)
  qed
  show "t = token \<or> by_token r t \<noteq> None" if t: "by_token r' t \<noteq> None"
  proof -
    obtain s where "by_token r' t = Some s" using t by blast
    then show ?thesis using w(5) [of t s] unfolding m(3) by auto
  qed
qed

text \<open>What a registration leaves, and what then gets a frame through.\<close>

lemma register_facts:
  assumes ok: "relay_ok r" and s: "by_token r token = Some s" and len: "length token = relay_token_len" and src: "fst src \<noteq> NoAddr"
  obtains r' where "relay_handle now (encode_frame RelayRegister token) src r = (Some (encode_frame RelayAck token, src), r')"
    "relay_ok r'" "by_token r' = by_token r" "by_mesh r' = by_mesh r" "by_addr r' src = Some s"
    "rs_tenant (rl_session r' x) = rs_tenant (rl_session r x)" "rs_mesh (rl_session r' x) = rs_mesh (rl_session r x)"
    "rs_addr (rl_session r' s) = src" "rs_seen (rl_session r' s) = now"
    "\<And>a t. t \<noteq> s \<Longrightarrow> a \<noteq> src \<Longrightarrow> by_addr r a = Some t \<Longrightarrow>
       by_addr r' a = Some t \<and> rs_addr (rl_session r' t) = a \<and> rs_seen (rl_session r' t) = rs_seen (rl_session r t)"
proof -
  let ?r = "if rs_addr (rl_session r s) \<noteq> src then relay_move s src r else r"
  have u: "in_use r s" by (rule by_token_in_use [OF ok s])
  have h: "relay_handle now (encode_frame RelayRegister token) src r = (Some (encode_frame RelayAck token, src), saw s now ?r)"
    using s len by (simp add: relay_handle_def decode_encode relay_register_def Let_def)
  show thesis
  proof (cases "rs_addr (rl_session r s) = src")
    case True
    then have a: "by_addr r src = Some s" using relay_okD(5) [OF ok u] src by simp
    show thesis
      by (rule that [OF h]) (use True a ok relay_okD(3) [OF ok] in \<open>auto simp: saw_maps relay_ok_saw\<close>)
  next
    case False
    note m = move_maps [OF ok False]
    have r: "?r = relay_move s src r" using False by simp
    show thesis
    proof (rule that [OF h]; unfold r saw_maps relay_ok_saw m)
      show "relay_ok (relay_move s src r)" by (rule relay_ok_move [OF ok False u src])
    next
      fix a t
      assume t: "t \<noteq> s" "a \<noteq> src" "by_addr r a = Some t"
      then have "by_addr r src \<noteq> Some t" "rs_addr (rl_session r t) = a" using relay_okD(3) [OF ok, of src t] relay_okD(3) [OF ok t(3)] by auto
      then show "(if a = src then t = s else by_addr r a = Some t \<and> t \<noteq> s) \<and>
          (if t = s then src else if by_addr r src = Some t then no_addr_port else rs_addr (rl_session r t)) = a \<and>
          (if t = s then now else rs_seen (rl_session r t)) = rs_seen (rl_session r t)"
        using t by simp
    qed simp_all
  qed
qed

lemma live_delivers:
  assumes s: "by_addr r src = Some s" "relay_live r now (Some s)" "rs_mesh (rl_session r s) = V4 a"
    and t: "by_mesh r (rs_tenant (rl_session r s), V4 b) = Some t" "relay_live r now (Some t)" "t \<noteq> s" and p: "payload \<noteq> []"
  shows "fst (relay_handle now (encode_frame RelayData (bytes4 b @ payload)) src r) =
    Some (encode_frame RelayData (bytes4 a @ payload), rs_addr (rl_session r t))"
proof -
  let ?f = "encode_frame RelayData (bytes4 b @ payload)"
  have f: "take 4 (drop header_len ?f) = bytes4 b" "take header_len ?f = [wire_version, type_byte RelayData, 0, 0]"
    "drop relay_header_len ?f = payload" "relay_header_len < length ?f"
    using p by (simp_all add: encode_frame_def wire_lengths)
  have "relay_live (saw s now r) now (Some t)" using t(2,3) by (auto simp: relay_live_def saw_maps)
  moreover have "relay_handle now ?f src r = relay_forward now ?f src r"
    by (simp add: relay_handle_def decode_encode)
  ultimately show ?thesis
    using s t(1,3) f by (simp add: relay_forward_def Let_def saw_maps addr_from_bytes4 encode_frame_def)
qed

lemma issued_registered_delivers:
  assumes ok: "relay_ok r" and fresh: "by_token r k = None" "by_token r l = None" "k \<noteq> l" "length k = 16" "length l = 16"
    and "p \<noteq> q" "a \<noteq> b" "src \<noteq> dst" "fst src \<noteq> NoAddr" "fst dst \<noteq> NoAddr" and payload: "payload \<noteq> []"
    and i1: "relay_issue k p tenant (V4 a) r = (Inr k, r1)" and i2: "relay_issue l q tenant (V4 b) r1 = (Inr l, r2)"
    and g1: "relay_handle m (encode_frame RelayRegister k) src r2 = (d1, r3)"
    and g2: "relay_handle n (encode_frame RelayRegister l) dst r3 = (d2, r4)"
    and time: "now - m < session_ttl" "now - n < session_ttl"
  shows "d1 = Some (encode_frame RelayAck k, src) \<and> d2 = Some (encode_frame RelayAck l, dst) \<and>
    fst (relay_handle now (encode_frame RelayData (bytes4 b @ payload)) src r4) = Some (encode_frame RelayData (bytes4 a @ payload), dst)"
proof -
  let ?s = "rl_next r" and ?t = "rl_next r1"
  note f1 = issue_facts [OF ok fresh(1) i1]
  have "by_token r1 l = None" using f1(8) [of l] fresh(2) fresh(3) by blast
  note f2 = issue_facts [OF f1(1) this i2]
  have ts: "?t \<noteq> ?s" using f1(4) by simp
  have s1: "in_use r1 ?s" using f1(2,5) by (simp add: in_use_def)
  have s2: "in_use r2 ?s" "rl_session r2 ?s = rl_session r1 ?s" using f2(6) [OF s1] f1(5) \<open>p \<noteq> q\<close> by auto
  have k2: "by_token r2 k = Some ?s" using s2 f1(5) by (simp add: in_use_def)
  have m2: "by_mesh r2 (tenant, V4 b) = Some ?t" by (rule f2(3))
  obtain r3' where g3: "relay_handle m (encode_frame RelayRegister k) src r2 = (Some (encode_frame RelayAck k, src), r3')"
      "relay_ok r3'" "by_token r3' = by_token r2" "by_mesh r3' = by_mesh r2" "by_addr r3' src = Some ?s"
      "rs_tenant (rl_session r3' ?s) = rs_tenant (rl_session r2 ?s)" "rs_mesh (rl_session r3' ?s) = rs_mesh (rl_session r2 ?s)"
      "rs_addr (rl_session r3' ?s) = src" "rs_seen (rl_session r3' ?s) = m"
    by (rule register_facts [OF f2(1) k2 _ \<open>fst src \<noteq> NoAddr\<close>, of m ?s]) (use fresh(4) in \<open>auto simp: wire_lengths\<close>)
  have r3: "r3' = r3" "d1 = Some (encode_frame RelayAck k, src)" using g1 g3(1) by auto
  have l3: "by_token r3 l = Some ?t" using g3(3) f2(2) r3 by simp
  obtain r4' where g4: "relay_handle n (encode_frame RelayRegister l) dst r3 = (Some (encode_frame RelayAck l, dst), r4')"
      "by_mesh r4' = by_mesh r3" "rs_tenant (rl_session r4' ?s) = rs_tenant (rl_session r3 ?s)" "rs_mesh (rl_session r4' ?s) = rs_mesh (rl_session r3 ?s)"
      "rs_addr (rl_session r4' ?t) = dst" "rs_seen (rl_session r4' ?t) = n"
      "by_addr r4' src = Some ?s" "rs_addr (rl_session r4' ?s) = src" "rs_seen (rl_session r4' ?s) = m"
  proof (rule register_facts [OF _ l3 _ \<open>fst dst \<noteq> NoAddr\<close>, of n ?s], goal_cases)
    case 3
    have "by_addr r3 src = Some ?s" using g3(5) r3 by simp
    from 3(11) [OF ts [symmetric] \<open>src \<noteq> dst\<close> this] g3(9) r3 show ?case by (intro 3(1) [OF 3(2) 3(5) 3(7,8,9,10)]) auto
  qed (use g3(2) r3 fresh(5) in \<open>auto simp: wire_lengths\<close>)
  have r4: "r4' = r4" "d2 = Some (encode_frame RelayAck l, dst)" using g2 g4(1) by auto
  have sess: "rs_tenant (rl_session r4 ?s) = tenant" "rs_mesh (rl_session r4 ?s) = V4 a"
    using g4(3,4) g3(6,7) s2(2) f1(5) r3 r4 by simp_all
  have "relay_live r4 now (Some ?s)" "relay_live r4 now (Some ?t)"
    using g4 r4 time \<open>fst src \<noteq> NoAddr\<close> \<open>fst dst \<noteq> NoAddr\<close> by (simp_all add: relay_live_def)
  then have "fst (relay_handle now (encode_frame RelayData (bytes4 b @ payload)) src r4) =
      Some (encode_frame RelayData (bytes4 a @ payload), rs_addr (rl_session r4 ?t))"
    using live_delivers [of r4 src ?s now a b ?t payload] g4 r4 sess ts payload m2 g3(4) r3 by simp
  then show ?thesis using r3 r4 g4(5) by simp
qed

lemma unissued_unknown:
  assumes run: "relay_run r h" and new: "\<not> issued h x"
  shows "by_token r x = None"
proof (cases "by_token r x")
  case (Some s)
  from relay_run_backed [OF run] have ok: "relay_ok r"
    and i: "in_use r s \<Longrightarrow> Issued (rs_peer (rl_session r s)) (rs_tenant (rl_session r s)) (rs_mesh (rl_session r s)) (rs_token (rl_session r s)) \<in> set h"
    unfolding relay_backed_def by blast+
  have "in_use r s" "rs_token (rl_session r s) = x" using relay_okD(1) [OF ok Some] by_token_in_use [OF ok Some] by blast+
  then show ?thesis using i new unfolding issued_def by blast
qed simp

text \<open>
  Two machines of a tenant that register reach each other. In any state of the relay,
  however used before, when two machines of a tenant are issued tokens and register with them
  from their addresses, both are acknowledged, and a data frame of the first for the mesh
  address of the second that arrives within 90 seconds of both registrations is sent on to
  the second's address with the first's mesh address as its source.
\<close>
theorem relay_connects:
  assumes run: "relay_run r h" and fresh: "\<not> issued h k" "\<not> issued h l" "k \<noteq> l" "length k = 16" "length l = 16"
    and "p \<noteq> q" "a \<noteq> b" "src \<noteq> dst" "fst src \<noteq> NoAddr" "fst dst \<noteq> NoAddr" and payload: "payload \<noteq> []"
    and i1: "relay_issue k p tenant (V4 a) r = (Inr k, r1)" and i2: "relay_issue l q tenant (V4 b) r1 = (Inr l, r2)"
    and g1: "relay_handle m (encode_frame RelayRegister k) src r2 = (d1, r3)"
    and g2: "relay_handle n (encode_frame RelayRegister l) dst r3 = (d2, r4)"
    and time: "now - m < session_ttl" "now - n < session_ttl"
  shows "d1 = Some (encode_frame RelayAck k, src) \<and> d2 = Some (encode_frame RelayAck l, dst) \<and>
    fst (relay_handle now (encode_frame RelayData (bytes4 b @ payload)) src r4) = Some (encode_frame RelayData (bytes4 a @ payload), dst)"
proof -
  have ok: "relay_ok r" using relay_run_backed [OF run] by (simp add: relay_backed_def)
  show ?thesis
    by (rule issued_registered_delivers [OF ok unissued_unknown [OF run fresh(1)] unissued_unknown [OF run fresh(2)] fresh(3-5) assms(7-11)
          payload i1 i2 g1 g2 time])
qed

text \<open>Two machines of one tenant, from the start.\<close>

definition key1 :: octets where "key1 = replicate 16 1"
definition key2 :: octets where "key2 = replicate 16 2"
definition home1 :: addr_port where "home1 = (V4 0x01020304, 4000)"
definition home2 :: addr_port where "home2 = (V4 0x05060708, 5000)"

definition relay1 :: relay where "relay1 = snd (relay_issue key1 ''p1'' ''t1'' (V4 0x0A000002) new_relay)"
definition relay2 :: relay where "relay2 = snd (relay_issue key2 ''p2'' ''t1'' (V4 0x0A000003) relay1)"
definition relay3 :: relay where "relay3 = snd (relay_handle 5 (encode_frame RelayRegister key1) home1 relay2)"
definition relay4 :: relay where "relay4 = snd (relay_handle 6 (encode_frame RelayRegister key2) home2 relay3)"

definition hello :: octets where "hello = encode_frame RelayData (bytes4 0x0A000003 @ [42])"

lemma demo_steps:
  "relay_issue key1 ''p1'' ''t1'' (V4 0x0A000002) new_relay = (Inr key1, relay1)"
  "relay_issue key2 ''p2'' ''t1'' (V4 0x0A000003) relay1 = (Inr key2, relay2)"
  "relay_handle 5 (encode_frame RelayRegister key1) home1 relay2 = (fst (relay_handle 5 (encode_frame RelayRegister key1) home1 relay2), relay3)"
  "relay_handle 6 (encode_frame RelayRegister key2) home2 relay3 = (fst (relay_handle 6 (encode_frame RelayRegister key2) home2 relay3), relay4)"
  by (simp_all add: relay1_def relay2_def relay3_def relay4_def prod_eq_iff) (simp_all add: relay_issue_def Let_def)

lemma demo_facts: "key1 \<noteq> key2" "length key1 = 16" "length key2 = 16" "home1 \<noteq> home2" "fst home1 \<noteq> NoAddr" "fst home2 \<noteq> NoAddr"
    "''p1'' \<noteq> ''p2''" "(0x0A000002 :: 32 word) \<noteq> 0x0A000003"
    "(7 :: int) - 5 < session_ttl" "(7 :: int) - 6 < session_ttl"
  by (simp_all add: key1_def key2_def home1_def home2_def session_ttl_def second_ns_def)

lemma demo_relay_run: "\<exists>h. relay_run relay4 h"
proof -
  have r1: "relay_run relay1 [Issued ''p1'' ''t1'' (V4 0x0A000002) key1]"
    by (rule relay_issued [OF relay_start _ demo_steps(1)]) (simp add: issued_def)
  have "\<not> issued [Issued ''p1'' ''t1'' (V4 0x0A000002) key1] key2" using demo_facts(1) by (simp add: issued_def)
  from relay_received [OF relay_received [OF relay_issued [OF r1 this demo_steps(2)] demo_facts(5) demo_steps(3)] demo_facts(6) demo_steps(4)]
  show ?thesis by blast
qed

lemma demo_delivered: "fst (relay_handle 7 hello home1 relay4) = Some (encode_frame RelayData (bytes4 0x0A000002 @ [42]), home2)"
  unfolding hello_def
  using issued_registered_delivers [OF relay_ok_new _ _ demo_facts(1,2,3,7,8,4,5,6) _ demo_steps demo_facts(9,10), of "[42]"]
  by (simp add: new_relay_def)

theorem relay_confined_witness:
  "\<exists>h tenant p q k l. relay_run relay4 h \<and> registered h home1 k \<and> registered h home2 l \<and>
     Issued p tenant (V4 0x0A000002) k \<in> set h \<and> Issued q tenant (V4 0x0A000003) l \<in> set h"
proof -
  obtain h where run: "relay_run relay4 h" using demo_relay_run by blast
  have d: "is_data hello" by (simp add: is_data_def hello_def decode_encode)
  obtain r' where "relay_handle 7 hello home1 relay4 = (Some (encode_frame RelayData (bytes4 0x0A000002 @ [42]), home2), r')"
    using demo_delivered by (metis prod.collapse)
  from relay_confined [OF run d this] obtain tenant p a k q b l where c:
    "Issued p tenant (V4 a) k \<in> set h" "Issued q tenant (V4 b) l \<in> set h" "registered h home1 k" "registered h home2 l"
    "take 4 (drop 4 hello) = bytes4 b"
    "encode_frame RelayData (bytes4 0x0A000002 @ [42]) = take 4 hello @ bytes4 a @ drop 8 hello" by blast
  have b: "bytes4 b = bytes4 0x0A000003" "bytes4 a = bytes4 0x0A000002" using c(5,6) by (simp_all add: hello_def encode_frame_def)
  then have "V4 b = V4 0x0A000003" "V4 a = V4 0x0A000002" by (metis addr_from_bytes4)+
  then show ?thesis using run c by (metis addr.inject(1))
qed

theorem relay_connects_witness:
  "fst (relay_handle 7 hello home1 relay4) = Some (encode_frame RelayData (bytes4 0x0A000002 @ [42]), home2)"
  unfolding hello_def
  using relay_connects [OF relay_start _ _ demo_facts(1,2,3,7,8,4,5,6) _ demo_steps demo_facts(9,10), of "[42]"]
  by (simp add: issued_def)

end
