(* ===== verification/MeshSync.thy ===== *)
theory MeshSync
  imports Base64 Relay PeerStatus
begin

text \<open>
  How meshd keeps WireGuard's peer list in line with the control plane's: \<open>syncPeers\<close> of
  \<open>cmd/meshd/wireguard.go\<close> with the constants of \<open>relay.go\<close>. WireGuard itself is wireguard-go;
  what meshd relies on is the documented behaviour of its configuration protocol, stated
  here as \<open>uapi_line\<close> on the peers that a device shows.
\<close>

section \<open>Addresses and ports as text\<close>

text \<open>\<open>netip.ParseAddrPort\<close>: the last colon parts the two; brackets are for IPv6 only.\<close>

definition go_port :: "string \<Rightarrow> nat option" where
  "go_port s = (if s = [] \<or> \<not> list_all is_digit s \<or> 65535 < digits_value 10 s then None else Some (digits_value 10 s))"

definition go_parse_addr_port :: "netip_lib \<Rightarrow> string \<Rightarrow> addr_port option" where
  "go_parse_addr_port lib s =
     (case dropWhile (\<lambda>c. c \<noteq> CHR '':'') (rev s) of
        [] \<Rightarrow> None
      | _ # r \<Rightarrow>
          (let ip = rev r; v6 = (ip \<noteq> [] \<and> hd ip = CHR ''[''); port = rev (takeWhile (\<lambda>c. c \<noteq> CHR '':'') (rev s)) in
           if ip = [] \<or> (v6 \<and> (length ip < 2 \<or> last ip \<noteq> CHR '']'')) then None
           else
             (case (go_port port, go_parse_addr lib (if v6 then butlast (tl ip) else ip)) of
                (Some p, Some a) \<Rightarrow> if v6 = addr_is4 a then None else Some (a, p)
              | _ \<Rightarrow> None)))"

fun show_addr_port :: "netip_lib \<Rightarrow> addr_port \<Rightarrow> string" where
  "show_addr_port lib (NoAddr, p) = ''invalid AddrPort''"
| "show_addr_port lib (V4 a, p) = show_addr4 a @ '':'' @ show_nat p"
| "show_addr_port lib (V6 a, p) = ''['' @ ni_show6 lib a @ '']:'' @ show_nat p"

section \<open>What meshd keeps\<close>

definition keepalive_seconds :: string where
  "keepalive_seconds = ''25''"

definition relay_endpoint_prefix :: string where
  "relay_endpoint_prefix = ''relay:''"

definition punch_budget :: int where
  "punch_budget = 20 * second_ns"

definition handshake_stale :: int where
  "handshake_stale = 3 * 60 * second_ns"

text \<open>\<open>client.Peer\<close>, as the JSON of the control plane decodes to it.\<close>

record client_peer =
  cp_id :: string
  cp_name :: string
  cp_key :: string
  cp_mesh_ip :: string
  cp_endpoint :: string
  cp_direct :: bool
  cp_nat :: string

record wg_peer =
  wp_mesh :: addr
  wp_endpoint :: addr_port
  wp_since :: int
  wp_relayed :: bool

text \<open>Go's zero value stands for a peer the table does not have.\<close>

definition no_wg_peer :: wg_peer where
  "no_wg_peer = \<lparr>wp_mesh = NoAddr, wp_endpoint = no_addr_port, wp_since = zero_time, wp_relayed = False\<rparr>"

definition valid_ap :: "addr_port \<Rightarrow> bool" where
  "valid_ap ap \<longleftrightarrow> fst ap \<noteq> NoAddr"

definition target :: "netip_lib \<Rightarrow> wg_peer \<Rightarrow> string" where
  "target lib p =
     (if wp_relayed p then relay_endpoint_prefix @ show_addr lib (wp_mesh p)
      else if valid_ap (wp_endpoint p) then show_addr_port lib (wp_endpoint p) else '''')"

section \<open>One peer\<close>

text \<open>What a sync reads besides the list: the time, the relay, and WireGuard's handshakes.\<close>

record sync_env =
  se_lib :: netip_lib
  se_own :: string
  se_now :: int
  se_relay_up :: bool
  se_handshake :: "string \<Rightarrow> int option"

text \<open>The key and address of a listed peer, unless it is this machine or unusable.\<close>

definition usable_peer :: "sync_env \<Rightarrow> client_peer \<Rightarrow> (string \<times> addr) option" where
  "usable_peer env p =
     (if cp_id p = se_own env then None
      else
        (case hex_key (cp_key p) of
           None \<Rightarrow> None
         | Some k \<Rightarrow>
             (case go_parse_addr (se_lib env) (cp_mesh_ip p) of
                None \<Rightarrow> None
              | Some a \<Rightarrow> if addr_is4 a then Some (k, a) else None)))"

definition listed_endpoint :: "sync_env \<Rightarrow> client_peer \<Rightarrow> addr_port" where
  "listed_endpoint env p =
     (if cp_direct p then coalesce (go_parse_addr_port (se_lib env) (cp_endpoint p)) no_addr_port
      else if cp_nat p \<noteq> '''' then coalesce (go_parse_addr_port (se_lib env) (cp_nat p)) no_addr_port
      else no_addr_port)"

text \<open>What WireGuard should have for it, given what it was last given.\<close>

definition want_peer :: "sync_env \<Rightarrow> client_peer \<Rightarrow> string \<Rightarrow> addr \<Rightarrow> wg_peer option \<Rightarrow> wg_peer" where
  "want_peer env p key mesh known =
     (let prev = coalesce known no_wg_peer;
          listed = listed_endpoint env p;
          ep = (if valid_ap listed then listed else wp_endpoint prev);
          same = (known \<noteq> None \<and> ep = wp_endpoint prev);
          since = (if same then wp_since prev else se_now env);
          relayed = (if same then wp_relayed prev else False);
          relayed' =
            (if se_relay_up env \<and> \<not> relayed
             then \<not> valid_ap ep \<or>
               (punch_budget < se_now env - since \<and>
                handshake_stale < se_now env - coalesce (se_handshake env key) zero_time)
             else relayed)
      in \<lparr>wp_mesh = mesh, wp_endpoint = ep, wp_since = since, wp_relayed = relayed'\<rparr>)"

type_synonym uapi = "(string \<times> string) list"

definition peer_lines :: "netip_lib \<Rightarrow> string \<Rightarrow> wg_peer \<Rightarrow> wg_peer option \<Rightarrow> uapi" where
  "peer_lines lib key want known =
     (let prev = coalesce known no_wg_peer; t = target lib want in
      if known \<noteq> None \<and> wp_mesh prev = wp_mesh want \<and> target lib prev = t then []
      else
        [(''public_key'', key), (''replace_allowed_ips'', ''true''), (''allowed_ip'', show_addr lib (wp_mesh want) @ ''/32'')] @
        (if t \<noteq> '''' \<and> t \<noteq> target lib prev
         then [(''endpoint'', t), (''persistent_keepalive_interval'', keepalive_seconds)] else []))"

section \<open>The whole list\<close>

type_synonym wg_table = "string \<rightharpoonup> wg_peer"

text \<open>The loop over the list: the next table, the peers with a route, the lines so far.\<close>

definition sync_peer :: "sync_env \<Rightarrow> wg_table \<Rightarrow> client_peer \<Rightarrow> wg_table \<times> nat \<times> uapi \<Rightarrow> wg_table \<times> nat \<times> uapi" where
  "sync_peer env have p acc =
     (case (usable_peer env p, acc) of
        (None, _) \<Rightarrow> acc
      | (Some (key, mesh), (tab, routable, cfg)) \<Rightarrow>
          (let want = want_peer env p key mesh (have key) in
           (tab(key \<mapsto> want),
            (if target (se_lib env) want \<noteq> '''' then routable + 1 else routable),
            cfg @ peer_lines (se_lib env) key want (have key))))"

text \<open>
  The keys of the old table come in the order Go's map gives, \<open>order\<close>; \<open>ipc_set\<close> is
  WireGuard's, on a device. Without a change it is not called, and when it fails the table stays.
\<close>

definition sync_peers ::
  "sync_env \<Rightarrow> (uapi \<Rightarrow> 'dev \<Rightarrow> (string \<times> 'dev) + 'dev) \<Rightarrow> string list \<Rightarrow> client_peer list \<Rightarrow> wg_table \<times> 'dev \<Rightarrow>
    (string + nat) \<times> wg_table \<times> 'dev" where
  "sync_peers env ipc_set order peers s =
     (let have = fst s;
          (tab, routable, cfg) = fold (sync_peer env have) peers (\<lambda>k. None, 0, []);
          cfg' = cfg @ List.concat (map (\<lambda>k. if tab k = None then [(''public_key'', k), (''remove'', ''true'')] else []) order)
      in if cfg' = [] then (Inr routable, tab, snd s)
         else
           (case ipc_set cfg' (snd s) of
              Inl (e, dev) \<Rightarrow> (Inl (''configure wireguard peers: '' @ e), have, dev)
            | Inr dev \<Rightarrow> (Inr routable, tab, dev)))"

section \<open>WireGuard's configuration protocol\<close>

text \<open>
  The documented effect of a configuration on the peers a device shows: a \<open>public_key\<close> line
  selects a peer and creates it if needed; the lines after it replace its allowed addresses,
  add one (an address belongs to one peer only, so another loses it), set its endpoint and
  keepalive, or remove it.
\<close>

record wg_entry =
  we_allowed :: "string list"
  we_endpoint :: string
  we_keepalive :: string

type_synonym wg_peers = "string \<rightharpoonup> wg_entry"

definition new_entry :: wg_entry where
  "new_entry = \<lparr>we_allowed = [], we_endpoint = '''', we_keepalive = ''''\<rparr>"

definition with_entry :: "string \<Rightarrow> (wg_entry \<Rightarrow> wg_entry) \<Rightarrow> wg_peers \<Rightarrow> wg_peers" where
  "with_entry k f t = t(k := map_option f (t k))"

definition only_for :: "string \<Rightarrow> string \<Rightarrow> wg_peers \<Rightarrow> wg_peers" where
  "only_for k ip t =
     (\<lambda>j. map_option (\<lambda>e. e\<lparr>we_allowed := (if j = k then we_allowed e @ [ip] else removeAll ip (we_allowed e))\<rparr>) (t j))"

definition uapi_line :: "string \<times> string \<Rightarrow> string option \<times> wg_peers \<Rightarrow> string option \<times> wg_peers" where
  "uapi_line kv s =
     (let (key, v) = kv; (cur, t) = s in
      if key = ''public_key'' then (Some v, if t v = None then t(v \<mapsto> new_entry) else t)
      else
        (case cur of
           None \<Rightarrow> s
         | Some k \<Rightarrow>
             (cur,
              if key = ''replace_allowed_ips'' then with_entry k (\<lambda>e. e\<lparr>we_allowed := []\<rparr>) t
              else if key = ''allowed_ip'' then only_for k v t
              else if key = ''endpoint'' then with_entry k (\<lambda>e. e\<lparr>we_endpoint := v\<rparr>) t
              else if key = ''persistent_keepalive_interval'' then with_entry k (\<lambda>e. e\<lparr>we_keepalive := v\<rparr>) t
              else if key = ''remove'' then t(k := None) else t)))"

definition uapi_apply :: "uapi \<Rightarrow> wg_peers \<Rightarrow> wg_peers" where
  "uapi_apply cfg t = snd (fold uapi_line cfg (None, t))"

text \<open>The lines of a peer start with its key, so they mean the same whatever came before.\<close>

definition section_of :: "string \<Rightarrow> uapi \<Rightarrow> bool" where
  "section_of k cfg \<longleftrightarrow> cfg = [] \<or> (\<exists>r. cfg = (''public_key'', k) # r)"

lemma uapi_section:
  assumes "section_of k cfg"
  shows "snd (fold uapi_line cfg (cur, t)) = uapi_apply cfg t"
  using assms by (auto simp: section_of_def uapi_apply_def uapi_line_def Let_def)

lemma uapi_apply_append:
  assumes "section_of k cfg'"
  shows "uapi_apply (cfg @ cfg') t = uapi_apply cfg' (uapi_apply cfg t)"
  using uapi_section [OF assms, of "fst (fold uapi_line cfg (None, t))" "snd (fold uapi_line cfg (None, t))"]
  by (simp add: uapi_apply_def)

lemma section_peer_lines: "section_of k (peer_lines lib k want known)"
  by (simp add: section_of_def peer_lines_def Let_def)

lemma uapi_remove: "uapi_apply [(''public_key'', k), (''remove'', ''true'')] t = t(k := None)"
  by (auto simp: uapi_apply_def uapi_line_def Let_def)

text \<open>What the lines of one peer do.\<close>

definition allowed_text :: "netip_lib \<Rightarrow> addr \<Rightarrow> string" where
  "allowed_text lib a = show_addr lib a @ ''/32''"

definition retargets :: "netip_lib \<Rightarrow> wg_peer \<Rightarrow> wg_peer option \<Rightarrow> bool" where
  "retargets lib want known \<longleftrightarrow> target lib want \<noteq> '''' \<and> target lib want \<noteq> target lib (coalesce known no_wg_peer)"

definition entry_of :: "netip_lib \<Rightarrow> wg_peer \<Rightarrow> wg_peer option \<Rightarrow> wg_entry \<Rightarrow> wg_entry" where
  "entry_of lib want known e =
     \<lparr>we_allowed = [allowed_text lib (wp_mesh want)],
      we_endpoint = (if retargets lib want known then target lib want else we_endpoint e),
      we_keepalive = (if retargets lib want known then keepalive_seconds else we_keepalive e)\<rparr>"

lemma uapi_peer_lines:
  assumes "peer_lines lib k want known \<noteq> []"
  shows "uapi_apply (peer_lines lib k want known) t =
    (\<lambda>j. if j = k then Some (entry_of lib want known (coalesce (t k) new_entry))
      else map_option (\<lambda>e. e\<lparr>we_allowed := removeAll (allowed_text lib (wp_mesh want)) (we_allowed e)\<rparr>) (t j))"
  using assms
  by (cases "t k")
     (auto simp: peer_lines_def Let_def uapi_apply_def uapi_line_def with_entry_def only_for_def new_entry_def allowed_text_def
       entry_of_def retargets_def fun_eq_iff split: if_splits)

section \<open>A sync brings WireGuard in line\<close>

definition usable :: "sync_env \<Rightarrow> client_peer list \<Rightarrow> (string \<times> addr) list" where
  "usable env ps = List.map_filter (usable_peer env) ps"

lemma usable_snoc:
  "usable env (ps @ [p]) = usable env ps @ (case usable_peer env p of None \<Rightarrow> [] | Some ka \<Rightarrow> [ka])"
  by (simp add: usable_def map_filter_def split: option.split)

lemma usable_mem: "ka \<in> set (usable env ps) \<longleftrightarrow> (\<exists>p \<in> set ps. usable_peer env p = Some ka)"
  by (force simp: usable_def map_filter_def)

lemma usable_peer_is4: "usable_peer env p = Some (k, a) \<Longrightarrow> addr_is4 a"
  unfolding usable_peer_def by (simp split: if_splits option.splits)

lemma usable_is4: "(k, a) \<in> set (usable env ps) \<Longrightarrow> addr_is4 a"
  using usable_peer_is4 unfolding usable_mem by blast

lemma show_addr4_inj: "show_addr4 a = show_addr4 b \<longleftrightarrow> a = b"
  by (metis parse4_show addr.inject(1) option.inject)

lemma allowed_text_inj: "addr_is4 a \<Longrightarrow> addr_is4 b \<Longrightarrow> allowed_text lib a = allowed_text lib b \<longleftrightarrow> a = b"
  by (cases a; cases b) (simp_all add: allowed_text_def show_addr4_inj)

text \<open>WireGuard allows each peer its mesh address and nothing else, and has the peers of the table only.\<close>

definition in_line :: "netip_lib \<Rightarrow> wg_table \<Rightarrow> wg_peers \<Rightarrow> bool" where
  "in_line lib have t \<longleftrightarrow>
     (\<forall>k. map_option we_allowed (t k) = map_option (\<lambda>p. [allowed_text lib (wp_mesh p)]) (have k))"

definition table4 :: "wg_table \<Rightarrow> bool" where
  "table4 have \<longleftrightarrow> (\<forall>k p. have k = Some p \<longrightarrow> addr_is4 (wp_mesh p))"

text \<open>
  Midway through the list: a peer seen has its entry; one not seen keeps its endpoint, and
  its address unless a peer seen has taken it.
\<close>

definition seen_ok :: "netip_lib \<Rightarrow> wg_peer \<Rightarrow> wg_peer option \<Rightarrow> wg_entry option \<Rightarrow> wg_entry option \<Rightarrow> bool" where
  "seen_ok lib w known before after \<longleftrightarrow>
     (case after of None \<Rightarrow> False
      | Some e \<Rightarrow> we_allowed e = [allowed_text lib (wp_mesh w)] \<and>
          we_endpoint e = we_endpoint (entry_of lib w known (coalesce before new_entry)))"

definition unseen_ok :: "addr set \<Rightarrow> wg_peer option \<Rightarrow> wg_entry option \<Rightarrow> wg_entry option \<Rightarrow> bool" where
  "unseen_ok taken known before after \<longleftrightarrow>
     (case (before, after) of
        (None, None) \<Rightarrow> True
      | (Some e, Some e') \<Rightarrow> we_endpoint e' = we_endpoint e \<and>
          (case known of None \<Rightarrow> True | Some q \<Rightarrow> wp_mesh q \<notin> taken \<longrightarrow> we_allowed e' = we_allowed e)
      | _ \<Rightarrow> False)"

definition midway :: "sync_env \<Rightarrow> wg_table \<Rightarrow> wg_peers \<Rightarrow> client_peer list \<Rightarrow> wg_table \<Rightarrow> wg_peers \<Rightarrow> bool" where
  "midway env have t ps tab t' \<longleftrightarrow>
     dom tab = fst ` set (usable env ps) \<and>
     (\<forall>k. case tab k of
        Some w \<Rightarrow> (k, wp_mesh w) \<in> set (usable env ps) \<and> seen_ok (se_lib env) w (have k) (t k) (t' k)
      | None \<Rightarrow> unseen_ok (snd ` set (usable env ps)) (have k) (t k) (t' k))"

lemma midwayI:
  assumes "dom tab = fst ` set (usable env ps)"
    "\<And>k w. tab k = Some w \<Longrightarrow> (k, wp_mesh w) \<in> set (usable env ps) \<and> seen_ok (se_lib env) w (have k) (t k) (t' k)"
    "\<And>k. tab k = None \<Longrightarrow> unseen_ok (snd ` set (usable env ps)) (have k) (t k) (t' k)"
  shows "midway env have t ps tab t'"
  using assms by (simp add: midway_def split: option.split)

lemma midwayD:
  assumes "midway env have t ps tab t'"
  shows "dom tab = fst ` set (usable env ps)"
    "tab k = Some w \<Longrightarrow> (k, wp_mesh w) \<in> set (usable env ps) \<and> seen_ok (se_lib env) w (have k) (t k) (t' k)"
    "tab k = None \<Longrightarrow> unseen_ok (snd ` set (usable env ps)) (have k) (t k) (t' k)"
proof -
  have *: "case tab k of Some w \<Rightarrow> (k, wp_mesh w) \<in> set (usable env ps) \<and> seen_ok (se_lib env) w (have k) (t k) (t' k)
      | None \<Rightarrow> unseen_ok (snd ` set (usable env ps)) (have k) (t k) (t' k)"
    using assms unfolding midway_def by blast
  show "dom tab = fst ` set (usable env ps)" using assms unfolding midway_def by blast
  show "tab k = Some w \<Longrightarrow> (k, wp_mesh w) \<in> set (usable env ps) \<and> seen_ok (se_lib env) w (have k) (t k) (t' k)"
    and "tab k = None \<Longrightarrow> unseen_ok (snd ` set (usable env ps)) (have k) (t k) (t' k)"
    using * by simp_all
qed

lemma usable_snoc_Some: "usable_peer env p = Some ka \<Longrightarrow> set (usable env (ps @ [p])) = insert ka (set (usable env ps))"
  by (auto simp: usable_mem)

lemma unseen_mono: "unseen_ok taken known b a \<Longrightarrow> taken \<subseteq> taken' \<Longrightarrow> unseen_ok taken' known b a"
  by (auto simp: unseen_ok_def split: option.splits)

lemma peer_lines_empty:
  assumes "peer_lines lib k want known = []"
  obtains q where "known = Some q" "wp_mesh q = wp_mesh want" "\<not> retargets lib want known"
  using assms by (cases known) (simp_all add: peer_lines_def retargets_def Let_def split: if_splits)

lemma midway_silent:
  assumes mid: "midway env have t ps tab t'" and line: "in_line (se_lib env) have t"
    and u: "usable_peer env p = Some (k, wp_mesh w)" and new: "k \<notin> fst ` set (usable env ps)" "wp_mesh w \<notin> snd ` set (usable env ps)"
    and none: "peer_lines (se_lib env) k w (have k) = []"
  shows "midway env have t (ps @ [p]) (tab(k \<mapsto> w)) t'"
proof (rule midwayI)
  from none obtain q where q: "have k = Some q" "wp_mesh q = wp_mesh w" "\<not> retargets (se_lib env) w (have k)"
    by (rule peer_lines_empty)
  have "map_option we_allowed (t k) = Some [allowed_text (se_lib env) (wp_mesh w)]"
    using line q(1,2) unfolding in_line_def by simp
  then obtain e where e: "t k = Some e" "we_allowed e = [allowed_text (se_lib env) (wp_mesh w)]" by auto
  have "tab k = None" using midwayD(1) [OF mid] new(1) by blast
  from midwayD(3) [OF mid this] obtain e' where "t' k = Some e'" "we_endpoint e' = we_endpoint e" "we_allowed e' = we_allowed e"
    using q(1,2) e(1) new(2) by (auto simp: unseen_ok_def split: option.splits)
  then have k: "seen_ok (se_lib env) w (have k) (t k) (t' k)" using e q(3) by (simp add: seen_ok_def entry_of_def)
  show "dom (tab(k \<mapsto> w)) = fst ` set (usable env (ps @ [p]))"
    using midwayD(1) [OF mid] by (simp add: usable_snoc_Some [OF u])
  show "(j, wp_mesh v) \<in> set (usable env (ps @ [p])) \<and> seen_ok (se_lib env) v (have j) (t j) (t' j)"
    if "(tab(k \<mapsto> w)) j = Some v" for j v
    using that midwayD(2) [OF mid, of j v] k by (cases "j = k") (simp_all add: usable_snoc_Some [OF u])
  show "unseen_ok (snd ` set (usable env (ps @ [p]))) (have j) (t j) (t' j)" if "(tab(k \<mapsto> w)) j = None" for j
    using that midwayD(3) [OF mid, of j] by (cases "j = k") (auto simp: usable_snoc_Some [OF u] elim: unseen_mono)
qed

lemma midway_sent:
  assumes mid: "midway env have t ps tab t'" and line: "in_line (se_lib env) have t" and v4: "table4 have"
    and u: "usable_peer env p = Some (k, wp_mesh w)" and new: "k \<notin> fst ` set (usable env ps)" "wp_mesh w \<notin> snd ` set (usable env ps)"
    and some: "peer_lines (se_lib env) k w (have k) \<noteq> []"
  shows "midway env have t (ps @ [p]) (tab(k \<mapsto> w)) (uapi_apply (peer_lines (se_lib env) k w (have k)) t')"
proof (rule midwayI)
  note t = uapi_peer_lines [OF some, of t']
  have w4: "addr_is4 (wp_mesh w)" by (rule usable_peer_is4 [OF u])
  have other: "removeAll (allowed_text (se_lib env) (wp_mesh w)) [allowed_text (se_lib env) a] = [allowed_text (se_lib env) a]"
    if "addr_is4 a" "a \<noteq> wp_mesh w" for a
    using that allowed_text_inj [OF w4 that(1), of "se_lib env"] by auto
  have "tab k = None" using midwayD(1) [OF mid] new(1) by blast
  from midwayD(3) [OF mid this] have "we_endpoint (coalesce (t' k) new_entry) = we_endpoint (coalesce (t k) new_entry)"
    by (auto simp: unseen_ok_def split: option.splits)
  then have k: "seen_ok (se_lib env) w (have k) (t k) (Some (entry_of (se_lib env) w (have k) (coalesce (t' k) new_entry)))"
    by (simp add: seen_ok_def entry_of_def)
  show "dom (tab(k \<mapsto> w)) = fst ` set (usable env (ps @ [p]))"
    using midwayD(1) [OF mid] by (simp add: usable_snoc_Some [OF u])
  show "(j, wp_mesh v) \<in> set (usable env (ps @ [p])) \<and>
      seen_ok (se_lib env) v (have j) (t j) (uapi_apply (peer_lines (se_lib env) k w (have k)) t' j)"
    if j: "(tab(k \<mapsto> w)) j = Some v" for j v
  proof (cases "j = k")
    case False
    then have s: "(j, wp_mesh v) \<in> set (usable env ps)" "seen_ok (se_lib env) v (have j) (t j) (t' j)"
      using j midwayD(2) [OF mid, of j v] by simp_all
    then have "addr_is4 (wp_mesh v)" "wp_mesh v \<noteq> wp_mesh w" using usable_is4 new(2) by force+
    then show ?thesis using s False other
      by (auto simp: t usable_snoc_Some [OF u] seen_ok_def split: option.splits)
  qed (use j k t u in \<open>simp add: usable_snoc_Some [OF u]\<close>)
  show "unseen_ok (snd ` set (usable env (ps @ [p]))) (have j) (t j) (uapi_apply (peer_lines (se_lib env) k w (have k)) t' j)"
    if j: "(tab(k \<mapsto> w)) j = None" for j
  proof -
    from j have jk: "j \<noteq> k" and n: "tab j = None" by (auto split: if_splits)
    note un = midwayD(3) [OF mid n]
    have "we_allowed e = [allowed_text (se_lib env) (wp_mesh q)] \<and> addr_is4 (wp_mesh q)"
      if "have j = Some q" "t j = Some e" for q e
      using line v4 that unfolding in_line_def table4_def by (metis map_option_eq_Some option.inject option.simps(9))
    note own = this
    show ?thesis
    proof (cases "t j")
      case None
      then show ?thesis using un jk by (simp add: t unseen_ok_def split: option.splits)
    next
      case (Some e)
      then obtain e' where e': "t' j = Some e'" "we_endpoint e' = we_endpoint e"
        and same: "\<And>q. have j = Some q \<Longrightarrow> wp_mesh q \<notin> snd ` set (usable env ps) \<Longrightarrow> we_allowed e' = we_allowed e"
        using un by (cases "t' j") (simp_all add: unseen_ok_def split: option.splits)
      have "removeAll (allowed_text (se_lib env) (wp_mesh w)) (we_allowed e') = we_allowed e"
        if "have j = Some q" "wp_mesh q \<notin> insert (wp_mesh w) (snd ` set (usable env ps))" for q
        using same [OF that(1)] own [OF that(1) Some] other [of "wp_mesh q"] that(2) by simp
      then show ?thesis using jk e' Some
        by (simp add: t usable_snoc_Some [OF u] unseen_ok_def split: option.splits)
    qed
  qed
qed

lemma midway_fold:
  assumes line: "in_line (se_lib env) have t" and v4: "table4 have"
    and dist: "distinct (map fst (usable env ps))" "distinct (map snd (usable env ps))"
    and run: "fold (sync_peer env have) ps (\<lambda>k. None, 0, []) = (tab, n, cfg)"
  shows "midway env have t ps tab (uapi_apply cfg t)"
  using dist run
proof (induction ps arbitrary: tab n cfg rule: rev_induct)
  case Nil
  then show ?case
    by (intro midwayI) (auto simp: usable_def uapi_apply_def unseen_ok_def split: option.splits)
next
  case (snoc p ps)
  obtain tab0 n0 cfg0 where f: "fold (sync_peer env have) ps (\<lambda>k. None, 0, []) = (tab0, n0, cfg0)"
    by (cases "fold (sync_peer env have) ps (\<lambda>k. None, 0, [])") auto
  have d: "distinct (map fst (usable env ps))" "distinct (map snd (usable env ps))"
    using snoc.prems(1,2) by (simp_all add: usable_snoc)
  note mid = snoc.IH [OF d f]
  show ?case
  proof (cases "usable_peer env p")
    case None
    have "(tab, n, cfg) = sync_peer env have p (tab0, n0, cfg0)" using snoc.prems(3) f by simp
    then have eq: "tab = tab0" "cfg = cfg0" by (simp_all add: sync_peer_def None)
    have same: "usable env (ps @ [p]) = usable env ps" by (simp add: usable_snoc None)
    show ?thesis using mid unfolding eq midway_def same .
  next
    case (Some ka)
    obtain k a where ka: "ka = (k, a)" by (cases ka) auto
    define w where "w = want_peer env p k a (have k)"
    have m: "wp_mesh w = a" by (simp add: w_def want_peer_def Let_def)
    have u: "usable_peer env p = Some (k, wp_mesh w)" using Some ka m by simp
    have new: "k \<notin> fst ` set (usable env ps)" "wp_mesh w \<notin> snd ` set (usable env ps)"
      using snoc.prems(1,2) u by (auto simp: usable_snoc)
    have "(tab, n, cfg) = sync_peer env have p (tab0, n0, cfg0)" using snoc.prems(3) f by simp
    then have step: "tab = tab0(k \<mapsto> w)" "cfg = cfg0 @ peer_lines (se_lib env) k w (have k)"
      using Some ka by (simp_all add: sync_peer_def w_def Let_def)
    have applied: "uapi_apply cfg t = uapi_apply (peer_lines (se_lib env) k w (have k)) (uapi_apply cfg0 t)"
      unfolding step by (rule uapi_apply_append [OF section_peer_lines])
    show ?thesis
    proof (cases "peer_lines (se_lib env) k w (have k) = []")
      case True
      then have "uapi_apply cfg t = uapi_apply cfg0 t" unfolding applied by (simp add: uapi_apply_def)
      then show ?thesis using midway_silent [OF mid line u new True] step(1) by (simp only:)
    next
      case False
      then show ?thesis unfolding applied step(1) by (rule midway_sent [OF mid line v4 u new])
    qed
  qed
qed

definition removals :: "wg_table \<Rightarrow> string list \<Rightarrow> uapi" where
  "removals tab order = List.concat (map (\<lambda>k. if tab k = None then [(''public_key'', k), (''remove'', ''true'')] else []) order)"

lemma uapi_removals:
  "uapi_apply (cfg @ removals tab order) t = (\<lambda>k. if k \<in> set order \<and> tab k = None then None else uapi_apply cfg t k)"
proof (induction order rule: rev_induct)
  case (snoc k order)
  let ?s = "if tab k = None then [(''public_key'', k), (''remove'', ''true'')] else []"
  have "section_of k ?s" by (simp add: section_of_def)
  from uapi_apply_append [OF this, of "cfg @ removals tab order"] snoc show ?case
    by (auto simp: removals_def uapi_remove fun_eq_iff)
qed (simp add: removals_def)

text \<open>What is relied on: WireGuard does what its protocol says when it accepts a configuration.\<close>

definition obeys_uapi :: "(uapi \<Rightarrow> 'dev \<Rightarrow> (string \<times> 'dev) + 'dev) \<Rightarrow> ('dev \<Rightarrow> wg_peers) \<Rightarrow> bool" where
  "obeys_uapi ipc_set peers_of \<longleftrightarrow>
     (\<forall>cfg dev dev'. ipc_set cfg dev = Inr dev' \<longrightarrow> peers_of dev' = uapi_apply cfg (peers_of dev))"

lemma sync_peers_applied:
  assumes obeys: "obeys_uapi ipc_set peers_of" and line: "in_line (se_lib env) have (peers_of dev)"
    and v4: "table4 have" and order: "set order = dom have"
    and dist: "distinct (map fst (usable env ps))" "distinct (map snd (usable env ps))"
    and ok: "sync_peers env ipc_set order ps (have, dev) = (Inr n, tab, dev')"
  shows "in_line (se_lib env) tab (peers_of dev') \<and> table4 tab \<and> dom tab = fst ` set (usable env ps) \<and>
    (\<forall>k w. tab k = Some w \<longrightarrow> (k, wp_mesh w) \<in> set (usable env ps) \<and>
       seen_ok (se_lib env) w (have k) (peers_of dev k) (peers_of dev' k))"
proof -
  obtain tab0 n0 cfg where f: "fold (sync_peer env have) ps (\<lambda>k. None, 0, []) = (tab0, n0, cfg)"
    by (cases "fold (sync_peer env have) ps (\<lambda>k. None, 0, [])") auto
  from ok f have tab: "tab = tab0" and dev: "cfg @ removals tab order = [] \<and> dev' = dev \<or> ipc_set (cfg @ removals tab order) dev = Inr dev'"
    by (auto simp: sync_peers_def Let_def removals_def split: if_splits sum.splits prod.splits)
  have applied: "peers_of dev' = uapi_apply (cfg @ removals tab order) (peers_of dev)"
    using dev obeys by (auto simp: obeys_uapi_def uapi_apply_def)
  note mid = midway_fold [OF line v4 dist f, folded tab]
  have after: "peers_of dev' k = (if k \<in> set order \<and> tab k = None then None else uapi_apply cfg (peers_of dev) k)" for k
    unfolding applied uapi_removals by simp
  have some: "(k, wp_mesh w) \<in> set (usable env ps)" "seen_ok (se_lib env) w (have k) (peers_of dev k) (peers_of dev' k)"
    if "tab k = Some w" for k w
    using midwayD(2) [OF mid that] that by (simp_all add: after)
  have none: "peers_of dev' k = None" if "tab k = None" for k
  proof (cases "have k")
    case None
    then have "peers_of dev k = None" using line unfolding in_line_def by (metis map_option_is_None)
    then show ?thesis using midwayD(3) [OF mid that] by (simp add: after unseen_ok_def split: option.splits)
  qed (use that order in \<open>auto simp: after\<close>)
  have "in_line (se_lib env) tab (peers_of dev')"
    unfolding in_line_def
  proof
    fix k
    show "map_option we_allowed (peers_of dev' k) = map_option (\<lambda>p. [allowed_text (se_lib env) (wp_mesh p)]) (tab k)"
      using none [of k] some(2) [of k] by (cases "tab k") (auto simp: seen_ok_def split: option.splits)
  qed
  moreover have "table4 tab" using some(1) usable_is4 unfolding table4_def by blast
  ultimately show ?thesis using some midwayD(1) [OF mid] by blast
qed

section \<open>While meshd runs\<close>

text \<open>
  The daemon's table and the device through refreshes that WireGuard accepts, while peers
  roam: WireGuard moves a peer's endpoint to where its packets come from. The last argument
  holds the lists applied, whatever they say, with what each sync read, the latest first.
\<close>

definition roamed :: "(string \<Rightarrow> string) \<Rightarrow> wg_peers \<Rightarrow> wg_peers" where
  "roamed f t = (\<lambda>k. map_option (\<lambda>e. e\<lparr>we_endpoint := f k\<rparr>) (t k))"

inductive mesh_run ::
  "(uapi \<Rightarrow> 'dev \<Rightarrow> (string \<times> 'dev) + 'dev) \<Rightarrow> ('dev \<Rightarrow> wg_peers) \<Rightarrow> wg_table \<Rightarrow> 'dev \<Rightarrow>
    (sync_env \<times> client_peer list) list \<Rightarrow> bool"
  for ipc_set peers_of where
  mesh_start: "peers_of dev = (\<lambda>k. None) \<Longrightarrow> mesh_run ipc_set peers_of (\<lambda>k. None) dev []"
| mesh_refreshed:
    "mesh_run ipc_set peers_of have dev ls \<Longrightarrow> set order = dom have \<Longrightarrow>
     sync_peers env ipc_set order ps (have, dev) = (Inr n, have', dev') \<Longrightarrow>
     mesh_run ipc_set peers_of have' dev' ((env, ps) # ls)"
| mesh_roamed:
    "mesh_run ipc_set peers_of have dev ls \<Longrightarrow> peers_of dev' = roamed f (peers_of dev) \<Longrightarrow>
     mesh_run ipc_set peers_of have dev' ls"

text \<open>
  A list that names no key and no address twice among the other machines. The tenant's
  unique constraints give it for texts as meshd writes them; a key that is registered under
  several texts breaks it.
\<close>

definition proper_list :: "sync_env \<times> client_peer list \<Rightarrow> bool" where
  "proper_list l \<longleftrightarrow> distinct (map fst (usable (fst l) (snd l))) \<and> distinct (map snd (usable (fst l) (snd l)))"

definition last_usable :: "(sync_env \<times> client_peer list) list \<Rightarrow> (string \<times> addr) list" where
  "last_usable ls = (case ls of [] \<Rightarrow> [] | (env, ps) # _ \<Rightarrow> usable env ps)"

lemma in_line_lib: "table4 have \<Longrightarrow> in_line lib have t \<Longrightarrow> in_line lib' have t"
proof -
  assume v4: "table4 have" and line: "in_line lib have t"
  have "allowed_text lib (wp_mesh p) = allowed_text lib' (wp_mesh p)" if "have k = Some p" for k p
    using v4 that unfolding table4_def by (cases "wp_mesh p") (force simp: allowed_text_def)+
  then have "map_option (\<lambda>p. [allowed_text lib (wp_mesh p)]) (have k) = map_option (\<lambda>p. [allowed_text lib' (wp_mesh p)]) (have k)" for k
    by (cases "have k") simp_all
  then show "in_line lib' have t" using line by (simp add: in_line_def)
qed

lemma mesh_run_in_line:
  assumes "mesh_run ipc_set peers_of have dev ls" "obeys_uapi ipc_set peers_of" "\<forall>l \<in> set ls. proper_list l"
  shows "in_line lib have (peers_of dev) \<and> table4 have \<and> dom have = fst ` set (last_usable ls) \<and>
    (\<forall>k w. have k = Some w \<longrightarrow> (k, wp_mesh w) \<in> set (last_usable ls))"
  using assms
proof (induction arbitrary: lib)
  case (mesh_start dev)
  then show ?case by (simp add: in_line_def table4_def last_usable_def)
next
  case (mesh_refreshed tab dev ls order env ps n have' dev')
  have proper: "\<forall>l \<in> set ls. proper_list l" and dist: "distinct (map fst (usable env ps))" "distinct (map snd (usable env ps))"
    using mesh_refreshed.prems(2) by (simp_all add: proper_list_def)
  from mesh_refreshed.IH [OF mesh_refreshed.prems(1) proper, of "se_lib env"]
  have i: "in_line (se_lib env) tab (peers_of dev)" "table4 tab" by blast+
  from sync_peers_applied [OF mesh_refreshed.prems(1) i mesh_refreshed.hyps(2) dist mesh_refreshed.hyps(3)]
  have "in_line (se_lib env) have' (peers_of dev')" "table4 have'" "dom have' = fst ` set (usable env ps)"
    "\<forall>k w. have' k = Some w \<longrightarrow> (k, wp_mesh w) \<in> set (usable env ps)"
    by blast+
  then show ?case using in_line_lib [of have' "se_lib env"] by (simp add: last_usable_def)
next
  case (mesh_roamed tab dev ls dev' f)
  have "map_option we_allowed (peers_of dev' k) = map_option we_allowed (peers_of dev k)" for k
    unfolding mesh_roamed.hyps(2) roamed_def by (cases "peers_of dev k") simp_all
  then show ?case using mesh_roamed.IH [OF mesh_roamed.prems] by (simp add: in_line_def)
qed

text \<open>The key to which WireGuard encrypts a packet for an address.\<close>

definition encrypted_to :: "netip_lib \<Rightarrow> wg_peers \<Rightarrow> addr \<Rightarrow> string \<Rightarrow> bool" where
  "encrypted_to lib t a k \<longleftrightarrow> (case t k of None \<Rightarrow> False | Some e \<Rightarrow> allowed_text lib a \<in> set (we_allowed e))"

lemma encrypted_iff_listed:
  assumes "mesh_run ipc_set peers_of have dev ((env, ps) # ls)" "\<forall>l \<in> set ((env, ps) # ls). proper_list l"
    and "obeys_uapi ipc_set peers_of" "addr_is4 a"
  shows "encrypted_to lib (peers_of dev) a k \<longleftrightarrow> (\<exists>p \<in> set ps. usable_peer env p = Some (k, a))"
proof -
  note facts = mesh_run_in_line [OF assms(1,3,2)]
  from facts have line: "in_line lib have (peers_of dev)" for lib by blast
  from facts have tab: "table4 have" "dom have = fst ` set (usable env ps)"
    "\<And>k w. have k = Some w \<Longrightarrow> (k, wp_mesh w) \<in> set (usable env ps)" by (simp_all add: last_usable_def)
  have "encrypted_to lib (peers_of dev) a k \<longleftrightarrow> (\<exists>w. have k = Some w \<and> wp_mesh w = a)"
  proof
    assume "encrypted_to lib (peers_of dev) a k"
    then obtain e where e: "peers_of dev k = Some e" "allowed_text lib a \<in> set (we_allowed e)"
      unfolding encrypted_to_def by (auto split: option.splits)
    have "map_option we_allowed (peers_of dev k) = map_option (\<lambda>p. [allowed_text lib (wp_mesh p)]) (have k)"
      using line [of lib] unfolding in_line_def by (rule spec)
    then obtain w where w: "have k = Some w" "we_allowed e = [allowed_text lib (wp_mesh w)]"
      using e(1) by (cases "have k") auto
    then have "addr_is4 (wp_mesh w)" using tab(1) unfolding table4_def by blast
    from allowed_text_inj [OF assms(4) this, of lib] show "\<exists>w. have k = Some w \<and> wp_mesh w = a"
      using e(2) w by simp
  next
    assume "\<exists>w. have k = Some w \<and> wp_mesh w = a"
    then obtain w where w: "have k = Some w" "wp_mesh w = a" by blast
    have "map_option we_allowed (peers_of dev k) = Some [allowed_text lib a]"
      using line [of lib] w unfolding in_line_def by simp
    then show "encrypted_to lib (peers_of dev) a k" unfolding encrypted_to_def by (auto split: option.splits)
  qed
  also have "\<dots> \<longleftrightarrow> (k, a) \<in> set (usable env ps)"
  proof
    assume m: "(k, a) \<in> set (usable env ps)"
    then have "k \<in> dom have" unfolding tab(2) by force
    then obtain w where w: "have k = Some w" by blast
    have "inj_on fst (set (usable env ps))" using assms(2) by (simp add: proper_list_def distinct_map)
    from inj_onD [OF this _ tab(3) [OF w] m] show "\<exists>w. have k = Some w \<and> wp_mesh w = a" using w by simp
  qed (use tab(3) in blast)
  finally show ?thesis unfolding usable_mem .
qed

text \<open>
  C13. meshd keeps WireGuard in line with the control plane. After any sequence of refreshes
  that WireGuard accepts, of lists that each name no key and no address twice among the other
  machines, whatever peers come, go, move or roam, a packet for a mesh address
  is encrypted to a key exactly if the last list applied has another machine with that key
  and that address; so a machine that left is no longer reachable, and no address leads to
  two keys.
\<close>
theorem mesh_in_line:
  assumes "mesh_run ipc_set peers_of have dev ((env, ps) # ls)" "\<forall>l \<in> set ((env, ps) # ls). proper_list l"
    and "obeys_uapi ipc_set peers_of" "addr_is4 a"
  shows "(encrypted_to lib (peers_of dev) a k \<longleftrightarrow> (\<exists>p \<in> set ps. usable_peer env p = Some (k, a))) \<and>
    (encrypted_to lib (peers_of dev) a k \<and> encrypted_to lib (peers_of dev) a k' \<longrightarrow> k = k')"
proof -
  note e = encrypted_iff_listed [OF assms]
  have "inj_on snd (set (usable env ps))" using assms(2) by (simp add: proper_list_def distinct_map)
  then have "k = k'" if "encrypted_to lib (peers_of dev) a k" "encrypted_to lib (peers_of dev) a k'"
    using that inj_onD [of snd "set (usable env ps)" "(k, a)" "(k', a)"] unfolding e usable_mem [symmetric] by simp
  then show ?thesis using e by blast
qed

text \<open>One peer, listed once, and a WireGuard that does what its protocol says.\<close>

lemma go_parse_addr_show4: "go_parse_addr lib (show_addr4 a) = Some (V4 a)"
proof -
  have "List.find (\<lambda>c. c = CHR ''.'' \<or> c = CHR '':'' \<or> c = CHR ''%'') (show_addr4 a) = Some CHR ''.''"
    unfolding show_addr4_def append_Cons append_Nil
    using show_nat_no by (intro find_after_none) (auto simp: is_digit_def)
  then show ?thesis by (simp add: go_parse_addr_def parse4_show)
qed

definition model_set :: "uapi \<Rightarrow> wg_peers \<Rightarrow> (string \<times> wg_peers) + wg_peers" where
  "model_set cfg t = Inr (uapi_apply cfg t)"

lemma model_obeys: "obeys_uapi model_set (\<lambda>t. t)"
  by (simp add: obeys_uapi_def model_set_def)

lemma model_accepts: "\<exists>n have' dev'. sync_peers env model_set order ps s = (Inr n, have', dev')"
  by (simp add: sync_peers_def Let_def model_set_def split: prod.split)

definition demo_key :: octets where
  "demo_key = replicate 32 1"

definition demo_client_peer :: client_peer where
  "demo_client_peer =
     \<lparr>cp_id = ''p1'', cp_name = ''web-1'', cp_key = b64_encode demo_key, cp_mesh_ip = show_addr4 0x0ACB0002,
      cp_endpoint = '''', cp_direct = False, cp_nat = ''''\<rparr>"

definition demo_sync :: sync_env where
  "demo_sync = \<lparr>se_lib = demo_lib, se_own = ''p0'', se_now = 0, se_relay_up = True, se_handshake = (\<lambda>k. None)\<rparr>"

lemma demo_usable: "usable_peer demo_sync demo_client_peer = Some (hex_encode demo_key, V4 0x0ACB0002)"
  by (simp add: usable_peer_def demo_sync_def demo_client_peer_def hex_key_encode demo_key_def go_parse_addr_show4)

theorem mesh_in_line_witness:
  "\<exists>have dev. mesh_run model_set (\<lambda>t. t) have dev [(demo_sync, [demo_client_peer])] \<and>
     encrypted_to demo_lib dev (V4 0x0ACB0002) (hex_encode demo_key)"
proof -
  obtain n have' dev' where s: "sync_peers demo_sync model_set [] [demo_client_peer] (\<lambda>k. None, \<lambda>k. None) = (Inr n, have', dev')"
    using model_accepts by blast
  have "mesh_run model_set (\<lambda>t. t) (\<lambda>k. None) (\<lambda>k. None) []" by (rule mesh_start) simp
  from mesh_refreshed [OF this _ s]
  have run: "mesh_run model_set (\<lambda>t. t) have' dev' [(demo_sync, [demo_client_peer])]" by simp
  have "\<forall>l \<in> set [(demo_sync, [demo_client_peer])]. proper_list l" by (simp add: proper_list_def usable_def demo_usable)
  from mesh_in_line [OF run this model_obeys, of "V4 0x0ACB0002" demo_lib "hex_encode demo_key"] run demo_usable
  show ?thesis by auto
qed

section \<open>Which way to a peer\<close>

text \<open>What WireGuard is given for one peer over successive lists, with what each sync reads.\<close>

definition follow :: "string \<Rightarrow> addr \<Rightarrow> (sync_env \<times> client_peer) list \<Rightarrow> wg_peer option \<Rightarrow> wg_peer option" where
  "follow k a ls w = fold (\<lambda>(env, p) w. Some (want_peer env p k a w)) ls w"

text \<open>The relay is up, and neither the time to punch through nor the last handshake is recent.\<close>

definition overdue :: "string \<Rightarrow> int \<Rightarrow> sync_env \<Rightarrow> bool" where
  "overdue k since env \<longleftrightarrow>
     se_relay_up env \<and> punch_budget < se_now env - since \<and> handshake_stale < se_now env - coalesce (se_handshake env k) zero_time"

lemma want_first:
  "valid_ap (listed_endpoint env p) \<Longrightarrow>
    want_peer env p k a None = \<lparr>wp_mesh = a, wp_endpoint = listed_endpoint env p, wp_since = se_now env, wp_relayed = False\<rparr>"
  by (simp add: want_peer_def Let_def punch_budget_def second_ns_def)

lemma want_moved:
  "valid_ap (listed_endpoint env p) \<Longrightarrow> listed_endpoint env p \<noteq> wp_endpoint w \<Longrightarrow>
    want_peer env p k a (Some w) = \<lparr>wp_mesh = a, wp_endpoint = listed_endpoint env p, wp_since = se_now env, wp_relayed = False\<rparr>"
  by (simp add: want_peer_def Let_def punch_budget_def second_ns_def)

lemma want_same:
  "valid_ap (wp_endpoint w) \<Longrightarrow> listed_endpoint env p = wp_endpoint w \<or> \<not> valid_ap (listed_endpoint env p) \<Longrightarrow>
    want_peer env p k a (Some w) =
      \<lparr>wp_mesh = a, wp_endpoint = wp_endpoint w, wp_since = wp_since w, wp_relayed = (wp_relayed w \<or> overdue k (wp_since w) env)\<rparr>"
  by (auto simp: want_peer_def Let_def overdue_def)

lemma follow_same:
  assumes "\<forall>(env, p) \<in> set ls. listed_endpoint env p = wp_endpoint w \<or> \<not> valid_ap (listed_endpoint env p)" "valid_ap (wp_endpoint w)" "wp_mesh w = a"
  shows "follow k a ls (Some w) =
    Some (w\<lparr>wp_relayed := wp_relayed w \<or> (\<exists>(env, p) \<in> set ls. overdue k (wp_since w) env)\<rparr>)"
  using assms
proof (induction ls arbitrary: w)
  case (Cons l ls)
  obtain env p where l: "l = (env, p)" by (cases l) auto
  let ?w = "w\<lparr>wp_relayed := wp_relayed w \<or> overdue k (wp_since w) env\<rparr>"
  have "want_peer env p k a (Some w) = ?w" using Cons.prems l want_same [of w env p k a] by simp
  then have "follow k a (l # ls) (Some w) = follow k a ls (Some ?w)" by (simp add: follow_def l)
  also have "\<dots> = Some (?w\<lparr>wp_relayed := wp_relayed ?w \<or> (\<exists>(env, p) \<in> set ls. overdue k (wp_since ?w) env)\<rparr>)"
    using Cons.prems by (intro Cons.IH) auto
  finally show ?case by (simp add: l disj_assoc)
qed (simp add: follow_def)

lemma follow_unlisted:
  assumes "\<forall>(env, p) \<in> set ls. \<not> valid_ap (listed_endpoint env p)" "\<not> valid_ap (wp_endpoint w)"
  shows "map_option wp_relayed (follow k a ls (Some w)) = Some (wp_relayed w \<or> (\<exists>(env, p) \<in> set ls. se_relay_up env))"
  using assms
proof (induction ls arbitrary: w)
  case (Cons l ls)
  obtain env p where l: "l = (env, p)" by (cases l) auto
  let ?w = "want_peer env p k a (Some w)"
  have w: "wp_endpoint ?w = wp_endpoint w" "wp_relayed ?w = (wp_relayed w \<or> se_relay_up env)"
    using Cons.prems l by (auto simp: want_peer_def Let_def)
  have "follow k a (l # ls) (Some w) = follow k a ls (Some ?w)" by (simp add: follow_def l)
  then show ?case using Cons.IH [of ?w] Cons.prems w by (simp add: l disj_assoc)
qed (simp add: follow_def)

text \<open>
  C31. A peer that cannot be reached directly is relayed, in time and only then. Over any
  successive lists that give a peer the same endpoint, or after the first none, meshd keeps
  sending to that endpoint
  until a refresh finds the relay up, the endpoint more than 20 seconds old and no handshake
  for 3 minutes; from that refresh on it keeps the peer on the relay, and it goes back to the
  direct way as soon as a list gives another endpoint. Over any successive lists that give
  a peer no endpoint, it is relayed from the first refresh on that finds the relay up.
\<close>
theorem relay_fallback:
  assumes "listed_endpoint env0 p0 = ap" "valid_ap ap"
    and "\<forall>(env, p) \<in> set ls. listed_endpoint env p = ap \<or> \<not> valid_ap (listed_endpoint env p)"
    and "us \<noteq> []" "\<forall>(env, p) \<in> set us. \<not> valid_ap (listed_endpoint env p)"
  shows "follow k a ((env0, p0) # ls) None =
      Some \<lparr>wp_mesh = a, wp_endpoint = ap, wp_since = se_now env0,
        wp_relayed = (\<exists>(env, p) \<in> set ls. overdue k (se_now env0) env)\<rparr> \<and>
    (valid_ap (listed_endpoint env' p') \<and> listed_endpoint env' p' \<noteq> ap \<longrightarrow>
      follow k a (((env0, p0) # ls) @ [(env', p')]) None =
        Some \<lparr>wp_mesh = a, wp_endpoint = listed_endpoint env' p', wp_since = se_now env', wp_relayed = False\<rparr>) \<and>
    map_option wp_relayed (follow k a us None) = Some (\<exists>(env, p) \<in> set us. se_relay_up env)"
proof -
  let ?w = "\<lparr>wp_mesh = a, wp_endpoint = ap, wp_since = se_now env0, wp_relayed = False\<rparr>"
  have "want_peer env0 p0 k a None = ?w" using assms(1,2) want_first [of env0 p0 k a] by simp
  then have "follow k a ((env0, p0) # ls) None = follow k a ls (Some ?w)" by (simp add: follow_def)
  also have "\<dots> = Some \<lparr>wp_mesh = a, wp_endpoint = ap, wp_since = se_now env0,
      wp_relayed = (\<exists>(env, p) \<in> set ls. overdue k (se_now env0) env)\<rparr>"
    using assms(2,3) follow_same [of ls ?w a k] by simp
  finally have f: "follow k a ((env0, p0) # ls) None = Some \<lparr>wp_mesh = a, wp_endpoint = ap, wp_since = se_now env0,
      wp_relayed = (\<exists>(env, p) \<in> set ls. overdue k (se_now env0) env)\<rparr>" .
  have moved: "follow k a (((env0, p0) # ls) @ [(env', p')]) None = Some (want_peer env' p' k a (follow k a ((env0, p0) # ls) None))"
    by (simp add: follow_def)
  have "map_option wp_relayed (follow k a us None) = Some (\<exists>(env, p) \<in> set us. se_relay_up env)"
  proof -
    obtain env p vs where us: "us = (env, p) # vs" using assms(4) by (cases us) auto
    let ?v = "want_peer env p k a None"
    have "\<not> valid_ap (wp_endpoint ?v)" "wp_relayed ?v = se_relay_up env"
      using assms(5) by (simp_all add: us want_peer_def Let_def no_wg_peer_def no_addr_port_def valid_ap_def)
    moreover have "follow k a us None = follow k a vs (Some ?v)" by (simp add: follow_def us)
    ultimately show ?thesis using follow_unlisted [of vs ?v k a] assms(5) by (simp add: us)
  qed
  with moved show ?thesis using want_moved [of env' p' _ k a] unfolding f by auto
qed

lemma show_addr4_head: "show_addr4 a \<noteq> []" "hd (show_addr4 a) \<noteq> CHR ''[''"
proof -
  have "is_digit (hd (show_nat n))" for n
    using show_nat_digits [of n] show_nat_nonempty [of n] by (cases "show_nat n") auto
  moreover have "\<not> is_digit CHR ''[''" by (simp add: is_digit_def)
  moreover have "hd (show_addr4 a) = hd (show_nat (unat a div 2 ^ 24))" by (simp only: show_addr4_def hd_append2 show_nat_nonempty not_False_eq_True)
  ultimately show "hd (show_addr4 a) \<noteq> CHR ''[''" by metis
  show "show_addr4 a \<noteq> []" by (simp add: show_addr4_def)
qed

lemma go_port_show: "p < 65536 \<Longrightarrow> go_port (show_nat p) = Some p"
  by (simp add: go_port_def show_nat_nonempty show_nat_digits digits_show_nat)

lemma parse_show_addr_port:
  assumes "p < 65536"
  shows "go_parse_addr_port lib (show_addr_port lib (V4 a, p)) = Some (V4 a, p)"
proof -
  have no: "\<forall>c \<in> set (rev (show_nat p)). c \<noteq> CHR '':''" using show_nat_no [of "CHR '':''" p] by (auto simp: is_digit_def)
  have rev: "rev (show_addr_port lib (V4 a, p)) = rev (show_nat p) @ CHR '':'' # rev (show_addr4 a)" by simp
  have "dropWhile (\<lambda>c. c \<noteq> CHR '':'') (rev (show_nat p) @ CHR '':'' # rev (show_addr4 a)) = CHR '':'' # rev (show_addr4 a)"
    "takeWhile (\<lambda>c. c \<noteq> CHR '':'') (rev (show_nat p) @ CHR '':'' # rev (show_addr4 a)) = rev (show_nat p)"
    using no by (subst takeWhile_append2 dropWhile_append2; simp)+
  then show ?thesis unfolding go_parse_addr_port_def rev
    using assms show_addr4_head [of a] by (simp add: Let_def go_port_show go_parse_addr_show4)
qed

definition punching_peer :: client_peer where
  "punching_peer = demo_client_peer\<lparr>cp_nat := show_addr_port demo_lib (V4 0xCB007107, 40001)\<rparr>"

theorem relay_fallback_witness:
  "map_option wp_relayed
     (follow ''k'' (V4 0x0ACB0002) [(demo_sync, punching_peer), (demo_sync\<lparr>se_now := 30 * second_ns\<rparr>, punching_peer)] None) = Some True \<and>
   map_option wp_relayed
     (follow ''k'' (V4 0x0ACB0002) [(demo_sync\<lparr>se_relay_up := False\<rparr>, demo_client_peer), (demo_sync, demo_client_peer)] None) = Some True"
proof -
  have l: "listed_endpoint (demo_sync\<lparr>se_now := n\<rparr>) punching_peer = (V4 0xCB007107, 40001)" for n
    using parse_show_addr_port [of 40001 demo_lib "0xCB007107"] show_addr4_head [of "0xCB007107"]
    by (simp add: listed_endpoint_def punching_peer_def demo_client_peer_def demo_sync_def)
  have l0: "listed_endpoint demo_sync punching_peer = (V4 0xCB007107, 40001)" using l [of 0] by (simp add: demo_sync_def)
  have over: "overdue ''k'' 0 (demo_sync\<lparr>se_now := 30 * second_ns\<rparr>)"
    by (simp add: overdue_def demo_sync_def punch_budget_def handshake_stale_def second_ns_def zero_time_def)
  have none: "\<forall>(env, p) \<in> set [(demo_sync\<lparr>se_relay_up := False\<rparr>, demo_client_peer), (demo_sync, demo_client_peer)].
      \<not> valid_ap (listed_endpoint env p)"
    by (simp add: listed_endpoint_def demo_client_peer_def no_addr_port_def valid_ap_def)
  have "se_now demo_sync = 0" "se_relay_up demo_sync" by (simp_all add: demo_sync_def)
  moreover have "valid_ap (V4 0xCB007107, 40001)" by (simp add: valid_ap_def)
  moreover have "\<forall>(env, p) \<in> set [(demo_sync\<lparr>se_now := 30 * second_ns\<rparr>, punching_peer)].
      listed_endpoint env p = (V4 0xCB007107, 40001) \<or> \<not> valid_ap (listed_endpoint env p)" using l by simp
  ultimately show ?thesis
    using relay_fallback [OF l0 _ _ _ none, of "[(demo_sync\<lparr>se_now := 30 * second_ns\<rparr>, punching_peer)]" "''k''" "V4 0x0ACB0002"] over
    by simp
qed

text \<open>
  The record meshd decodes from the JSON of a peer, of which the console makes its own; what
  is absent is an empty string in Go.
\<close>

definition client_peer_of :: "peer \<Rightarrow> client_peer" where
  "client_peer_of p =
     \<lparr>cp_id = p_id p, cp_name = p_name p, cp_key = p_public_key p, cp_mesh_ip = p_mesh_ip p,
      cp_endpoint = coalesce (p_endpoint p) [], cp_direct = p_direct_reachable p, cp_nat = coalesce (p_nat_endpoint p) []\<rparr>"

definition readable :: "netip_lib \<Rightarrow> string \<Rightarrow> bool" where
  "readable lib s \<longleftrightarrow> (case go_parse_addr_port lib s of None \<Rightarrow> s = [] | Some ap \<Rightarrow> valid_ap ap)"

text \<open>
  C40. The path shown for a machine is the one meshd takes. For a peer that has reported an
  endpoint, when meshd can read the endpoints it is given and the relay is up, the console
  shows Direct, Hole punch or Relayed exactly as a node that meets that peer sends to its
  endpoint, to its NAT mapping, or through the relay.
\<close>
theorem path_mirrors_meshd:
  assumes "p_endpoint p = Some e" "e \<noteq> []" "se_relay_up env"
    and "readable (se_lib env) e" "readable (se_lib env) (coalesce (p_nat_endpoint p) [])"
  shows "let w = want_peer env (client_peer_of p) k a None in
    case path p of
      Some Direct \<Rightarrow> go_parse_addr_port (se_lib env) e = Some (wp_endpoint w) \<and> \<not> wp_relayed w
    | Some Hole_punch \<Rightarrow> go_parse_addr_port (se_lib env) (coalesce (p_nat_endpoint p) []) = Some (wp_endpoint w) \<and> \<not> wp_relayed w
    | _ \<Rightarrow> wp_relayed w"
proof -
  have "\<exists>ap. go_parse_addr_port (se_lib env) s = Some ap \<and> valid_ap ap" if "readable (se_lib env) s" "s \<noteq> []" for s
    using that by (cases "go_parse_addr_port (se_lib env) s") (simp_all add: readable_def del: split_paired_Ex)
  from this [of e] this [of "coalesce (p_nat_endpoint p) []"] assms show ?thesis
    by (auto simp: path_def want_peer_def client_peer_of_def listed_endpoint_def Let_def punch_budget_def second_ns_def
        no_wg_peer_def no_addr_port_def valid_ap_def)
qed

definition demo_console_peer :: peer where
  "demo_console_peer =
     \<lparr>p_id = ''7d9f3a52-0000-4000-8000-000000000001'', p_name = ''web-1'', p_public_key = ''pk'',
      p_mesh_ip = ''10.203.0.2'', p_created_at = ''2026-01-01T00:00:00Z'', p_direct_reachable = False,
      p_endpoint = Some (show_addr_port demo_lib (V4 0xC0A80104, 51820)), p_endpoint_updated_at = Some ''2026-01-01T00:05:00Z'',
      p_nat_endpoint = Some (show_addr_port demo_lib (V4 0xCB007107, 40001))\<rparr>"

theorem path_mirrors_meshd_witness:
  "path demo_console_peer = Some Hole_punch \<and>
   wp_endpoint (want_peer demo_sync (client_peer_of demo_console_peer) ''k'' (V4 0x0ACB0002) None) = (V4 0xCB007107, 40001)"
proof -
  have show4: "show_addr_port demo_lib (V4 x, n) \<noteq> []" for x n by simp
  have r: "readable (se_lib demo_sync) (show_addr_port demo_lib (V4 x, n))" if "n < 65536" for x n
    using that parse_show_addr_port [of n demo_lib x] by (simp add: readable_def demo_sync_def valid_ap_def del: show_addr_port.simps)
  have path: "path demo_console_peer = Some Hole_punch"
    by (simp add: path_def demo_console_peer_def)
  let ?e = "show_addr_port demo_lib (V4 0xC0A80104, 51820)" and ?n = "show_addr_port demo_lib (V4 0xCB007107, 40001)"
  have e: "p_endpoint demo_console_peer = Some ?e" and n: "coalesce (p_nat_endpoint demo_console_peer) [] = ?n"
    by (simp_all add: demo_console_peer_def)
  have up: "se_relay_up demo_sync" and lib: "se_lib demo_sync = demo_lib" by (simp_all add: demo_sync_def)
  have "readable (se_lib demo_sync) ?e" "readable (se_lib demo_sync) (coalesce (p_nat_endpoint demo_console_peer) [])"
    unfolding n by (rule r; simp)+
  from path_mirrors_meshd [OF e show4 up this] have "go_parse_addr_port demo_lib ?n =
      Some (wp_endpoint (want_peer demo_sync (client_peer_of demo_console_peer) ''k'' (V4 0x0ACB0002) None))"
    unfolding Let_def path n lib by simp
  then show ?thesis using path parse_show_addr_port [of 40001 demo_lib "0xCB007107"] by (simp del: show_addr_port.simps)
qed

section \<open>Two texts of one key\<close>

text \<open>
  The control plane compares public keys as texts, but a key has several: the decoder skips
  line ends and drops the last bits. Of two machines listed with texts of one key the later
  takes the place of the earlier in every WireGuard, whose address then leads nowhere.
\<close>

lemma two_texts_one_key:
  "replicate 43 CHR ''A'' @ ''='' \<noteq> replicate 42 CHR ''A'' @ ''B=''"
  "hex_key (replicate 43 CHR ''A'' @ ''='') = hex_key (replicate 42 CHR ''A'' @ ''B='')"
  "hex_key (replicate 43 CHR ''A'' @ ''='') \<noteq> None"
  by code_simp+

lemma same_key_hides:
  assumes obeys: "obeys_uapi ipc_set peers_of" and start: "peers_of dev = (\<lambda>k. None)"
    and p: "usable_peer env p = Some (k, a)" and q: "usable_peer env q = Some (k, b)" and "a \<noteq> b"
    and ok: "sync_peers env ipc_set [] [p, q] ((\<lambda>k. None), dev) = (Inr n, tab, dev')"
  shows "\<not> encrypted_to lib (peers_of dev') a j"
proof -
  let ?v = "want_peer env p k a None" and ?w = "want_peer env q k b None"
  let ?l = "peer_lines (se_lib env) k ?v None" and ?m = "peer_lines (se_lib env) k ?w None"
  have ne: "?l \<noteq> []" "?m \<noteq> []" by (simp_all add: peer_lines_def Let_def)
  have "ipc_set (?l @ ?m) dev = Inr dev'"
    using ok ne p q by (auto simp: sync_peers_def sync_peer_def Let_def split: sum.splits prod.splits)
  then have "peers_of dev' = uapi_apply ?m (uapi_apply ?l (\<lambda>k. None))"
    using obeys start uapi_apply_append [OF section_peer_lines] unfolding obeys_uapi_def by metis
  then have e: "peers_of dev' = (\<lambda>j. if j = k then Some (entry_of (se_lib env) ?w None (coalesce (uapi_apply ?l (\<lambda>k. None) k) new_entry)) else None)"
    unfolding uapi_peer_lines [OF ne(2)] uapi_peer_lines [OF ne(1)] by (auto simp: fun_eq_iff)
  have "wp_mesh ?w = b" by (simp add: want_peer_def Let_def)
  moreover have "allowed_text lib a \<noteq> allowed_text (se_lib env) b"
    using usable_peer_is4 [OF p] usable_peer_is4 [OF q] \<open>a \<noteq> b\<close>
    by (cases a; cases b) (simp_all add: allowed_text_def show_addr4_inj)
  ultimately show ?thesis by (simp add: encrypted_to_def e entry_of_def)
qed

end
