(* ===== verification/MeshClient.thy ===== *)
theory MeshClient
  imports ControlLink MeshSync
begin

text \<open>
  The client of the control plane's API that meshd uses (\<open>internal/client/client.go\<close>): its base
  address, its calls, and how it reads an answer into a Go struct. What carries a call is an
  argument of it, with a state of its own; \<open>plane_net\<close> is the control plane itself as that
  argument, so that the calls compose with its handlers.
\<close>

section \<open>The base address\<close>

definition default_base_url :: string where
  "default_base_url = ''http://localhost:8090''"

definition is_letter :: "char \<Rightarrow> bool" where
  "is_letter c \<longleftrightarrow> (let n = of_char c :: nat in (97 \<le> n \<and> n \<le> 122) \<or> (65 \<le> n \<and> n \<le> 90))"

text \<open>The loop of \<open>hasScheme\<close>; \<open>i\<close> counts the characters before.\<close>

fun scheme_from :: "nat \<Rightarrow> string \<Rightarrow> bool" where
  "scheme_from i [] = False"
| "scheme_from i (c # s) =
     (if is_letter c then scheme_from (i + 1) s
      else if is_digit c \<or> c \<in> {CHR ''+'', CHR ''-'', CHR ''.''} then (if i = 0 then False else scheme_from (i + 1) s)
      else if c = CHR '':'' then 0 < i \<and> starts_with (c # s) ''://''
      else False)"

definition has_scheme :: "string \<Rightarrow> bool" where
  "has_scheme s = scheme_from 0 s"

definition trim_slashes :: "string \<Rightarrow> string" where
  "trim_slashes s = rev (dropWhile (\<lambda>c. c = CHR ''/'') (rev s))"

definition new_client :: "string \<Rightarrow> string" where
  "new_client raw =
     (let t = go_trim raw; u = (if t = '''' then default_base_url else t) in
      trim_slashes (if has_scheme u then u else ''http://'' @ u))"

section \<open>Reading an answer\<close>

text \<open>
  \<open>json.Unmarshal\<close> into a struct: unknown keys are skipped, null leaves a field as it is, and a
  value of the wrong type is an error. A time is read by its own parser, an argument.
\<close>

datatype node_type = NString | NInt | NBool | NTime

fun node_fits :: "(string \<Rightarrow> int option) \<Rightarrow> node_type \<Rightarrow> json \<Rightarrow> bool" where
  "node_fits tm NString (JStr s) = True"
| "node_fits tm NInt (JNum n) = (- (2 ^ 63) \<le> n \<and> n < 2 ^ 63)"
| "node_fits tm NBool (JBool b) = True"
| "node_fits tm NTime (JStr s) = (tm s \<noteq> None)"
| "node_fits tm _ _ = False"

type_synonym node_spec = "(string \<times> node_type) list"

fun node_fields :: "(string \<Rightarrow> int option) \<Rightarrow> node_spec \<Rightarrow> (string \<times> json) list \<Rightarrow> (string \<times> json) list \<Rightarrow> (string \<times> json) list option" where
  "node_fields tm spec acc [] = Some acc"
| "node_fields tm spec acc ((k, v) # fs) =
     (case field_of spec k of
        None \<Rightarrow> node_fields tm spec acc fs
      | Some (n, t) \<Rightarrow>
          if v = JNull then node_fields tm spec acc fs
          else if node_fits tm t v then node_fields tm spec ((n, v) # acc) fs
          else None)"

fun unmarshal :: "(string \<Rightarrow> int option) \<Rightarrow> node_spec \<Rightarrow> json \<Rightarrow> (string \<times> json) list option" where
  "unmarshal tm spec JNull = Some []"
| "unmarshal tm spec (JObj fs) = node_fields tm spec [] fs"
| "unmarshal tm spec _ = None"

definition bool_field :: "(string \<times> json) list \<Rightarrow> string \<Rightarrow> bool" where
  "bool_field vs n = (lookup vs n = Some (JBool True))"

definition time_field :: "(string \<Rightarrow> int option) \<Rightarrow> (string \<times> json) list \<Rightarrow> string \<Rightarrow> int" where
  "time_field tm vs n = (case lookup vs n of Some (JStr s) \<Rightarrow> coalesce (tm s) zero_time | _ \<Rightarrow> zero_time)"

section \<open>One call\<close>

record client_call =
  cc_method :: string
  cc_url :: string
  cc_body :: "json option"

text \<open>An answer: its status, the status line, and what is read of its body as JSON, if it is.\<close>

record client_response =
  cs_status :: nat
  cs_line :: string
  cs_body :: "json option"

text \<open>What carries a call: an error before an answer is read comes with its message.\<close>

type_synonym 's transport = "client_call \<Rightarrow> 's \<Rightarrow> (string + client_response) \<times> 's"

datatype client_error = Refused nat string | Unanswered string

fun client_error_text :: "client_error \<Rightarrow> string" where
  "client_error_text (Refused st m) = ''control plane: '' @ m @ '' (HTTP '' @ show_nat st @ '')''"
| "client_error_text (Unanswered m) = m"

definition api_message :: "json option \<Rightarrow> string \<Rightarrow> string" where
  "api_message b line =
     (case b of
        None \<Rightarrow> line
      | Some j \<Rightarrow>
          (case unmarshal (\<lambda>s. None) [(''error'', NString)] j of
             None \<Rightarrow> line
           | Some vs \<Rightarrow> if str_field vs ''error'' \<noteq> '''' then str_field vs ''error'' else line))"

text \<open>\<open>do\<close>, with the reading of the answer's body into what the call returns.\<close>

definition client_do ::
  "'s transport \<Rightarrow> string \<Rightarrow> string \<Rightarrow> string \<Rightarrow> json option \<Rightarrow> (json \<Rightarrow> 'a option) \<Rightarrow> 's \<Rightarrow> (client_error + 'a) \<times> 's" where
  "client_do net base meth pth b read s =
     (case net \<lparr>cc_method = meth, cc_url = base @ pth, cc_body = b\<rparr> s of
        (Inl e, s') \<Rightarrow> (Inl (Unanswered e), s')
      | (Inr r, s') \<Rightarrow>
          if cs_status r < 200 \<or> 300 \<le> cs_status r
          then (Inl (Refused (cs_status r) (api_message (cs_body r) (cs_line r))), s')
          else
            (case (case cs_body r of None \<Rightarrow> None | Some j \<Rightarrow> read j) of
               None \<Rightarrow> (Inl (Unanswered ''decode response''), s')
             | Some x \<Rightarrow> (Inr x, s')))"

section \<open>The calls\<close>

record client_tenant =
  ct_id :: string
  ct_name :: string
  ct_cidr :: string
  ct_created :: int

record client_token =
  ck_id :: string
  ck_tenant :: string
  ck_secret :: string
  ck_max_uses :: int
  ck_expires :: int

record client_registration =
  cr_peer :: string
  cr_tenant :: string
  cr_tenant_name :: string
  cr_name :: string
  cr_key :: string
  cr_mesh_ip :: string
  cr_mesh_cidr :: string
  cr_created :: int

text \<open>\<open>EndpointReport\<close>: a peer, with the port that answers binding requests.\<close>

type_synonym endpoint_report = "client_peer \<times> int"

record relay_grant =
  gr_token :: string
  gr_port :: int

definition read_tenant :: "(string \<Rightarrow> int option) \<Rightarrow> json \<Rightarrow> client_tenant option" where
  "read_tenant tm j =
     map_option (\<lambda>vs. \<lparr>ct_id = str_field vs ''id'', ct_name = str_field vs ''name'', ct_cidr = str_field vs ''cidr'',
        ct_created = time_field tm vs ''created_at''\<rparr>)
       (unmarshal tm [(''id'', NString), (''name'', NString), (''cidr'', NString), (''created_at'', NTime)] j)"

definition read_token :: "(string \<Rightarrow> int option) \<Rightarrow> json \<Rightarrow> client_token option" where
  "read_token tm j =
     map_option (\<lambda>vs. \<lparr>ck_id = str_field vs ''id'', ck_tenant = str_field vs ''tenant_id'', ck_secret = str_field vs ''token'',
        ck_max_uses = int_field vs ''max_uses'', ck_expires = time_field tm vs ''expires_at''\<rparr>)
       (unmarshal tm [(''id'', NString), (''tenant_id'', NString), (''token'', NString), (''max_uses'', NInt), (''expires_at'', NTime)] j)"

definition read_registration :: "(string \<Rightarrow> int option) \<Rightarrow> json \<Rightarrow> client_registration option" where
  "read_registration tm j =
     map_option (\<lambda>vs. \<lparr>cr_peer = str_field vs ''peer_id'', cr_tenant = str_field vs ''tenant_id'',
        cr_tenant_name = str_field vs ''tenant_name'', cr_name = str_field vs ''name'', cr_key = str_field vs ''public_key'',
        cr_mesh_ip = str_field vs ''mesh_ip'', cr_mesh_cidr = str_field vs ''mesh_cidr'', cr_created = time_field tm vs ''created_at''\<rparr>)
       (unmarshal tm [(''peer_id'', NString), (''tenant_id'', NString), (''tenant_name'', NString), (''name'', NString),
          (''public_key'', NString), (''mesh_ip'', NString), (''mesh_cidr'', NString), (''created_at'', NTime)] j)"

text \<open>The fields of a peer; meshd does not read when it was created.\<close>

definition peer_spec :: node_spec where
  "peer_spec =
     [(''peer_id'', NString), (''name'', NString), (''public_key'', NString), (''mesh_ip'', NString), (''endpoint'', NString),
      (''direct_reachable'', NBool), (''nat_endpoint'', NString), (''created_at'', NTime)]"

definition peer_fields :: "(string \<times> json) list \<Rightarrow> client_peer" where
  "peer_fields vs =
     \<lparr>cp_id = str_field vs ''peer_id'', cp_name = str_field vs ''name'', cp_key = str_field vs ''public_key'',
      cp_mesh_ip = str_field vs ''mesh_ip'', cp_endpoint = str_field vs ''endpoint'',
      cp_direct = bool_field vs ''direct_reachable'', cp_nat = str_field vs ''nat_endpoint''\<rparr>"

definition read_peer :: "(string \<Rightarrow> int option) \<Rightarrow> json \<Rightarrow> client_peer option" where
  "read_peer tm j = map_option peer_fields (unmarshal tm peer_spec j)"

definition read_report :: "(string \<Rightarrow> int option) \<Rightarrow> json \<Rightarrow> endpoint_report option" where
  "read_report tm j =
     map_option (\<lambda>vs. (peer_fields vs, int_field vs ''probe_port'')) (unmarshal tm (peer_spec @ [(''probe_port'', NInt)]) j)"

definition read_grant :: "json \<Rightarrow> relay_grant option" where
  "read_grant j =
     map_option (\<lambda>vs. \<lparr>gr_token = str_field vs ''relay_token'', gr_port = int_field vs ''relay_port''\<rparr>)
       (unmarshal (\<lambda>s. None) [(''relay_token'', NString), (''relay_port'', NInt)] j)"

fun read_list :: "('j \<Rightarrow> 'a option) \<Rightarrow> 'j list \<Rightarrow> 'a list option" where
  "read_list f [] = Some []"
| "read_list f (j # js) = (case (f j, read_list f js) of (Some x, Some xs) \<Rightarrow> Some (x # xs) | _ \<Rightarrow> None)"

text \<open>An object with the list under a key; no list is an empty one, and the last one counts.\<close>

fun read_peer_lists :: "(string \<Rightarrow> int option) \<Rightarrow> client_peer list \<Rightarrow> (string \<times> json) list \<Rightarrow> client_peer list option" where
  "read_peer_lists tm acc [] = Some acc"
| "read_peer_lists tm acc ((k, v) # fs) =
     (if to_lower k \<noteq> ''peers'' then read_peer_lists tm acc fs
      else
        (case v of
           JNull \<Rightarrow> read_peer_lists tm [] fs
         | JArr js \<Rightarrow> (case read_list (read_peer tm) js of None \<Rightarrow> None | Some ps \<Rightarrow> read_peer_lists tm ps fs)
         | _ \<Rightarrow> None))"

fun read_peers :: "(string \<Rightarrow> int option) \<Rightarrow> json \<Rightarrow> client_peer list option" where
  "read_peers tm JNull = Some []"
| "read_peers tm (JObj fs) = read_peer_lists tm [] fs"
| "read_peers tm _ = None"

text \<open>A client is its base address here, with the carrier and the reading of times.\<close>

record 's client =
  cl_base :: string
  cl_net :: "'s transport"
  cl_time :: "string \<Rightarrow> int option"

definition node_create_tenant :: "'s client \<Rightarrow> string \<Rightarrow> string \<Rightarrow> 's \<Rightarrow> (client_error + client_tenant) \<times> 's" where
  "node_create_tenant c name cidr =
     client_do (cl_net c) (cl_base c) ''POST'' ''/v1/tenants''
       (Some (JObj ((''name'', JStr name) # (if cidr = '''' then [] else [(''cidr'', JStr cidr)])))) (read_tenant (cl_time c))"

definition node_create_token :: "'s client \<Rightarrow> string \<Rightarrow> int \<Rightarrow> int \<Rightarrow> 's \<Rightarrow> (client_error + client_token) \<times> 's" where
  "node_create_token c t ttl uses =
     client_do (cl_net c) (cl_base c) ''POST'' (''/v1/tenants/'' @ t @ ''/tokens'')
       (Some (JObj [(''ttl_seconds'', JNum (ttl div second_ns)), (''max_uses'', JNum uses)])) (read_token (cl_time c))"

definition node_register_peer :: "'s client \<Rightarrow> string \<Rightarrow> string \<Rightarrow> string \<Rightarrow> 's \<Rightarrow> (client_error + client_registration) \<times> 's" where
  "node_register_peer c token name key =
     client_do (cl_net c) (cl_base c) ''POST'' ''/v1/peers/register''
       (Some (JObj [(''token'', JStr token), (''name'', JStr name), (''public_key'', JStr key)])) (read_registration (cl_time c))"

definition node_update_endpoint :: "'s client \<Rightarrow> string \<Rightarrow> int \<Rightarrow> 's \<Rightarrow> (client_error + endpoint_report) \<times> 's" where
  "node_update_endpoint c p port =
     client_do (cl_net c) (cl_base c) ''POST'' (''/v1/peers/'' @ p @ ''/endpoint'')
       (Some (JObj [(''udp_port'', JNum port)])) (read_report (cl_time c))"

definition node_update_nat :: "'s client \<Rightarrow> netip_lib \<Rightarrow> string \<Rightarrow> addr_port \<Rightarrow> 's \<Rightarrow> (client_error + client_peer) \<times> 's" where
  "node_update_nat c lib p ap =
     client_do (cl_net c) (cl_base c) ''POST'' (''/v1/peers/'' @ p @ ''/nat-endpoint'')
       (Some (JObj [(''endpoint'', JStr (show_addr_port lib ap))])) (read_peer (cl_time c))"

definition node_relay_token :: "'s client \<Rightarrow> string \<Rightarrow> 's \<Rightarrow> (client_error + relay_grant) \<times> 's" where
  "node_relay_token c p =
     client_do (cl_net c) (cl_base c) ''POST'' (''/v1/peers/'' @ p @ ''/relay'') None read_grant"

definition node_list_peers :: "'s client \<Rightarrow> string \<Rightarrow> 's \<Rightarrow> (client_error + client_peer list) \<times> 's" where
  "node_list_peers c t =
     client_do (cl_net c) (cl_base c) ''GET'' (''/v1/tenants/'' @ t @ ''/peers'') None (read_peers (cl_time c))"


section \<open>The control plane as the carrier\<close>

text \<open>
  The server behind the calls: its tables, the relay's sessions, and how many requests it has
  had; what it draws for each request and the address it sees them come from are arguments.
\<close>

record plane =
  pl_db :: db
  pl_relay :: "relay option"
  pl_step :: nat

record plane_link =
  pk_env :: go_env
  pk_draw :: "nat \<Rightarrow> draw"
  pk_token :: "nat \<Rightarrow> octets"
  pk_src :: addr
  pk_base :: string

text \<open>The route of relay tokens, beside those of \<open>control_routes\<close>.\<close>

definition relay_route :: "string \<Rightarrow> string \<Rightarrow> string option" where
  "relay_route meth pth =
     (case split_on CHR ''/'' pth of
        [] # ss \<Rightarrow>
          if meth = ''POST'' \<and> list_all clean_segment ss
          then map_option hd (match_segments [Exact ''v1'', Exact ''peers'', Wild, Exact ''relay''] (map segment_value ss))
          else None
      | _ \<Rightarrow> None)"

definition answer_response :: "answer \<Rightarrow> client_response" where
  "answer_response a = \<lparr>cs_status = fst a, cs_line = show_nat (fst a), cs_body = snd a\<rparr>"

definition url_path :: "string \<Rightarrow> string" where
  "url_path u = takeWhile (\<lambda>c. c \<noteq> CHR ''?'' \<and> c \<noteq> CHR ''#'') u"

definition plane_net :: "plane_link \<Rightarrow> plane transport" where
  "plane_net L c s =
     (if \<not> starts_with (cc_url c) (pk_base L) then (Inl ''call control plane: no such host'', s)
      else
        (let pth = url_path (drop (length (pk_base L)) (cc_url c)); n = pl_step s in
         case relay_route (cc_method c) pth of
           Some p \<Rightarrow>
             (case issue_relay_token (pk_env L) b64_encode (pk_token L n) p (pl_db s) (pl_relay s) of
                (a, r) \<Rightarrow> (Inr (answer_response a), s\<lparr>pl_relay := r, pl_step := n + 1\<rparr>))
         | None \<Rightarrow>
             (case control_mux (cc_method c) pth (case cc_body c of None \<Rightarrow> EmptyBody | Some j \<Rightarrow> JsonBody j) of
                None \<Rightarrow> (Inr \<lparr>cs_status = 404, cs_line = ''404 Not Found'', cs_body = None\<rparr>, s)
              | Some rt \<Rightarrow>
                  (case control_serve (pk_env L) (pk_draw L n) \<lparr>gq_route = rt, gq_headers = [], gq_remote = Some (pk_src L)\<rparr> (pl_db s) of
                     (a, d) \<Rightarrow> (Inr (answer_response a), s\<lparr>pl_db := d, pl_step := n + 1\<rparr>)))))"

definition plane_client :: "plane_link \<Rightarrow> (string \<Rightarrow> int option) \<Rightarrow> plane client" where
  "plane_client L tm = \<lparr>cl_base = pk_base L, cl_net = plane_net L, cl_time = tm\<rparr>"

section \<open>Where the calls go\<close>

text \<open>An id that a path holds as it is.\<close>

definition plain_segment :: "string \<Rightarrow> bool" where
  "plain_segment t \<longleftrightarrow> clean_segment t \<and> list_all (\<lambda>c. c \<noteq> CHR ''/'' \<and> c \<noteq> CHR ''?'' \<and> c \<noteq> CHR ''#'' \<and> c \<noteq> CHR ''%'') t"

lemma plain_segmentD:
  assumes "plain_segment t"
  shows "clean_segment t" "CHR ''/'' \<notin> set t" "segment_value t = t" "url_path t = t" "url_path (t @ u) = t @ url_path u"
proof -
  have c: "clean_segment t" "c \<in> set t \<Longrightarrow> c \<noteq> CHR ''/'' \<and> c \<noteq> CHR ''?'' \<and> c \<noteq> CHR ''#'' \<and> c \<noteq> CHR ''%''" for c
    using assms by (simp_all add: plain_segment_def list_all_iff)
  show "clean_segment t" by (rule c(1))
  show "CHR ''/'' \<notin> set t" "segment_value t = t" using c(2) segment_value_plain by blast+
  show t: "url_path (t @ u) = t @ url_path u" for u
    unfolding url_path_def using c(2) by (intro takeWhile_append2) blast
  show "url_path t = t" using t [of "[]"] by (simp add: url_path_def)
qed

lemma node_words [simp]:
  "clean_segment ''tokens''" "clean_segment ''register''" "clean_segment ''endpoint''" "clean_segment ''nat-endpoint''" "clean_segment ''relay''"
  "segment_value ''tokens'' = ''tokens''" "segment_value ''register'' = ''register''" "segment_value ''endpoint'' = ''endpoint''"
  "segment_value ''nat-endpoint'' = ''nat-endpoint''" "segment_value ''relay'' = ''relay''"
  by (simp_all add: clean_segment_def segment_value_plain)

lemma split_node:
  assumes "CHR ''/'' \<notin> set t"
  shows "split_on CHR ''/'' (''/v1/tenants/'' @ t @ CHR ''/'' # s) = [] # ''v1'' # ''tenants'' # t # split_on CHR ''/'' s"
    "split_on CHR ''/'' (''/v1/peers/'' @ t @ CHR ''/'' # s) = [] # ''v1'' # ''peers'' # t # split_on CHR ''/'' s"
  using assms by (simp_all add: split_on_append)

lemma node_paths:
  "url_path ''/v1/tenants'' = ''/v1/tenants''" "url_path ''/v1/peers/register'' = ''/v1/peers/register''"
  "plain_segment t \<Longrightarrow> url_path (''/v1/tenants/'' @ t @ ''/tokens'') = ''/v1/tenants/'' @ t @ ''/tokens''"
  "plain_segment t \<Longrightarrow> url_path (''/v1/tenants/'' @ t @ ''/peers'') = ''/v1/tenants/'' @ t @ ''/peers''"
  "plain_segment t \<Longrightarrow> url_path (''/v1/peers/'' @ t @ ''/endpoint'') = ''/v1/peers/'' @ t @ ''/endpoint''"
  "plain_segment t \<Longrightarrow> url_path (''/v1/peers/'' @ t @ ''/nat-endpoint'') = ''/v1/peers/'' @ t @ ''/nat-endpoint''"
  "plain_segment t \<Longrightarrow> url_path (''/v1/peers/'' @ t @ ''/relay'') = ''/v1/peers/'' @ t @ ''/relay''"
proof -
  have "takeWhile (\<lambda>c. c \<noteq> CHR ''?'' \<and> c \<noteq> CHR ''#'') (t @ u) = t @ takeWhile (\<lambda>c. c \<noteq> CHR ''?'' \<and> c \<noteq> CHR ''#'') u"
    if "plain_segment t" for u
    using plain_segmentD(5) [OF that, of u] by (simp only: url_path_def)
  note t = this
  show "url_path ''/v1/tenants'' = ''/v1/tenants''" "url_path ''/v1/peers/register'' = ''/v1/peers/register''"
    by (simp_all add: url_path_def)
  show "plain_segment t \<Longrightarrow> url_path (''/v1/tenants/'' @ t @ ''/tokens'') = ''/v1/tenants/'' @ t @ ''/tokens''"
    "plain_segment t \<Longrightarrow> url_path (''/v1/tenants/'' @ t @ ''/peers'') = ''/v1/tenants/'' @ t @ ''/peers''"
    "plain_segment t \<Longrightarrow> url_path (''/v1/peers/'' @ t @ ''/endpoint'') = ''/v1/peers/'' @ t @ ''/endpoint''"
    "plain_segment t \<Longrightarrow> url_path (''/v1/peers/'' @ t @ ''/nat-endpoint'') = ''/v1/peers/'' @ t @ ''/nat-endpoint''"
    "plain_segment t \<Longrightarrow> url_path (''/v1/peers/'' @ t @ ''/relay'') = ''/v1/peers/'' @ t @ ''/relay''"
    by (simp_all add: url_path_def t)
qed

lemma node_routes:
  assumes "plain_segment t"
  shows "control_mux ''POST'' ''/v1/tenants'' b = Some (CreateTenantR b)"
    "control_mux ''POST'' ''/v1/peers/register'' b = Some (RegisterPeerR b)"
    "control_mux ''POST'' (''/v1/tenants/'' @ t @ ''/tokens'') b = Some (CreateTokenR t b)"
    "control_mux ''GET'' (''/v1/tenants/'' @ t @ ''/peers'') b = Some (ListPeersR t)"
    "control_mux ''POST'' (''/v1/peers/'' @ t @ ''/endpoint'') b = Some (UpdateEndpointR t b)"
    "control_mux ''POST'' (''/v1/peers/'' @ t @ ''/nat-endpoint'') b = Some (UpdateNatEndpointR t b)"
  using split_node [OF plain_segmentD(2) [OF assms]] plain_segmentD [OF assms]
  by (simp_all add: control_mux_def control_routes_def me_tenant_def)

lemma node_relay_routes:
  assumes "plain_segment t"
  shows "relay_route ''POST'' (''/v1/peers/'' @ t @ ''/relay'') = Some t"
    "relay_route ''POST'' ''/v1/tenants'' = None" "relay_route ''POST'' ''/v1/peers/register'' = None"
    "relay_route ''POST'' (''/v1/tenants/'' @ t @ ''/tokens'') = None"
    "relay_route ''POST'' (''/v1/peers/'' @ t @ ''/endpoint'') = None"
    "relay_route ''POST'' (''/v1/peers/'' @ t @ ''/nat-endpoint'') = None"
  using split_node [OF plain_segmentD(2) [OF assms]] plain_segmentD [OF assms]
  by (simp_all add: relay_route_def)

lemma relay_route_get: "relay_route ''GET'' u = None"
  unfolding relay_route_def by (cases "split_on CHR ''/'' u"; cases "hd (split_on CHR ''/'' u)") simp_all


section \<open>What the calls return\<close>

text \<open>What \<open>do\<close> makes of an answer of the control plane.\<close>

definition outcome_of :: "(json \<Rightarrow> 'a option) \<Rightarrow> answer \<Rightarrow> client_error + 'a" where
  "outcome_of read a =
     (if fst a < 200 \<or> 300 \<le> fst a then Inl (Refused (fst a) (api_message (snd a) (show_nat (fst a))))
      else (case (case snd a of None \<Rightarrow> None | Some j \<Rightarrow> read j) of None \<Rightarrow> Inl (Unanswered ''decode response'') | Some x \<Rightarrow> Inr x))"

definition node_request :: "plane_link \<Rightarrow> go_route \<Rightarrow> go_request" where
  "node_request L rt = \<lparr>gq_route = rt, gq_headers = [], gq_remote = Some (pk_src L)\<rparr>"

lemma client_do_plane:
  assumes "relay_route m p = None" "url_path p = p"
    "control_mux m p (case b of None \<Rightarrow> EmptyBody | Some j \<Rightarrow> JsonBody j) = Some rt"
    "control_serve (pk_env L) (pk_draw L (pl_step s)) (node_request L rt) (pl_db s) = (a, d)"
  shows "client_do (plane_net L) (pk_base L) m p b read s = (outcome_of read a, s\<lparr>pl_db := d, pl_step := pl_step s + 1\<rparr>)"
proof -
  have "plane_net L \<lparr>cc_method = m, cc_url = pk_base L @ p, cc_body = b\<rparr> s =
      (Inr (answer_response a), s\<lparr>pl_db := d, pl_step := pl_step s + 1\<rparr>)"
    using assms unfolding node_request_def by (simp add: plane_net_def Let_def)
  then show ?thesis
    by (auto simp: client_do_def outcome_of_def answer_response_def split: option.splits)
qed

lemma outcome_fail: "300 \<le> fst r \<Longrightarrow> snd r \<noteq> '''' \<Longrightarrow> outcome_of read (fail r) = Inl (Refused (fst r) (snd r))"
  by (cases r) (simp add: outcome_of_def fail_def answer_json_def api_message_def field_of_def str_field_def)

lemma outcome_json:
  "outcome_of read (ok_json j) = (case read j of None \<Rightarrow> Inl (Unanswered ''decode response'') | Some x \<Rightarrow> Inr x)"
  "outcome_of read (created_json j) = (case read j of None \<Rightarrow> Inl (Unanswered ''decode response'') | Some x \<Rightarrow> Inr x)"
  by (simp_all add: outcome_of_def ok_json_def created_json_def answer_json_def)

text \<open>Times read back as they were printed.\<close>

definition times_read :: "(string \<Rightarrow> int option) \<Rightarrow> go_env \<Rightarrow> bool" where
  "times_read tm env \<longleftrightarrow> (\<forall>t. tm (ge_time env t) = Some t)"

definition tenant_of :: "go_env \<Rightarrow> stored_tenant \<Rightarrow> client_tenant" where
  "tenant_of env t =
     \<lparr>ct_id = st_id t, ct_name = st_name t, ct_cidr = show_prefix (ge_netip env) (st_cidr t), ct_created = st_created t\<rparr>"

definition token_of :: "string \<Rightarrow> string \<Rightarrow> stored_token \<Rightarrow> client_token" where
  "token_of raw secret k =
     \<lparr>ck_id = tk_id k, ck_tenant = raw, ck_secret = secret, ck_max_uses = tk_max_uses k, ck_expires = tk_expires k\<rparr>"

definition registration_of :: "go_env \<Rightarrow> stored_peer \<Rightarrow> stored_tenant \<Rightarrow> client_registration" where
  "registration_of env p t =
     \<lparr>cr_peer = sp_id p, cr_tenant = sp_tenant p, cr_tenant_name = st_name t, cr_name = sp_name p, cr_key = sp_key p,
      cr_mesh_ip = show_addr (ge_netip env) (sp_ip p), cr_mesh_cidr = show_prefix (ge_netip env) (st_cidr t), cr_created = sp_created p\<rparr>"

definition shown_endpoint :: "go_env \<Rightarrow> addr option \<Rightarrow> int option \<Rightarrow> string" where
  "shown_endpoint env ip port = (case endpoint_of ip port of None \<Rightarrow> '''' | Some (a, p) \<Rightarrow> ge_show_addr_port env a p)"

definition listed_peer :: "go_env \<Rightarrow> stored_peer \<Rightarrow> client_peer" where
  "listed_peer env p =
     \<lparr>cp_id = sp_id p, cp_name = sp_name p, cp_key = sp_key p, cp_mesh_ip = show_addr (ge_netip env) (sp_ip p),
      cp_endpoint = shown_endpoint env (sp_public_ip p) (sp_udp_port p), cp_direct = sp_reachable p,
      cp_nat = shown_endpoint env (sp_nat_ip p) (sp_nat_port p)\<rparr>"

lemma read_tenant_view: "times_read tm env \<Longrightarrow> read_tenant tm (tenant_view env t) = Some (tenant_of env t)"
  by (simp add: read_tenant_def tenant_view_def tenant_of_def field_of_def str_field_def time_field_def times_read_def)

lemma read_token_view:
  "times_read tm env \<Longrightarrow> - (2 ^ 63) \<le> tk_max_uses k \<Longrightarrow> tk_max_uses k < 2 ^ 63 \<Longrightarrow>
     read_token tm (token_view env raw secret k) = Some (token_of raw secret k)"
  by (simp add: read_token_def token_view_def token_of_def field_of_def str_field_def int_field_def time_field_def times_read_def)

lemma read_registration_view:
  "times_read tm env \<Longrightarrow> read_registration tm (registered_view env p t) = Some (registration_of env p t)"
  by (simp add: read_registration_def registered_view_def registration_of_def field_of_def str_field_def time_field_def times_read_def)

lemma unknown_key: "field_of (peer_spec @ xs) ''endpoint_updated_at'' = None" if "xs = [] \<or> xs = [(''probe_port'', NInt)]"
  using that by (auto simp: field_of_def peer_spec_def to_lower_def)


text \<open>A peer's fields, whichever of its endpoints it has.\<close>

lemma peer_spec_fields:
  assumes "xs = [] \<or> xs = [(''probe_port'', NInt)]"
  shows "field_of (peer_spec @ xs) ''created_at'' = Some (''created_at'', NTime)"
    "field_of (peer_spec @ xs) ''direct_reachable'' = Some (''direct_reachable'', NBool)"
    "field_of (peer_spec @ xs) ''endpoint'' = Some (''endpoint'', NString)"
    "field_of (peer_spec @ xs) ''mesh_ip'' = Some (''mesh_ip'', NString)"
    "field_of (peer_spec @ xs) ''name'' = Some (''name'', NString)"
    "field_of (peer_spec @ xs) ''nat_endpoint'' = Some (''nat_endpoint'', NString)"
    "field_of (peer_spec @ xs) ''peer_id'' = Some (''peer_id'', NString)"
    "field_of (peer_spec @ xs) ''public_key'' = Some (''public_key'', NString)"
  by (simp_all add: field_of_def peer_spec_def)

text \<open>The pairs that a view shows of an endpoint, and what they decode to.\<close>

lemma node_fields_append: "node_fields tm spec acc (xs @ ys) = (case node_fields tm spec acc xs of None \<Rightarrow> None | Some a \<Rightarrow> node_fields tm spec a ys)"
  by (induction tm spec acc xs rule: node_fields.induct) (auto split: option.splits)

lemma peer_view_fields:
  assumes tm: "times_read tm env" and xs: "xs = [] \<or> xs = [(''probe_port'', NInt)]"
    and extra: "extra = [] \<or> (xs \<noteq> [] \<and> extra = [(''probe_port'', JNum n)] \<and> 0 \<le> n \<and> n < 2 ^ 63)"
  obtains vs where "unmarshal tm (peer_spec @ xs) (peer_view env extra p) = Some vs" "peer_fields vs = listed_peer env p"
    "int_field vs ''probe_port'' = (if extra = [] then 0 else n)"
proof -
  note f = peer_spec_fields [OF xs] unknown_key [OF xs]
  let ?e = "case endpoint_of (sp_public_ip p) (sp_udp_port p) of None \<Rightarrow> []
    | Some (ip, port) \<Rightarrow> [(''endpoint'', JStr (ge_show_addr_port env ip port))]"
  let ?n = "case endpoint_of (sp_nat_ip p) (sp_nat_port p) of None \<Rightarrow> []
    | Some (ip, port) \<Rightarrow> [(''nat_endpoint'', JStr (ge_show_addr_port env ip port))]"
  have t: "\<exists>y. tm (ge_time env u) = Some y" for u using tm by (simp add: times_read_def)
  have e: "node_fields tm (peer_spec @ xs) acc
      (case endpoint_of (sp_public_ip p) (sp_udp_port p) of None \<Rightarrow> []
        | Some (ip, port) \<Rightarrow> [(''endpoint'', JStr (ge_show_addr_port env ip port)), (''endpoint_updated_at'', JStr u)]) =
      Some (?e @ acc)" for acc u
    by (cases "endpoint_of (sp_public_ip p) (sp_udp_port p)") (auto simp: f)
  have n: "node_fields tm (peer_spec @ xs) acc ?n = Some (?n @ acc)" for acc
    by (cases "endpoint_of (sp_nat_ip p) (sp_nat_port p)") (auto simp: f)
  have x: "node_fields tm (peer_spec @ xs) acc extra = Some (extra @ acc)" for acc
  proof (cases "extra = []")
    case False
    then have "field_of (peer_spec @ xs) ''probe_port'' = Some (''probe_port'', NInt)" "extra = [(''probe_port'', JNum n)]" "0 \<le> n" "n < 2 ^ 63"
      using xs extra by (auto simp: field_of_def peer_spec_def)
    then show ?thesis by simp
  qed simp
  let ?vs = "(''public_key'', JStr (sp_key p)) # extra @ (''peer_id'', JStr (sp_id p)) # ?n @ (''name'', JStr (sp_name p)) #
    (''mesh_ip'', JStr (show_addr (ge_netip env) (sp_ip p))) # ?e @
    [(''direct_reachable'', JBool (sp_reachable p)), (''created_at'', JStr (ge_time env (sp_created p)))]"
  have u: "unmarshal tm (peer_spec @ xs) (peer_view env extra p) = Some ?vs"
    using t unfolding peer_view_def unmarshal.simps node_fields_append e n x option.case by (simp add: f x)
  have l: "lookup (as @ bs) k = (case lookup as k of None \<Rightarrow> lookup bs k | Some v \<Rightarrow> Some v)" for as bs :: "(string \<times> json) list" and k
    by (induction as) auto
  have le: "lookup ?e k = (if k = ''endpoint'' then map_option (\<lambda>(ip, port). JStr (ge_show_addr_port env ip port)) (endpoint_of (sp_public_ip p) (sp_udp_port p)) else None)" for k
    by (cases "endpoint_of (sp_public_ip p) (sp_udp_port p)") auto
  have ln: "lookup ?n k = (if k = ''nat_endpoint'' then map_option (\<lambda>(ip, port). JStr (ge_show_addr_port env ip port)) (endpoint_of (sp_nat_ip p) (sp_nat_port p)) else None)" for k
    by (cases "endpoint_of (sp_nat_ip p) (sp_nat_port p)") auto
  have lx: "lookup extra k = (if k = ''probe_port'' \<and> extra \<noteq> [] then Some (JNum n) else None)" for k using extra by auto
  have "peer_fields ?vs = listed_peer env p"
    by (cases "endpoint_of (sp_public_ip p) (sp_udp_port p)"; cases "endpoint_of (sp_nat_ip p) (sp_nat_port p)")
      (simp_all add: peer_fields_def listed_peer_def shown_endpoint_def str_field_def bool_field_def l le ln lx split: prod.splits)
  moreover have "int_field ?vs ''probe_port'' = (if extra = [] then 0 else n)"
    by (simp add: int_field_def l le ln lx)
  ultimately show thesis using that u by blast
qed

lemma read_peer_view:
  assumes "times_read tm env"
  shows "read_peer tm (peer_view env [] p) = Some (listed_peer env p)"
proof -
  obtain vs where "unmarshal tm (peer_spec @ []) (peer_view env [] p) = Some vs" "peer_fields vs = listed_peer env p"
    by (rule peer_view_fields [OF assms, of "[]" "[]" 0 p]) simp_all
  then show ?thesis by (simp add: read_peer_def)
qed

lemma read_report_view:
  assumes "times_read tm env" "extra = [] \<or> extra = [(''probe_port'', JNum n)] \<and> 0 \<le> n \<and> n < 2 ^ 63"
  shows "read_report tm (peer_view env extra p) = Some (listed_peer env p, if extra = [] then 0 else n)"
proof -
  have "extra = [] \<or> ([(''probe_port'', NInt)] \<noteq> [] \<and> extra = [(''probe_port'', JNum n)] \<and> 0 \<le> n \<and> n < 2 ^ 63)"
    using assms(2) by simp
  from peer_view_fields [OF assms(1) disjI2 [OF refl] this, of p]
  obtain vs where "unmarshal tm (peer_spec @ [(''probe_port'', NInt)]) (peer_view env extra p) = Some vs"
    "peer_fields vs = listed_peer env p" "int_field vs ''probe_port'' = (if extra = [] then 0 else n)" .
  then show ?thesis by (simp add: read_report_def)
qed

lemma read_list_map: "(\<And>x. f (g x) = Some (h x)) \<Longrightarrow> read_list f (map g xs) = Some (map h xs)"
  by (induction xs) simp_all

lemma read_peers_views:
  assumes "times_read tm env"
  shows "read_peers tm (JObj [(''peers'', JArr (map (peer_view env []) ps))]) = Some (map (listed_peer env) ps)"
proof -
  have "read_list (read_peer tm) (map (peer_view env []) ps) = Some (map (listed_peer env) ps)"
    by (intro read_list_map read_peer_view [OF assms])
  moreover have "to_lower ''peers'' = ''peers''" by code_simp
  ultimately show ?thesis by simp
qed

lemma read_grant_view:
  "- (2 ^ 63) \<le> n \<Longrightarrow> n < 2 ^ 63 \<Longrightarrow>
     read_grant (JObj [(''relay_port'', JNum n), (''relay_token'', JStr t)]) = Some \<lparr>gr_token = t, gr_port = n\<rparr>"
  by (simp add: read_grant_def field_of_def str_field_def int_field_def)


section \<open>Each call, as the store sees it\<close>

definition node_draw :: "plane_link \<Rightarrow> plane \<Rightarrow> draw" where
  "node_draw L s = pk_draw L (pl_step s)"

definition next_step :: "db \<Rightarrow> plane \<Rightarrow> plane" where
  "next_step d s = s\<lparr>pl_db := d, pl_step := pl_step s + 1\<rparr>"

lemma next_step_simps [simp]: "pl_db (next_step d s) = d" "pl_relay (next_step d s) = pl_relay s" "pl_step (next_step d s) = pl_step s + 1"
  by (simp_all add: next_step_def)

lemma client_do_serve:
  assumes "relay_route m p = None" "url_path p = p" "control_mux m p (case b of None \<Rightarrow> EmptyBody | Some j \<Rightarrow> JsonBody j) = Some rt"
  shows "client_do (plane_net L) (pk_base L) m p b read s =
    (outcome_of read (fst (control_serve (pk_env L) (node_draw L s) (node_request L rt) (pl_db s))),
     next_step (snd (control_serve (pk_env L) (node_draw L s) (node_request L rt) (pl_db s))) s)"
  using client_do_plane [OF assms prod.collapse [symmetric]] by (simp add: node_draw_def next_step_def)

lemma get_tenant_NotFound: "by_uuid env t (\<lambda>i. store_get_tenant i d) = Inl e \<Longrightarrow> e = NotFound"
  by (auto simp: by_uuid_def store_get_tenant_def split: option.splits)

lemma list_peers_call:
  assumes "times_read tm (pk_env L)" "plain_segment t"
  shows "node_list_peers (plane_client L tm) t s =
    (case by_uuid (pk_env L) t (\<lambda>i. store_get_tenant i (pl_db s)) of
       Inl e \<Rightarrow> Inl (Refused 404 ''no such tenant'')
     | Inr r \<Rightarrow> Inr (map (listed_peer (pk_env L)) (store_list_peers (st_id r) (pl_db s))),
     next_step (pl_db s) s)"
proof -
  have c: "node_list_peers (plane_client L tm) t s =
      (outcome_of (read_peers tm) (fst (control_serve (pk_env L) (node_draw L s) (node_request L (ListPeersR t)) (pl_db s))),
       next_step (snd (control_serve (pk_env L) (node_draw L s) (node_request L (ListPeersR t)) (pl_db s))) s)"
    using client_do_serve [OF relay_route_get node_paths(4) [OF assms(2)], of None "ListPeersR t"] node_routes(4) [OF assms(2)]
    by (simp add: node_list_peers_def plane_client_def)
  show ?thesis
  proof (cases "by_uuid (pk_env L) t (\<lambda>i. store_get_tenant i (pl_db s))")
    case (Inl e)
    with get_tenant_NotFound [OF Inl] show ?thesis
      unfolding c by (simp add: control_serve_def node_request_def settle_def reading_def answer_error_def no_tenant_error_def outcome_fail)
  next
    case (Inr r)
    then show ?thesis
      unfolding c by (simp add: control_serve_def node_request_def settle_def reading_def outcome_json read_peers_views [OF assms(1)] del: read_peers.simps)
  qed
qed

definition register_refusal :: "store_error \<Rightarrow> refusal" where
  "register_refusal e = coalesce (lookup register_errors e) (500, ''could not register peer'')"

lemma register_refusal: "300 \<le> fst (register_refusal e)" "snd (register_refusal e) \<noteq> ''''"
  by (cases e; simp add: register_refusal_def register_errors_def)+

lemma register_call:
  assumes "times_read tm (pk_env L)" and t: "go_trim tok = tok" "tok \<noteq> ''''" "go_trim n = n" "n \<noteq> ''''" "go_trim k = k" "k \<noteq> ''''"
  shows "node_register_peer (plane_client L tm) tok n k s =
    (case store_register_peer (dr_id (node_draw L s)) (dr_now (node_draw L s)) (ge_hash (pk_env L) tok) n k (pl_db s) of
       Inl e \<Rightarrow> (Inl (Refused (fst (register_refusal e)) (snd (register_refusal e))), next_step (pl_db s) s)
     | Inr ((p, t), d) \<Rightarrow> (Inr (registration_of (pk_env L) p t), next_step d s))"
proof -
  let ?b = "JObj [(''token'', JStr tok), (''name'', JStr n), (''public_key'', JStr k)]"
  have plain: "plain_segment ''x''" by (simp add: plain_segment_def clean_segment_def)
  have c: "node_register_peer (plane_client L tm) tok n k s =
      (outcome_of (read_registration tm) (fst (control_serve (pk_env L) (node_draw L s) (node_request L (RegisterPeerR (JsonBody ?b))) (pl_db s))),
       next_step (snd (control_serve (pk_env L) (node_draw L s) (node_request L (RegisterPeerR (JsonBody ?b))) (pl_db s))) s)"
    using client_do_serve [OF node_relay_routes(3) [OF plain] node_paths(2), of "Some ?b" "RegisterPeerR (JsonBody ?b)"] node_routes(2) [OF plain]
    by (simp add: node_register_peer_def plane_client_def)
  have i: "register_input (pk_env L) (JsonBody ?b) = Inr (tok, n, k)"
    using t by (simp add: register_input_def decode_def field_of_def str_field_def)
  show ?thesis
  proof (cases "store_register_peer (dr_id (node_draw L s)) (dr_now (node_draw L s)) (ge_hash (pk_env L) tok) n k (pl_db s)")
    case (Inl e)
    then show ?thesis
      unfolding c using outcome_fail [OF register_refusal(1) register_refusal(2), of _ e]
      by (simp add: control_serve_def node_request_def i register_answer_def settle_def answer_error_def register_refusal_def)
  next
    case (Inr x)
    obtain p u d where "x = ((p, u), d)" by (metis prod.collapse)
    then show ?thesis
      unfolding c using Inr
      by (simp add: control_serve_def node_request_def i register_answer_def settle_def outcome_json read_registration_view [OF assms(1)])
  qed
qed


text \<open>A token for whole seconds of life, within the limits.\<close>

lemma token_call:
  assumes "times_read tm (pk_env L)" "plain_segment t" and secs: "1 \<le> secs" "secs \<le> 30 * 24 * 3600" "1 \<le> uses" "uses \<le> max_token_uses"
  shows "node_create_token (plane_client L tm) t (secs * second_ns) uses s =
    (case by_uuid (pk_env L) t (\<lambda>i. store_get_tenant i (pl_db s)) of
       Inl e \<Rightarrow> (Inl (Refused 404 ''no such tenant''), next_step (pl_db s) s)
     | Inr r \<Rightarrow>
         (case store_create_token (dr_id (node_draw L s)) (ge_hash (pk_env L) (token_secret (node_draw L s))) (dr_now (node_draw L s))
             (st_id r) (secs * second_ns) uses (pl_db s) of
            Inl e \<Rightarrow> (Inl (Refused 500 ''could not create token''), next_step (pl_db s) s)
          | Inr (k, d) \<Rightarrow> (Inr (token_of t (token_secret (node_draw L s)) k), next_step d s)))"
proof -
  let ?b = "JObj [(''ttl_seconds'', JNum secs), (''max_uses'', JNum uses)]"
  have s: "secs * second_ns div second_ns = secs" by (simp add: second_ns_def)
  have c: "node_create_token (plane_client L tm) t (secs * second_ns) uses s =
      (outcome_of (read_token tm) (fst (control_serve (pk_env L) (node_draw L s) (node_request L (CreateTokenR t (JsonBody ?b))) (pl_db s))),
       next_step (snd (control_serve (pk_env L) (node_draw L s) (node_request L (CreateTokenR t (JsonBody ?b))) (pl_db s))) s)"
    using client_do_serve [OF node_relay_routes(4) [OF assms(2)] node_paths(3) [OF assms(2)], of "Some ?b" "CreateTokenR t (JsonBody ?b)"]
      node_routes(3) [OF assms(2)]
    by (simp add: node_create_token_def plane_client_def s)
  have "wrap64 (secs * second_ns) = secs * second_ns" using secs by (intro wrap64_id) (auto simp: second_ns_def)
  moreover have "decodes_to GoInt (JNum secs)" "decodes_to GoInt (JNum uses)" using secs by (auto simp: max_token_uses_def)
  ultimately have i: "token_input (pk_env L) (JsonBody ?b) = Inr (secs * second_ns, uses)"
    using secs by (simp add: token_input_def decode_def field_of_def int_field_def Let_def second_ns_def max_token_ttl_def)
  show ?thesis
  proof (cases "by_uuid (pk_env L) t (\<lambda>i. store_get_tenant i (pl_db s))")
    case (Inl e)
    with get_tenant_NotFound [OF Inl] show ?thesis
      unfolding c by (simp add: control_serve_def node_request_def i answer_error_def no_tenant_error_def outcome_fail)
  next
    case (Inr r)
    let ?k = "store_create_token (dr_id (node_draw L s)) (ge_hash (pk_env L) (token_secret (node_draw L s))) (dr_now (node_draw L s))
      (st_id r) (secs * second_ns) uses (pl_db s)"
    show ?thesis
    proof (cases ?k)
      case k: (Inl e)
      then show ?thesis
        unfolding c using Inr by (simp add: control_serve_def node_request_def i settle_def answer_error_def outcome_fail)
    next
      case k: (Inr x)
      then obtain y d where x: "?k = Inr (y, d)" by (cases x) auto
      then have "tk_max_uses y = uses" by (auto simp: store_create_token_def Let_def split: if_splits)
      then have "read_token tm (token_view (pk_env L) t (token_secret (node_draw L s)) y) = Some (token_of t (token_secret (node_draw L s)) y)"
        using secs by (intro read_token_view [OF assms(1)]) (auto simp: max_token_uses_def)
      then show ?thesis
        unfolding c using Inr x by (simp add: control_serve_def node_request_def i settle_def outcome_json)
    qed
  qed
qed

text \<open>The report of a port, when the machine is known.\<close>

lemma endpoint_call:
  assumes "times_read tm (pk_env L)" "plain_segment p" and port: "1 \<le> port" "port \<le> 65535"
    and id: "ge_uuid (pk_env L) p = Some i" "find_peer (pl_db s) i \<noteq> None" and probe: "ge_probe_port (pk_env L) = Some q" "q < 65536"
  shows "\<exists>r d. store_set_endpoint (dr_now (node_draw L s)) i (pk_src L) port (dr_reachable (node_draw L s)) (pl_db s) = Inr (r, d) \<and>
    node_update_endpoint (plane_client L tm) p port s = (Inr (listed_peer (pk_env L) r, int q), next_step d s)"
proof -
  let ?b = "JObj [(''udp_port'', JNum port)]"
  have c: "node_update_endpoint (plane_client L tm) p port s =
      (outcome_of (read_report tm) (fst (control_serve (pk_env L) (node_draw L s) (node_request L (UpdateEndpointR p (JsonBody ?b))) (pl_db s))),
       next_step (snd (control_serve (pk_env L) (node_draw L s) (node_request L (UpdateEndpointR p (JsonBody ?b))) (pl_db s))) s)"
    using client_do_serve [OF node_relay_routes(5) [OF assms(2)] node_paths(5) [OF assms(2)], of "Some ?b" "UpdateEndpointR p (JsonBody ?b)"]
      node_routes(5) [OF assms(2)]
    by (simp add: node_update_endpoint_def plane_client_def)
  have i: "endpoint_input (pk_env L) (node_request L (UpdateEndpointR p (JsonBody ?b))) p (JsonBody ?b) (pl_db s) =
      Inr (ASetEndpoint i (pk_src L) port)"
    using port id by (simp add: endpoint_input_def decode_def field_of_def int_field_def Let_def node_request_def)
  obtain x where x: "find_peer (update_peer i (\<lambda>r. r\<lparr>sp_public_ip := Some (pk_src L), sp_udp_port := Some port,
      sp_reachable := dr_reachable (node_draw L s), sp_endpoint_at := Some (dr_now (node_draw L s))\<rparr>) (pl_db s)) i = Some x"
    using id(2) by (auto simp: find_peer_def update_peer_def find_map_same)
  then have st: "\<exists>r d. store_set_endpoint (dr_now (node_draw L s)) i (pk_src L) port (dr_reachable (node_draw L s)) (pl_db s) = Inr (r, d)"
    using id(2) port by (simp add: store_set_endpoint_def Let_def store_get_peer_def)
  then obtain r d where rd: "store_set_endpoint (dr_now (node_draw L s)) i (pk_src L) port (dr_reachable (node_draw L s)) (pl_db s) = Inr (r, d)"
    by blast
  have "read_report tm (peer_view (pk_env L) [(''probe_port'', JNum (int q))] r) = Some (listed_peer (pk_env L) r, int q)"
    using read_report_view [OF assms(1), of "[(''probe_port'', JNum (int q))]" "int q" r] probe(2) by simp
  then show ?thesis
    using rd unfolding c by (simp add: control_serve_def node_request_def i [unfolded node_request_def] settle_def probe(1) outcome_json)
qed


text \<open>The report of a mapping: it must be at the address the request comes from.\<close>

lemma nat_call:
  assumes "times_read tm (pk_env L)" "plain_segment p"
    and ap: "ge_parse_addr_port (pk_env L) (go_trim (show_addr_port lib ap)) = Some ap" "0 < snd ap" "snd ap < 65536"
    and src: "addr_unmap (fst ap) = fst ap" "fst ap = pk_src L"
    and id: "ge_uuid (pk_env L) p = Some i" "find_peer (pl_db s) i \<noteq> None"
  shows "\<exists>r d. store_set_nat_endpoint i (fst ap) (int (snd ap)) (pl_db s) = Inr (r, d) \<and>
    node_update_nat (plane_client L tm) lib p ap s = (Inr (listed_peer (pk_env L) r), next_step d s)"
proof -
  let ?b = "JObj [(''endpoint'', JStr (show_addr_port lib ap))]"
  have c: "node_update_nat (plane_client L tm) lib p ap s =
      (outcome_of (read_peer tm) (fst (control_serve (pk_env L) (node_draw L s) (node_request L (UpdateNatEndpointR p (JsonBody ?b))) (pl_db s))),
       next_step (snd (control_serve (pk_env L) (node_draw L s) (node_request L (UpdateNatEndpointR p (JsonBody ?b))) (pl_db s))) s)"
    using client_do_serve [OF node_relay_routes(6) [OF assms(2)] node_paths(6) [OF assms(2)], of "Some ?b" "UpdateNatEndpointR p (JsonBody ?b)"]
      node_routes(6) [OF assms(2)]
    by (simp add: node_update_nat_def plane_client_def)
  have t: "nat_target (pk_env L) (node_request L rt) p (show_addr_port lib ap) = Inr (ASetNat p (fst ap) (int (snd ap)))" for rt
    using ap src by (cases ap) (simp add: nat_target_def node_request_def)
  then have i: "nat_input (pk_env L) (node_request L rt) p (JsonBody ?b) = Inr (ASetNat p (fst ap) (int (snd ap)))" for rt
    by (simp add: nat_input_def decode_def field_of_def str_field_def)
  obtain x where "find_peer (update_peer i (\<lambda>r. r\<lparr>sp_nat_ip := Some (fst ap), sp_nat_port := Some (int (snd ap))\<rparr>) (pl_db s)) i = Some x"
    using id(2) by (auto simp: find_peer_def update_peer_def find_map_same)
  then obtain r d where rd: "store_set_nat_endpoint i (fst ap) (int (snd ap)) (pl_db s) = Inr (r, d)"
    using id(2) ap(2,3) by (auto simp: store_set_nat_endpoint_def Let_def store_get_peer_def)
  then show ?thesis
    unfolding c using read_peer_view [OF assms(1), of r] id(1)
    by (simp add: control_serve_def i [unfolded node_request_def] node_request_def settle_def by_uuid_def outcome_json)
qed

text \<open>A relay token, as the bytes that the relay issued.\<close>

lemma relay_token_call:
  assumes "plain_segment p" "ge_uuid (pk_env L) p = Some i" "find_peer (pl_db s) i = Some r" "ge_probe_port (pk_env L) = Some q" "q < 65536"
    and relay: "pl_relay s = Some R" "relay_issue (pk_token L (pl_step s)) (sp_id r) (sp_tenant r) (sp_ip r) R = (Inr k, R')"
  shows "node_relay_token (plane_client L tm) p s =
    (Inr \<lparr>gr_token = b64_encode k, gr_port = int q\<rparr>, s\<lparr>pl_relay := Some R', pl_step := pl_step s + 1\<rparr>)"
proof -
  let ?a = "ok_json (JObj [(''relay_port'', JNum (int q)), (''relay_token'', JStr (b64_encode k))])"
  have "issue_relay_token (pk_env L) b64_encode (pk_token L (pl_step s)) p (pl_db s) (pl_relay s) = (?a, Some R')"
    using assms(2-) by (simp add: issue_relay_token_def by_uuid_def store_get_peer_def)
  then have n: "plane_net L \<lparr>cc_method = ''POST'', cc_url = pk_base L @ (''/v1/peers/'' @ p @ ''/relay''), cc_body = None\<rparr> s =
      (Inr (answer_response ?a), s\<lparr>pl_relay := Some R', pl_step := pl_step s + 1\<rparr>)"
    using node_relay_routes(1) [OF assms(1)] node_paths(7) [OF assms(1)] by (simp add: plane_net_def Let_def)
  have g: "read_grant (JObj [(''relay_port'', JNum (int q)), (''relay_token'', JStr (b64_encode k))]) =
      Some \<lparr>gr_token = b64_encode k, gr_port = int q\<rparr>"
    using assms(5) by (intro read_grant_view) auto
  show ?thesis
    using n g unfolding node_relay_token_def plane_client_def
    by (simp add: client_do_def answer_response_def ok_json_def answer_json_def)
qed

end
