(* ===== verification/Enroll.thy ===== *)
theory Enroll
  imports MeshClient
begin

text \<open>
  How a machine gets into a tenant: the state file of \<open>cmd/meshd/state.go\<close>, the commands
  \<open>setup\<close> and \<open>join\<close> of \<open>commands.go\<close>, and what \<open>run\<close> (\<open>run.go\<close>) reads back before it
  starts. The disk, the key generator, the host name and the
  clock are arguments; the calls go through a client, so that they compose with the control plane.
\<close>

section \<open>The state file\<close>

record node_state =
  ns_private :: string
  ns_public :: string
  ns_peer :: string
  ns_tenant :: string
  ns_tenant_name :: string
  ns_name :: string
  ns_mesh_ip :: string
  ns_udp_port :: int
  ns_mesh_cidr :: string
  ns_api :: string
  ns_registered :: int

definition no_node_state :: node_state where
  "no_node_state =
     \<lparr>ns_private = '''', ns_public = '''', ns_peer = '''', ns_tenant = '''', ns_tenant_name = '''', ns_name = '''', ns_mesh_ip = '''',
      ns_udp_port = 0, ns_mesh_cidr = '''', ns_api = '''', ns_registered = zero_time\<rparr>"

text \<open>As it is written: an empty private key and no port are left out.\<close>

definition state_json :: "(int \<Rightarrow> string) \<Rightarrow> node_state \<Rightarrow> json" where
  "state_json show_time st =
     JObj ((if ns_private st = '''' then [] else [(''private_key'', JStr (ns_private st))]) @
       [(''public_key'', JStr (ns_public st)), (''peer_id'', JStr (ns_peer st)), (''tenant_id'', JStr (ns_tenant st)),
        (''tenant_name'', JStr (ns_tenant_name st)), (''name'', JStr (ns_name st)), (''mesh_ip'', JStr (ns_mesh_ip st))] @
       (if ns_udp_port st = 0 then [] else [(''udp_port'', JNum (ns_udp_port st))]) @
       [(''mesh_cidr'', JStr (ns_mesh_cidr st)), (''api'', JStr (ns_api st)), (''registered_at'', JStr (show_time (ns_registered st)))])"

definition state_spec :: node_spec where
  "state_spec =
     [(''private_key'', NString), (''public_key'', NString), (''peer_id'', NString), (''tenant_id'', NString), (''tenant_name'', NString),
      (''name'', NString), (''mesh_ip'', NString), (''udp_port'', NInt), (''mesh_cidr'', NString), (''api'', NString), (''registered_at'', NTime)]"

definition read_state :: "(string \<Rightarrow> int option) \<Rightarrow> json \<Rightarrow> node_state option" where
  "read_state tm j =
     map_option (\<lambda>vs.
       \<lparr>ns_private = str_field vs ''private_key'', ns_public = str_field vs ''public_key'', ns_peer = str_field vs ''peer_id'',
        ns_tenant = str_field vs ''tenant_id'', ns_tenant_name = str_field vs ''tenant_name'', ns_name = str_field vs ''name'',
        ns_mesh_ip = str_field vs ''mesh_ip'', ns_udp_port = int_field vs ''udp_port'', ns_mesh_cidr = str_field vs ''mesh_cidr'',
        ns_api = str_field vs ''api'', ns_registered = time_field tm vs ''registered_at''\<rparr>)
       (unmarshal tm state_spec j)"

text \<open>\<open>netip.PrefixFrom\<close>: too many bits for the address give no valid prefix.\<close>

definition prefix_from :: "addr \<Rightarrow> nat \<Rightarrow> prefix option" where
  "prefix_from a n = (if n \<le> (if addr_is4 a then 32 else 128) then Some \<lparr>pf_addr = a, pf_bits = n\<rparr> else None)"

definition mesh_prefix :: "netip_lib \<Rightarrow> node_state \<Rightarrow> string + prefix option" where
  "mesh_prefix lib st =
     (case go_parse_addr lib (ns_mesh_ip st) of
        None \<Rightarrow> Inl (''state has an invalid mesh_ip '' @ ns_mesh_ip st)
      | Some ip \<Rightarrow>
          (case go_parse_prefix lib (ns_mesh_cidr st) of
             None \<Rightarrow> Inl (''state has an invalid mesh_cidr '' @ ns_mesh_cidr st)
           | Some c \<Rightarrow> Inr (prefix_from ip (pf_bits c))))"

text \<open>
  A path is not there, is there but cannot be read as JSON, for a reason, or holds a value.
  \<open>dk_denied\<close> says why nothing can be created beside a path, if it is so.
\<close>

datatype node_file = Absent | Unreadable string | Holds json

record node_disk =
  dk_file :: "string \<Rightarrow> node_file"
  dk_denied :: "string \<Rightarrow> string option"

datatype load_error = NotExist | LoadFailed string

definition load_state :: "(string \<Rightarrow> int option) \<Rightarrow> string \<Rightarrow> node_disk \<Rightarrow> load_error + node_state" where
  "load_state tm file disk =
     (case dk_file disk file of
        Absent \<Rightarrow> Inl NotExist
      | Unreadable e \<Rightarrow> Inl (LoadFailed e)
      | Holds j \<Rightarrow> (case read_state tm j of None \<Rightarrow> Inl (LoadFailed (''parse '' @ file)) | Some st \<Rightarrow> Inr st))"

text \<open>The new content appears at once, by a rename, or not at all.\<close>

definition save_state :: "(int \<Rightarrow> string) \<Rightarrow> string \<Rightarrow> node_state \<Rightarrow> node_disk \<Rightarrow> string option \<times> node_disk" where
  "save_state show_time file st disk =
     (case dk_denied disk file of
        Some e \<Rightarrow> (Some e, disk)
      | None \<Rightarrow> (None, disk\<lparr>dk_file := (dk_file disk)(file := Holds (state_json show_time st))\<rparr>))"

section \<open>The machine and its flags\<close>

record node_env =
  ne_lib :: netip_lib
  ne_show_time :: "int \<Rightarrow> string"
  ne_read_time :: "string \<Rightarrow> int option"
  ne_keys :: "string + string \<times> string"
  ne_host :: "string option"
  ne_now :: int
  ne_var :: "string \<Rightarrow> string"

definition env_or :: "node_env \<Rightarrow> string \<Rightarrow> string \<Rightarrow> string" where
  "env_or E key other = (if ne_var E key \<noteq> '''' then ne_var E key else other)"

definition default_state_path :: string where
  "default_state_path = ''/etc/mesh2mesh/peer.json''"

definition flag_or :: "flags \<Rightarrow> string \<Rightarrow> string \<Rightarrow> string" where
  "flag_or fs name other = coalesce (lookup fs name) other"

record enroll_flags =
  ef_api :: string
  ef_state :: string
  ef_name :: string

definition enroll_flags_of :: "node_env \<Rightarrow> flags \<Rightarrow> enroll_flags" where
  "enroll_flags_of E fs =
     \<lparr>ef_api = flag_or fs ''api'' (env_or E ''MESH2MESH_API'' ''''),
      ef_state = flag_or fs ''state'' (env_or E ''MESH2MESH_STATE'' default_state_path),
      ef_name = flag_or fs ''name'' ''''\<rparr>"

section \<open>Joining\<close>

definition enroll_token_ttl :: int where
  "enroll_token_ttl = 60 * second_ns"

definition prepare :: "node_env \<Rightarrow> enroll_flags \<Rightarrow> node_disk \<Rightarrow> string + (node_state option \<times> string)" where
  "prepare E f disk =
     (case load_state (ne_read_time E) (ef_state f) disk of
        Inl (LoadFailed e) \<Rightarrow> Inl e
      | r \<Rightarrow>
          (let prev = (case r of Inl _ \<Rightarrow> None | Inr st \<Rightarrow> Some st) in
           case dk_denied disk (ef_state f) of
             Some e \<Rightarrow> Inl e
           | None \<Rightarrow>
               Inr (prev,
                 if go_trim (ef_api f) \<noteq> '''' then go_trim (ef_api f)
                 else (case prev of
                         Some st \<Rightarrow> if ns_api st \<noteq> '''' then ns_api st else default_base_url
                       | None \<Rightarrow> default_base_url))))"

text \<open>The keypair is kept when there is one.\<close>

definition own_keys :: "node_env \<Rightarrow> node_state option \<Rightarrow> string + string \<times> string" where
  "own_keys E prev =
     (case prev of
        Some st \<Rightarrow> if ns_private st \<noteq> '''' then Inr (ns_private st, ns_public st) else ne_keys E
      | None \<Rightarrow> ne_keys E)"

definition own_name :: "node_env \<Rightarrow> enroll_flags \<Rightarrow> string option" where
  "own_name E f = (if go_trim (ef_name f) = '''' then ne_host E else Some (go_trim (ef_name f)))"

definition registered_state :: "node_env \<Rightarrow> string \<Rightarrow> node_state option \<Rightarrow> string \<Rightarrow> client_registration \<Rightarrow> node_state" where
  "registered_state E private prev api reg =
     \<lparr>ns_private = private, ns_public = cr_key reg, ns_peer = cr_peer reg, ns_tenant = cr_tenant reg,
      ns_tenant_name = cr_tenant_name reg, ns_name = cr_name reg, ns_mesh_ip = cr_mesh_ip reg,
      ns_udp_port = (case prev of Some st \<Rightarrow> ns_udp_port st | None \<Rightarrow> 0), ns_mesh_cidr = cr_mesh_cidr reg, ns_api = api,
      ns_registered = ne_now E\<rparr>"

definition enroll ::
  "node_env \<Rightarrow> 's client \<Rightarrow> enroll_flags \<Rightarrow> string \<Rightarrow> node_state option \<Rightarrow> string \<Rightarrow> 's \<times> node_disk \<Rightarrow>
     (string + node_state) \<times> 's \<times> node_disk" where
  "enroll E c f api prev tenant s =
     (case own_keys E prev of
        Inl e \<Rightarrow> (Inl e, s)
      | Inr (private, public) \<Rightarrow>
          (case own_name E f of
             None \<Rightarrow> (Inl ''--name not given and the hostname is unreadable'', s)
           | Some name \<Rightarrow>
               (case node_create_token c tenant enroll_token_ttl 1 (fst s) of
                  (Inl e, s1) \<Rightarrow> (Inl (client_error_text e), s1, snd s)
                | (Inr token, s1) \<Rightarrow>
                    (case node_register_peer c (ck_secret token) name public s1 of
                       (Inl e, s2) \<Rightarrow> (Inl (client_error_text e), s2, snd s)
                     | (Inr reg, s2) \<Rightarrow>
                         (let st = registered_state E private prev api reg in
                          case mesh_prefix (ne_lib E) st of
                            Inl e \<Rightarrow> (Inl e, s2, snd s)
                          | Inr _ \<Rightarrow>
                              (case save_state (ne_show_time E) (ef_state f) st (snd s) of
                                 (Some e, disk) \<Rightarrow> (Inl e, s2, disk)
                               | (None, disk) \<Rightarrow> (Inr st, s2, disk)))))))"

text \<open>What carries the calls, and so the client, depends on the address of the control plane.\<close>

definition client_at :: "(string \<Rightarrow> 's transport) \<Rightarrow> node_env \<Rightarrow> string \<Rightarrow> 's client" where
  "client_at net E api = \<lparr>cl_base = new_client api, cl_net = net (new_client api), cl_time = ne_read_time E\<rparr>"

definition join_cmd ::
  "node_env \<Rightarrow> (string \<Rightarrow> 's transport) \<Rightarrow> string list \<Rightarrow> 's \<times> node_disk \<Rightarrow> (string + node_state) \<times> 's \<times> node_disk" where
  "join_cmd E net args s =
     (case enroll_parse ''join'' join_flags ''tenant-id'' args of
        Inl e \<Rightarrow> (Inl e, s)
      | Inr (fs, tenant) \<Rightarrow>
          (let f = enroll_flags_of E fs in
           case prepare E f (snd s) of
             Inl e \<Rightarrow> (Inl e, s)
           | Inr (prev, api) \<Rightarrow> enroll E (client_at net E api) f api prev tenant s))"

text \<open>\<open>setup\<close> also says what to type on the other machines.\<close>

definition setup_cmd ::
  "node_env \<Rightarrow> (string \<Rightarrow> 's transport) \<Rightarrow> string list \<Rightarrow> 's \<times> node_disk \<Rightarrow> (string + node_state \<times> string) \<times> 's \<times> node_disk" where
  "setup_cmd E net args s =
     (case enroll_parse ''setup'' setup_flags ''tenant-name'' args of
        Inl e \<Rightarrow> (Inl e, s)
      | Inr (fs, name) \<Rightarrow>
          (let f = enroll_flags_of E fs in
           case prepare E f (snd s) of
             Inl e \<Rightarrow> (Inl e, s)
           | Inr (prev, api) \<Rightarrow>
               (let c = client_at net E api in
                case node_create_tenant c name (go_trim (flag_or fs ''cidr'' '''')) (fst s) of
                  (Inl e, s1) \<Rightarrow> (Inl (client_error_text e), s1, snd s)
                | (Inr t, s1) \<Rightarrow>
                    (case enroll E c f api prev (ct_id t) (s1, snd s) of
                       (Inl e, s2) \<Rightarrow> (Inl (''the tenant was created but this node could not join it (retry with `meshd join '' @ ct_id t @ ''`): '' @ e), s2)
                     | (Inr st, s2) \<Rightarrow> (Inr (st, ''sudo meshd join '' @ ns_tenant st @ '' --api '' @ api), s2)))))"

section \<open>Starting\<close>

fun first_set :: "int list \<Rightarrow> int" where
  "first_set [] = 0"
| "first_set (v # vs) = (if v \<noteq> 0 then v else first_set vs)"

definition default_udp_port :: int where
  "default_udp_port = 51820"

text \<open>
  What \<open>run\<close> reads of the state file: the state with the port of the flag, the machine's
  prefix, its private key as WireGuard takes it, and the port to listen on.
\<close>

definition run_begin :: "node_env \<Rightarrow> string \<Rightarrow> int \<Rightarrow> node_disk \<Rightarrow> string + node_state \<times> prefix option \<times> string \<times> int" where
  "run_begin E file port disk =
     (case load_state (ne_read_time E) file disk of
        Inl NotExist \<Rightarrow> Inl (''run: this node is in no tenant yet ('' @ file @ '' is missing)'')
      | Inl (LoadFailed e) \<Rightarrow> Inl e
      | Inr st \<Rightarrow>
          (case mesh_prefix (ne_lib E) st of
             Inl e \<Rightarrow> Inl e
           | Inr prefix \<Rightarrow>
               if ns_private st = '''' then Inl (''run: this node has no private key - run `meshd join '' @ ns_tenant st @ ''` again'')
               else
                 (case hex_key (ns_private st) of
                    None \<Rightarrow> Inl ''run: state has an invalid private_key''
                  | Some key \<Rightarrow>
                      (let st' = (if port \<noteq> 0 \<and> port \<noteq> ns_udp_port st then st\<lparr>ns_udp_port := port\<rparr> else st) in
                       Inr (st', prefix, key, first_set [port, ns_udp_port st', default_udp_port])))))"


section \<open>What is written is read back\<close>

lemma state_spec_fields:
  "field_of state_spec ''private_key'' = Some (''private_key'', NString)" "field_of state_spec ''public_key'' = Some (''public_key'', NString)"
  "field_of state_spec ''peer_id'' = Some (''peer_id'', NString)" "field_of state_spec ''tenant_id'' = Some (''tenant_id'', NString)"
  "field_of state_spec ''tenant_name'' = Some (''tenant_name'', NString)" "field_of state_spec ''name'' = Some (''name'', NString)"
  "field_of state_spec ''mesh_ip'' = Some (''mesh_ip'', NString)" "field_of state_spec ''udp_port'' = Some (''udp_port'', NInt)"
  "field_of state_spec ''mesh_cidr'' = Some (''mesh_cidr'', NString)" "field_of state_spec ''api'' = Some (''api'', NString)"
  "field_of state_spec ''registered_at'' = Some (''registered_at'', NTime)"
  by (simp_all add: field_of_def state_spec_def)

definition int64 :: "int \<Rightarrow> bool" where
  "int64 n \<longleftrightarrow> - (2 ^ 63) \<le> n \<and> n < 2 ^ 63"

lemma read_state_json:
  assumes "tm (show_time (ns_registered st)) = Some (ns_registered st)" "int64 (ns_udp_port st)"
  shows "read_state tm (state_json show_time st) = Some st"
proof -
  have "unmarshal tm state_spec (state_json show_time st) = Some
      ([(''registered_at'', JStr (show_time (ns_registered st))), (''api'', JStr (ns_api st)), (''mesh_cidr'', JStr (ns_mesh_cidr st))] @
       (if ns_udp_port st = 0 then [] else [(''udp_port'', JNum (ns_udp_port st))]) @
       [(''mesh_ip'', JStr (ns_mesh_ip st)), (''name'', JStr (ns_name st)), (''tenant_name'', JStr (ns_tenant_name st)),
        (''tenant_id'', JStr (ns_tenant st)), (''peer_id'', JStr (ns_peer st)), (''public_key'', JStr (ns_public st))] @
       (if ns_private st = '''' then [] else [(''private_key'', JStr (ns_private st))]))"
    using assms by (simp add: state_json_def state_spec_fields int64_def)
  then show ?thesis
    using assms by (simp add: read_state_def str_field_def int_field_def time_field_def)
qed

definition ints_fit :: "(string \<times> json) list \<Rightarrow> bool" where
  "ints_fit vs \<longleftrightarrow> (\<forall>n i. (n, JNum i) \<in> set vs \<longrightarrow> int64 i)"

lemma node_fields_ints: "node_fields tm spec acc fs = Some vs \<Longrightarrow> ints_fit acc \<Longrightarrow> ints_fit vs"
proof (induction fs arbitrary: acc)
  case (Cons f fs)
  obtain k v where f: "f = (k, v)" by (cases f)
  have fit: "int64 i" if "node_fits tm t (JNum i)" for t i using that by (cases t) (simp_all add: int64_def)
  show ?case
  proof (cases "field_of spec k")
    case None
    then show ?thesis using Cons f by simp
  next
    case (Some g)
    obtain n t where g: "g = (n, t)" by (cases g)
    show ?thesis
    proof (cases "v = JNull")
      case True
      then show ?thesis using Cons f g Some by simp
    next
      case False
      then have "node_fits tm t v" "node_fields tm spec ((n, v) # acc) fs = Some vs"
        using Cons.prems(1) f g Some by (simp_all split: if_splits)
      moreover from this(1) have "ints_fit ((n, v) # acc)" using Cons.prems(2) fit [of t] by (auto simp: ints_fit_def)
      ultimately show ?thesis using Cons.IH by blast
    qed
  qed
qed simp

lemma read_state_port:
  assumes "read_state tm j = Some st"
  shows "int64 (ns_udp_port st)"
proof -
  obtain vs where u: "unmarshal tm state_spec j = Some vs" and st: "ns_udp_port st = int_field vs ''udp_port''"
    using assms by (auto simp: read_state_def)
  have "ints_fit []" by (simp add: ints_fit_def)
  then have fit: "ints_fit vs" using u node_fields_ints [of tm state_spec "[]" _ vs] by (cases j) auto
  have i: "int64 i" if "lookup vs ''udp_port'' = Some (JNum i)" for i
    using map_of_SomeD [of vs "''udp_port''" "JNum i"] that fit by (auto simp: lookup_map_of ints_fit_def)
  show ?thesis
  proof (cases "\<exists>i. lookup vs ''udp_port'' = Some (JNum i)")
    case True
    then show ?thesis using i unfolding st int_field_def by force
  next
    case False
    then have "int_field vs ''udp_port'' = 0" unfolding int_field_def by (auto split: option.split json.split)
    then show ?thesis by (simp add: st int64_def)
  qed
qed

lemma load_state_port: "load_state tm file disk = Inr st \<Longrightarrow> int64 (ns_udp_port st)"
  by (auto simp: load_state_def read_state_port split: node_file.splits option.splits)

lemma load_saved:
  assumes "save_state show_time file st disk = (None, disk')" "tm (show_time (ns_registered st)) = Some (ns_registered st)" "int64 (ns_udp_port st)"
  shows "load_state tm file disk' = Inr st"
  using assms by (auto simp: save_state_def load_state_def read_state_json split: option.splits)

section \<open>Enrolling with the control plane\<close>

lemma client_at_plane: "pk_base L = new_client api \<Longrightarrow> client_at (\<lambda>b. plane_net L) E api = plane_client L (ne_read_time E)"
  by (simp add: client_at_def plane_client_def)

lemma prepare_Inr:
  assumes "prepare E f disk = Inr (prev, api)"
  shows "dk_denied disk (ef_state f) = None" "prev = Some st \<Longrightarrow> load_state (ne_read_time E) (ef_state f) disk = Inr st"
  using assms by (auto simp: prepare_def Let_def split: sum.splits load_error.splits option.splits)

text \<open>The token that a join asks for.\<close>

definition fresh_token :: "go_env \<Rightarrow> draw \<Rightarrow> string \<Rightarrow> stored_token" where
  "fresh_token env w t =
     \<lparr>tk_id = dr_id w, tk_tenant = t, tk_hash = ge_hash env (token_secret w), tk_max_uses = 1, tk_uses = 0,
      tk_expires = dr_now w + enroll_token_ttl, tk_revoked = None, tk_created = dr_now w\<rparr>"

definition new_token :: "go_env \<Rightarrow> draw \<Rightarrow> db \<Rightarrow> bool" where
  "new_token env w d \<longleftrightarrow> (\<forall>k \<in> set (db_tokens d). tk_id k \<noteq> dr_id w \<and> tk_hash k \<noteq> ge_hash env (token_secret w))"

lemma token_granted:
  assumes "times_read tm (pk_env L)" "plain_segment raw" and t: "ge_uuid (pk_env L) raw = Some (st_id t)" "find_tenant (pl_db s) (st_id t) = Some t"
    and new: "new_token (pk_env L) (node_draw L s) (pl_db s)"
  shows "node_create_token (plane_client L tm) raw enroll_token_ttl 1 s =
    (Inr (token_of raw (token_secret (node_draw L s)) (fresh_token (pk_env L) (node_draw L s) (st_id t))),
     next_step ((pl_db s)\<lparr>db_tokens := db_tokens (pl_db s) @ [fresh_token (pk_env L) (node_draw L s) (st_id t)]\<rparr>) s)"
    "store_create_token (dr_id (node_draw L s)) (ge_hash (pk_env L) (token_secret (node_draw L s))) (dr_now (node_draw L s)) (st_id t)
       enroll_token_ttl 1 (pl_db s) = Inr (fresh_token (pk_env L) (node_draw L s) (st_id t),
         (pl_db s)\<lparr>db_tokens := db_tokens (pl_db s) @ [fresh_token (pk_env L) (node_draw L s) (st_id t)]\<rparr>)"
proof -
  have "has_tenant (pl_db s) (st_id t)" using t(2) find_tenant_None [of "pl_db s" "st_id t"] by simp
  moreover have "\<not> list_ex (\<lambda>k. tk_id k = dr_id (node_draw L s) \<or> tk_hash k = ge_hash (pk_env L) (token_secret (node_draw L s))) (db_tokens (pl_db s))"
    using new by (auto simp: new_token_def list_ex_iff)
  ultimately show k: "store_create_token (dr_id (node_draw L s)) (ge_hash (pk_env L) (token_secret (node_draw L s))) (dr_now (node_draw L s)) (st_id t)
       enroll_token_ttl 1 (pl_db s) = Inr (fresh_token (pk_env L) (node_draw L s) (st_id t),
         (pl_db s)\<lparr>db_tokens := db_tokens (pl_db s) @ [fresh_token (pk_env L) (node_draw L s) (st_id t)]\<rparr>)"
    by (simp add: store_create_token_def fresh_token_def Let_def)
  have "by_uuid (pk_env L) raw (\<lambda>i. store_get_tenant i (pl_db s)) = Inr t" using t by (simp add: by_uuid_def store_get_tenant_def)
  then show "node_create_token (plane_client L tm) raw enroll_token_ttl 1 s =
    (Inr (token_of raw (token_secret (node_draw L s)) (fresh_token (pk_env L) (node_draw L s) (st_id t))),
     next_step ((pl_db s)\<lparr>db_tokens := db_tokens (pl_db s) @ [fresh_token (pk_env L) (node_draw L s) (st_id t)]\<rparr>) s)"
    using token_call [OF assms(1,2), of 60 1 s] k by (simp add: enroll_token_ttl_def max_token_uses_def)
qed


text \<open>
  The ordinary circumstances of a join: the client is at the control plane; times read back as
  printed; the tenant exists, with a free address; the token drawn is new, and redeemed in time.
\<close>

definition join_asked :: "node_env \<Rightarrow> plane_link \<Rightarrow> string \<Rightarrow> string \<Rightarrow> stored_tenant \<Rightarrow> string \<Rightarrow> plane \<Rightarrow> bool" where
  "join_asked E L api raw t name s \<longleftrightarrow>
     pk_base L = new_client api \<and> times_read (ne_read_time E) (pk_env L) \<and> (\<forall>u. ne_read_time E (ne_show_time E u) = Some u) \<and>
     plain_segment raw \<and> ge_uuid (pk_env L) raw = Some (st_id t) \<and> find_tenant (pl_db s) (st_id t) = Some t \<and>
     new_token (pk_env L) (node_draw L s) (pl_db s) \<and> go_trim (token_secret (node_draw L s)) = token_secret (node_draw L s) \<and>
     dr_now (pk_draw L (pl_step s + 1)) < dr_now (node_draw L s) + enroll_token_ttl \<and> go_trim name = name \<and> name \<noteq> ''''"

definition pool_full :: "stored_tenant \<Rightarrow> db \<Rightarrow> bool" where
  "pool_full t d \<longleftrightarrow> set (pool (st_cidr t)) \<subseteq> set (used_addrs (st_id t) d)"

definition join_ready :: "node_env \<Rightarrow> plane_link \<Rightarrow> string \<Rightarrow> string \<Rightarrow> stored_tenant \<Rightarrow> string \<Rightarrow> plane \<Rightarrow> bool" where
  "join_ready E L api raw t name s \<longleftrightarrow> join_asked E L api raw t name s \<and> \<not> pool_full t (pl_db s)"

text \<open>The end of \<open>enroll\<close>, once the machine is registered.\<close>

definition enrolled ::
  "node_env \<Rightarrow> enroll_flags \<Rightarrow> node_state \<Rightarrow> 's \<Rightarrow> node_disk \<Rightarrow> (string + node_state) \<times> 's \<times> node_disk" where
  "enrolled E f st s disk =
     (case mesh_prefix (ne_lib E) st of
        Inl e \<Rightarrow> (Inl e, s, disk)
      | Inr _ \<Rightarrow>
          (case save_state (ne_show_time E) (ef_state f) st disk of
             (Some e, disk') \<Rightarrow> (Inl e, s, disk')
           | (None, disk') \<Rightarrow> (Inr st, s, disk')))"

definition refused_text :: "store_error \<Rightarrow> string" where
  "refused_text e = client_error_text (Refused (fst (register_refusal e)) (snd (register_refusal e)))"

lemma enroll_asks:
  assumes ready: "join_asked E L api raw t name s" and ok: "peers_ok (pl_db s)"
    and keys: "own_keys E prev = Inr (private, public)" "go_trim public = public" "public \<noteq> ''''" and name: "own_name E f = Some name"
    and k: "k = fresh_token (pk_env L) (node_draw L s) (st_id t)" and w: "w = pk_draw L (pl_step s + 1)"
    and d: "d = (pl_db s)\<lparr>db_tokens := db_tokens (pl_db s) @ [k]\<rparr>"
  shows "peers_ok d"
    "register_begin (ge_hash (pk_env L) (token_secret (node_draw L s))) (dr_now w) name public d =
       (case first_free (pool (st_cidr t)) (used_addrs (st_id t) (pl_db s)) of
          None \<Rightarrow> Inl PoolExhausted
        | Some ip \<Rightarrow> Inr \<lparr>rg_token = tk_id k, rg_tenant = t, rg_name = name, rg_key = public, rg_ip = ip\<rparr>)"
    "enroll E (plane_client L (ne_read_time E)) f api prev raw (s, disk) =
       (case store_register_peer (dr_id w) (dr_now w) (ge_hash (pk_env L) (token_secret (node_draw L s))) name public d of
          Inl e \<Rightarrow> (Inl (refused_text e), next_step d (next_step d s), disk)
        | Inr ((p, u), d') \<Rightarrow>
            enrolled E f (registered_state E private prev api (registration_of (pk_env L) p u)) (next_step d' (next_step d s)) disk)"
proof -
  note r = ready [unfolded join_asked_def]
  have tm: "times_read (ne_read_time E) (pk_env L)" using r by blast
  have new: "new_token (pk_env L) (node_draw L s) (pl_db s)" using r by blast
  note g1 = token_granted [OF tm, of raw t s, folded k, folded d]
  have g: "node_create_token (plane_client L (ne_read_time E)) raw enroll_token_ttl 1 s =
      (Inr (token_of raw (token_secret (node_draw L s)) k), next_step d s)"
    "store_create_token (dr_id (node_draw L s)) (ge_hash (pk_env L) (token_secret (node_draw L s))) (dr_now (node_draw L s)) (st_id t)
       enroll_token_ttl 1 (pl_db s) = Inr (k, d)"
    using g1 r new by blast+
  show ok': "peers_ok d" using create_token_peers_ok [OF ok _ g(2), of "[]"] by (simp add: regs_ok_def)
  let ?h = "ge_hash (pk_env L) (token_secret (node_draw L s))"
  have kd: "k \<in> set (db_tokens d)" "usable_token ?h (dr_now w) k" "\<forall>k' \<in> set (db_tokens d). tk_hash k' = ?h \<longrightarrow> k' = k"
    "find_tenant d (tk_tenant k) = Some t"
    using r new unfolding d by (auto simp: k fresh_token_def usable_token_def w new_token_def find_tenant_def)
  have u: "used_addrs (st_id t) d = used_addrs (st_id t) (pl_db s)" by (simp add: used_addrs_def d)
  show "register_begin ?h (dr_now w) name public d =
       (case first_free (pool (st_cidr t)) (used_addrs (st_id t) (pl_db s)) of
          None \<Rightarrow> Inl PoolExhausted
        | Some ip \<Rightarrow> Inr \<lparr>rg_token = tk_id k, rg_tenant = t, rg_name = name, rg_key = public, rg_ip = ip\<rparr>)"
    using register_begin_first [OF ok' kd] by (simp add: u)
  have secret: "token_secret (node_draw L s) \<noteq> ''''" by (simp add: token_secret_def)
  have nd: "node_draw L (next_step d s) = w" by (simp add: node_draw_def w)
  have n: "go_trim (token_secret (node_draw L s)) = token_secret (node_draw L s)" "go_trim name = name" "name \<noteq> ''''"
    using r by blast+
  note reg = register_call [OF tm n(1) secret n(2,3) keys(2,3), of "next_step d s", unfolded nd next_step_simps]
  show "enroll E (plane_client L (ne_read_time E)) f api prev raw (s, disk) =
       (case store_register_peer (dr_id w) (dr_now w) ?h name public d of
          Inl e \<Rightarrow> (Inl (refused_text e), next_step d (next_step d s), disk)
        | Inr ((p, u), d') \<Rightarrow>
            enrolled E f (registered_state E private prev api (registration_of (pk_env L) p u)) (next_step d' (next_step d s)) disk)"
    using keys(1) name g(1) reg
    by (simp add: enroll_def token_of_def enrolled_def refused_text_def Let_def split: sum.splits prod.splits)
qed

lemma enroll_with_plane:
  assumes ready: "join_asked E L api raw t name s" and room: "\<not> pool_full t (pl_db s)" and ok: "peers_ok (pl_db s)"
    and keys: "own_keys E prev = Inr (private, public)" "go_trim public = public" "public \<noteq> ''''" and name: "own_name E f = Some name"
    and k: "k = fresh_token (pk_env L) (node_draw L s) (st_id t)" and w: "w = pk_draw L (pl_step s + 1)"
    and d: "d = (pl_db s)\<lparr>db_tokens := db_tokens (pl_db s) @ [k]\<rparr>"
  obtains g where "g = \<lparr>rg_token = tk_id k, rg_tenant = t, rg_name = name, rg_key = public, rg_ip = rg_ip g\<rparr>"
    "first_free (pool (st_cidr t)) (used_addrs (st_id t) (pl_db s)) = Some (rg_ip g)" "rg_ip g \<notin> set (used_addrs (st_id t) (pl_db s))"
    "peers_ok d"
    "enroll E (plane_client L (ne_read_time E)) f api prev raw (s, disk) =
       (case register_commit (dr_id w) (dr_now w) g d of
          Inl e \<Rightarrow> (Inl (refused_text e), next_step d (next_step d s), disk)
        | Inr (p, d') \<Rightarrow>
            enrolled E f (registered_state E private prev api (registration_of (pk_env L) p t)) (next_step d' (next_step d s)) disk)"
proof -
  note a = enroll_asks [OF ready ok keys name k w d]
  obtain ip where ip: "first_free (pool (st_cidr t)) (used_addrs (st_id t) (pl_db s)) = Some ip"
    using room first_free_None_iff [of "pool (st_cidr t)"] unfolding pool_full_def by blast
  define g where "g = \<lparr>rg_token = tk_id k, rg_tenant = t, rg_name = name, rg_key = public, rg_ip = ip\<rparr>"
  have new: "ip \<notin> set (used_addrs (st_id t) (pl_db s))" using ip unfolding first_free_def by (metis find_Some_set)
  have st: "store_register_peer (dr_id w) (dr_now w) (ge_hash (pk_env L) (token_secret (node_draw L s))) name public d =
      map_sum id (\<lambda>(p, d'). ((p, t), d')) (register_commit (dr_id w) (dr_now w) g d)"
    using a(2) ip by (simp add: store_register_peer_def g_def)
  have "enroll E (plane_client L (ne_read_time E)) f api prev raw (s, disk) =
       (case register_commit (dr_id w) (dr_now w) g d of
          Inl e \<Rightarrow> (Inl (refused_text e), next_step d (next_step d s), disk)
        | Inr (p, d') \<Rightarrow>
            enrolled E f (registered_state E private prev api (registration_of (pk_env L) p t)) (next_step d' (next_step d s)) disk)"
    unfolding a(3) st by (auto split: sum.split)
  then show thesis using that [of g] ip new a(1) by (simp add: g_def)
qed


lemma trim_b64: "go_trim (b64_encode bs) = b64_encode bs"
  using b64_encode_plain by (intro go_trim_id) blast

lemma join_cmd_enrolls:
  assumes "enroll_parse ''join'' join_flags ''tenant-id'' args = Inr (fs, raw)" "prepare E (enroll_flags_of E fs) disk = Inr (prev, api)"
    "pk_base L = new_client api"
  shows "join_cmd E (\<lambda>b. plane_net L) args (s, disk) =
    enroll E (plane_client L (ne_read_time E)) (enroll_flags_of E fs) api prev raw (s, disk)"
  using assms by (simp add: join_cmd_def client_at_plane)

text \<open>The state that a registration leaves gives its prefix back.\<close>

lemma mesh_prefix_registered:
  assumes "range_ok (st_cidr t)" "sp_ip p \<in> set (pool (st_cidr t))"
  shows "mesh_prefix lib (registered_state E private prev api (registration_of env p t)) = Inr (Some \<lparr>pf_addr = sp_ip p, pf_bits = pf_bits (st_cidr t)\<rparr>)"
proof -
  obtain a n where c: "st_cidr t = \<lparr>pf_addr = V4 a, pf_bits = n\<rparr>" "n \<le> 30"
    using assms(1) unfolding range_ok_def by (cases "st_cidr t"; cases "pf_addr (st_cidr t)") auto
  obtain b where b: "sp_ip p = V4 b" using pool_V4 assms(2) unfolding c(1) by blast
  have "show_prefix (ge_netip env) (st_cidr t) = show_prefix lib (st_cidr t)" by (simp add: show_prefix_def c(1))
  moreover have "go_parse_prefix lib (show_prefix lib \<lparr>pf_addr = V4 a, pf_bits = n\<rparr>) = Some \<lparr>pf_addr = V4 a, pf_bits = n\<rparr>"
    using parse_prefix_show [of n lib a] c(2) by simp
  ultimately show ?thesis
    using c b go_parse_addr_show4 [of lib b] by (simp add: mesh_prefix_def registered_state_def registration_of_def prefix_from_def)
qed

text \<open>
  C10. \<open>meshd join\<close> makes a machine that can run. Where the control plane has the tenant, an
  address is free, the machine's key is new in the tenant and its state can be written, the
  command succeeds: the control plane has one more machine, with the key, the name and the
  first free address of the pool, let in by a token of one use that is now spent; and what
  \<open>meshd run\<close> then reads of the state file is that registration, with the machine's prefix, its
  private key as WireGuard takes it, and the port it had before.
\<close>
theorem join_lets_run:
  assumes args: "enroll_parse ''join'' join_flags ''tenant-id'' args = Inr (fs, raw)"
    and prep: "prepare E (enroll_flags_of E fs) disk = Inr (prev, api)"
    and ready: "join_ready E L api raw t name s" and run: "control_run env (pl_db s) as gs h"
    and keys: "own_keys E prev = Inr (b64_encode private, b64_encode public)" "length private = 32" "length public = 32"
    and name: "own_name E (enroll_flags_of E fs) = Some name"
    and fresh: "\<forall>p \<in> set (db_peers (pl_db s)). sp_id p \<noteq> dr_id (pk_draw L (pl_step s + 1)) \<and>
      (sp_tenant p = st_id t \<longrightarrow> sp_key p \<noteq> b64_encode public)"
  shows "\<exists>st p s' disk'. join_cmd E (\<lambda>b. plane_net L) args (s, disk) = (Inr st, s', disk') \<and>
    db_peers (pl_db s') = db_peers (pl_db s) @ [p] \<and> sp_tenant p = st_id t \<and> sp_key p = b64_encode public \<and> sp_name p = name \<and>
    first_free (pool (st_cidr t)) (used_addrs (st_id t) (pl_db s)) = Some (sp_ip p) \<and>
    (\<exists>k \<in> set (db_tokens (pl_db s')). sp_token p = Some (tk_id k) \<and> tk_uses k = 1 \<and> tk_max_uses k = 1) \<and>
    ns_peer st = sp_id p \<and> ns_tenant st = st_id t \<and> ns_public st = b64_encode public \<and> ns_api st = api \<and>
    run_begin E (ef_state (enroll_flags_of E fs)) 0 disk' =
      Inr (st, Some \<lparr>pf_addr = sp_ip p, pf_bits = pf_bits (st_cidr t)\<rparr>, hex_encode private,
        first_set [case prev of Some old \<Rightarrow> ns_udp_port old | None \<Rightarrow> 0, default_udp_port])"
proof -
  let ?f = "enroll_flags_of E fs"
  define w where "w = pk_draw L (pl_step s + 1)"
  define k where "k = fresh_token (pk_env L) (node_draw L s) (st_id t)"
  define d where "d = (pl_db s)\<lparr>db_tokens := db_tokens (pl_db s) @ [k]\<rparr>"
  have asked: "join_asked E L api raw t name s" "\<not> pool_full t (pl_db s)" using ready by (simp_all add: join_ready_def)
  note r = ready [unfolded join_ready_def join_asked_def]
  have ok: "peers_ok (pl_db s)" using run_invariant [OF run] by (simp add: run_ok_def)
  have pub: "b64_encode public \<noteq> ''''" using keys(3) by (auto simp: b64_encode_Nil)
  obtain g where g: "g = \<lparr>rg_token = tk_id k, rg_tenant = t, rg_name = name, rg_key = b64_encode public, rg_ip = rg_ip g\<rparr>"
      "first_free (pool (st_cidr t)) (used_addrs (st_id t) (pl_db s)) = Some (rg_ip g)" "rg_ip g \<notin> set (used_addrs (st_id t) (pl_db s))"
    and e: "enroll E (plane_client L (ne_read_time E)) ?f api prev raw (s, disk) =
       (case register_commit (dr_id w) (dr_now w) g d of
          Inl e \<Rightarrow> (Inl (refused_text e), next_step d (next_step d s), disk)
        | Inr (p, d') \<Rightarrow>
            enrolled E ?f (registered_state E (b64_encode private) prev api (registration_of (pk_env L) p t)) (next_step d' (next_step d s)) disk)"
    by (rule enroll_with_plane [OF asked(1,2) ok keys(1) trim_b64 pub name k_def w_def d_def])
  define p where "p = peer_of (dr_id w) (dr_now w) g"
  have g': "rg_token g = tk_id k" "rg_tenant g = t" "rg_name g = name" "rg_key g = b64_encode public" by (subst g(1), simp)+
  have p: "sp_id p = dr_id w" "sp_tenant p = st_id t" "sp_name p = name" "sp_key p = b64_encode public" "sp_ip p = rg_ip g" "sp_token p = Some (tk_id k)"
    by (simp_all add: p_def peer_of_def g')
  have "\<not> list_ex (peer_clash p) (db_peers d)"
    using fresh g(3) by (auto simp: list_ex_iff peer_clash_def p d_def used_addrs_def w_def)
  then have c: "register_commit (dr_id w) (dr_now w) g d = Inr (p, d\<lparr>db_peers := db_peers d @ [p],
      db_tokens := map (\<lambda>x. if tk_id x = tk_id k then x\<lparr>tk_uses := tk_uses x + 1\<rparr> else x) (db_tokens d)\<rparr>)"
    by (simp add: register_commit_def Let_def p_def [symmetric] g')
  let ?d = "d\<lparr>db_peers := db_peers d @ [p], db_tokens := map (\<lambda>x. if tk_id x = tk_id k then x\<lparr>tk_uses := tk_uses x + 1\<rparr> else x) (db_tokens d)\<rparr>"
  let ?st = "registered_state E (b64_encode private) prev api (registration_of (pk_env L) p t)"
  have range: "range_ok (st_cidr t)" using ok r find_tenant_Some [of "pl_db s" "st_id t" t] by (auto simp: peers_ok_def)
  have "rg_ip g \<in> set (pool (st_cidr t))" using g(2) unfolding first_free_def by (metis find_Some_set)
  then have m: "mesh_prefix lib ?st = Inr (Some \<lparr>pf_addr = sp_ip p, pf_bits = pf_bits (st_cidr t)\<rparr>)" for lib
    using mesh_prefix_registered [OF range, of p] by (simp add: p(5))
  have denied: "dk_denied disk (ef_state ?f) = None" by (rule prepare_Inr(1) [OF prep])
  define disk' where "disk' = disk\<lparr>dk_file := (dk_file disk)(ef_state ?f := Holds (state_json (ne_show_time E) ?st))\<rparr>"
  have saved: "save_state (ne_show_time E) (ef_state ?f) ?st disk = (None, disk')" by (simp add: save_state_def denied disk'_def)
  have "int64 (ns_udp_port ?st)"
    using load_state_port prepare_Inr(2) [OF prep] by (cases prev) (auto simp: registered_state_def int64_def)
  then have loaded: "load_state (ne_read_time E) (ef_state ?f) disk' = Inr ?st" using load_saved [OF saved] r by blast
  have "b64_encode private \<noteq> ''''" using keys(2) by (auto simp: b64_encode_Nil)
  then have rb: "run_begin E (ef_state ?f) 0 disk' = Inr (?st, Some \<lparr>pf_addr = sp_ip p, pf_bits = pf_bits (st_cidr t)\<rparr>, hex_encode private,
        first_set [case prev of Some old \<Rightarrow> ns_udp_port old | None \<Rightarrow> 0, default_udp_port])"
    using loaded m hex_key_encode [OF keys(2)] by (simp add: run_begin_def Let_def registered_state_def)
  have j: "join_cmd E (\<lambda>b. plane_net L) args (s, disk) = (Inr ?st, next_step ?d (next_step d s), disk')"
    using join_cmd_enrolls [OF args prep, of L s] r e by (simp add: c enrolled_def m saved)
  have spent: "k\<lparr>tk_uses := tk_uses k + 1\<rparr> \<in> set (db_tokens ?d)" by (simp add: d_def)
  have "tk_uses (k\<lparr>tk_uses := tk_uses k + 1\<rparr>) = 1" "tk_max_uses (k\<lparr>tk_uses := tk_uses k + 1\<rparr>) = 1" by (simp_all add: k_def fresh_token_def)
  then have "\<exists>k \<in> set (db_tokens (pl_db (next_step ?d (next_step d s)))). sp_token p = Some (tk_id k) \<and> tk_uses k = 1 \<and> tk_max_uses k = 1"
    using spent p(6) by (intro bexI [of _ "k\<lparr>tk_uses := tk_uses k + 1\<rparr>"]) simp_all
  moreover have "db_peers (pl_db (next_step ?d (next_step d s))) = db_peers (pl_db s) @ [p]" by (simp add: d_def)
  moreover have "ns_peer ?st = sp_id p" "ns_tenant ?st = st_id t" "ns_public ?st = b64_encode public" "ns_api ?st = api"
    by (simp_all add: registered_state_def registration_of_def p)
  moreover note j p(2-4) g(2) [folded p(5)] rb
  ultimately show ?thesis by blast
qed


text \<open>
  C30. A machine cannot join its tenant again. \<open>join\<close> keeps the keypair of the state file, and the
  control plane refuses a key that the tenant already has; so the command that says it replaces
  a registration fails there, always: with the message that the key is already registered, or,
  where no address of the tenant's pool is free, that the pool is exhausted. The
  machines and the state file stay as they were; a token that nobody will use is left behind.
\<close>
theorem rejoin_refused:
  assumes args: "enroll_parse ''join'' join_flags ''tenant-id'' args = Inr (fs, raw)"
    and prep: "prepare E (enroll_flags_of E fs) disk = Inr (Some old, api)"
    and ready: "join_asked E L api raw t name s" and run: "control_run env (pl_db s) as gs h"
    and keys: "ns_private old \<noteq> ''''" "ns_public old = b64_encode public" "length public = 32"
    and name: "own_name E (enroll_flags_of E fs) = Some name"
    and there: "p \<in> set (db_peers (pl_db s))" "sp_tenant p = st_id t" "sp_key p = ns_public old"
  shows "\<exists>s'. join_cmd E (\<lambda>b. plane_net L) args (s, disk) =
      (Inl (if pool_full t (pl_db s) then ''control plane: the tenant address pool is exhausted (HTTP 409)''
            else ''control plane: that public key is already registered in this tenant (HTTP 409)''), s', disk) \<and>
    db_peers (pl_db s') = db_peers (pl_db s) \<and>
    (\<exists>k. db_tokens (pl_db s') = db_tokens (pl_db s) @ [k] \<and> tk_uses k = 0 \<and> tk_max_uses k = 1)"
proof -
  let ?f = "enroll_flags_of E fs"
  define w where "w = pk_draw L (pl_step s + 1)"
  define k where "k = fresh_token (pk_env L) (node_draw L s) (st_id t)"
  define d where "d = (pl_db s)\<lparr>db_tokens := db_tokens (pl_db s) @ [k]\<rparr>"
  have ok: "peers_ok (pl_db s)" using run_invariant [OF run] by (simp add: run_ok_def)
  have pub: "b64_encode public \<noteq> ''''" using keys(3) by (auto simp: b64_encode_Nil)
  have own: "own_keys E (Some old) = Inr (ns_private old, b64_encode public)" using keys by (simp add: own_keys_def)
  note a = enroll_asks [OF ready ok own trim_b64 pub name k_def w_def d_def]
  have "store_register_peer (dr_id w) (dr_now w) (ge_hash (pk_env L) (token_secret (node_draw L s))) name (b64_encode public) d =
      Inl (if pool_full t (pl_db s) then PoolExhausted else Conflict)"
  proof (cases "first_free (pool (st_cidr t)) (used_addrs (st_id t) (pl_db s))")
    case None
    then have "pool_full t (pl_db s)" by (simp add: pool_full_def first_free_None_iff)
    then show ?thesis using a(2) None by (simp add: store_register_peer_def)
  next
    case (Some ip)
    define g where "g = \<lparr>rg_token = tk_id k, rg_tenant = t, rg_name = name, rg_key = b64_encode public, rg_ip = ip\<rparr>"
    have "\<not> pool_full t (pl_db s)"
      using Some first_free_None_iff [of "pool (st_cidr t)" "used_addrs (st_id t) (pl_db s)"] by (simp add: pool_full_def)
    moreover have "list_ex (peer_clash (peer_of (dr_id w) (dr_now w) g)) (db_peers d)"
      unfolding list_ex_iff peer_clash_def using there keys(2) by (intro bexI [of _ p]) (simp_all add: d_def g_def peer_of_def)
    then have "register_commit (dr_id w) (dr_now w) g d = Inl Conflict" by (simp add: register_commit_def Let_def)
    ultimately show ?thesis using a(2) Some by (simp add: store_register_peer_def g_def)
  qed
  then have e: "enroll E (plane_client L (ne_read_time E)) ?f api (Some old) raw (s, disk) =
      (Inl (refused_text (if pool_full t (pl_db s) then PoolExhausted else Conflict)), next_step d (next_step d s), disk)"
    using a(3) by simp
  have "refused_text Conflict = ''control plane: that public key is already registered in this tenant (HTTP 409)''"
      "refused_text PoolExhausted = ''control plane: the tenant address pool is exhausted (HTTP 409)''"
    by code_simp+
  then have "join_cmd E (\<lambda>b. plane_net L) args (s, disk) =
      (Inl (if pool_full t (pl_db s) then ''control plane: the tenant address pool is exhausted (HTTP 409)''
            else ''control plane: that public key is already registered in this tenant (HTTP 409)''), next_step d (next_step d s), disk)"
    using join_cmd_enrolls [OF args prep, of L s] ready e by (simp add: join_asked_def)
  moreover have "tk_uses k = 0" "tk_max_uses k = 1" by (simp_all add: k_def fresh_token_def)
  ultimately show ?thesis by (simp add: d_def)
qed

section \<open>A machine to look at\<close>

definition unary_time :: "int \<Rightarrow> string" where
  "unary_time t = (if t < 0 then CHR ''-'' # replicate (nat (- t)) (CHR ''x'') else replicate (nat t) (CHR ''x''))"

definition unary_read :: "string \<Rightarrow> int option" where
  "unary_read s = Some (if s \<noteq> '''' \<and> hd s = CHR ''-'' then - int (length (tl s)) else int (length s))"

lemma unary_times: "unary_read (unary_time t) = Some t"
  by (cases "nat t") (auto simp: unary_read_def unary_time_def)

definition demo_link :: plane_link where
  "demo_link =
     \<lparr>pk_env = plane_env\<lparr>ge_time := unary_time, ge_probe_port := Some 8091, ge_parse_addr_port := go_parse_addr_port demo_lib,
        ge_show_addr_port := (\<lambda>a p. show_addr_port demo_lib (a, nat p))\<rparr>,
      pk_draw = (\<lambda>n. if n = 0 then demo_draw ''k9'' ''xyz'' else demo_draw ''p1'' ''''),
      pk_token = (\<lambda>n. replicate 16 1), pk_src = V4 0x01020304, pk_base = default_base_url\<rparr>"

definition demo_node :: node_env where
  "demo_node =
     \<lparr>ne_lib = demo_lib, ne_show_time = unary_time, ne_read_time = unary_read,
      ne_keys = Inr (b64_encode (replicate 32 7), b64_encode (replicate 32 8)), ne_host = Some ''laptop'', ne_now = 3, ne_var = (\<lambda>k. '''')\<rparr>"

definition demo_disk :: node_disk where
  "demo_disk = \<lparr>dk_file = (\<lambda>f. Absent), dk_denied = (\<lambda>f. None)\<rparr>"

definition demo_plane :: plane where
  "demo_plane = \<lparr>pl_db = db4, pl_relay = Some new_relay, pl_step = 0\<rparr>"

lemma demo_args: "enroll_parse ''join'' join_flags ''tenant-id'' [''t1''] = Inr ([], ''t1'')"
  by code_simp

lemma demo_prepare: "prepare demo_node (enroll_flags_of demo_node []) demo_disk = Inr (None, default_base_url)"
  by (simp add: prepare_def load_state_def demo_disk_def enroll_flags_of_def flag_or_def env_or_def demo_node_def trim_plain)

lemma demo_client: "new_client default_base_url = default_base_url"
  by code_simp

lemma demo_used: "used_addrs ''t1'' db4 = []" "db_peers db4 = []"
  by (simp_all add: used_addrs_def db4_def db1_def empty_db_def)

lemma demo_ready: "join_ready demo_node demo_link default_base_url ''t1'' demo_tenant ''laptop'' demo_plane"
proof -
  have "go_trim ''laptop'' = ''laptop''" "go_trim ''m2m_xyz'' = ''m2m_xyz''"
    by (simp_all add: go_trim_def go_space_def js_space_def)
  moreover have "plain_segment ''t1''" by (simp add: plain_segment_def clean_segment_def)
  moreover have "db_tokens db4 = [demo_token ''k1'' ''abc'']" by (simp add: db4_def)
  moreover have "st_id demo_tenant = ''t1''" "st_cidr demo_tenant = demo_range" by (simp_all add: demo_tenant_def)
  ultimately show ?thesis
    using demo_tenant_found(2) demo_used(1) demo_client
    by (simp add: join_ready_def join_asked_def pool_full_def demo_link_def demo_node_def demo_plane_def plane_env_def times_read_def unary_times node_draw_def demo_draw_def
        token_secret_def new_token_def demo_token_def enroll_token_ttl_def second_ns_def demo_pool)
qed

lemma demo_own: "own_keys demo_node None = Inr (b64_encode (replicate 32 7), b64_encode (replicate 32 8))"
  "own_name demo_node (enroll_flags_of demo_node []) = Some ''laptop''"
  by (simp_all add: own_keys_def own_name_def demo_node_def enroll_flags_of_def flag_or_def trim_plain)

theorem join_lets_run_witness:
  "\<exists>st s' disk' file. join_cmd demo_node (\<lambda>b. plane_net demo_link) [''t1''] (demo_plane, demo_disk) = (Inr st, s', disk') \<and>
     map sp_ip (db_peers (pl_db s')) = [V4 0x0A000002] \<and>
     run_begin demo_node file 0 disk' =
       Inr (st, Some \<lparr>pf_addr = V4 0x0A000002, pf_bits = 29\<rparr>, hex_encode (replicate 32 7), 51820)"
proof -
  obtain h where run: "control_run plane_env (pl_db demo_plane) [] [] h" using demo_token_run by (auto simp: demo_plane_def)
  have fresh: "\<forall>p \<in> set (db_peers (pl_db demo_plane)). sp_id p \<noteq> dr_id (pk_draw demo_link (pl_step demo_plane + 1)) \<and>
      (sp_tenant p = st_id demo_tenant \<longrightarrow> sp_key p \<noteq> b64_encode (replicate 32 8))"
    by (simp add: demo_plane_def demo_used)
  have l: "length (replicate 32 7 :: octets) = 32" "length (replicate 32 8 :: octets) = 32" by simp_all
  have p: "first_free (pool (st_cidr demo_tenant)) (used_addrs (st_id demo_tenant) (pl_db demo_plane)) = Some (V4 0x0A000002)"
    "pf_bits (st_cidr demo_tenant) = 29" "db_peers (pl_db demo_plane) = []"
    using demo_first demo_used by (simp_all add: demo_tenant_def demo_plane_def demo_range_def [symmetric]) (simp add: demo_range_def)
  show ?thesis
    using join_lets_run [OF demo_args demo_prepare demo_ready run demo_own(1) l demo_own(2) fresh] unfolding p
    by (fastforce simp: default_udp_port_def)
qed


lemma run_registers:
  assumes run: "control_run env d [] [] h" and i: "register_input env b = Inr (tok, n, k)"
    and g: "register_begin (ge_hash env tok) now n k d = Inr g" "register_commit i now' g d = Inr (p, d')"
  shows "\<exists>h. control_run env d' [] [] h"
proof -
  let ?r = "\<lparr>gq_route = RegisterPeerR b, gq_headers = [], gq_remote = None\<rparr>"
  have "control_begin env ?r (gq_route ?r) d = Inr (ARegister tok n k)" by (simp add: i)
  note r = run_begin [OF run this]
  have "control_run env d [] [g] (Began ?r (ARegister tok n k) d # h)" using run_enroll [OF r _ g(1)] by simp
  from run_commit [OF this _ g(2)] show ?thesis by auto
qed

text \<open>The tenant of \<open>db4\<close> with its first machine.\<close>

definition demo_key8 :: string where
  "demo_key8 = b64_encode (replicate 32 8)"

definition demo_laptop :: stored_peer where
  "demo_laptop = peer_of ''p0'' 6 \<lparr>rg_token = ''k1'', rg_tenant = demo_tenant, rg_name = ''laptop'', rg_key = demo_key8, rg_ip = V4 0x0A000002\<rparr>"

definition db6 :: db where
  "db6 = db4\<lparr>db_peers := [demo_laptop], db_tokens := [(demo_token ''k1'' ''abc'')\<lparr>tk_uses := 1\<rparr>]\<rparr>"

lemma demo_key8_plain: "go_trim demo_key8 = demo_key8" "demo_key8 \<noteq> ''''"
  by (simp_all add: demo_key8_def trim_b64 b64_encode_Nil)

lemma demo_laptop_run: "\<exists>h. control_run plane_env db6 [] [] h"
proof -
  obtain h where run: "control_run plane_env db4 [] [] h" using demo_token_run by blast
  let ?b = "JsonBody (JObj [(''token'', JStr ''m2m_abc''), (''name'', JStr ''laptop''), (''public_key'', JStr demo_key8)])"
  have t: "go_trim ''m2m_abc'' = ''m2m_abc''" "go_trim ''laptop'' = ''laptop''" by (simp_all add: go_trim_def go_space_def js_space_def)
  have i: "register_input plane_env ?b = Inr (''m2m_abc'', ''laptop'', demo_key8)"
    using demo_key8_plain by (simp add: register_input_def decode_def field_of_def str_field_def t)
  have "next_free_addr demo_range [] = Some (V4 0x0A000002)"
    using next_free_first [of 29 "0x0A000000" "[]"] demo_first by (simp add: demo_range_def)
  then have g: "register_begin (ge_hash plane_env ''m2m_abc'') 6 ''laptop'' demo_key8 db4 =
      Inr \<lparr>rg_token = ''k1'', rg_tenant = demo_tenant, rg_name = ''laptop'', rg_key = demo_key8, rg_ip = V4 0x0A000002\<rparr>"
    using demo_tenant_found(2) demo_used(1)
    by (simp add: register_begin_def db4_def demo_token_def usable_token_def default_token_ttl_def second_ns_def plane_env_def store_get_tenant_def)
       (simp add: demo_tenant_def)
  have "register_commit ''p0'' 6 \<lparr>rg_token = ''k1'', rg_tenant = demo_tenant, rg_name = ''laptop'', rg_key = demo_key8, rg_ip = V4 0x0A000002\<rparr> db4 =
      Inr (demo_laptop, db6)"
    by (simp add: register_commit_def Let_def demo_laptop_def db6_def db4_def db1_def empty_db_def demo_token_def)
  from run_registers [OF run i g this] show ?thesis .
qed

definition demo_state :: node_state where
  "demo_state =
     \<lparr>ns_private = b64_encode (replicate 32 7), ns_public = demo_key8, ns_peer = ''p0'', ns_tenant = ''t1'', ns_tenant_name = ''home'',
      ns_name = ''laptop'', ns_mesh_ip = ''10.0.0.2'', ns_udp_port = 0, ns_mesh_cidr = ''10.0.0.0/29'', ns_api = default_base_url, ns_registered = 3\<rparr>"

definition joined_disk :: node_disk where
  "joined_disk = \<lparr>dk_file = (\<lambda>f. Holds (state_json unary_time demo_state)), dk_denied = (\<lambda>f. None)\<rparr>"

lemma joined_state: "load_state unary_read file joined_disk = Inr demo_state"
  using read_state_json [of unary_read unary_time demo_state]
  by (simp add: load_state_def joined_disk_def unary_times int64_def demo_state_def)

lemma joined_prepare: "prepare demo_node (enroll_flags_of demo_node []) joined_disk = Inr (Some demo_state, default_base_url)"
proof -
  have "load_state (ne_read_time demo_node) f joined_disk = Inr demo_state" for f using joined_state by (simp add: demo_node_def)
  moreover have "dk_denied joined_disk f = None" for f by (simp add: joined_disk_def)
  moreover have "ef_api (enroll_flags_of demo_node []) = ''''" by (simp add: enroll_flags_of_def flag_or_def env_or_def demo_node_def)
  moreover have "ns_api demo_state = default_base_url" "default_base_url \<noteq> ''''" by (simp_all add: demo_state_def default_base_url_def)
  ultimately show ?thesis by (simp add: prepare_def trim_plain Let_def)
qed

lemma rejoin_ready: "join_ready demo_node demo_link default_base_url ''t1'' demo_tenant ''laptop'' (demo_plane\<lparr>pl_db := db6\<rparr>)"
proof -
  note r = demo_ready [unfolded join_ready_def join_asked_def pool_full_def]
  have "find_tenant db6 = find_tenant db4" by (simp add: fun_eq_iff find_tenant_def db6_def)
  moreover have "used_addrs ''t1'' db6 = [V4 0x0A000002]"
    by (simp add: used_addrs_def db6_def demo_laptop_def peer_of_def demo_tenant_def)
  moreover have "st_id demo_tenant = ''t1''" "st_cidr demo_tenant = demo_range" by (simp_all add: demo_tenant_def)
  moreover have "new_token env w db6 = new_token env w db4" for env w
    by (simp add: new_token_def db6_def db4_def)
  moreover have "node_draw demo_link (demo_plane\<lparr>pl_db := db6\<rparr>) = node_draw demo_link demo_plane" by (simp add: node_draw_def)
  ultimately show ?thesis using r unfolding join_ready_def join_asked_def pool_full_def by (simp add: demo_plane_def demo_pool)
qed

theorem rejoin_refused_witness:
  "fst (join_cmd demo_node (\<lambda>b. plane_net demo_link) [''t1''] (demo_plane\<lparr>pl_db := db6\<rparr>, joined_disk)) =
     Inl ''control plane: that public key is already registered in this tenant (HTTP 409)''"
proof -
  obtain h where run: "control_run plane_env (pl_db (demo_plane\<lparr>pl_db := db6\<rparr>)) [] [] h" using demo_laptop_run by auto
  have k: "ns_private demo_state \<noteq> ''''" "ns_public demo_state = b64_encode (replicate 32 8)" "length (replicate 32 8 :: octets) = 32"
    by (simp_all add: demo_state_def demo_key8_def b64_encode_Nil)
  have p: "demo_laptop \<in> set (db_peers (pl_db (demo_plane\<lparr>pl_db := db6\<rparr>)))" "sp_tenant demo_laptop = st_id demo_tenant"
    "sp_key demo_laptop = ns_public demo_state"
    by (simp_all add: db6_def demo_laptop_def peer_of_def demo_state_def)
  have "join_asked demo_node demo_link default_base_url ''t1'' demo_tenant ''laptop'' (demo_plane\<lparr>pl_db := db6\<rparr>)"
    and room: "\<not> pool_full demo_tenant (pl_db (demo_plane\<lparr>pl_db := db6\<rparr>))"
    using rejoin_ready by (simp_all add: join_ready_def)
  from rejoin_refused [OF demo_args joined_prepare this(1) run k demo_own(2) p] room show ?thesis by auto
qed

end
