(* ===== verification/Prober.thy ===== *)
theory Prober
  imports Relay
begin

text \<open>
  The prober (\<open>internal/prober\<close>): it asks a machine's reported endpoint for an echo, tells
  nodes which address they are seen from, and hands relay frames to the relay on the same
  socket. A probe waits in \<open>Reachable\<close> while the read loop runs, so it is a begin and an end.
\<close>

definition probe_retries :: nat where
  "probe_retries = 3"

text \<open>The waiters by nonce, and the nonces whose channel has been closed by a reply.\<close>

record prober =
  pr_waiters :: "octets \<rightharpoonup> addr_port"
  pr_replied :: "octets list"
  pr_relay :: "relay option"

definition new_prober :: prober where
  "new_prober = \<lparr>pr_waiters = (\<lambda>n. None), pr_replied = [], pr_relay = None\<rparr>"

definition set_relay :: "relay \<Rightarrow> prober \<Rightarrow> prober" where
  "set_relay r p = p\<lparr>pr_relay := Some r\<rparr>"

text \<open>\<open>Reachable\<close> up to its waiting: the datagram it sends, up to three times.\<close>

definition reachable_begin :: "octets \<Rightarrow> addr_port \<Rightarrow> prober \<Rightarrow> datagram option \<times> prober" where
  "reachable_begin nc target p =
     (if fst target = NoAddr \<or> snd target = 0 then (None, p)
      else (Some (encode_frame Probe nc, target), p\<lparr>pr_waiters := (pr_waiters p)(nc \<mapsto> target)\<rparr>))"

text \<open>How it ends: with a reply if the channel is closed by the end of the budget.\<close>

definition reachable_end :: "octets \<Rightarrow> prober \<Rightarrow> bool \<times> prober" where
  "reachable_end nc p = (nc \<in> set (pr_replied p), p\<lparr>pr_waiters := (pr_waiters p)(nc := None)\<rparr>)"

definition answer_binding :: "octets \<Rightarrow> addr_port \<Rightarrow> datagram option" where
  "answer_binding payload src =
     (if length payload < binding_len then None
      else Some (append_addr_port (encode_frame BindingResponse (take nonce_len payload)) src, src))"

definition probe_reply :: "octets \<Rightarrow> addr_port \<Rightarrow> prober \<Rightarrow> prober" where
  "probe_reply payload src p =
     (if length payload < nonce_len then p
      else
        (let nc = take nonce_len payload in
         if pr_waiters p nc = Some src
         then p\<lparr>pr_waiters := (pr_waiters p)(nc := None), pr_replied := nc # pr_replied p\<rparr> else p))"

text \<open>One turn of \<open>readLoop\<close>, whose buffer cuts a longer datagram off.\<close>

definition prober_receive :: "int \<Rightarrow> octets \<Rightarrow> addr_port \<Rightarrow> prober \<Rightarrow> datagram option \<times> prober" where
  "prober_receive now frame from p =
     (let src = (addr_unmap (fst from), snd from); buf = take max_frame_len frame in
      case decode_frame buf of
        Inl e \<Rightarrow> (None, p)
      | Inr (t, payload) \<Rightarrow>
          if t = type_byte BindingRequest then (answer_binding payload src, p)
          else if t = type_byte RelayRegister \<or> t = type_byte RelayData then
            (case pr_relay p of
               None \<Rightarrow> (None, p)
             | Some r \<Rightarrow> (case relay_handle now buf src r of (d, r') \<Rightarrow> (d, p\<lparr>pr_relay := Some r'\<rparr>)))
          else if t = type_byte ProbeReply then (None, probe_reply payload src p)
          else (None, p))"

lemma decode_buffer:
  "decode_frame (take max_frame_len frame) = map_sum id (map_prod id (take 2044)) (decode_frame frame)"
  using decode_take [of max_frame_len frame] by (simp add: max_frame_len_def header_len_def)

text \<open>What fits the buffer and is for the relay reaches it as it was sent.\<close>

lemma prober_hands_on:
  assumes "length payload \<le> max_frame_len - header_len" "pr_relay p = Some r" "addr_unmap (fst from) = fst from"
  shows "prober_receive now (encode_frame RelayData payload) from p =
    (case relay_handle now (encode_frame RelayData payload) from r of (d, r') \<Rightarrow> (d, p\<lparr>pr_relay := Some r'\<rparr>))"
proof -
  have "take max_frame_len (encode_frame RelayData payload) = encode_frame RelayData payload"
    using assms(1) by (intro take_frame) (simp add: max_frame_len_def header_len_def)
  then show ?thesis using assms(2,3) by (simp add: prober_receive_def Let_def decode_encode)
qed

section \<open>No amplification\<close>

lemma relay_handle_length:
  assumes "relay_handle now frame src r = (Some (out, dst), r')"
  shows "length out \<le> length frame \<and> (is_data frame \<or> dst = src)"
  using assms
proof (cases rule: relay_handle_cases)
  case (registers token s)
  then show ?thesis
    by (auto simp: names_token_def encode_frame_def decode_Inr wire_lengths split: sum.splits prod.splits)
next
  case (forwards s t a)
  then show ?thesis by (simp add: wire_lengths)
qed simp_all

text \<open>
  The socket cannot be used to amplify traffic. Whatever datagram arrives, with whatever
  forged source, what the prober and the relay send in return is at most as long as it, and
  goes back to the address it came from; only a data frame for the relay goes elsewhere.
\<close>
theorem socket_never_amplifies:
  assumes "prober_receive now frame from p = (Some (out, dst), p')"
  shows "length out \<le> length frame \<and> (is_data frame \<or> dst = (addr_unmap (fst from), snd from))"
proof -
  let ?buf = "take max_frame_len frame"
  obtain t payload where f: "decode_frame ?buf = Inr (t, payload)"
    using assms by (auto simp: prober_receive_def Let_def split: sum.splits)
  have data: "is_data ?buf \<longleftrightarrow> is_data frame" by (simp add: is_data_def decode_buffer split: sum.split)
  have whole: "length ?buf \<le> length frame" by simp
  consider (binding) "answer_binding payload (addr_unmap (fst from), snd from) = Some (out, dst)"
    | (relays) r r' where "relay_handle now ?buf (addr_unmap (fst from), snd from) r = (Some (out, dst), r')"
    using assms f by (auto simp: prober_receive_def Let_def split: if_splits option.splits prod.splits)
  then show ?thesis
  proof cases
    case binding
    then have "binding_len \<le> length payload" "dst = (addr_unmap (fst from), snd from)"
      "out = append_addr_port (encode_frame BindingResponse (take nonce_len payload)) dst"
      by (auto simp: answer_binding_def split: if_splits)
    moreover have "length ?buf = header_len + length payload"
      using f by (auto simp: decode_Inr)
    ultimately show ?thesis using whole by (simp add: append_addr_port_def encode_frame_def wire_lengths)
  next
    case relays
    then show ?thesis using relay_handle_length [OF relays] data whole by linarith
  qed
qed

definition binding_request :: octets where
  "binding_request = encode_frame BindingRequest (replicate binding_len 9)"

theorem socket_never_amplifies_witness:
  "\<exists>out dst. fst (prober_receive 0 binding_request home1 new_prober) = Some (out, dst) \<and> length out \<le> length binding_request \<and> dst = home1"
proof -
  have "\<exists>out dst. prober_receive 0 binding_request home1 new_prober = (Some (out, dst), new_prober)"
    by (simp add: prober_receive_def decode_buffer binding_request_def decode_encode answer_binding_def Let_def wire_lengths)
  then obtain out dst where r: "prober_receive 0 binding_request home1 new_prober = (Some (out, dst), new_prober)" by blast
  have "\<not> is_data binding_request" by (simp add: is_data_def binding_request_def decode_encode)
  moreover have "(addr_unmap (fst home1), snd home1) = home1" by (simp add: home1_def)
  ultimately show ?thesis using socket_never_amplifies [OF r] r by auto
qed

section \<open>Reachability\<close>

text \<open>Probes are begun with fresh nonces and end in any order while datagrams arrive.\<close>

datatype probe_event = Probing octets addr_port | Arrived octets addr_port | Ended octets bool

definition probed :: "probe_event list \<Rightarrow> octets \<Rightarrow> bool" where
  "probed h nc \<longleftrightarrow> (\<exists>target. Probing nc target \<in> set h)"

inductive prober_run :: "prober \<Rightarrow> probe_event list \<Rightarrow> bool" where
  prober_start: "prober_run new_prober []"
| prober_relay: "prober_run p h \<Longrightarrow> prober_run (set_relay r p) h"
| prober_begin: "prober_run p h \<Longrightarrow> \<not> probed h nc \<Longrightarrow> reachable_begin nc target p = (Some d, p') \<Longrightarrow>
    prober_run p' (Probing nc target # h)"
| prober_arrival: "prober_run p h \<Longrightarrow> prober_receive now frame from p = (d, p') \<Longrightarrow>
    prober_run p' (Arrived frame (addr_unmap (fst from), snd from) # h)"
| prober_end: "prober_run p h \<Longrightarrow> reachable_end nc p = (b, p') \<Longrightarrow> prober_run p' (Ended nc b # h)"

text \<open>The frame answers the probe with the nonce.\<close>

definition echoes :: "octets \<Rightarrow> octets \<Rightarrow> bool" where
  "echoes frame nc =
     (case decode_frame frame of
        Inr (t, payload) \<Rightarrow> t = type_byte ProbeReply \<and> nonce_len \<le> length payload \<and> take nonce_len payload = nc
      | Inl e \<Rightarrow> False)"

lemma echoes_buffer: "echoes (take max_frame_len frame) nc \<longleftrightarrow> echoes frame nc"
  by (cases "decode_frame frame") (auto simp: echoes_def decode_buffer nonce_len_def)

text \<open>A probe of the target, and later an echo of its nonce from there.\<close>

definition echoed :: "probe_event list \<Rightarrow> octets \<Rightarrow> addr_port \<Rightarrow> bool" where
  "echoed h nc target \<longleftrightarrow>
     (\<exists>later frame earlier. h = later @ Arrived frame target # earlier \<and> echoes frame nc \<and> Probing nc target \<in> set earlier)"

definition answered_probe :: "probe_event list \<Rightarrow> octets \<Rightarrow> bool" where
  "answered_probe h nc \<longleftrightarrow> (\<exists>target. echoed h nc target)"

lemma echoed_later: "answered_probe h n \<Longrightarrow> answered_probe (e # h) n"
  unfolding answered_probe_def echoed_def by (metis append_Cons)

lemma prober_run_sound:
  "prober_run p h \<Longrightarrow>
     (\<forall>n t. pr_waiters p n = Some t \<longrightarrow> Probing n t \<in> set h) \<and>
     (\<forall>n \<in> set (pr_replied p). answered_probe h n) \<and>
     (\<forall>n. Ended n True \<in> set h \<longrightarrow> answered_probe h n)"
proof (induction rule: prober_run.induct)
  case (prober_begin p h nc target d p')
  then show ?case
    by (auto simp: reachable_begin_def split: if_splits intro: echoed_later)
next
  case (prober_arrival p h now frame "from" d p')
  let ?src = "(addr_unmap (fst from), snd from)"
  let ?h = "Arrived frame ?src # h"
  consider (same) "pr_waiters p' = pr_waiters p" "pr_replied p' = pr_replied p"
    | (reply) nc where "echoes frame nc" "pr_waiters p nc = Some ?src"
        "pr_waiters p' = (pr_waiters p)(nc := None)" "pr_replied p' = nc # pr_replied p"
  proof (cases "\<exists>nc. echoes frame nc \<and> pr_waiters p nc = Some ?src")
    case True
    then obtain nc where n: "echoes frame nc" "pr_waiters p nc = Some ?src" by blast
    then have "echoes (take max_frame_len frame) nc" by (simp add: echoes_buffer)
    then obtain payload where f: "decode_frame (take max_frame_len frame) = Inr (type_byte ProbeReply, payload)"
        "nonce_len \<le> length payload" "nc = take nonce_len payload"
      by (auto simp: echoes_def split: sum.splits prod.splits)
    have "p' = p\<lparr>pr_waiters := (pr_waiters p)(nc := None), pr_replied := nc # pr_replied p\<rparr>"
      using prober_arrival.hyps(2) f n(2) by (simp add: prober_receive_def probe_reply_def Let_def)
    then show thesis using reply [OF n] by simp
  next
    case False
    then have "\<not> (\<exists>nc. echoes (take max_frame_len frame) nc \<and> pr_waiters p nc = Some ?src)" by (simp add: echoes_buffer)
    then have "pr_waiters p' = pr_waiters p \<and> pr_replied p' = pr_replied p"
      using prober_arrival.hyps(2)
      by (auto simp: prober_receive_def probe_reply_def echoes_def Let_def split: sum.splits prod.splits if_splits option.splits)
    then show thesis using same by blast
  qed
  then show ?case
  proof cases
    case same
    then show ?thesis using prober_arrival.IH by (auto intro: echoed_later)
  next
    case (reply nc)
    have "Probing nc ?src \<in> set h" using prober_arrival.IH reply(2) by blast
    then have "echoed ?h nc ?src" unfolding echoed_def using reply(1) by (intro exI [of _ "[]"] exI [of _ frame] exI [of _ h]) simp
    then have "answered_probe ?h nc" unfolding answered_probe_def by blast
    then show ?thesis using prober_arrival.IH reply(3,4) by (auto intro: echoed_later split: if_splits)
  qed
qed (auto simp: new_prober_def set_relay_def reachable_end_def intro: echoed_later split: if_splits)

text \<open>
  C34. An endpoint counts as reachable only if it answered. Whatever else arrives at the
  socket and whichever probes run at once, when a probe reports success, a probe with its
  nonce was sent to its one target, and afterwards a reply with that very nonce came from
  exactly that address and port: a reply from elsewhere, with another nonce or to an
  earlier probe never makes a machine reachable.
\<close>
theorem reachable_only_if_echoed:
  assumes "prober_run p h" "Ended nc True \<in> set h"
  shows "\<exists>target. echoed h nc target"
  using prober_run_sound [OF assms(1)] assms(2) unfolding answered_probe_def by blast

definition nonce1 :: octets where "nonce1 = replicate 16 7"

theorem reachable_only_if_echoed_witness:
  "\<exists>p h target. prober_run p h \<and> Ended nonce1 True \<in> set h \<and> echoed h nonce1 target"
proof -
  let ?p1 = "new_prober\<lparr>pr_waiters := [nonce1 \<mapsto> home1]\<rparr>"
  let ?p2 = "new_prober\<lparr>pr_replied := [nonce1]\<rparr>"
  have src: "(addr_unmap (fst home1), snd home1) = home1" by (simp add: home1_def)
  have b: "reachable_begin nonce1 home1 new_prober = (Some (encode_frame Probe nonce1, home1), ?p1)"
    by (simp add: reachable_begin_def new_prober_def home1_def)
  have r: "prober_receive 1 (encode_frame ProbeReply nonce1) home1 ?p1 = (None, ?p2)"
    by (simp add: prober_receive_def decode_buffer decode_encode probe_reply_def nonce1_def new_prober_def wire_lengths src fun_eq_iff Let_def)
  have e: "reachable_end nonce1 ?p2 = (True, ?p2)" by (simp add: reachable_end_def new_prober_def fun_upd_def)
  have n: "\<not> probed [] nonce1" by (simp add: probed_def)
  note run = prober_end [OF prober_arrival [OF prober_begin [OF prober_start n b] r] e]
  moreover from this have "\<exists>target. echoed [Ended nonce1 True, Arrived (encode_frame ProbeReply nonce1) (addr_unmap (fst home1), snd home1),
      Probing nonce1 home1] nonce1 target"
    by (rule reachable_only_if_echoed) simp
  ultimately show ?thesis by (meson list.set_intros(1))
qed

end
