(* ===== verification/MeshBind.thy ===== *)
theory MeshBind
  imports MeshSync Prober
begin

text \<open>
  The UDP socket of meshd (\<open>meshBind\<close> of \<open>cmd/meshd/wireguard.go\<close> and \<open>relay.go\<close>): WireGuard's
  datagrams, the control plane's probes and the relay's frames share it and are told apart by
  their first byte. Writing to the socket is taken to succeed. A request for the mapping
  waits while datagrams arrive, so it is a begin and an end.
\<close>

section \<open>State\<close>

text \<open>
  The port the socket is bound to while it is open; the binding requests that wait, by
  nonce, with the server they asked; what their channels were handed; and the relay.
\<close>

record mesh_bind =
  bd_port :: "nat option"
  bd_bindings :: "octets \<rightharpoonup> addr_port"
  bd_mapped :: "octets \<rightharpoonup> addr_port"
  bd_relay :: addr_port
  bd_token :: octets
  bd_acked :: int

definition new_bind :: mesh_bind where
  "new_bind =
     \<lparr>bd_port = None, bd_bindings = (\<lambda>n. None), bd_mapped = (\<lambda>n. None), bd_relay = no_addr_port,
      bd_token = replicate relay_token_len 0, bd_acked = zero_time\<rparr>"

text \<open>\<open>Open\<close>, with the port the system gives, if it does; \<open>port\<close>; \<open>Close\<close>.\<close>

definition bind_open :: "(nat \<Rightarrow> string + nat) \<Rightarrow> nat \<Rightarrow> mesh_bind \<Rightarrow> (string + nat) \<times> mesh_bind" where
  "bind_open listen want b =
     (if bd_port b \<noteq> None then (Inl ''bind already open'', b)
      else
        (case listen want of
           Inl e \<Rightarrow> (Inl (''listen udp on port '' @ show_nat want @ '': '' @ e), b)
         | Inr p \<Rightarrow> (Inr p, b\<lparr>bd_port := Some p\<rparr>)))"

definition bind_port :: "mesh_bind \<Rightarrow> nat" where
  "bind_port b = coalesce (bd_port b) 0"

definition bind_close :: "mesh_bind \<Rightarrow> mesh_bind" where
  "bind_close b = b\<lparr>bd_port := None\<rparr>"

section \<open>Endpoints\<close>

datatype wg_endpoint = Relayed_to addr | Direct_to addr_port

definition parse_endpoint :: "netip_lib \<Rightarrow> string \<Rightarrow> wg_endpoint option" where
  "parse_endpoint lib s =
     (if starts_with s relay_endpoint_prefix
      then
        (case go_parse_addr lib (drop (length relay_endpoint_prefix) s) of
           None \<Rightarrow> None
         | Some a \<Rightarrow> if addr_is4 a then Some (Relayed_to a) else None)
      else map_option Direct_to (go_parse_addr_port lib s))"

fun endpoint_text :: "netip_lib \<Rightarrow> wg_endpoint \<Rightarrow> string" where
  "endpoint_text lib (Relayed_to a) = relay_endpoint_prefix @ show_addr lib a"
| "endpoint_text lib (Direct_to ap) = show_addr_port lib ap"

section \<open>Sending\<close>

text \<open>\<open>Addr.As4\<close> panics unless the address is IPv4, which \<open>ParseEndpoint\<close> ensures.\<close>

definition send_relayed :: "octets list \<Rightarrow> addr \<Rightarrow> mesh_bind \<Rightarrow> string + datagram list" where
  "send_relayed bufs dst b =
     (if \<not> valid_ap (bd_relay b) then Inl ''no relay''
      else
        (case dst of
           V4 a \<Rightarrow> Inr (map (\<lambda>buf. (encode_frame RelayData (bytes4 a) @ buf, bd_relay b)) bufs)
         | _ \<Rightarrow> Inl ''panic''))"

definition mesh_send :: "octets list \<Rightarrow> wg_endpoint \<Rightarrow> mesh_bind \<Rightarrow> string + datagram list" where
  "mesh_send bufs ep b =
     (if bd_port b = None then Inl ''use of closed network connection''
      else
        (case ep of
           Relayed_to a \<Rightarrow> send_relayed bufs a b
         | Direct_to ap \<Rightarrow> Inr (map (\<lambda>buf. (buf, ap)) bufs)))"

section \<open>The relay\<close>

definition relay_ack_timeout :: int where
  "relay_ack_timeout = 3 * (15 * second_ns)"

definition use_relay :: "addr_port \<Rightarrow> octets \<Rightarrow> mesh_bind \<Rightarrow> mesh_bind" where
  "use_relay relay token b = b\<lparr>bd_relay := relay, bd_token := token, bd_acked := zero_time\<rparr>"

definition register_relay :: "mesh_bind \<Rightarrow> string + datagram option" where
  "register_relay b =
     (if bd_port b = None then Inl ''use of closed network connection''
      else if \<not> valid_ap (bd_relay b) then Inr None
      else Inr (Some (encode_frame RelayRegister (bd_token b), bd_relay b)))"

definition ack_relay :: "int \<Rightarrow> octets \<Rightarrow> addr_port \<Rightarrow> mesh_bind \<Rightarrow> mesh_bind" where
  "ack_relay now payload from b =
     (if length payload < relay_token_len then b
      else if from = bd_relay b \<and> take relay_token_len payload = bd_token b then b\<lparr>bd_acked := now\<rparr> else b)"

definition relay_is_up :: "int \<Rightarrow> mesh_bind \<Rightarrow> bool" where
  "relay_is_up now b \<longleftrightarrow> bd_acked b \<noteq> zero_time \<and> now - bd_acked b < relay_ack_timeout"

definition unwrap_relayed :: "octets \<Rightarrow> addr_port \<Rightarrow> mesh_bind \<Rightarrow> (octets \<times> wg_endpoint) option" where
  "unwrap_relayed frame from b =
     (if length frame \<le> relay_header_len \<or> frame ! 1 \<noteq> type_byte RelayData then None
      else if from \<noteq> bd_relay b then None
      else Some (drop relay_header_len frame, Relayed_to (addr_from4 (take 4 (drop header_len frame)))))"

section \<open>Receiving\<close>

definition deliver_binding :: "octets \<Rightarrow> addr_port \<Rightarrow> mesh_bind \<Rightarrow> mesh_bind" where
  "deliver_binding payload from b =
     (if length payload < binding_len then b
      else
        (let nc = take nonce_len payload in
         if bd_bindings b nc = Some from
         then b\<lparr>bd_bindings := (bd_bindings b)(nc := None),
                bd_mapped := (bd_mapped b)(nc := parse_addr_port (drop nonce_len payload))\<rparr>
         else b))"

definition answer_probe :: "int \<Rightarrow> octets \<Rightarrow> addr_port \<Rightarrow> mesh_bind \<Rightarrow> datagram option \<times> mesh_bind" where
  "answer_probe now frame from b =
     (case decode_frame frame of
        Inl e \<Rightarrow> (None, b)
      | Inr (t, payload) \<Rightarrow>
          if t = type_byte BindingResponse then (None, deliver_binding payload from b)
          else if t = type_byte RelayAck then (None, ack_relay now payload from b)
          else if t = type_byte ProbeReply then (None, b)
          else if t \<noteq> type_byte Probe \<or> length payload < nonce_len then (None, b)
          else (Some (encode_frame ProbeReply (take nonce_len payload), from), b))"

text \<open>
  One datagram through the loop of \<open>receive\<close>: what WireGuard gets of it and from which
  endpoint, and what is sent back.
\<close>

definition mesh_receive ::
  "int \<Rightarrow> octets \<Rightarrow> addr_port \<Rightarrow> mesh_bind \<Rightarrow> (octets \<times> wg_endpoint) option \<times> datagram option \<times> mesh_bind" where
  "mesh_receive now frame src b =
     (let from = (addr_unmap (fst src), snd src) in
      if frame = [] then (None, None, b)
      else if hd frame = wire_version
      then
        (case unwrap_relayed frame from b of
           Some d \<Rightarrow> (Some d, None, b)
         | None \<Rightarrow> (case answer_probe now frame from b of (reply, b') \<Rightarrow> (None, reply, b')))
      else (Some (frame, Direct_to from), None, b))"

section \<open>Asking for the mapping\<close>

text \<open>
  \<open>discoverMapping\<close> with the nonce it draws: it sends the same request again every 400 ms
  until its channel has the answer or two seconds have passed.
\<close>

definition discover_begin :: "octets \<Rightarrow> addr_port \<Rightarrow> mesh_bind \<Rightarrow> datagram option \<times> mesh_bind" where
  "discover_begin nc server b =
     (if bd_port b = None then (None, b)
      else
        (Some (encode_frame BindingRequest (nc @ replicate addr_port_len 0), server),
         b\<lparr>bd_bindings := (bd_bindings b)(nc \<mapsto> server), bd_mapped := (bd_mapped b)(nc := None)\<rparr>))"

definition discover_end :: "octets \<Rightarrow> mesh_bind \<Rightarrow> addr_port option \<times> mesh_bind" where
  "discover_end nc b = (bd_mapped b nc, b\<lparr>bd_bindings := (bd_bindings b)(nc := None)\<rparr>)"

section \<open>What WireGuard hands back\<close>

text \<open>The target that a sync writes for a peer is the endpoint it means.\<close>

lemma parse_endpoint_text:
  assumes "(case ep of Relayed_to a \<Rightarrow> addr_is4 a | Direct_to ap \<Rightarrow> addr_is4 (fst ap) \<and> snd ap < 65536)"
  shows "parse_endpoint lib (endpoint_text lib ep) = Some ep"
proof (cases ep)
  case (Relayed_to a)
  then show ?thesis using assms
    by (cases a) (simp_all add: parse_endpoint_def relay_endpoint_prefix_def starts_with_iff go_parse_addr_show4)
next
  case (Direct_to ap)
  then obtain a p where ap: "ap = (V4 a, p)" "p < 65536"
    using assms by (cases ap; cases "fst ap") auto
  have "is_digit (hd (show_addr4 a))"
  proof -
    have "hd (show_addr4 a) = hd (show_nat (unat a div 2 ^ 24))"
      by (simp only: show_addr4_def hd_append2 show_nat_nonempty not_False_eq_True)
    then show ?thesis
      using show_nat_digits [of "unat a div 2 ^ 24"] show_nat_nonempty [of "unat a div 2 ^ 24"]
      by (cases "show_nat (unat a div 2 ^ 24)") auto
  qed
  then have "\<not> starts_with (show_addr_port lib (V4 a, p)) relay_endpoint_prefix"
    using show_addr4_head [of a]
    by (cases "show_addr4 a") (auto simp: starts_with_iff relay_endpoint_prefix_def is_digit_def)
  then show ?thesis using Direct_to ap parse_show_addr_port [of p lib a]
    by (simp add: parse_endpoint_def del: show_addr_port.simps)
qed

definition endpoint_of_peer :: "wg_peer \<Rightarrow> wg_endpoint" where
  "endpoint_of_peer w = (if wp_relayed w then Relayed_to (wp_mesh w) else Direct_to (wp_endpoint w))"

lemma target_text: "wp_relayed w \<or> valid_ap (wp_endpoint w) \<Longrightarrow> target lib w = endpoint_text lib (endpoint_of_peer w)"
  by (auto simp: target_def endpoint_of_peer_def)

section \<open>What the socket lets through\<close>

lemma type_bytes: "type_byte RelayData \<noteq> 0" by simp

lemma receive_cases [consumes 1, case_names wireguard relayed probe other]:
  assumes "mesh_receive now frame src b = (d, reply, b')"
  obtains "frame \<noteq> []" "hd frame \<noteq> wire_version" "d = Some (frame, Direct_to (addr_unmap (fst src), snd src))" "reply = None" "b' = b"
  | "relay_header_len < length frame" "decode_frame frame = Inr (type_byte RelayData, drop header_len frame)"
      "(addr_unmap (fst src), snd src) = bd_relay b" "reply = None" "b' = b"
      "d = Some (drop relay_header_len frame, Relayed_to (addr_from4 (take 4 (drop header_len frame))))"
  | payload where "decode_frame frame = Inr (type_byte Probe, payload)" "nonce_len \<le> length payload" "d = None" "b' = b"
      "reply = Some (encode_frame ProbeReply (take nonce_len payload), (addr_unmap (fst src), snd src))"
  | "d = None" "reply = None"
      "b' = b \<or> (\<exists>payload. decode_frame frame = Inr (type_byte BindingResponse, payload) \<and>
          b' = deliver_binding payload (addr_unmap (fst src), snd src) b) \<or>
        (\<exists>payload. decode_frame frame = Inr (type_byte RelayAck, payload) \<and>
          b' = ack_relay now payload (addr_unmap (fst src), snd src) b)"
proof -
  let ?from = "(addr_unmap (fst src), snd src)"
  consider "frame = []" | "frame \<noteq> []" "hd frame \<noteq> wire_version"
    | "frame \<noteq> []" "hd frame = wire_version" "unwrap_relayed frame ?from b \<noteq> None"
    | "frame \<noteq> []" "hd frame = wire_version" "unwrap_relayed frame ?from b = None"
    by blast
  then show thesis
  proof cases
    case 1
    then show ?thesis using assms by (intro that(4)) (auto simp: mesh_receive_def)
  next
    case 2
    then show ?thesis using assms by (intro that(1)) (auto simp: mesh_receive_def Let_def)
  next
    case 3
    then have "relay_header_len < length frame" "frame ! 1 = type_byte RelayData" "?from = bd_relay b"
      "unwrap_relayed frame ?from b = Some (drop relay_header_len frame, Relayed_to (addr_from4 (take 4 (drop header_len frame))))"
      by (auto simp: unwrap_relayed_def split: if_splits)
    then show ?thesis using assms 3
      by (intro that(2)) (auto simp: mesh_receive_def decode_Inr hd_conv_nth relay_header_len_def)
  next
    case 4
    then have r: "d = None" "answer_probe now frame ?from b = (reply, b')"
      using assms by (auto simp: mesh_receive_def Let_def split: prod.splits)
    then show ?thesis using that(3,4)
      by (auto simp: answer_probe_def split: sum.splits prod.splits if_splits)
  qed
qed



definition relayed_frame :: octets where
  "relayed_frame = encode_frame RelayData (bytes4 0x0A000003 @ [42])"

lemma unwrap_data:
  assumes "from = bd_relay b" "payload \<noteq> []" "a' = V4 a"
  shows "unwrap_relayed (encode_frame RelayData (bytes4 a @ payload)) from b = Some (payload, Relayed_to a')"
proof -
  have "length (bytes4 a) = 4" by simp
  then show ?thesis using assms
    by (simp add: unwrap_relayed_def encode_frame_def wire_lengths addr_from_bytes4)
qed

lemma receive_data:
  assumes "(addr_unmap (fst src), snd src) = bd_relay b" "payload \<noteq> []"
  shows "mesh_receive now (encode_frame RelayData (bytes4 a @ payload)) src b = (Some (payload, Relayed_to (V4 a)), None, b)"
  using unwrap_data [OF assms(1,2) refl, of a] by (simp add: mesh_receive_def Let_def) (simp add: encode_frame_def)


section \<open>From one WireGuard to another through the relay\<close>

lemma register_relay_frame:
  "bd_port b \<noteq> None \<Longrightarrow> valid_ap (bd_relay b) \<Longrightarrow>
    register_relay b = Inr (Some (encode_frame RelayRegister (bd_token b), bd_relay b))"
  by (simp add: register_relay_def)

lemma receive_ack:
  assumes "(addr_unmap (fst src), snd src) = bd_relay b" "length (bd_token b) = relay_token_len"
  shows "mesh_receive now (encode_frame RelayAck (bd_token b)) src b = (None, None, b\<lparr>bd_acked := now\<rparr>)"
proof -
  have "unwrap_relayed (encode_frame RelayAck (bd_token b)) from b = None" for "from"
    by (simp add: unwrap_relayed_def encode_frame_def)
  then show ?thesis using assms
    by (simp add: mesh_receive_def answer_probe_def ack_relay_def decode_encode Let_def) (simp add: encode_frame_def)
qed

text \<open>
  C16. Through the relay, what one machine's WireGuard sends is what the other's receives. When
  two machines of a tenant have been issued tokens and their sockets register with the relay,
  both registrations are acknowledged and each socket holds the relay to be up for 45 seconds;
  the endpoint a sync writes for a relayed peer is read as that peer's mesh address; and a
  packet sent to it within 90 seconds of the registrations passes the relay to the other
  machine's socket, which hands it on unchanged, as coming from the sender's mesh address.
  The frame comes to the relay by the prober's loop, which reads it whole as long as the packet
  has at most 2040 bytes.
\<close>
theorem relayed_packets_arrive:
  assumes run: "relay_run r h" and fresh: "\<not> issued h k" "\<not> issued h l" "k \<noteq> l" "length k = 16" "length l = 16"
    and "p \<noteq> q" "a \<noteq> b" "src \<noteq> dst" "fst src \<noteq> NoAddr" "fst dst \<noteq> NoAddr" and payload: "payload \<noteq> []"
    and i1: "relay_issue k p tenant (V4 a) r = (Inr k, r1)" and i2: "relay_issue l q tenant (V4 b) r1 = (Inr l, r2)"
    and A: "bd_port A \<noteq> None" "bd_relay A = R" "bd_token A = k" and B: "bd_port B \<noteq> None" "bd_relay B = R" "bd_token B = l"
    and R: "fst R \<noteq> NoAddr" "addr_unmap (fst R) = fst R"
    and g1: "register_relay A = Inr (Some (f1, R1))" "relay_handle m f1 src r2 = (d1, r3)"
    and g2: "register_relay B = Inr (Some (f2, R2))" "relay_handle n f2 dst r3 = (d2, r4)"
    and time: "now - m < session_ttl" "now - n < session_ttl"
    and w: "wp_relayed w" "wp_mesh w = V4 b"
  shows "(\<exists>ack1 ack2. d1 = Some (ack1, src) \<and> d2 = Some (ack2, dst) \<and> R1 = R \<and> R2 = R \<and>
      mesh_receive t ack1 R A = (None, None, A\<lparr>bd_acked := t\<rparr>) \<and> mesh_receive t ack2 R B = (None, None, B\<lparr>bd_acked := t\<rparr>) \<and>
      (zero_time < t \<longrightarrow> relay_is_up u (A\<lparr>bd_acked := t\<rparr>) = (u - t < relay_ack_timeout))) \<and>
    (\<exists>ep frame out. parse_endpoint lib (target lib w) = Some ep \<and> mesh_send [payload] ep A = Inr [(frame, R)] \<and>
      fst (relay_handle now frame src r4) = Some (out, dst) \<and>
      (\<forall>P. pr_relay P = Some r4 \<and> length payload \<le> 2040 \<and> addr_unmap (fst src) = fst src \<longrightarrow>
        fst (prober_receive now frame src P) = Some (out, dst)) \<and>
      mesh_receive t' out R B = (Some (payload, Relayed_to (V4 a)), None, B))"
proof -
  have ok: "relay_ok r" using relay_run_backed [OF run] by (simp add: relay_backed_def)
  have f1: "f1 = encode_frame RelayRegister k" "R1 = R" and f2: "f2 = encode_frame RelayRegister l" "R2 = R"
    using g1(1) g2(1) register_relay_frame [of A] register_relay_frame [of B] A B R(1) by (simp_all add: valid_ap_def)
  have d: "d1 = Some (encode_frame RelayAck k, src)" "d2 = Some (encode_frame RelayAck l, dst)"
    "fst (relay_handle now (encode_frame RelayData (bytes4 b @ payload)) src r4) = Some (encode_frame RelayData (bytes4 a @ payload), dst)"
    using issued_registered_delivers [OF ok unissued_unknown [OF run fresh(1)] unissued_unknown [OF run fresh(2)] fresh(3-5) assms(7-11)
        payload i1 i2 g1(2) [unfolded f1] g2(2) [unfolded f2] time] by blast+
  have RA: "(addr_unmap (fst R), snd R) = bd_relay A" "(addr_unmap (fst R), snd R) = bd_relay B" using A(2) B(2) R(2) by simp_all
  have "mesh_receive t (encode_frame RelayAck k) R A = (None, None, A\<lparr>bd_acked := t\<rparr>)"
    "mesh_receive t (encode_frame RelayAck l) R B = (None, None, B\<lparr>bd_acked := t\<rparr>)"
    using receive_ack [OF RA(1), of t] receive_ack [OF RA(2), of t] A(3) B(3) fresh(4,5) by (simp_all add: relay_token_len_def)
  then have acks: "\<exists>ack1 ack2. d1 = Some (ack1, src) \<and> d2 = Some (ack2, dst) \<and> R1 = R \<and> R2 = R \<and>
      mesh_receive t ack1 R A = (None, None, A\<lparr>bd_acked := t\<rparr>) \<and> mesh_receive t ack2 R B = (None, None, B\<lparr>bd_acked := t\<rparr>) \<and>
      (zero_time < t \<longrightarrow> relay_is_up u (A\<lparr>bd_acked := t\<rparr>) = (u - t < relay_ack_timeout))"
    using d(1,2) f1(2) f2(2) by (simp add: relay_is_up_def)
  have "parse_endpoint lib (target lib w) = Some (Relayed_to (V4 b))"
    using parse_endpoint_text [of "Relayed_to (V4 b)" lib] w by (simp add: target_text endpoint_of_peer_def)
  moreover have "mesh_send [payload] (Relayed_to (V4 b)) A = Inr [(encode_frame RelayData (bytes4 b @ payload), R)]"
    using A R(1) by (simp add: mesh_send_def send_relayed_def valid_ap_def encode_frame_def)
  moreover have "fst (prober_receive now (encode_frame RelayData (bytes4 b @ payload)) src P) = Some (encode_frame RelayData (bytes4 a @ payload), dst)"
    if "pr_relay P = Some r4 \<and> length payload \<le> 2040 \<and> addr_unmap (fst src) = fst src" for P
    using prober_hands_on [of "bytes4 b @ payload" P r4 src now] that d(3)
    by (cases "relay_handle now (encode_frame RelayData (bytes4 b @ payload)) src r4") (simp add: max_frame_len_def header_len_def)
  ultimately have "\<exists>ep frame out. parse_endpoint lib (target lib w) = Some ep \<and> mesh_send [payload] ep A = Inr [(frame, R)] \<and>
      fst (relay_handle now frame src r4) = Some (out, dst) \<and>
      (\<forall>P. pr_relay P = Some r4 \<and> length payload \<le> 2040 \<and> addr_unmap (fst src) = fst src \<longrightarrow>
        fst (prober_receive now frame src P) = Some (out, dst)) \<and>
      mesh_receive t' out R B = (Some (payload, Relayed_to (V4 a)), None, B)"
    using d(3) receive_data [OF RA(2) payload, of t' a] by blast
  with acks show ?thesis by blast
qed

definition demo_server :: addr_port where
  "demo_server = (V4 0x09090909, 8091)"

definition demo_bind :: "octets \<Rightarrow> mesh_bind" where
  "demo_bind token = (use_relay demo_server token new_bind)\<lparr>bd_port := Some 51820\<rparr>"

theorem relayed_packets_arrive_witness:
  "\<exists>frame out. mesh_send [[42]] (Relayed_to (V4 0x0A000003)) (demo_bind key1) = Inr [(frame, demo_server)] \<and>
     fst (relay_handle 7 frame home1 relay4) = Some (out, home2) \<and>
     mesh_receive 8 out demo_server (demo_bind key2) = (Some ([42], Relayed_to (V4 0x0A000002)), None, demo_bind key2)"
proof -
  have b: "bd_port (demo_bind k) \<noteq> None" "bd_relay (demo_bind k) = demo_server" "bd_token (demo_bind k) = k" for k
    by (simp_all add: demo_bind_def use_relay_def)
  have s: "fst demo_server \<noteq> NoAddr" "addr_unmap (fst demo_server) = fst demo_server" by (simp_all add: demo_server_def)
  have g: "register_relay (demo_bind k) = Inr (Some (encode_frame RelayRegister k, demo_server))" for k
    using register_relay_frame [of "demo_bind k"] b s(1) by (simp add: valid_ap_def)
  let ?w = "\<lparr>wp_mesh = V4 0x0A000003, wp_endpoint = no_addr_port, wp_since = 0, wp_relayed = True\<rparr>"
  have w: "wp_relayed ?w" "wp_mesh ?w = V4 0x0A000003" by simp_all
  have fresh: "\<not> issued [] key1" "\<not> issued [] key2" by (simp_all add: issued_def)
  have p: "[42 :: 8 word] \<noteq> []" by simp
  from relayed_packets_arrive [OF relay_start fresh demo_facts(1,2,3,7,8,4,5,6) p demo_steps(1,2) b b s g demo_steps(3) g demo_steps(4)
      demo_facts(9,10) w, of 0 0 demo_lib 8]
  obtain ep frame out where e: "parse_endpoint demo_lib (target demo_lib ?w) = Some ep" "mesh_send [[42]] ep (demo_bind key1) = Inr [(frame, demo_server)]"
    "fst (relay_handle 7 frame home1 relay4) = Some (out, home2)"
    "mesh_receive 8 out demo_server (demo_bind key2) = (Some ([42], Relayed_to (V4 0x0A000002)), None, demo_bind key2)"
    by blast
  moreover have "parse_endpoint demo_lib (target demo_lib ?w) = Some (Relayed_to (V4 0x0A000003))"
    using parse_endpoint_text [of "Relayed_to (V4 0x0A000003)" demo_lib] by (simp add: target_text endpoint_of_peer_def)
  ultimately show ?thesis by auto
qed

section \<open>The prober and the socket\<close>

lemma decode_hd: "hd (encode_frame t p) = wire_version" "encode_frame t p \<noteq> []" "unwrap_relayed (encode_frame t p) src b = None" if "t \<noteq> RelayData"
  using that by (simp_all add: encode_frame_def unwrap_relayed_def del: type_byte.simps)

text \<open>While a request waits, only its server's answer to its nonce touches what it will get.\<close>

definition not_answer :: "octets \<Rightarrow> addr_port \<Rightarrow> octets \<times> addr_port \<Rightarrow> bool" where
  "not_answer nc server d \<longleftrightarrow>
     (addr_unmap (fst (snd d)), snd (snd d)) \<noteq> server \<or>
     (case decode_frame (fst d) of Inl e \<Rightarrow> True | Inr (t, payload) \<Rightarrow> t \<noteq> type_byte BindingResponse \<or> take nonce_len payload \<noteq> nc)"

definition mesh_receives :: "int \<Rightarrow> (octets \<times> addr_port) list \<Rightarrow> mesh_bind \<Rightarrow> mesh_bind" where
  "mesh_receives now ds b = fold (\<lambda>(frame, src) b. snd (snd (mesh_receive now frame src b))) ds b"

lemma receive_not_answer:
  assumes "not_answer nc server (frame, src)" "bd_bindings b nc = Some server \<or> bd_bindings b nc = None"
  shows "let b' = snd (snd (mesh_receive now frame src b)) in bd_bindings b' nc = bd_bindings b nc \<and> bd_mapped b' nc = bd_mapped b nc"
proof -
  obtain d reply b' where r: "mesh_receive now frame src b = (d, reply, b')" by (metis prod.collapse)
  from r show ?thesis
  proof (cases rule: receive_cases)
    case other
    then show ?thesis using assms r
      by (auto simp: not_answer_def deliver_binding_def ack_relay_def Let_def)
  qed (simp_all add: r)
qed

lemma receives_not_answer:
  assumes "\<forall>d \<in> set ds. not_answer nc server d" "bd_bindings b nc = Some server \<or> bd_bindings b nc = None"
  shows "bd_bindings (mesh_receives now ds b) nc = bd_bindings b nc \<and> bd_mapped (mesh_receives now ds b) nc = bd_mapped b nc"
  using assms
proof (induction ds arbitrary: b)
  case (Cons d ds)
  obtain frame src where d: "d = (frame, src)" by (cases d) auto
  let ?b = "snd (snd (mesh_receive now frame src b))"
  have "bd_bindings ?b nc = bd_bindings b nc" "bd_mapped ?b nc = bd_mapped b nc"
    using receive_not_answer [of nc server frame src b now] Cons.prems d by (simp_all add: Let_def)
  moreover have "mesh_receives now (d # ds) b = mesh_receives now ds ?b" by (simp add: mesh_receives_def d)
  ultimately show ?case using Cons.IH [of ?b] Cons.prems by simp
qed (simp_all add: mesh_receives_def)

lemma parse_append_addr_port:
  "fst seen \<noteq> NoAddr \<Longrightarrow> snd seen < 65536 \<Longrightarrow> addr_unmap (fst seen) = fst seen \<Longrightarrow>
    parse_addr_port (append_addr_port [] seen) = Some seen"
  using parse_addr_bytes [of "fst seen" "snd seen" "[]"] by (simp add: append_addr_port_def)

lemma prober_answers:
  assumes "length nc = nonce_len" "addr_unmap (fst seen) = fst seen"
  shows "fst (prober_receive now (encode_frame BindingRequest (nc @ replicate addr_port_len 0)) seen p) =
    Some (encode_frame BindingResponse (nc @ append_addr_port [] seen), seen)"
  using assms
  by (simp add: prober_receive_def decode_buffer decode_encode answer_binding_def Let_def wire_lengths)
     (simp add: append_addr_port_def encode_frame_def)

lemma receive_answer:
  assumes "length nc = nonce_len" "(addr_unmap (fst server), snd server) = server" "bd_bindings b nc = Some server"
    "fst seen \<noteq> NoAddr" "snd seen < 65536" "addr_unmap (fst seen) = fst seen"
  shows "snd (snd (mesh_receive t (encode_frame BindingResponse (nc @ append_addr_port [] seen)) server b)) =
    b\<lparr>bd_bindings := (bd_bindings b)(nc := None), bd_mapped := (bd_mapped b)(nc \<mapsto> seen)\<rparr>"
proof -
  have "length (append_addr_port [] seen) = addr_port_len" by (simp add: append_addr_port_def addr_port_len_def)
  then show ?thesis
    using assms parse_append_addr_port [OF assms(4-6)]
    by (simp add: mesh_receive_def decode_hd answer_probe_def decode_encode deliver_binding_def binding_len_def Let_def)
qed

lemma mapping_learned:
  assumes "length nc = nonce_len" "(addr_unmap (fst server), snd server) = server" "bd_bindings b nc = Some server"
    and seen: "fst seen \<noteq> NoAddr" "snd seen < 65536" "addr_unmap (fst seen) = fst seen"
    and others: "\<forall>d \<in> set before. not_answer nc server d" "\<forall>d \<in> set after. not_answer nc server d"
  shows "bd_mapped (mesh_receives t (before @ [(encode_frame BindingResponse (nc @ append_addr_port [] seen), server)] @ after) b) nc = Some seen"
proof -
  let ?b = "mesh_receives t before b"
  have b: "bd_bindings ?b nc = Some server" using receives_not_answer [OF others(1)] assms(3) by simp
  let ?c = "snd (snd (mesh_receive t (encode_frame BindingResponse (nc @ append_addr_port [] seen)) server ?b))"
  have c: "bd_bindings ?c nc = None" "bd_mapped ?c nc = Some seen"
    unfolding receive_answer [OF assms(1,2) b seen] by simp_all
  have "mesh_receives t (before @ [(encode_frame BindingResponse (nc @ append_addr_port [] seen), server)] @ after) b = mesh_receives t after ?c"
    by (simp add: mesh_receives_def)
  then show ?thesis using receives_not_answer [OF others(2), of ?c t] c by simp
qed

lemma probe_answered:
  assumes "length nc = nonce_len" "(addr_unmap (fst server), snd server) = server"
  shows "mesh_receive t (encode_frame Probe nc) server b = (None, Some (encode_frame ProbeReply nc, server), b)"
  using assms by (simp add: mesh_receive_def decode_hd answer_probe_def decode_encode Let_def)

lemma probe_counted:
  assumes "length nc = nonce_len" "addr_unmap (fst seen) = fst seen" "reachable_begin nc seen p = (Some (probe, seen), p1)"
  shows "probe = encode_frame Probe nc" "fst (reachable_end nc (snd (prober_receive now (encode_frame ProbeReply nc) seen p1)))"
  using assms by (auto simp: reachable_begin_def prober_receive_def decode_buffer decode_encode probe_reply_def nonce_len_def reachable_end_def Let_def split: if_splits)

text \<open>
  C33. meshd learns its mapping from the prober and answers its probes. The request that
  \<open>discoverMapping\<close> sends, seen by the prober as coming from an address and port, is answered
  to that address, and when the answer arrives from the server, the mapping learned is that
  address and port, whatever other datagrams arrive before and after; without the answer none
  is learned. And the probe of an address whose datagrams reach the socket finds it reachable
  when the socket's answer comes back from there.
\<close>
theorem mapping_and_probe:
  assumes nc: "length nc = nonce_len" and seen: "fst seen \<noteq> NoAddr" "snd seen < 65536" "addr_unmap (fst seen) = fst seen"
    and server: "(addr_unmap (fst server), snd server) = server"
    and ask: "discover_begin nc server b = (Some (request, dst), b1)"
    and others: "\<forall>d \<in> set before. not_answer nc server d" "\<forall>d \<in> set after. not_answer nc server d"
    and target: "reachable_begin nc' seen p = (Some (probe, seen), p1)" "length nc' = nonce_len"
  shows "dst = server \<and>
    (\<exists>answer. fst (prober_receive now request seen p) = Some (answer, seen) \<and>
      fst (discover_end nc (mesh_receives t (before @ [(answer, server)] @ after) b1)) = Some seen) \<and>
    fst (discover_end nc (mesh_receives t (before @ after) b1)) = None \<and>
    (\<exists>reply. mesh_receive t probe server b = (None, Some (reply, server), b) \<and>
      fst (reachable_end nc' (snd (prober_receive now reply seen p1))) = True)"
proof -
  have "bd_port b \<noteq> None" using ask by (auto simp: discover_begin_def split: if_splits)
  with ask have ask': "request = encode_frame BindingRequest (nc @ replicate addr_port_len 0)" "dst = server"
    "bd_bindings b1 nc = Some server" "bd_mapped b1 nc = None"
    by (auto simp: discover_begin_def split: if_splits)
  have "fst (discover_end nc (mesh_receives t (before @ after) b1)) = None"
    using receives_not_answer [of "before @ after" nc server b1 t] others ask'(3,4) by (auto simp: discover_end_def)
  moreover have "fst (discover_end nc (mesh_receives t (before @ [(encode_frame BindingResponse (nc @ append_addr_port [] seen), server)] @ after) b1)) =
      Some seen"
    using mapping_learned [OF nc server ask'(3) seen others] by (simp add: discover_end_def)
  moreover note prober_answers [OF nc seen(3), of now p]
  moreover have "probe = encode_frame Probe nc'" "fst (reachable_end nc' (snd (prober_receive now (encode_frame ProbeReply nc') seen p1)))"
    using probe_counted [OF target(2) seen(3) target(1)] by simp_all
  moreover note probe_answered [OF target(2) server, of t b]
  ultimately show ?thesis unfolding ask'(1,2) by blast
qed

theorem mapping_and_probe_witness:
  "fst (discover_end nonce1 (mesh_receives 0
      [(relayed_frame, home2), (encode_frame BindingResponse (nonce1 @ append_addr_port [] home1), demo_server)]
      (snd (discover_begin nonce1 demo_server (demo_bind key1))))) = Some home1"
proof -
  have n: "length nonce1 = nonce_len" by (simp add: nonce1_def nonce_len_def)
  have s: "fst home1 \<noteq> NoAddr" "snd home1 < 65536" "addr_unmap (fst home1) = fst home1" by (simp_all add: home1_def)
  have v: "(addr_unmap (fst demo_server), snd demo_server) = demo_server" by (simp add: demo_server_def)
  obtain request b1 where d: "discover_begin nonce1 demo_server (demo_bind key1) = (Some (request, demo_server), b1)"
    by (simp add: discover_begin_def demo_bind_def)
  have o: "\<forall>d \<in> set [(relayed_frame, home2)]. not_answer nonce1 demo_server d" "\<forall>d \<in> set []. not_answer nonce1 demo_server d"
    by (simp_all add: not_answer_def home2_def demo_server_def)
  obtain probe p1 where r: "reachable_begin nonce1 home1 new_prober = (Some (probe, home1), p1)"
    by (simp add: reachable_begin_def home1_def)
  from mapping_and_probe [OF n s v d o r n, of 0 0] obtain answer
    where a: "fst (prober_receive 0 request home1 new_prober) = Some (answer, home1)"
      "fst (discover_end nonce1 (mesh_receives 0 ([(relayed_frame, home2)] @ [(answer, demo_server)] @ []) b1)) = Some home1"
    by blast
  have "request = encode_frame BindingRequest (nonce1 @ replicate addr_port_len 0)"
    using d by (simp add: discover_begin_def demo_bind_def)
  then have "answer = encode_frame BindingResponse (nonce1 @ append_addr_port [] home1)"
    using a(1) prober_answers [OF n s(3), of 0 new_prober] by simp
  then show ?thesis using a(2) d by simp
qed

end
