(* ===== verification/MeshDaemon.thy ===== *)
theory MeshDaemon
  imports Enroll MeshBind
begin

text \<open>
  The daemon that \<open>meshd run\<close> leaves running (\<open>cmd/meshd/run.go\<close>, and \<open>relay.go\<close> from
  \<open>refreshRelay\<close> on): it reports its endpoint, learns its mapping, keeps a relay token, and
  keeps WireGuard in line with the control plane's list. Its calls go through a client and its
  socket is \<open>mesh_bind\<close>, so that it composes with the control plane, the prober and the relay.
\<close>

section \<open>What the daemon keeps\<close>

record daemon =
  dm_state :: node_state
  dm_port :: int
  dm_peers :: wg_table
  dm_bind :: mesh_bind
  dm_reported :: bool
  dm_direct :: bool
  dm_prober :: addr_port
  dm_nat :: addr_port
  dm_issued :: int

text \<open>As \<open>runCmd\<close> makes it, with the port that the socket got.\<close>

definition new_daemon :: "node_state \<Rightarrow> mesh_bind \<Rightarrow> daemon" where
  "new_daemon st b =
     \<lparr>dm_state = st, dm_port = int (bind_port b), dm_peers = (\<lambda>k. None), dm_bind = b, dm_reported = False, dm_direct = False,
      dm_prober = no_addr_port, dm_nat = no_addr_port, dm_issued = zero_time\<rparr>"

text \<open>
  What one round reads besides: the time, the resolver for a port on the host of the base
  address, the nonce drawn, the datagrams that arrive while it waits for a mapping, the state
  that WireGuard dumps, if it does, and the order in which Go's map gives its keys.
\<close>

record moment =
  mo_lib :: netip_lib
  mo_now :: int
  mo_resolve :: "string \<Rightarrow> int \<Rightarrow> addr_port option"
  mo_nonce :: octets
  mo_arrive :: "(octets \<times> addr_port) list"
  mo_dump :: "string option"
  mo_order :: "string list"

definition resolved :: "moment \<Rightarrow> 's client \<Rightarrow> int \<Rightarrow> addr_port option" where
  "resolved m c port = map_option (\<lambda>ap. (addr_unmap (fst ap), snd ap)) (mo_resolve m (cl_base c) port)"

section \<open>The endpoint\<close>

definition discover_mapping :: "moment \<Rightarrow> addr_port \<Rightarrow> mesh_bind \<Rightarrow> addr_port option \<times> datagram list \<times> mesh_bind" where
  "discover_mapping m server b =
     (case discover_begin (mo_nonce m) server b of
        (None, b1) \<Rightarrow> (None, [], b1)
      | (Some request, b1) \<Rightarrow>
          (case discover_end (mo_nonce m) (mesh_receives (mo_now m) (mo_arrive m) b1) of (mapped, b2) \<Rightarrow> (mapped, [request], b2)))"

text \<open>The rounds return what they send through the socket.\<close>

definition refresh_nat :: "moment \<Rightarrow> 's client \<Rightarrow> daemon \<times> 's \<Rightarrow> datagram list \<times> daemon \<times> 's" where
  "refresh_nat m c x =
     (let (d, s) = x in
      if dm_direct d \<or> \<not> valid_ap (dm_prober d) then ([], d, s)
      else
        (case discover_mapping m (dm_prober d) (dm_bind d) of
           (mapped, sends, b) \<Rightarrow>
             (let d1 = d\<lparr>dm_bind := b\<rparr> in
              case mapped of
                None \<Rightarrow> (sends, d1, s)
              | Some ap \<Rightarrow>
                  if ap = dm_nat d then (sends, d1, s)
                  else
                    (case node_update_nat c (mo_lib m) (ns_peer (dm_state d)) ap s of
                       (Inl e, s') \<Rightarrow> (sends, d1, s')
                     | (Inr _, s') \<Rightarrow> (sends, d1\<lparr>dm_nat := ap\<rparr>, s')))))"

definition report_endpoint :: "moment \<Rightarrow> 's client \<Rightarrow> daemon \<times> 's \<Rightarrow> datagram list \<times> daemon \<times> 's" where
  "report_endpoint m c x =
     (let (d, s) = x in
      case node_update_endpoint c (ns_peer (dm_state d)) (dm_port d) s of
        (Inl e, s') \<Rightarrow> ([], d, s')
      | (Inr (report, probe_port), s') \<Rightarrow>
          (let d1 = d\<lparr>dm_reported := True, dm_direct := cp_direct report\<rparr> in
           if dm_direct d1 then ([], d1, s')
           else
             (case resolved m c probe_port of
                None \<Rightarrow> ([], d1, s')
              | Some server \<Rightarrow> refresh_nat m c (d1\<lparr>dm_prober := server\<rparr>, s'))))"

section \<open>The relay\<close>

definition issue_token :: "moment \<Rightarrow> 's client \<Rightarrow> daemon \<times> 's \<Rightarrow> string option \<times> daemon \<times> 's" where
  "issue_token m c x =
     (let (d, s) = x in
      case node_relay_token c (ns_peer (dm_state d)) s of
        (Inl e, s') \<Rightarrow> (Some (client_error_text e), d, s')
      | (Inr grant, s') \<Rightarrow>
          (case b64_decode (gr_token grant) of
             None \<Rightarrow> (Some ''the control plane sent an invalid relay token'', d, s')
           | Some raw \<Rightarrow>
               if length raw \<noteq> relay_token_len then (Some ''the control plane sent an invalid relay token'', d, s')
               else
                 (case resolved m c (gr_port grant) of
                    None \<Rightarrow> (Some ''resolve the relay'', d, s')
                  | Some server \<Rightarrow> (None, d\<lparr>dm_bind := use_relay server raw (dm_bind d)\<rparr>, s'))))"

definition register_now :: "daemon \<Rightarrow> datagram list" where
  "register_now d = (case register_relay (dm_bind d) of Inr (Some dg) \<Rightarrow> [dg] | _ \<Rightarrow> [])"

definition refresh_relay :: "moment \<Rightarrow> 's client \<Rightarrow> daemon \<times> 's \<Rightarrow> datagram list \<times> daemon \<times> 's" where
  "refresh_relay m c x =
     (let (d, s) = x in
      if \<not> relay_is_up (mo_now m) (dm_bind d) \<and> relay_ack_timeout < mo_now m - dm_issued d
      then
        (case issue_token m c (d, s) of
           (Some e, d1, s1) \<Rightarrow> ([], d1, s1)
         | (None, d1, s1) \<Rightarrow> (let d2 = d1\<lparr>dm_issued := mo_now m\<rparr> in (register_now d2, d2, s1)))
      else (register_now d, d, s))"

section \<open>The handshakes\<close>

text \<open>\<open>strconv.ParseInt(v, 10, 64)\<close>.\<close>

definition go_parse_int :: "string \<Rightarrow> int option" where
  "go_parse_int v =
     (let neg = (v \<noteq> '''' \<and> hd v = CHR ''-''); w = (if v \<noteq> '''' \<and> hd v \<in> {CHR ''-'', CHR ''+''} then tl v else v);
          n = int (digits_value 10 w); k = (if neg then - n else n) in
      if w = '''' \<or> \<not> list_all is_digit w \<or> \<not> int64 k then None else Some k)"

text \<open>A line without its end; the key of the section, and the times so far.\<close>

definition handshake_line :: "string \<Rightarrow> string \<times> (string \<rightharpoonup> int) \<Rightarrow> string \<times> (string \<rightharpoonup> int)" where
  "handshake_line l acc =
     (let (key, out) = acc; (k, v) = map_prod id (\<lambda>v. coalesce v '''') (split_flag l) in
      if k = ''public_key'' then (v, out)
      else if k = ''last_handshake_time_sec''
      then
        (case go_parse_int v of
           None \<Rightarrow> acc
         | Some secs \<Rightarrow> if 0 < secs \<and> key \<noteq> '''' then (key, out(key \<mapsto> secs * second_ns)) else acc)
      else acc)"

definition scan_line :: "string \<Rightarrow> string" where
  "scan_line l = (if l \<noteq> '''' \<and> last l = CHR 0x0D then butlast l else l)"

definition handshakes :: "string option \<Rightarrow> string \<rightharpoonup> int" where
  "handshakes dump =
     (case dump of
        None \<Rightarrow> (\<lambda>k. None)
      | Some t \<Rightarrow> snd (fold handshake_line (map scan_line (split_on (CHR 0x0A) t)) ('''', \<lambda>k. None)))"

section \<open>The peers, and the rounds\<close>

definition sync_env_of :: "moment \<Rightarrow> daemon \<Rightarrow> sync_env" where
  "sync_env_of m d =
     \<lparr>se_lib = mo_lib m, se_own = ns_peer (dm_state d), se_now = mo_now m, se_relay_up = relay_is_up (mo_now m) (dm_bind d),
      se_handshake = handshakes (mo_dump m)\<rparr>"

type_synonym 'dev ipc_set = "uapi \<Rightarrow> 'dev \<Rightarrow> (string \<times> 'dev) + 'dev"

definition refresh_peers :: "'dev ipc_set \<Rightarrow> moment \<Rightarrow> 's client \<Rightarrow> 'dev \<times> daemon \<times> 's \<Rightarrow> 'dev \<times> daemon \<times> 's" where
  "refresh_peers ipc_set m c x =
     (let (dev, d, s) = x in
      case node_list_peers c (ns_tenant (dm_state d)) s of
        (Inl e, s') \<Rightarrow> (dev, d, s')
      | (Inr ps, s') \<Rightarrow>
          (case sync_peers (sync_env_of m d) ipc_set (mo_order m) ps (dm_peers d, dev) of
             (_, tab, dev') \<Rightarrow> (dev', d\<lparr>dm_peers := tab\<rparr>, s')))"

text \<open>Whether a refresh gets the list and WireGuard takes what it makes of it.\<close>

definition refresh_accepted :: "'dev ipc_set \<Rightarrow> moment \<Rightarrow> 's client \<Rightarrow> 'dev \<times> daemon \<times> 's \<Rightarrow> bool" where
  "refresh_accepted ipc_set m c x =
     (let (dev, d, s) = x in
      case fst (node_list_peers c (ns_tenant (dm_state d)) s) of
        Inl e \<Rightarrow> False
      | Inr ps \<Rightarrow>
          (case fst (sync_peers (sync_env_of m d) ipc_set (mo_order m) ps (dm_peers d, dev)) of
             Inl e \<Rightarrow> False
           | Inr n \<Rightarrow> True))"

text \<open>The start of the daemon, and the two tickers of \<open>maintain\<close>.\<close>

datatype tick = PeerTick | EndpointTick

definition relay_and_peers ::
  "'dev ipc_set \<Rightarrow> moment \<Rightarrow> 's client \<Rightarrow> 'dev \<Rightarrow> datagram list \<times> daemon \<times> 's \<Rightarrow> datagram list \<times> 'dev \<times> daemon \<times> 's" where
  "relay_and_peers ipc_set m c dev r =
     (let (sends, x) = r; (sends', x') = refresh_relay m c x in (sends @ sends', refresh_peers ipc_set m c (dev, x')))"

definition daemon_start :: "'dev ipc_set \<Rightarrow> moment \<Rightarrow> 's client \<Rightarrow> 'dev \<times> daemon \<times> 's \<Rightarrow> datagram list \<times> 'dev \<times> daemon \<times> 's" where
  "daemon_start ipc_set m c x = relay_and_peers ipc_set m c (fst x) (report_endpoint m c (snd x))"

fun daemon_tick :: "'dev ipc_set \<Rightarrow> moment \<Rightarrow> 's client \<Rightarrow> tick \<Rightarrow> 'dev \<times> daemon \<times> 's \<Rightarrow> datagram list \<times> 'dev \<times> daemon \<times> 's" where
  "daemon_tick ipc_set m c PeerTick (dev, d, s) =
     relay_and_peers ipc_set m c dev (if \<not> dm_reported d then report_endpoint m c (d, s) else refresh_nat m c (d, s))"
| "daemon_tick ipc_set m c EndpointTick (dev, d, s) = (let (sends, x) = report_endpoint m c (d, s) in (sends, dev, x))"


section \<open>A tenant's list, as WireGuard gets it\<close>

lemma hex_char_inj: "a < 16 \<Longrightarrow> b < 16 \<Longrightarrow> hex_char a = hex_char b \<Longrightarrow> a = b"
proof -
  assume ab: "a < 16" "b < 16" and e: "hex_char a = hex_char b"
  have c: "of_char (hex_char n) = (if n < 10 then 48 + n else 87 + n)" if "n < 16" for n :: nat
    using that by (simp add: hex_char_def)
  have "(of_char (hex_char a) :: nat) = of_char (hex_char b)" using e by simp
  then show "a = b" unfolding c [OF ab(1)] c [OF ab(2)] using ab by (simp split: if_splits)
qed

lemma hex_encode_inj: "hex_encode xs = hex_encode ys \<Longrightarrow> xs = ys"
proof (induction xs arbitrary: ys)
  case Nil
  then show ?case by (cases ys) (simp_all add: hex_encode_def)
next
  case (Cons x xs)
  then obtain y zs where ys: "ys = y # zs" by (cases ys) (simp_all add: hex_encode_def)
  have b: "unat v div 16 < 16" "unat v mod 16 < 16" for v :: "8 word"
    using unat_less [of v] by (simp_all add: less_mult_imp_div_less)
  have e: "hex_char (unat x div 16) = hex_char (unat y div 16)" "hex_char (unat x mod 16) = hex_char (unat y mod 16)"
    "hex_encode xs = hex_encode zs"
    using Cons.prems ys by (simp_all add: hex_encode_def)
  have "unat x = unat y"
    using hex_char_inj [OF b(1) b(1) e(1)] hex_char_inj [OF b(2) b(2) e(2)] by (metis div_mult_mod_eq)
  then have "x = y" by (rule unat_eqI)
  then show ?case using Cons.IH [OF e(3)] ys by simp
qed

text \<open>Keys as \<open>newKeyPair\<close> writes them.\<close>

definition key_text :: "string \<Rightarrow> bool" where
  "key_text k \<longleftrightarrow> (\<exists>bs. length bs = 32 \<and> k = b64_encode bs)"

lemma key_text_hex:
  assumes "key_text k"
  obtains x where "hex_key k = Some x" "\<And>k'. key_text k' \<Longrightarrow> hex_key k' = Some x \<Longrightarrow> k' = k"
proof -
  obtain bs where bs: "length bs = 32" "k = b64_encode bs" using assms by (auto simp: key_text_def)
  show thesis
  proof (rule that [of "hex_encode bs"])
    show "hex_key k = Some (hex_encode bs)" using bs by (simp add: hex_key_encode)
    fix k'
    assume "key_text k'" "hex_key k' = Some (hex_encode bs)"
    then obtain bs' where bs': "length bs' = 32" "k' = b64_encode bs'" by (auto simp: key_text_def)
    with \<open>hex_key k' = Some (hex_encode bs)\<close> have "hex_encode bs' = hex_encode bs" by (simp add: hex_key_encode)
    then show "k' = k" using hex_encode_inj bs(2) bs'(2) by blast
  qed
qed

text \<open>The rows of a tenant, with keys like that and addresses of its pool.\<close>

definition tenant_rows :: "string \<Rightarrow> db \<Rightarrow> stored_peer list" where
  "tenant_rows t d = filter (\<lambda>r. sp_tenant r = t) (db_peers d)"

lemma tenant_rows_facts:
  assumes ok: "peers_ok d" and p: "p \<in> set (tenant_rows t d)"
  shows "addr_is4 (sp_ip p)" "sp_tenant p = t"
    "q \<in> set (tenant_rows t d) \<Longrightarrow> sp_key p = sp_key q \<or> sp_ip p = sp_ip q \<or> sp_id p = sp_id q \<Longrightarrow> p = q"
proof -
  have m: "p \<in> set (db_peers d)" "sp_tenant p = t" using p by (simp_all add: tenant_rows_def)
  then show "sp_tenant p = t" by simp
  have "peer_ok d p" using ok m by (simp add: peers_ok_def)
  then obtain r where r: "find_tenant d (sp_tenant p) = Some r" "sp_ip p \<in> set (pool (st_cidr r))"
    by (auto simp: peer_ok_def split: option.splits)
  then have "range_ok (st_cidr r)" using ok find_tenant_Some [OF r(1)] by (simp add: peers_ok_def)
  then show "addr_is4 (sp_ip p)"
    using pool_V4 r(2) unfolding range_ok_def by (cases "st_cidr r"; cases "pf_addr (st_cidr r)") fastforce+
  show "p = q" if q: "q \<in> set (tenant_rows t d)" and same: "sp_key p = sp_key q \<or> sp_ip p = sp_ip q \<or> sp_id p = sp_id q"
  proof (rule ccontr)
    assume ne: "p \<noteq> q"
    have mq: "q \<in> set (db_peers d)" "sp_tenant q = t" using q by (simp_all add: tenant_rows_def)
    obtain i j where ij: "i < length (db_peers d)" "j < length (db_peers d)" "db_peers d ! i = p" "db_peers d ! j = q"
      using m(1) mq(1) by (metis in_set_conv_nth)
    have c: "sorted_wrt (\<lambda>p q. \<not> peer_clash p q) (db_peers d)" using ok by (simp add: peers_ok_def)
    have "i \<noteq> j" using ij ne by auto
    then have "\<not> peer_clash p q \<or> \<not> peer_clash q p"
      using c ij by (metis linorder_neqE_nat sorted_wrt_nth_less)
    then show False using same m(2) mq(2) by (auto simp: peer_clash_def)
  qed
qed

lemma tenant_rows_distinct:
  assumes ok: "peers_ok d"
  shows "distinct (tenant_rows t d)"
proof -
  have "sorted_wrt (\<lambda>p q. \<not> peer_clash p q) (db_peers d)" using ok by (simp add: peers_ok_def)
  moreover have "peer_clash p p" for p by (simp add: peer_clash_def)
  ultimately have "distinct (db_peers d)"
    by (induction "db_peers d" rule: rev_induct) (auto simp: distinct_conv_nth sorted_wrt_iff_nth_less, metis linorder_neqE_nat)
  then show ?thesis by (simp add: tenant_rows_def)
qed

lemma set_listed: "set (store_list_peers t d) = set (tenant_rows t d)" "distinct (tenant_rows t d) \<Longrightarrow> distinct (store_list_peers t d)"
  by (simp_all add: store_list_peers_def tenant_rows_def)

lemma usable_listed:
  assumes "addr_is4 (sp_ip p)" "key_text (sp_key p)" "go_parse_addr (se_lib env) (show_addr lib (sp_ip p)) = Some (sp_ip p)" "ge_netip genv = lib"
  shows "usable_peer env (listed_peer genv p) = (if sp_id p = se_own env then None else map_option (\<lambda>k. (k, sp_ip p)) (hex_key (sp_key p)))"
  using assms by (auto simp: usable_peer_def listed_peer_def split: option.splits)

lemma parse_shown4: "addr_is4 a \<Longrightarrow> go_parse_addr lib (show_addr lib' a) = Some a"
  by (cases a) (simp_all add: go_parse_addr_show4)

lemma distinct_map_filter:
  assumes "distinct xs" "\<And>p q a b. p \<in> set xs \<Longrightarrow> q \<in> set xs \<Longrightarrow> u p = Some a \<Longrightarrow> u q = Some b \<Longrightarrow> f a = f b \<Longrightarrow> p = q"
  shows "distinct (map f (List.map_filter u xs))"
  using assms
proof (induction xs)
  case (Cons x xs)
  have m: "b \<in> set (List.map_filter u xs) \<longleftrightarrow> (\<exists>y \<in> set xs. u y = Some b)" for b
    by (force simp: List.map_filter_def)
  have "distinct (map f (List.map_filter u xs))" using Cons by auto
  moreover have "f a \<noteq> f b" if "u x = Some a" "b \<in> set (List.map_filter u xs)" for a b
    using that Cons.prems m by (metis distinct.simps(2) list.set_intros(1,2))
  ultimately show ?case by (cases "u x") (auto simp: map_filter_simps)
qed (simp add: map_filter_simps)

lemma tenant_list_proper:
  assumes ok: "peers_ok d" and keys: "\<forall>p \<in> set (tenant_rows t d). key_text (sp_key p)"
  shows "proper_list (env, map (listed_peer genv) (store_list_peers t d))"
proof -
  let ?ps = "store_list_peers t d"
  let ?u = "\<lambda>p. usable_peer env (listed_peer genv p)"
  have u: "?u p = (if sp_id p = se_own env then None else map_option (\<lambda>k. (k, sp_ip p)) (hex_key (sp_key p)))" if "p \<in> set ?ps" for p
    using that keys tenant_rows_facts(1) [OF ok, of p t] parse_shown4 [of "sp_ip p"] by (intro usable_listed) (auto simp: set_listed)
  have inj: "p = q" if pq: "p \<in> set ?ps" "q \<in> set ?ps" "?u p = Some a" "?u q = Some b" "fst a = fst b \<or> snd a = snd b" for p q a b
  proof -
    obtain k k' where k: "hex_key (sp_key p) = Some k" "a = (k, sp_ip p)" "hex_key (sp_key q) = Some k'" "b = (k', sp_ip q)"
      using pq(3,4) unfolding u [OF pq(1)] u [OF pq(2)] by (auto split: if_splits)
    have "sp_key p = sp_key q \<or> sp_ip p = sp_ip q"
    proof (cases "k = k'")
      case True
      obtain x where x: "hex_key (sp_key q) = Some x" "\<And>k'. key_text k' \<Longrightarrow> hex_key k' = Some x \<Longrightarrow> k' = sp_key q"
        using key_text_hex [of "sp_key q"] keys pq(2) by (auto simp: set_listed)
      then show ?thesis using True k keys pq(1) by (auto simp: set_listed)
    qed (use pq(5) k in simp)
    then show ?thesis using tenant_rows_facts(3) [OF ok, of p t q] pq(1,2) by (auto simp: set_listed)
  qed
  have d: "distinct ?ps" using set_listed(2) tenant_rows_distinct [OF ok] by blast
  have "usable env (map (listed_peer genv) ?ps) = List.map_filter ?u ?ps"
    by (simp add: usable_def List.map_filter_def filter_map comp_def)
  moreover have "distinct (map fst (List.map_filter ?u ?ps))" by (rule distinct_map_filter [OF d]) (use inj in blast)
  moreover have "distinct (map snd (List.map_filter ?u ?ps))" by (rule distinct_map_filter [OF d]) (use inj in blast)
  ultimately show ?thesis by (simp add: proper_list_def)
qed


text \<open>A refresh from the control plane is one more round of \<open>mesh_run\<close>.\<close>

lemma refresh_from_plane:
  assumes ok: "peers_ok (pl_db s)" and keys: "\<forall>p \<in> set (tenant_rows t (pl_db s)). key_text (sp_key p)"
    and at: "times_read tm (pk_env L)" "plain_segment (ns_tenant (dm_state d))" "ge_uuid (pk_env L) (ns_tenant (dm_state d)) = Some t"
      "has_tenant (pl_db s) t"
    and mesh: "mesh_run ipc_set peers_of (dm_peers d) dev ls" "set (mo_order m) = dom (dm_peers d)"
    and accepts: "refresh_accepted ipc_set m (plane_client L tm) (dev, d, s)"
    and r: "refresh_peers ipc_set m (plane_client L tm) (dev, d, s) = (dev', d', s')"
  shows "mesh_run ipc_set peers_of (dm_peers d') dev' ((sync_env_of m d, map (listed_peer (pk_env L)) (store_list_peers t (pl_db s))) # ls)"
    "proper_list (sync_env_of m d, map (listed_peer (pk_env L)) (store_list_peers t (pl_db s)))"
    "d' = d\<lparr>dm_peers := dm_peers d'\<rparr>" "pl_db s' = pl_db s"
    "\<exists>n. sync_peers (sync_env_of m d) ipc_set (mo_order m) (map (listed_peer (pk_env L)) (store_list_peers t (pl_db s))) (dm_peers d, dev) =
      (Inr n, dm_peers d', dev')"
proof -
  obtain row where row: "find_tenant (pl_db s) t = Some row" "st_id row = t"
    using at(4) find_tenant_None [of "pl_db s" t] find_tenant_Some by (cases "find_tenant (pl_db s) t") auto
  let ?ps = "map (listed_peer (pk_env L)) (store_list_peers t (pl_db s))"
  have l: "node_list_peers (plane_client L tm) (ns_tenant (dm_state d)) s = (Inr ?ps, next_step (pl_db s) s)"
    using list_peers_call [OF at(1,2)] at(3) row by (simp add: by_uuid_def store_get_tenant_def)
  obtain x tab dev1 where sp: "sync_peers (sync_env_of m d) ipc_set (mo_order m) ?ps (dm_peers d, dev) = (x, tab, dev1)"
    by (metis prod.collapse)
  obtain n where n: "x = Inr n"
    using accepts l sp by (auto simp: refresh_accepted_def split: sum.splits)
  have d': "dev' = dev1" "d' = d\<lparr>dm_peers := tab\<rparr>" "s' = next_step (pl_db s) s"
    using r l sp by (simp_all add: refresh_peers_def)
  show "mesh_run ipc_set peers_of (dm_peers d') dev' ((sync_env_of m d, ?ps) # ls)"
    using mesh_refreshed [OF mesh sp [unfolded n]] d' by simp
  show "proper_list (sync_env_of m d, ?ps)" by (rule tenant_list_proper [OF ok keys])
  show "d' = d\<lparr>dm_peers := dm_peers d'\<rparr>" "pl_db s' = pl_db s" using d' by simp_all
  show "\<exists>n. sync_peers (sync_env_of m d) ipc_set (mo_order m) ?ps (dm_peers d, dev) = (Inr n, dm_peers d', dev')"
    using sp n d' by simp
qed

lemma usable_row:
  assumes ok: "peers_ok d" and keys: "\<forall>p \<in> set (tenant_rows t d). key_text (sp_key p)"
  shows "(\<exists>c \<in> set (map (listed_peer genv) (store_list_peers t d)). usable_peer env c = Some (k, a)) \<longleftrightarrow>
    (\<exists>p \<in> set (tenant_rows t d). sp_id p \<noteq> se_own env \<and> sp_ip p = a \<and> hex_key (sp_key p) = Some k)"
proof -
  have u: "usable_peer env (listed_peer genv p) = (if sp_id p = se_own env then None else map_option (\<lambda>k. (k, sp_ip p)) (hex_key (sp_key p)))"
    if "p \<in> set (tenant_rows t d)" for p
    using that keys tenant_rows_facts(1) [OF ok that] parse_shown4 by (intro usable_listed) auto
  show ?thesis unfolding set_map set_listed by (auto simp: u split: if_splits)
qed

text \<open>
  C9. A machine's WireGuard knows its tenant and nobody else. In any state that the control
  plane reaches, with keys as meshd makes them, a refresh of the peers that WireGuard accepts
  leaves it so that a packet for a mesh address is encrypted to a key exactly if the tenant has
  another machine with that address and that key: no machine of another tenant, none that was
  removed, and no two for an address. Before it come any refreshes that WireGuard accepted of
  lists that each name no key and no address twice, whatever machines they name.
\<close>
theorem wireguard_is_tenant:
  assumes run: "control_run env (pl_db s) as gs h" and keys: "\<forall>p \<in> set (tenant_rows t (pl_db s)). key_text (sp_key p)"
    and at: "times_read tm (pk_env L)" "plain_segment (ns_tenant (dm_state d))" "ge_uuid (pk_env L) (ns_tenant (dm_state d)) = Some t"
      "has_tenant (pl_db s) t"
    and mesh: "mesh_run ipc_set peers_of (dm_peers d) dev ls" "set (mo_order m) = dom (dm_peers d)" "\<forall>l \<in> set ls. proper_list l"
    and wg: "refresh_accepted ipc_set m (plane_client L tm) (dev, d, s)" "obeys_uapi ipc_set peers_of"
    and r: "refresh_peers ipc_set m (plane_client L tm) (dev, d, s) = (dev', d', s')" and a: "addr_is4 a"
  shows "encrypted_to lib (peers_of dev') a k \<longleftrightarrow>
    (\<exists>p \<in> set (db_peers (pl_db s)). sp_tenant p = t \<and> sp_id p \<noteq> ns_peer (dm_state d) \<and> sp_ip p = a \<and> hex_key (sp_key p) = Some k)"
proof -
  have ok: "peers_ok (pl_db s)" using run_invariant [OF run] by (simp add: run_ok_def)
  note ref = refresh_from_plane [OF ok keys at mesh(1,2) wg(1) r]
  have "\<forall>l \<in> set ((sync_env_of m d, map (listed_peer (pk_env L)) (store_list_peers t (pl_db s))) # ls). proper_list l"
    using ref(2) mesh(3) by simp
  from encrypted_iff_listed [OF ref(1) this wg(2) a]
  have "encrypted_to lib (peers_of dev') a k \<longleftrightarrow>
      (\<exists>p \<in> set (tenant_rows t (pl_db s)). sp_id p \<noteq> ns_peer (dm_state d) \<and> sp_ip p = a \<and> hex_key (sp_key p) = Some k)"
    unfolding usable_row [OF ok keys] by (simp add: sync_env_of_def)
  then show ?thesis by (auto simp: tenant_rows_def)
qed


section \<open>From a report to the other machines\<close>

lemma find_updated:
  assumes "\<And>r. sp_id (f r) = sp_id r"
  shows "find_peer (update_peer i f d) i = map_option f (find_peer d i)"
proof -
  have "List.find (\<lambda>r. sp_id r = i) (map (\<lambda>r. if sp_id r = i then f r else r) xs) = map_option f (List.find (\<lambda>r. sp_id r = i) xs)" for xs
    using assms by (induction xs) auto
  then show ?thesis by (simp add: find_peer_def update_peer_def)
qed

lemma find_peer_Some: "find_peer d i = Some r \<Longrightarrow> r \<in> set (db_peers d) \<and> sp_id r = i"
  unfolding find_peer_def by (drule find_Some_set) auto

text \<open>What each sync gives a peer that is listed once.\<close>

lemma sync_keeps:
  "(\<forall>p \<in> set ps. \<forall>a. usable_peer env p \<noteq> Some (k, a)) \<Longrightarrow> fst (fold (sync_peer env have) ps acc) k = fst acc k"
proof (induction ps arbitrary: acc)
  case (Cons p ps)
  have "fst (sync_peer env have p acc) k = fst acc k"
    using Cons.prems by (cases acc) (auto simp: sync_peer_def Let_def split: option.splits)
  then show ?case using Cons by simp
qed simp

lemma sync_wants:
  assumes "distinct (map fst (usable env ps))" "p \<in> set ps" "usable_peer env p = Some (k, a)"
  shows "fst (fold (sync_peer env have) ps acc) k = Some (want_peer env p k a (have k))"
  using assms
proof (induction ps arbitrary: acc)
  case (Cons q ps)
  show ?case
  proof (cases "\<exists>r \<in> set ps. \<exists>b. usable_peer env r = Some (k, b)")
    case True
    then obtain b where "(k, b) \<in> set (usable env ps)" unfolding usable_mem by blast
    then have "k \<in> set (map fst (usable env ps))" by force
    moreover have "usable env (q # ps) = (case usable_peer env q of None \<Rightarrow> usable env ps | Some u \<Rightarrow> u # usable env ps)"
      unfolding usable_def map_filter_simps by (rule refl)
    ultimately have "distinct (map fst (usable env ps)) \<and> (\<forall>u. usable_peer env q = Some u \<longrightarrow> fst u \<noteq> k)"
      using Cons.prems(1) by (cases "usable_peer env q") auto
    then have "p \<noteq> q" "distinct (map fst (usable env ps))" using Cons.prems(3) by auto
    then show ?thesis using Cons by simp
  next
    case False
    then have "p = q" using Cons.prems by auto
    have "fst (fold (sync_peer env have) (q # ps) acc) k = fst (sync_peer env have q acc) k"
      using sync_keeps [of ps env k "have" "sync_peer env have q acc"] False by auto
    moreover have "fst (sync_peer env have q acc) k = Some (want_peer env p k a (have k))"
      using Cons.prems(3) \<open>p = q\<close> by (cases acc) (simp add: sync_peer_def Let_def)
    ultimately show ?thesis by simp
  qed
qed simp

lemma sync_table:
  assumes "sync_peers env ipc_set order ps (have, dev) = (Inr n, tab, dev')" "distinct (map fst (usable env ps))" "p \<in> set ps"
    "usable_peer env p = Some (k, a)"
  shows "tab k = Some (want_peer env p k a (have k))"
proof -
  obtain tab0 n0 cfg where f: "fold (sync_peer env have) ps (\<lambda>k. None, 0, []) = (tab0, n0, cfg)"
    by (metis prod.collapse)
  then have "tab = tab0" using assms(1) by (auto simp: sync_peers_def Let_def split: if_splits sum.splits)
  then show ?thesis using sync_wants [OF assms(2-4), of "have" "(\<lambda>k. None, 0, [])"] f by simp
qed


text \<open>What a machine's row holds once its report is stored, and how others read it.\<close>

definition reported_row :: "plane_link \<Rightarrow> plane \<Rightarrow> daemon \<Rightarrow> bool \<Rightarrow> nat \<Rightarrow> stored_peer \<Rightarrow> stored_peer" where
  "reported_row L s d reach mapped r =
     (let r1 = r\<lparr>sp_public_ip := Some (pk_src L), sp_udp_port := Some (dm_port d), sp_reachable := reach,
                 sp_endpoint_at := Some (dr_now (node_draw L s))\<rparr>
      in if reach then r1 else r1\<lparr>sp_nat_ip := Some (pk_src L), sp_nat_port := Some (int mapped)\<rparr>)"

text \<open>
  The circumstances of a report: the machine is known and its port in range. If the control
  plane's probe of it fails, its request for the mapping is answered by the prober, among
  whatever else arrives.
\<close>

definition report_ready :: "moment \<Rightarrow> plane_link \<Rightarrow> (string \<Rightarrow> int option) \<Rightarrow> daemon \<Rightarrow> plane \<Rightarrow> string \<Rightarrow> addr_port \<Rightarrow> bool \<Rightarrow> nat \<Rightarrow> bool" where
  "report_ready m L tm d s i server reach mapped \<longleftrightarrow>
     times_read tm (pk_env L) \<and> plain_segment (ns_peer (dm_state d)) \<and> ge_uuid (pk_env L) (ns_peer (dm_state d)) = Some i \<and>
     1 \<le> dm_port d \<and> dm_port d \<le> 65535 \<and> addr_is4 (pk_src L) \<and>
     (\<exists>q < 65536. ge_probe_port (pk_env L) = Some q \<and> (\<not> reach \<longrightarrow> resolved m (plane_client L tm) (int q) = Some server)) \<and>
     (\<forall>a p. ge_show_addr_port (pk_env L) a p = show_addr_port (mo_lib m) (a, nat p)) \<and>
     (\<forall>a p. addr_is4 a \<and> p < 65536 \<longrightarrow> ge_parse_addr_port (pk_env L) (go_trim (show_addr_port (mo_lib m) (a, p))) = Some (a, p)) \<and>
     (reach \<longleftrightarrow> dr_reachable (node_draw L s)) \<and>
     (reach \<or> 0 < mapped \<and> mapped < 65536 \<and> dm_nat d \<noteq> (pk_src L, mapped) \<and>
        valid_ap server \<and> bd_port (dm_bind d) \<noteq> None \<and> length (mo_nonce m) = nonce_len \<and>
        (addr_unmap (fst server), snd server) = server \<and>
        (\<exists>before answer after P. mo_arrive m = before @ [(answer, server)] @ after \<and>
          fst (prober_receive (mo_now m) (encode_frame BindingRequest (mo_nonce m @ replicate addr_port_len 0)) (pk_src L, mapped) P) =
            Some (answer, (pk_src L, mapped)) \<and>
          (\<forall>x \<in> set (before @ after). not_answer (mo_nonce m) server x)))"


lemma reported_row_keys [simp]:
  "sp_id (reported_row L s d reach mapped r) = sp_id r" "sp_tenant (reported_row L s d reach mapped r) = sp_tenant r"
  "sp_ip (reported_row L s d reach mapped r) = sp_ip r" "sp_key (reported_row L s d reach mapped r) = sp_key r"
  "sp_token (reported_row L s d reach mapped r) = sp_token r"
  by (simp_all add: reported_row_def Let_def)

lemma update_twice:
  assumes "\<And>r. sp_id (f r) = sp_id r"
  shows "update_peer i g (update_peer i f d) = update_peer i (\<lambda>r. g (f r)) d"
  using assms by (simp add: update_peer_def comp_def if_distrib cong: if_cong)

lemma set_endpoint_update:
  assumes "store_set_endpoint now i ip port reach d = Inr (r, d')"
  shows "d' = update_peer i (\<lambda>r. r\<lparr>sp_public_ip := Some ip, sp_udp_port := Some port, sp_reachable := reach, sp_endpoint_at := Some now\<rparr>) d"
    "find_peer d' i = Some r"
  using assms by (auto simp: store_set_endpoint_def Let_def store_get_peer_def split: if_splits option.splits)

lemma set_nat_update:
  assumes "store_set_nat_endpoint i ip port d = Inr (r, d')"
  shows "d' = update_peer i (\<lambda>r. r\<lparr>sp_nat_ip := Some ip, sp_nat_port := Some port\<rparr>) d"
  using assms by (auto simp: store_set_nat_endpoint_def Let_def store_get_peer_def split: if_splits option.splits)

lemma mapping_discovered:
  assumes "valid_ap seen" "snd seen < 65536" "addr_unmap (fst seen) = fst seen" "bd_port b \<noteq> None" "length (mo_nonce m) = nonce_len"
    and server: "(addr_unmap (fst server), snd server) = server"
    and arrive: "mo_arrive m = before @ [(answer, server)] @ after" "\<forall>x \<in> set (before @ after). not_answer (mo_nonce m) server x"
      "fst (prober_receive (mo_now m) (encode_frame BindingRequest (mo_nonce m @ replicate addr_port_len 0)) seen P) = Some (answer, seen)"
  shows "\<exists>sends b'. discover_mapping m server b = (Some seen, sends, b')"
proof -
  obtain request b1 where ask: "discover_begin (mo_nonce m) server b = (Some (request, server), b1)" "bd_bindings b1 (mo_nonce m) = Some server"
    using assms(4) by (simp add: discover_begin_def)
  have a: "answer = encode_frame BindingResponse (mo_nonce m @ append_addr_port [] seen)"
    using arrive(3) prober_answers [OF assms(5,3), of "mo_now m" P] by simp
  have "bd_mapped (mesh_receives (mo_now m) (mo_arrive m) b1) (mo_nonce m) = Some seen"
    unfolding arrive(1) a
    using mapping_learned [OF assms(5) server ask(2) _ assms(2,3), of before after "mo_now m"] assms(1) arrive(2) by (simp add: valid_ap_def)
  then show ?thesis using ask(1) by (simp add: discover_mapping_def discover_end_def)
qed

lemma report_stores:
  assumes ready: "report_ready m L tm d s i server reach mapped" and row: "find_peer (pl_db s) i = Some r"
  shows "\<exists>sends d' s'. report_endpoint m (plane_client L tm) (d, s) = (sends, d', s') \<and> dm_reported d' \<and> dm_direct d' = reach \<and>
    (\<not> reach \<longrightarrow> dm_nat d' = (pk_src L, mapped)) \<and> pl_db s' = update_peer i (reported_row L s d reach mapped) (pl_db s)"
proof -
  note rd = ready [unfolded report_ready_def]
  obtain q where q: "q < 65536" "ge_probe_port (pk_env L) = Some q" "\<not> reach \<longrightarrow> resolved m (plane_client L tm) (int q) = Some server"
    using rd by blast
  have tm: "times_read tm (pk_env L)" and plain: "plain_segment (ns_peer (dm_state d))"
    and id: "ge_uuid (pk_env L) (ns_peer (dm_state d)) = Some i" and port: "1 \<le> dm_port d" "dm_port d \<le> 65535"
    and src: "addr_is4 (pk_src L)" and reach: "reach = dr_reachable (node_draw L s)" using rd by blast+
  obtain r1 d1 where st: "store_set_endpoint (dr_now (node_draw L s)) i (pk_src L) (dm_port d) (dr_reachable (node_draw L s)) (pl_db s) = Inr (r1, d1)"
    and call: "node_update_endpoint (plane_client L tm) (ns_peer (dm_state d)) (dm_port d) s = (Inr (listed_peer (pk_env L) r1, int q), next_step d1 s)"
    using endpoint_call [OF tm plain port id _ q(2,1), of s] row by auto
  note u = set_endpoint_update [OF st]
  have r1: "cp_direct (listed_peer (pk_env L) r1) = reach"
    using u row reach by (auto simp: find_updated listed_peer_def)
  show ?thesis
  proof (cases reach)
    case True
    then have "update_peer i (reported_row L s d reach mapped) (pl_db s) = d1"
      unfolding u(1) using reach by (simp add: reported_row_def [abs_def])
    then show ?thesis using call r1 True by (auto simp: report_endpoint_def)
  next
    case False
    then have nat: "0 < mapped" "mapped < 65536" "dm_nat d \<noteq> (pk_src L, mapped)" "valid_ap server" "bd_port (dm_bind d) \<noteq> None"
      "length (mo_nonce m) = nonce_len" "(addr_unmap (fst server), snd server) = server" using rd by blast+
    obtain before answer after P where arrive: "mo_arrive m = before @ [(answer, server)] @ after"
      "fst (prober_receive (mo_now m) (encode_frame BindingRequest (mo_nonce m @ replicate addr_port_len 0)) (pk_src L, mapped) P) =
        Some (answer, (pk_src L, mapped))" "\<forall>x \<in> set (before @ after). not_answer (mo_nonce m) server x"
      using rd False by blast
    have v: "valid_ap (pk_src L, mapped)" "addr_unmap (pk_src L) = pk_src L"
      using src by (cases "pk_src L"; simp add: valid_ap_def)+
    obtain sends b' where disc: "discover_mapping m server (dm_bind d) = (Some (pk_src L, mapped), sends, b')"
      using mapping_discovered [OF v(1) _ _ nat(5,6,7) arrive(1,3,2)] nat(2) v(2) by auto
    have parse: "ge_parse_addr_port (pk_env L) (go_trim (show_addr_port (mo_lib m) (pk_src L, mapped))) = Some (pk_src L, mapped)"
      using rd src nat(2) by blast
    have "find_peer (pl_db (next_step d1 s)) i \<noteq> None" using u(2) by simp
    from nat_call [OF tm plain parse _ _ _ _ id this] nat(1,2) v(2)
    obtain r2 d2 where st2: "store_set_nat_endpoint i (pk_src L) (int mapped) d1 = Inr (r2, d2)"
      and call2: "node_update_nat (plane_client L tm) (mo_lib m) (ns_peer (dm_state d)) (pk_src L, mapped) (next_step d1 s) =
        (Inr (listed_peer (pk_env L) r2), next_step d2 (next_step d1 s))"
      by auto
    have "d2 = update_peer i (reported_row L s d reach mapped) (pl_db s)"
      unfolding set_nat_update [OF st2] u(1) using False reach by (simp add: update_twice reported_row_def [abs_def] Let_def)
    then show ?thesis
      using call r1 False q(3) disc call2 nat(3,4) by (simp add: report_endpoint_def refresh_nat_def Let_def)
  qed
qed


lemma tenant_rows_update:
  assumes "\<And>r. sp_tenant (f r) = sp_tenant r"
  shows "tenant_rows t (update_peer i f d) = map (\<lambda>r. if sp_id r = i then f r else r) (tenant_rows t d)"
proof -
  have "filter (\<lambda>r. sp_tenant r = t) (map (\<lambda>r. if sp_id r = i then f r else r) xs) =
      map (\<lambda>r. if sp_id r = i then f r else r) (filter (\<lambda>r. sp_tenant r = t) xs)" for xs
    using assms by (induction xs) auto
  then show ?thesis by (simp add: tenant_rows_def update_peer_def)
qed

lemma listed_reported:
  assumes home: "home = V4 x" and port: "1 \<le> dm_port dA" "dm_port dA \<le> 65535" "reach \<or> 0 < mapped \<and> mapped < 65536"
    and shown: "\<forall>a p. ge_show_addr_port env a p = show_addr_port lib (a, nat p)"
    and L: "pk_src L = home" "pk_env L = env" and se: "se_lib senv = lib"
  shows "listed_endpoint senv (listed_peer env (reported_row L s dA reach mapped r)) = (home, if reach then nat (dm_port dA) else mapped)"
proof (cases reach)
  case True
  have "go_parse_addr_port lib (show_addr_port lib (V4 x, nat (dm_port dA))) = Some (V4 x, nat (dm_port dA))"
    using port(1,2) by (intro parse_show_addr_port) auto
  moreover have "dm_port dA mod 65536 = dm_port dA" using port by simp
  ultimately show ?thesis
    using True shown L se home by (simp add: listed_endpoint_def listed_peer_def reported_row_def shown_endpoint_def del: show_addr_port.simps)
next
  case False
  have "go_parse_addr_port lib (show_addr_port lib (V4 x, mapped)) = Some (V4 x, mapped)"
    using port(3) False by (intro parse_show_addr_port) auto
  moreover have "int mapped mod 65536 = int mapped" using port(3) False by simp
  moreover have "show_addr_port lib (V4 x, mapped) \<noteq> ''''" by simp
  ultimately show ?thesis
    using False shown L se home
    by (simp add: listed_endpoint_def listed_peer_def reported_row_def shown_endpoint_def Let_def del: show_addr_port.simps)
qed

lemma seen_new: "seen_ok lib w None b a \<Longrightarrow> target lib w = x \<Longrightarrow> x \<noteq> '''' \<Longrightarrow> map_option we_endpoint a = Some x"
  by (cases a) (simp_all add: seen_ok_def entry_of_def retargets_def target_def no_wg_peer_def no_addr_port_def valid_ap_def)

text \<open>
  C14. What a machine reports is where the others send. A machine reports its port; the
  control plane's probe of it is answered, or else the machine asks the prober for its mapping
  and reports that. Once another machine of the tenant has then refreshed its peers, and
  its WireGuard has accepted that as it has the refreshes before, of lists that each name no
  key and no address twice, its table
  has the machine's key with its mesh address, and as its endpoint the address the report came
  from, with the port or with the mapped one. A machine new to the table is sent to there
  directly, and so is one whose endpoint changed.
\<close>
theorem endpoint_reaches_peers:
  assumes run: "control_run env (pl_db s) as gs h" and keys: "\<forall>p \<in> set (tenant_rows t (pl_db s)). key_text (sp_key p)"
    and ready: "report_ready mA (L\<lparr>pk_src := home\<rparr>) tmA dA s i server reach mapped"
    and row: "find_peer (pl_db s) i = Some r" "sp_tenant r = t"
    and report: "report_endpoint mA (plane_client (L\<lparr>pk_src := home\<rparr>) tmA) (dA, s) = (sends, dA', s1)"
    and at: "times_read tm (pk_env L)" "plain_segment (ns_tenant (dm_state d))" "ge_uuid (pk_env L) (ns_tenant (dm_state d)) = Some t"
      "has_tenant (pl_db s) t" "ns_peer (dm_state d) \<noteq> i" "mo_lib m = mo_lib mA"
    and mesh: "mesh_run ipc_set peers_of (dm_peers d) dev ls" "set (mo_order m) = dom (dm_peers d)" "\<forall>l \<in> set ls. proper_list l"
    and wg: "refresh_accepted ipc_set m (plane_client L tm) (dev, d, s1)" "obeys_uapi ipc_set peers_of"
    and refresh: "refresh_peers ipc_set m (plane_client L tm) (dev, d, s1) = (dev', d', s2)"
    and ap: "ap = (home, if reach then nat (dm_port dA) else mapped)"
  shows "\<exists>k w. hex_key (sp_key r) = Some k \<and> dm_peers d' k = Some w \<and> wp_mesh w = sp_ip r \<and> wp_endpoint w = ap \<and>
    (dm_peers d k = None \<longrightarrow> \<not> wp_relayed w \<and> map_option we_endpoint (peers_of dev' k) = Some (show_addr_port (mo_lib m) ap)) \<and>
    (\<forall>w0. dm_peers d k = Some w0 \<and> wp_endpoint w0 \<noteq> ap \<longrightarrow> \<not> wp_relayed w)"
proof -
  let ?L = "L\<lparr>pk_src := home\<rparr>" and ?f = "reported_row (L\<lparr>pk_src := home\<rparr>) s dA reach mapped"
  note rd = ready [unfolded report_ready_def]
  have ok: "peers_ok (pl_db s)" using run_invariant [OF run] by (simp add: run_ok_def)
  obtain x where home: "home = V4 x" using rd by (cases home) auto
  have s1: "pl_db s1 = update_peer i ?f (pl_db s)" using report_stores [OF ready row(1)] report by auto
  have ok1: "peers_ok (pl_db s1)"
    unfolding s1 using update_peer_ok [OF ok, of "[]" ?f i] by (simp add: regs_ok_def)
  have rows: "tenant_rows t (pl_db s1) = map (\<lambda>r. if sp_id r = i then ?f r else r) (tenant_rows t (pl_db s))"
    unfolding s1 by (rule tenant_rows_update) simp
  have keys1: "\<forall>p \<in> set (tenant_rows t (pl_db s1)). key_text (sp_key p)" using keys by (auto simp: rows)
  have r: "r \<in> set (tenant_rows t (pl_db s))" "sp_id r = i"
    using find_peer_Some [OF row(1)] row(2) by (simp_all add: tenant_rows_def)
  then have fr: "?f r \<in> set (tenant_rows t (pl_db s1))" unfolding rows by (auto intro: rev_image_eqI)
  have ht: "has_tenant (pl_db s1) t" using at(4) by (simp add: s1 has_tenant_def update_peer_def)
  note ref = refresh_from_plane [OF ok1 keys1 at(1-3) ht mesh(1,2) wg(1) refresh]
  let ?env = "sync_env_of m d" and ?ps = "map (listed_peer (pk_env L)) (store_list_peers t (pl_db s1))"
  obtain n where sync: "sync_peers ?env ipc_set (mo_order m) ?ps (dm_peers d, dev) = (Inr n, dm_peers d', dev')" using ref(5) by blast
  obtain k where k: "hex_key (sp_key r) = Some k" using key_text_hex keys r(1) by metis
  let ?c = "listed_peer (pk_env L) (?f r)"
  have four: "addr_is4 (sp_ip (?f r))" by (rule tenant_rows_facts(1) [OF ok1 fr])
  have u: "usable_peer ?env ?c = Some (k, sp_ip r)"
    using usable_listed [OF four, of ?env "ge_netip (pk_env L)" "pk_env L"] parse_shown4 [OF four] keys1 fr k r(2) at(5)
    by (auto simp: sync_env_of_def)
  have mem: "?c \<in> set ?ps" using fr by (simp add: set_listed)
  have proper: "distinct (map fst (usable ?env ?ps))" "distinct (map snd (usable ?env ?ps))"
    using tenant_list_proper [OF ok1 keys1] by (simp_all add: proper_list_def)
  let ?w = "want_peer ?env ?c k (sp_ip r) (dm_peers d k)"
  have tab: "dm_peers d' k = Some ?w" by (rule sync_table [OF sync proper(1) mem u])
  have lib: "\<forall>a p. ge_show_addr_port (pk_env ?L) a p = show_addr_port (mo_lib m) (a, nat p)" and port: "1 \<le> dm_port dA" "dm_port dA \<le> 65535"
    and mp: "reach \<or> 0 < mapped \<and> mapped < 65536"
    using rd at(6) by auto
  have listed: "listed_endpoint ?env ?c = ap"
    using listed_reported [OF home port mp lib [simplified], of ?L ?env s r] unfolding ap by (simp add: sync_env_of_def)
  have v: "valid_ap ap" by (simp add: ap home valid_ap_def)
  have w: "wp_mesh ?w = sp_ip r" "wp_endpoint ?w = ap" using listed v by (simp_all add: want_peer_def Let_def)
  have new: "\<not> wp_relayed ?w" if "dm_peers d k = None"
    using that want_first [of ?env ?c k "sp_ip r"] listed v by simp
  have moved: "\<not> wp_relayed ?w" if "dm_peers d k = Some w0" "wp_endpoint w0 \<noteq> ap" for w0
    using that want_moved [of ?env ?c w0 k "sp_ip r"] listed v by simp
  have "map_option we_endpoint (peers_of dev' k) = Some (show_addr_port (mo_lib m) ap)" if none: "dm_peers d k = None"
  proof -
    from mesh_run_in_line [OF mesh(1) wg(2) mesh(3)] have line: "in_line (se_lib ?env) (dm_peers d) (peers_of dev)" "table4 (dm_peers d)" by blast+
    from sync_peers_applied [OF wg(2) line mesh(2) proper sync] tab
    have seen: "seen_ok (se_lib ?env) ?w None (peers_of dev k) (peers_of dev' k)" using none by metis
    have "target (mo_lib m) ?w = show_addr_port (mo_lib m) ap" using new [OF none] w(2) v by (simp add: target_def)
    moreover have "show_addr_port (mo_lib m) ap \<noteq> ''''" by (simp add: ap home)
    moreover have "se_lib ?env = mo_lib m" by (simp add: sync_env_of_def)
    ultimately show ?thesis using seen_new [OF seen [unfolded \<open>se_lib ?env = mo_lib m\<close>]] by blast
  qed
  with new have "dm_peers d k = None \<longrightarrow> \<not> wp_relayed ?w \<and> map_option we_endpoint (peers_of dev' k) = Some (show_addr_port (mo_lib m) ap)"
    by (intro impI conjI)
  moreover have "\<forall>w0. dm_peers d k = Some w0 \<and> wp_endpoint w0 \<noteq> ap \<longrightarrow> \<not> wp_relayed ?w" using moved by (intro allI impI) (elim conjE)
  ultimately show ?thesis using k tab w by (intro exI [of _ k] exI [of _ ?w] conjI)
qed


section \<open>The relay after a restart\<close>

lemma token_issued:
  assumes "plain_segment (ns_peer (dm_state d))" "ge_uuid (pk_env L) (ns_peer (dm_state d)) = Some i" "find_peer (pl_db s) i = Some r"
    "ge_probe_port (pk_env L) = Some q" "q < 65536" "pl_relay s = Some R" "addr_is4 (sp_ip r)" "length (pk_token L (pl_step s)) = relay_token_len"
    "resolved m (plane_client L tm) (int q) = Some server"
  obtains R1 where "relay_issue (pk_token L (pl_step s)) (sp_id r) (sp_tenant r) (sp_ip r) R = (Inr (pk_token L (pl_step s)), R1)"
    "issue_token m (plane_client L tm) (d, s) =
      (None, d\<lparr>dm_bind := use_relay server (pk_token L (pl_step s)) (dm_bind d)\<rparr>, s\<lparr>pl_relay := Some R1, pl_step := pl_step s + 1\<rparr>)"
proof -
  obtain R1 where R1: "relay_issue (pk_token L (pl_step s)) (sp_id r) (sp_tenant r) (sp_ip r) R = (Inr (pk_token L (pl_step s)), R1)"
    using assms(7) by (simp add: relay_issue_def Let_def)
  show thesis
    using that [OF R1] relay_token_call [OF assms(1-6) R1, of tm] assms(8,9) by (simp add: issue_token_def b64_decode_encode)
qed

text \<open>
  C15. meshd finds back to the relay. Whatever the relay's sessions are, as after a restart
  that lost them all: when the relay has not acknowledged a token for 45 seconds, and none was
  asked for in that time, the next round gets a new one and registers with it; the relay
  acknowledges to where the registration came from and now sends there what the tenant sends to
  the machine's mesh address, and the acknowledgement counts as the relay being up for 45
  seconds. While it is up, a round only registers and asks for nothing.
\<close>
theorem relay_recovers:
  assumes run: "relay_run R h" "\<not> issued h (pk_token L (pl_step s))" and len: "length (pk_token L (pl_step s)) = relay_token_len"
    and plane: "pl_relay s = Some R" "plain_segment (ns_peer (dm_state d))" "ge_uuid (pk_env L) (ns_peer (dm_state d)) = Some i"
      "find_peer (pl_db s) i = Some r" "addr_is4 (sp_ip r)" "ge_probe_port (pk_env L) = Some q" "q < 65536"
    and silent: "\<not> relay_is_up (mo_now m) (dm_bind d)" "relay_ack_timeout < mo_now m - dm_issued d" "bd_port (dm_bind d) \<noteq> None"
    and server: "resolved m (plane_client L tm) (int q) = Some server" "valid_ap server" "(addr_unmap (fst server), snd server) = server"
    and src: "fst src \<noteq> NoAddr" and later: "zero_time < u"
  shows "\<exists>frame d' s' R1 ack R2. refresh_relay m (plane_client L tm) (d, s) = ([(frame, server)], d', s') \<and> pl_relay s' = Some R1 \<and>
    pl_db s' = pl_db s \<and> relay_handle now frame src R1 = (Some (ack, src), R2) \<and>
    (\<exists>x. by_mesh R2 (sp_tenant r, sp_ip r) = Some x \<and> rs_addr (rl_session R2 x) = src \<and> relay_live R2 now (Some x)) \<and>
    (let b = snd (snd (mesh_receive u ack server (dm_bind d'))) in
      \<forall>v. (relay_is_up v b \<longleftrightarrow> v - u < relay_ack_timeout) \<and>
        (relay_is_up v b \<longrightarrow> refresh_relay (m\<lparr>mo_now := v\<rparr>) (plane_client L tm) (d'\<lparr>dm_bind := b\<rparr>, s') =
          ([(frame, server)], d'\<lparr>dm_bind := b\<rparr>, s')))"
proof -
  let ?k = "pk_token L (pl_step s)"
  obtain R1 where iss: "relay_issue ?k (sp_id r) (sp_tenant r) (sp_ip r) R = (Inr ?k, R1)"
    and tok: "issue_token m (plane_client L tm) (d, s) =
      (None, d\<lparr>dm_bind := use_relay server ?k (dm_bind d)\<rparr>, s\<lparr>pl_relay := Some R1, pl_step := pl_step s + 1\<rparr>)"
    by (rule token_issued [OF plane(2-4,6,7,1,5) len server(1)])
  define b1 where "b1 = use_relay server ?k (dm_bind d)"
  define d1 where "d1 = d\<lparr>dm_bind := b1, dm_issued := mo_now m\<rparr>"
  define s1 where "s1 = s\<lparr>pl_relay := Some R1, pl_step := pl_step s + 1\<rparr>"
  have b1: "bd_port b1 \<noteq> None" "bd_relay b1 = server" "bd_token b1 = ?k" using silent(3) by (simp_all add: b1_def use_relay_def)
  have reg: "register_relay b1 = Inr (Some (encode_frame RelayRegister ?k, server))"
    using register_relay_frame [OF b1(1)] b1(2,3) server(2) by simp
  have ref: "refresh_relay m (plane_client L tm) (d, s) = ([(encode_frame RelayRegister ?k, server)], d1, s1)"
    using silent(1,2) tok reg by (simp add: refresh_relay_def Let_def register_now_def d1_def s1_def b1_def)
  have ok: "relay_ok R" using relay_run_backed [OF run(1)] by (simp add: relay_backed_def)
  note f = issue_facts [OF ok unissued_unknown [OF run] iss]
  let ?x = "rl_next R"
  obtain R2 where R2: "relay_handle now (encode_frame RelayRegister ?k) src R1 = (Some (encode_frame RelayAck ?k, src), R2)"
    "by_mesh R2 = by_mesh R1" "rs_addr (rl_session R2 ?x) = src" "rs_seen (rl_session R2 ?x) = now"
    by (rule register_facts [OF f(1,2) len src, of now ?x]) blast
  have live: "by_mesh R2 (sp_tenant r, sp_ip r) = Some ?x" "relay_live R2 now (Some ?x)"
    using f(3) R2 src by (simp_all add: relay_live_def session_ttl_def second_ns_def)
  have ack: "mesh_receive u (encode_frame RelayAck ?k) server b1 = (None, None, b1\<lparr>bd_acked := u\<rparr>)"
    using receive_ack [of server b1 u] b1(2,3) server(3) len by simp
  have up: "relay_is_up v (b1\<lparr>bd_acked := u\<rparr>) \<longleftrightarrow> v - u < relay_ack_timeout" for v
    using later by (simp add: relay_is_up_def)
  have quiet: "refresh_relay (m\<lparr>mo_now := v\<rparr>) (plane_client L tm) (d1\<lparr>dm_bind := b1\<lparr>bd_acked := u\<rparr>\<rparr>, s1) =
      ([(encode_frame RelayRegister ?k, server)], d1\<lparr>dm_bind := b1\<lparr>bd_acked := u\<rparr>\<rparr>, s1)" if "relay_is_up v (b1\<lparr>bd_acked := u\<rparr>)" for v
    using that reg by (simp add: refresh_relay_def register_now_def register_relay_def split: if_splits)
  have "dm_bind d1 = b1" "pl_relay s1 = Some R1" "pl_db s1 = pl_db s" by (simp_all add: d1_def s1_def)
  with ref R2(1,3) live ack up quiet show ?thesis by (auto simp: Let_def)
qed


section \<open>Two machines to look at\<close>

definition demo_moment :: moment where
  "demo_moment =
     \<lparr>mo_lib = demo_lib, mo_now = 0, mo_resolve = (\<lambda>b p. Some (V4 0x09090909, nat p)), mo_nonce = nonce1,
      mo_arrive = [(encode_frame BindingResponse (nonce1 @ append_addr_port [] (V4 0x05060708, 4444)), demo_server)],
      mo_dump = None, mo_order = []\<rparr>"

definition demo_daemon :: "string \<Rightarrow> daemon" where
  "demo_daemon i = new_daemon (demo_state\<lparr>ns_peer := i\<rparr>) (demo_bind key1)"

definition demo_plane6 :: plane where
  "demo_plane6 = demo_plane\<lparr>pl_db := db6\<rparr>"

lemma demo_rows: "tenant_rows ''t1'' db6 = [demo_laptop]"
  by (simp add: tenant_rows_def db6_def demo_laptop_def peer_of_def demo_tenant_def)

lemma demo_keys: "\<forall>p \<in> set (tenant_rows ''t1'' (pl_db demo_plane6)). key_text (sp_key p)"
  by (auto simp: demo_plane6_def demo_rows demo_laptop_def peer_of_def demo_key8_def key_text_def intro!: exI [of _ "replicate 32 8"])

lemma demo_at: "times_read unary_read (pk_env demo_link)" "plain_segment (ns_tenant (dm_state (demo_daemon i)))"
  "ge_uuid (pk_env demo_link) (ns_tenant (dm_state (demo_daemon i))) = Some ''t1''" "has_tenant (pl_db demo_plane6) ''t1''"
  by (simp_all add: times_read_def demo_link_def unary_times demo_daemon_def new_daemon_def demo_state_def plain_segment_def clean_segment_def
      plane_env_def has_tenant_def demo_plane6_def db6_def db4_def db1_def demo_tenant_def)

lemma demo_mesh: "mesh_run model_set (\<lambda>t. t) (dm_peers (demo_daemon i)) (\<lambda>k. None) []"
  "set (mo_order demo_moment) = dom (dm_peers (demo_daemon i))"
  "\<forall>l \<in> set []. proper_list l"
  by (simp_all add: demo_daemon_def new_daemon_def demo_moment_def mesh_start)

lemma demo_accepts:
  assumes "times_read tm (pk_env L)" "plain_segment (ns_tenant (dm_state d))" "ge_uuid (pk_env L) (ns_tenant (dm_state d)) = Some t"
    "has_tenant (pl_db s) t"
  shows "refresh_accepted model_set m (plane_client L tm) (dev, d, s)"
proof -
  obtain row where "find_tenant (pl_db s) t = Some row" "st_id row = t"
    using assms(4) find_tenant_None [of "pl_db s" t] find_tenant_Some by (cases "find_tenant (pl_db s) t") auto
  then have "\<exists>ps s'. node_list_peers (plane_client L tm) (ns_tenant (dm_state d)) s = (Inr ps, s')"
    using list_peers_call [OF assms(1,2)] assms(3) by (simp add: by_uuid_def store_get_tenant_def)
  then obtain ps s' where "node_list_peers (plane_client L tm) (ns_tenant (dm_state d)) s = (Inr ps, s')" by blast
  moreover obtain n tab dev' where "sync_peers (sync_env_of m d) model_set (mo_order m) ps (dm_peers d, dev) = (Inr n, tab, dev')"
    using model_accepts by blast
  ultimately show ?thesis by (simp add: refresh_accepted_def)
qed

theorem wireguard_is_tenant_witness:
  "\<exists>dev' r. refresh_peers model_set demo_moment (plane_client demo_link unary_read) (\<lambda>k. None, demo_daemon ''p9'', demo_plane6) = (dev', r) \<and>
     encrypted_to demo_lib dev' (V4 0x0A000002) (hex_encode (replicate 32 8))"
proof -
  obtain h where run: "control_run plane_env (pl_db demo_plane6) [] [] h" using demo_laptop_run by (auto simp: demo_plane6_def)
  obtain dev' d' s' where r: "refresh_peers model_set demo_moment (plane_client demo_link unary_read) (\<lambda>k. None, demo_daemon ''p9'', demo_plane6) =
      (dev', d', s')" by (metis prod.collapse)
  have a: "addr_is4 (V4 0x0A000002)" by simp
  have "sp_tenant demo_laptop = ''t1'' \<and> sp_id demo_laptop \<noteq> ns_peer (dm_state (demo_daemon ''p9'')) \<and> sp_ip demo_laptop = V4 0x0A000002 \<and>
      hex_key (sp_key demo_laptop) = Some (hex_encode (replicate 32 8))"
    by (simp add: demo_laptop_def peer_of_def demo_tenant_def demo_daemon_def new_daemon_def demo_key8_def hex_key_encode)
  moreover have "demo_laptop \<in> set (db_peers (pl_db demo_plane6))" by (simp add: demo_plane6_def db6_def)
  ultimately show ?thesis
    using wireguard_is_tenant [OF run demo_keys demo_at demo_mesh demo_accepts [OF demo_at] model_obeys r a, of demo_lib "hex_encode (replicate 32 8)"] r
    by blast
qed

lemma trim_shown: "addr_is4 a \<Longrightarrow> go_trim (show_addr_port lib (a, p)) = show_addr_port lib (a, p)"
proof -
  assume "addr_is4 a"
  then obtain x where x: "a = V4 x" by (cases a) auto
  have "\<forall>c \<in> set (show_nat k). \<not> go_space c" for k
    using show_nat_digits [of k] by (auto simp: list_all_iff is_digit_def go_space_def js_space_def Let_def)
  then show ?thesis
    unfolding x by (intro go_trim_id) (auto simp: show_addr4_def go_space_def js_space_def)
qed

lemma demo_report: "report_ready demo_moment (demo_link\<lparr>pk_src := V4 0x05060708\<rparr>) unary_read (demo_daemon ''p0'') demo_plane6 ''p0'' demo_server False 4444"
proof -
  have n: "length nonce1 = nonce_len" by (simp add: nonce1_def nonce_len_def)
  obtain P where "fst (prober_receive 0 (encode_frame BindingRequest (nonce1 @ replicate addr_port_len 0)) (V4 0x05060708, 4444) P) =
      Some (encode_frame BindingResponse (nonce1 @ append_addr_port [] (V4 0x05060708, 4444)), (V4 0x05060708, 4444))"
    using prober_answers [OF n, of "(V4 0x05060708, 4444)" 0 new_prober] by auto
  then have "\<exists>before answer after P. mo_arrive demo_moment = before @ [(answer, demo_server)] @ after \<and>
      fst (prober_receive (mo_now demo_moment) (encode_frame BindingRequest (mo_nonce demo_moment @ replicate addr_port_len 0)) (V4 0x05060708, 4444) P) =
        Some (answer, (V4 0x05060708, 4444)) \<and> (\<forall>x \<in> set (before @ after). not_answer (mo_nonce demo_moment) demo_server x)"
    by (intro exI [of _ "[] :: (octets \<times> addr_port) list"] exI [of _ "[] :: (octets \<times> addr_port) list"]
        exI [of _ "encode_frame BindingResponse (nonce1 @ append_addr_port [] (V4 0x05060708, 4444))"] exI [of _ P]) (simp add: demo_moment_def)
  moreover have "go_parse_addr_port demo_lib (go_trim (show_addr_port demo_lib (a, p))) = Some (a, p)" if "addr_is4 a" "p < 65536" for a p
    using that parse_show_addr_port [of p demo_lib] trim_shown [OF that(1), of demo_lib p] by (cases a) (simp_all del: show_addr_port.simps)
  moreover have "resolved demo_moment (plane_client (demo_link\<lparr>pk_src := V4 0x05060708\<rparr>) unary_read) (int 8091) = Some demo_server"
    by (simp add: resolved_def demo_moment_def demo_server_def)
  moreover have "bind_port (demo_bind key1) = 51820" "bd_port (demo_bind key1) \<noteq> None" by (simp_all add: bind_port_def demo_bind_def)
  ultimately show ?thesis
    using n unfolding report_ready_def
    by (intro conjI)
      (auto simp: demo_link_def times_read_def unary_times plain_segment_def clean_segment_def demo_daemon_def new_daemon_def demo_state_def
        plane_env_def node_draw_def demo_draw_def demo_moment_def demo_server_def valid_ap_def no_addr_port_def simp del: show_addr_port.simps)
qed


theorem endpoint_reaches_peers_witness:
  "\<exists>k w sends dA s1 dev d' s2.
     report_endpoint demo_moment (plane_client (demo_link\<lparr>pk_src := V4 0x05060708\<rparr>) unary_read) (demo_daemon ''p0'', demo_plane6) = (sends, dA, s1) \<and>
     refresh_peers model_set demo_moment (plane_client demo_link unary_read) (\<lambda>k. None, demo_daemon ''p9'', s1) = (dev, d', s2) \<and>
     hex_key demo_key8 = Some k \<and> dm_peers d' k = Some w \<and> wp_endpoint w = (V4 0x05060708, 4444) \<and>
     map_option we_endpoint (dev k) = Some (show_addr_port demo_lib (V4 0x05060708, 4444))"
proof -
  obtain h where run: "control_run plane_env (pl_db demo_plane6) [] [] h" using demo_laptop_run by (auto simp: demo_plane6_def)
  obtain sends dA s1 where r1: "report_endpoint demo_moment (plane_client (demo_link\<lparr>pk_src := V4 0x05060708\<rparr>) unary_read)
      (demo_daemon ''p0'', demo_plane6) = (sends, dA, s1)" by (metis prod.collapse)
  obtain dev d' s2 where r2: "refresh_peers model_set demo_moment (plane_client demo_link unary_read) (\<lambda>k. None, demo_daemon ''p9'', s1) =
      (dev, d', s2)" by (metis prod.collapse)
  have row: "find_peer (pl_db demo_plane6) ''p0'' = Some demo_laptop" "sp_tenant demo_laptop = ''t1''" "sp_key demo_laptop = demo_key8"
    by (simp_all add: demo_plane6_def db6_def find_peer_def demo_laptop_def peer_of_def demo_tenant_def demo_key8_def)
  have other: "ns_peer (dm_state (demo_daemon ''p9'')) \<noteq> ''p0''" "dm_peers (demo_daemon ''p9'') = (\<lambda>k. None)"
    by (simp_all add: demo_daemon_def new_daemon_def)
  have lib: "mo_lib demo_moment = demo_lib" by (simp add: demo_moment_def)
  have "pl_db s1 = update_peer ''p0'' (reported_row (demo_link\<lparr>pk_src := V4 0x05060708\<rparr>) demo_plane6 (demo_daemon ''p0'') False 4444) (pl_db demo_plane6)"
    using report_stores [OF demo_report row(1)] r1 by auto
  then have ht: "has_tenant (pl_db s1) ''t1''" using demo_at(4) by (simp add: has_tenant_def update_peer_def)
  show ?thesis
    using endpoint_reaches_peers [OF run demo_keys demo_report row(1,2) r1 demo_at(1-4) other(1) refl demo_mesh
        demo_accepts [OF demo_at(1-3) ht] model_obeys r2 refl] r1 r2
    by (simp add: row(3) other(2) lib) blast
qed

theorem relay_recovers_witness:
  "\<exists>frame d' s' R1 ack R2.
     refresh_relay demo_moment (plane_client demo_link unary_read) (demo_daemon ''p0'', demo_plane6) = ([(frame, demo_server)], d', s') \<and>
     pl_relay s' = Some R1 \<and> relay_handle 0 frame (V4 0x05060708, 51820) R1 = (Some (ack, (V4 0x05060708, 51820)), R2) \<and>
     relay_is_up 44000000000 (snd (snd (mesh_receive 0 ack demo_server (dm_bind d'))))"
proof -
  have t: "length (pk_token demo_link (pl_step demo_plane6)) = relay_token_len" by (simp add: demo_link_def relay_token_len_def)
  have u: "\<not> issued [] (pk_token demo_link (pl_step demo_plane6))" by (simp add: issued_def)
  have p: "pl_relay demo_plane6 = Some new_relay" "plain_segment (ns_peer (dm_state (demo_daemon ''p0'')))"
      "ge_uuid (pk_env demo_link) (ns_peer (dm_state (demo_daemon ''p0''))) = Some ''p0''"
      "find_peer (pl_db demo_plane6) ''p0'' = Some demo_laptop" "addr_is4 (sp_ip demo_laptop)"
      "ge_probe_port (pk_env demo_link) = Some 8091" "(8091 :: nat) < 65536"
    by (simp_all add: demo_plane6_def demo_plane_def demo_daemon_def new_daemon_def plain_segment_def clean_segment_def demo_link_def plane_env_def
        db6_def find_peer_def demo_laptop_def peer_of_def demo_tenant_def)
  have q: "\<not> relay_is_up (mo_now demo_moment) (dm_bind (demo_daemon ''p0''))"
      "relay_ack_timeout < mo_now demo_moment - dm_issued (demo_daemon ''p0'')" "bd_port (dm_bind (demo_daemon ''p0'')) \<noteq> None"
    by (simp_all add: demo_moment_def demo_daemon_def new_daemon_def demo_bind_def use_relay_def relay_is_up_def relay_ack_timeout_def second_ns_def zero_time_def)
  have v: "resolved demo_moment (plane_client demo_link unary_read) (int 8091) = Some demo_server" "valid_ap demo_server"
      "(addr_unmap (fst demo_server), snd demo_server) = demo_server" "fst (V4 0x05060708, 51820 :: nat) \<noteq> NoAddr" "zero_time < 0"
    by (simp_all add: resolved_def demo_moment_def demo_server_def valid_ap_def zero_time_def)
  show ?thesis
    using relay_recovers [OF relay_start u t p q v, of 0]
    by (auto simp: Let_def relay_ack_timeout_def second_ns_def dest: spec [of _ 44000000000])
qed

end
