(* ===== verification/Spec2Isabelle.thy ===== *)
theory Spec2Isabelle
  imports OidcRuns LoginFlow StaticFiles Server Removals MeshDaemon
begin

text \<open>
  Mesh2Mesh: the web console, its server and what they rely on.

  The program. Mesh2Mesh builds private WireGuard networks (tenants) between machines. A Go
  control plane keeps tenants, members, invites and peers; meshd runs on each machine; the
  web console lets people manage their tenants. The console is a React application
  (\<open>src/web/src/frontend\<close>) behind a small Node server (\<open>src/web/src/backend\<close>). The server logs
  people in with OpenID Connect, keeps their sessions, serves the built files, and forwards
  an allowlist of API calls to the control plane with a shared token and the user's
  identity. The console calls the server only; it also prints the commands a person pastes
  into a shell, where meshd reads them.

  Theories and the code they model, in the order they build on each other.

  \<^item> \<open>Prelude\<close>, \<open>JsRegex\<close>, \<open>JsUri\<close>: JavaScript strings, numbers that may be NaN, regular
    expressions, percent-encoding. Encoders and decoders share the locale \<open>codec\<close>. \<open>Utf8\<close>: Go's
    \<open>strings.TrimSpace\<close> on bytes.
  \<^item> \<open>Http\<close> (\<open>backend/http.mjs\<close>): requests, responses, \<open>send\<close>, \<open>sendJSON\<close>, \<open>redirect\<close>,
    \<open>readBody\<close>. \<open>Cookies\<close>, \<open>Redirects\<close>, \<open>Oidc\<close> (\<open>backend/oidc.mjs\<close>): reading and setting
    cookies, \<open>safeReturnTo\<close>, and all of \<open>createAuth\<close> over the state \<open>auth\<close> (sessions, pending
    logins, cached provider). A callback awaits the provider, so it is two steps,
    \<open>callback_begin\<close> and \<open>callback_finish\<close>, between which other requests may run.
  \<^item> \<open>OidcFacts\<close>, \<open>LoginFlow\<close>, \<open>OidcRuns\<close>: what each step does; one login from start to
    session; and all interleavings, as the inductive \<open>oidc_run\<close> with its history. The session
    and login maps are instances of the locale \<open>expiring_store\<close>; \<open>Cookies\<close> states what a browser
    gives back as the locale \<open>cookie_jar\<close>.
  \<^item> \<open>Config\<close>, \<open>Session\<close>, \<open>Proxy\<close>, \<open>StaticFiles\<close>, \<open>Server\<close> (\<open>config.mjs\<close>, \<open>session.mjs\<close> and
    \<open>auth-routes.mjs\<close>, \<open>proxy.mjs\<close>, \<open>static.mjs\<close>, \<open>index.mjs\<close>): the configuration, the rest of
    the server and its dispatch \<open>serve\<close> over a request, the state and a \<open>world\<close>.
  \<^item> \<open>ApiClient\<close> (\<open>frontend/api.ts\<close>), \<open>View\<close> (element trees, effects, query and mutation results,
    \<open>logo.tsx\<close>, \<open>page-header.tsx\<close>, \<open>not-found.tsx\<close>), \<open>CurrentTenant\<close> (\<open>lib/current-tenant.ts\<close>,
    \<open>lib/theme.ts\<close>; both are instances of the locale \<open>persisted\<close>), \<open>Routing\<close> (\<open>router.tsx\<close>,
    \<open>main.tsx\<close>, \<open>routes/login.tsx\<close>), \<open>PeerStatus\<close> (\<open>lib/peer.ts\<close>, \<open>lib/time.ts\<close>), \<open>Shell\<close>
    (\<open>lib/shell.ts\<close>), \<open>Copying\<close> (\<open>components/copy.tsx\<close>), \<open>DeviceDialogs\<close>, \<open>Machines\<close>, \<open>Members\<close>,
    \<open>Tenants\<close>, \<open>Layout\<close> (the pages of \<open>routes/admin\<close> and \<open>routes/invite.tsx\<close>), \<open>Landing\<close>
    (\<open>routes/landing.tsx\<close>). \<open>Components\<close> (\<open>components/ui\<close>): the component library, one function
    per component, and \<open>draw\<close>, which puts its components in place; \<open>DrawnPages\<close>: every page
    drawn so. \<open>Removals\<close>: the removal of a member from the drawn page to the answer.
  \<^item> \<open>Membership\<close> (\<open>internal/api/members.go\<close>) and \<open>MeshdCli\<close> (\<open>cmd/meshd/commands.go\<close>): the
    decisions of the control plane and of meshd that the pages must agree with.
  \<^item> \<open>NetAddr\<close> (\<open>internal/store/addr.go\<close>, \<open>parseCIDR\<close> of \<open>internal/api/http.go\<close>): addresses and
    prefixes on words, what ranges a tenant may have, the next free address of one.
  \<^item> \<open>Database\<close>, \<open>MemberStore\<close>, \<open>PeerStore\<close> (\<open>internal/store\<close>): the five tables as lists of
    records, every query over them, and the constraints of the migrations as checks.
    \<open>MemberStore\<close> also has the abstract specification \<open>access\<close> (who has which role where).
  \<^item> \<open>ControlApi\<close> (\<open>internal/api\<close>): every handler as \<open>control_begin\<close> (its checks, giving an
    \<open>action\<close>) and \<open>control_finish\<close> (the store and the answer). \<open>ControlRuns\<close>, \<open>ControlPlane\<close>: all
    interleavings of requests as the inductive \<open>control_run\<close> with its history of events, in
    which a registration also reads before it writes.
  \<^item> \<open>ControlLink\<close> (\<open>internal/api/api.go\<close>): the routes, and the control plane as the proxy and
    the console see it.
  \<^item> \<open>Wire\<close> (\<open>internal/wire\<close>), \<open>Relay\<close> (\<open>internal/relay\<close>, \<open>issueRelayToken\<close>), \<open>Prober\<close>
    (\<open>internal/prober\<close>): datagrams as bytes; the relay's shared session objects as a store with
    four maps into it, and its runs; the read loop of the socket and the probes.
  \<^item> \<open>Base64\<close>, \<open>MeshSync\<close> (\<open>cmd/meshd/wireguard.go\<close>, \<open>syncPeers\<close> and what it calls): the peer
    table of meshd, and WireGuard as the table its configuration lines build. \<open>MeshBind\<close>
    (\<open>meshBind\<close> of \<open>wireguard.go\<close> and \<open>relay.go\<close>): the one socket under WireGuard, the relay and
    the prober, composed with the models of both.
  \<^item> \<open>MeshClient\<close> (\<open>internal/client/client.go\<close>): meshd's calls of the API over any carrier, and
    the control plane itself as the carrier. \<open>Enroll\<close> (\<open>cmd/meshd/state.go\<close>, \<open>commands.go\<close>, the
    start of \<open>run.go\<close>): the state file, \<open>setup\<close>, \<open>join\<close> and what \<open>run\<close> reads back. \<open>MeshDaemon\<close>
    (\<open>run.go\<close>, \<open>relay.go\<close> from \<open>refreshRelay\<close> on): the daemon's state and its rounds, composed
    with the client, the socket, the peer table, and through them with the control plane, the
    prober and the relay.

  How a page is modelled. Its \<open>useState\<close> variables are a record; each handler, and each
  callback it gives to a library, is a constructor of an event type and an equation of the
  page's step function, which returns the new state and the effects asked of the libraries;
  what it returns is an element tree, a function of the state, of the results of its queries
  and mutations, and of the browser. \<open>clicks\<close>, \<open>links\<close> and \<open>texts\<close> read from the tree what a user
  can click, follow and see; a closed dialog shows nothing and a disabled control does nothing.
  Handlers that take a value (typing, ticking, the cross of a dialog) are callbacks of the runs.
  The drawn pages keep these clicks, links and texts, but for the label Close.

  What the lemmas show. For the server: a request reaches the control plane only for a live
  session, an allowed route and the own origin; a session exists only for a login that the
  provider granted to that browser, once; the honest login and the logout work; cookies,
  redirects and static files stay within their bounds; an exception of a handler is answered
  (one of parsing the URL is not: it ends the process). For the
  console: its calls and the proxy's allowlist agree, but for the removal of some user ids;
  guards, expired sessions and invite
  links lead through the login and back to the same page; the members page offers exactly the
  removals that the control plane does not forbid, and the dialogs ask for what it accepts;
  search, ages, paths, themes and the current tenant are what they claim; a command means to a shell and to meshd what the user typed.
  For the control plane: the tables stay consistent under every interleaving; members come
  and go only by invite, claim, founding or removal of right, as the abstract specification
  says; a tenant is founded once; a registration with a good token and room succeeds; the
  caller is the session's user; the answers have the types the console declares; the relay forwards within a tenant
  only, and connects registered machines; only an endpoint that echoed counts as reachable.
  For meshd: after every accepted synchronisation WireGuard has exactly the listed peers, each with
  its own address, as long as no list names a key or an address twice; a peer that cannot be
  reached is sent to through the relay in bounded time, and the console shows the path that meshd takes; the socket
  gives each datagram to the one reader it is for; what is sent through the relay arrives
  unchanged; a mapping asked of the prober is learned. For both together: a machine that
  joined can run, and cannot join the same tenant again; what a machine reports of itself is
  where the others send; after a refresh WireGuard knows exactly the tenant's machines; and
  meshd finds back to a relay that lost its sessions.
  Properties that show a defect state precisely when it happens.

  Bounds and fuel. No definition uses fuel: recursions are structural or have a measure (the
  scan for a free address has the addresses left). The limits are the code's: 65536 bytes of
  body, ten minutes for a login, eleven minutes until a machine counts as offline, 30 days
  and 100 uses for an invite, 30 days and 1000 uses for an enrollment token, 2048 bytes of a
  datagram for the prober and the relay, whose frames are what the prober's loop has read.

  Arguments of the model, with what is assumed of them in each statement: the identity
  provider and token verification (jose), SHA-256, random tokens, \<open>fetch\<close>, the disk, the clock,
  \<open>Number()\<close>, reading and printing dates, JSON text, uuids and IPv6 addresses, the collation of
  names; that wireguard-go obeys its configuration protocol, line by line; the carrier of
  meshd's calls, its resolver, its state file's directory and its key generator. TanStack
  Query and Router appear through the results they give and the effects asked of them.

  Not modelled. Constant styling (class names, toast styles); failures of the database
  itself and logging; opening sockets and the database pool. Of meshd: creating the tunnel
  and its interface (\<open>network.go\<close>), the systemd service and the process id file
  (\<open>service.go\<close>), signals, terminal output and the steps of replacing a file, which call tools
  of the system and keep no state of their own. Strings are Latin-1; typographic characters
  in texts are written in ASCII.
\<close>

end
